(* ===== verification/Pool_Prelude.thy ===== *)
theory Pool_Prelude
  imports Main "HOL-Library.Word"
begin

text \<open>
  Shared types, lemma collections and small generic facts of the development.
  Machine integers are written at their width where the code depends on it
  (\<open>u8\<close>, \<open>u16\<close>, \<open>u32\<close>, \<open>u64\<close>), and as unbounded \<open>int\<close> or \<open>nat\<close> where the code's values
  are amounts, ids or counters that stay far below \<open>2 ^ 63\<close>.  Rust's \<open>String\<close> is a byte
  string, so \<open>string\<close> (a list of \<open>char\<close>s, that is of bytes) counts what \<open>len()\<close> counts.
  A Rust \<open>Result\<close> is a sum, \<open>Inl\<close> the error.  An \<open>Instant\<close> or a \<open>Duration\<close> is a number
  of nanoseconds; every operation that reads the clock takes the reading as an argument
  (one reading per call).
\<close>

type_synonym u8 = "8 word"
type_synonym u16 = "16 word"
type_synonym u32 = "32 word"
type_synonym u64 = "64 word"
type_synonym bytes = "u8 list"
type_synonym nanos = nat

named_theorems db_inv \<open>rules that carry a table invariant through a database operation\<close>
named_theorems f64_simps \<open>evaluation of binary64 operations on exact arguments\<close>

section \<open>Results\<close>

definition res_bind :: "('e + 'a) \<Rightarrow> ('a \<Rightarrow> 'e + 'b) \<Rightarrow> 'e + 'b" where
  "res_bind r k = (case r of Inl e \<Rightarrow> Inl e | Inr a \<Rightarrow> k a)"

lemma res_bind_simps [simp]:
  "res_bind (Inl e) k = Inl e"
  "res_bind (Inr a) k = k a"
  by (simp_all add: res_bind_def)

lemma res_bind_Inr_iff:
  "res_bind r k = Inr b \<longleftrightarrow> (\<exists>a. r = Inr a \<and> k a = Inr b)"
  by (cases r) auto

lemma res_bind_Inl_iff:
  "res_bind r k = Inl e \<longleftrightarrow> r = Inl e \<or> (\<exists>a. r = Inr a \<and> k a = Inl e)"
  by (cases r) auto

definition ok_or :: "'a option \<Rightarrow> 'e \<Rightarrow> 'e + 'a" where
  "ok_or x e = (case x of None \<Rightarrow> Inl e | Some a \<Rightarrow> Inr a)"

lemma ok_or_simps [simp]:
  "ok_or None e = Inl e"
  "ok_or (Some a) e = Inr a"
  by (simp_all add: ok_or_def)

lemma ok_or_Inr_iff: "ok_or x e = Inr a \<longleftrightarrow> x = Some a"
  by (cases x) auto

section \<open>Bounded histories\<close>

text \<open>
  The code keeps several bounded buffers by pushing at the back and removing from the
  front: \<open>diff_history\<close>, \<open>recent_targets\<close>, \<open>recent_share_fps\<close> and the lag samples.
\<close>

definition push_bounded :: "nat \<Rightarrow> 'a list \<Rightarrow> 'a \<Rightarrow> 'a list" where
  "push_bounded n xs x = (let ys = xs @ [x] in if length ys > n then tl ys else ys)"

lemma length_push_bounded:
  "length xs \<le> n \<Longrightarrow> 0 < n \<Longrightarrow> length (push_bounded n xs x) \<le> n"
  by (simp add: push_bounded_def Let_def)

lemma last_push_bounded: "0 < n \<Longrightarrow> last (push_bounded n xs x) = x"
  by (cases xs) (auto simp: push_bounded_def Let_def)

lemma set_push_bounded: "set (push_bounded n xs x) \<subseteq> insert x (set xs)"
  by (cases xs) (auto simp: push_bounded_def Let_def)

lemma push_bounded_eq_drop:
  "length xs \<le> n \<Longrightarrow> push_bounded n xs x = drop (length xs + 1 - n) (xs @ [x])"
  by (cases xs) (auto simp: push_bounded_def Let_def Suc_diff_le drop_Suc)

lemma fold_push_bounded:
  assumes "0 < n" and "length xs \<le> n"
  shows "foldl (push_bounded n) xs ys = drop (length xs + length ys - n) (xs @ ys)"
  using assms(2)
proof (induction ys arbitrary: xs)
  case Nil
  then show ?case by simp
next
  case (Cons y ys)
  have len: "length (push_bounded n xs y) \<le> n"
    using Cons.prems assms(1) by (rule length_push_bounded)
  have eq: "push_bounded n xs y = drop (length xs + 1 - n) (xs @ [y])"
    using Cons.prems by (rule push_bounded_eq_drop)
  show ?case
    using Cons.IH [OF len] Cons.prems
    by (cases "length xs = n") (simp_all add: eq drop_Cons' drop_append)
qed

section \<open>Lists\<close>

lemma sum_list_map_filter_le:
  fixes f :: "'a \<Rightarrow> int"
  assumes "\<And>x. x \<in> set xs \<Longrightarrow> 0 \<le> f x"
  shows "sum_list (map f (filter P xs)) \<le> sum_list (map f xs)"
  using assms by (induction xs) (auto simp: add_increasing)

lemma sum_list_nonneg_int:
  fixes xs :: "int list"
  assumes "\<And>x. x \<in> set xs \<Longrightarrow> 0 \<le> x"
  shows "0 \<le> sum_list xs"
  using assms by (induction xs) auto

lemma sum_list_filter_split:
  fixes f :: "'a \<Rightarrow> int"
  shows "sum_list (map f xs)
       = sum_list (map f (filter P xs)) + sum_list (map f (filter (\<lambda>x. \<not> P x) xs))"
  by (induction xs) auto

lemma find_Some_set: "find P xs = Some x \<Longrightarrow> x \<in> set xs \<and> P x"
  by (induction xs) (auto split: if_splits)

lemma find_None_all: "find P xs = None \<longleftrightarrow> (\<forall>x \<in> set xs. \<not> P x)"
  by (induction xs) auto

end
