(* ===== verification/F64.thy ===== *)
theory F64
  imports Pool_Prelude "HOL-Library.Log_Nat" Complex_Main
begin

text \<open>
  The IEEE 754 binary64 arithmetic that Rust's \<open>f64\<close> uses: values are \<open>NaN\<close>, the two
  infinities and rational numbers; every operation computes the exact rational result and
  rounds it to the nearest representable value, ties to even, with 53 bits of precision,
  gradual underflow at \<open>2 ^ (-1074)\<close> and overflow to an infinity at \<open>2 ^ 1024\<close>.
  The two signed zeros are one value: no code modelled here can tell them apart.
  All definitions compute, so witnesses can evaluate them.
\<close>

section \<open>Powers of two\<close>

definition pow2 :: "int \<Rightarrow> rat" where
  "pow2 e = (if 0 \<le> e then 2 ^ nat e else 1 / 2 ^ nat (- e))"

lemma pow2_powi: "pow2 e = 2 powi e"
  by (auto simp: pow2_def power_int_def field_simps)

lemma pow2_pos [simp]: "0 < pow2 e"
  by (simp add: pow2_def)

lemma pow2_nonneg [simp]: "0 \<le> pow2 e"
  by (simp add: pow2_def)

lemma pow2_neq_0 [simp]: "pow2 e \<noteq> 0"
  by (simp add: pow2_def)

lemma pow2_add: "pow2 (a + b) = pow2 a * pow2 b"
  by (simp add: pow2_powi power_int_add)

lemma pow2_0 [simp]: "pow2 0 = 1"
  by (simp add: pow2_def)

lemma pow2_nat: "pow2 (int n) = 2 ^ n"
  by (simp add: pow2_def)

lemma pow2_nat': "0 \<le> e \<Longrightarrow> pow2 e = of_int (2 ^ nat e)"
  by (simp add: pow2_def)

lemma pow2_mono: "a \<le> b \<Longrightarrow> pow2 a \<le> pow2 b"
  by (simp add: pow2_powi power_int_increasing)

lemma pow2_less: "a < b \<Longrightarrow> pow2 a < pow2 b"
  by (simp add: pow2_powi power_int_strict_increasing)

lemma pow2_le_iff [simp]: "pow2 a \<le> pow2 b \<longleftrightarrow> a \<le> b"
  using pow2_mono pow2_less by (metis leD linorder_le_cases linorder_not_less)

lemma pow2_less_iff [simp]: "pow2 a < pow2 b \<longleftrightarrow> a < b"
  by (simp add: linorder_not_le [symmetric])

lemma pow2_diff: "pow2 (a - b) = pow2 a / pow2 b"
  using pow2_add [of "a - b" b] by (simp add: field_simps)

lemma pow2_minus: "pow2 (- b) = 1 / pow2 b"
  using pow2_diff [of 0 b] by simp

section \<open>Rounding to the nearest integer, ties to even\<close>

definition rne :: "rat \<Rightarrow> int" where
  "rne x = (let f = \<lfloor>x\<rfloor>; r = x - of_int f in
     if r < 1/2 then f else if 1/2 < r then f + 1 else if even f then f else f + 1)"

lemma rne_floor_ceil: "\<lfloor>x\<rfloor> \<le> rne x \<and> rne x \<le> \<lfloor>x\<rfloor> + 1"
  by (auto simp: rne_def Let_def)

lemma rne_error: "\<bar>of_int (rne x) - x\<bar> \<le> 1/2"
proof -
  have "of_int \<lfloor>x\<rfloor> \<le> x" "x < of_int \<lfloor>x\<rfloor> + 1" by linarith+
  then show ?thesis by (auto simp: rne_def Let_def abs_le_iff)
qed

lemma rne_of_int [simp]: "rne (of_int n) = n"
  by (simp add: rne_def)

lemma rne_mono:
  assumes "x \<le> y" shows "rne x \<le> rne y"
proof (cases "\<lfloor>x\<rfloor> = \<lfloor>y\<rfloor>")
  case True
  with assms show ?thesis by (auto simp: rne_def Let_def)
next
  case False
  with assms have "\<lfloor>x\<rfloor> + 1 \<le> \<lfloor>y\<rfloor>" by (meson floor_mono le_neq_trans zless_imp_add1_zle)
  then show ?thesis using rne_floor_ceil [of x] rne_floor_ceil [of y] by linarith
qed

lemma rne_minus: "rne (- x) = - rne x"
proof (cases "x = of_int \<lfloor>x\<rfloor>")
  case True
  then show ?thesis by (metis of_int_minus rne_of_int)
next
  case False
  have lo: "of_int \<lfloor>x\<rfloor> < x" using False by (metis of_int_floor_le order_le_imp_less_or_eq)
  have hi: "x < of_int \<lfloor>x\<rfloor> + 1" by linarith
  have fl: "\<lfloor>- x\<rfloor> = - \<lfloor>x\<rfloor> - 1"
    using lo hi by (intro floor_unique) auto
  show ?thesis
    unfolding rne_def Let_def fl by (auto simp: field_simps)
qed

lemma rne_le_int: "x \<le> of_int n \<Longrightarrow> rne x \<le> n"
  using rne_mono [of x "of_int n"] by simp

lemma rne_ge_int: "of_int n \<le> x \<Longrightarrow> n \<le> rne x"
  using rne_mono [of "of_int n" x] by simp

section \<open>Binary exponent\<close>

text \<open>\<open>ilog2 q\<close> is the exponent of the leading bit of \<open>q > 0\<close>.\<close>

definition ilog2 :: "rat \<Rightarrow> int" where
  "ilog2 q = (let (a, b) = quotient_of q; k = bitlen a - bitlen b in
     if pow2 k \<le> q then k else k - 1)"

lemma ilog2_bounds:
  assumes "0 < q"
  shows "pow2 (ilog2 q) \<le> q \<and> q < pow2 (ilog2 q + 1)"
proof -
  obtain a b where ab: "quotient_of q = (a, b)" by (cases "quotient_of q")
  have b: "0 < b" using quotient_of_denom_pos [OF ab] .
  have q: "q = of_int a / of_int b" using quotient_of_div [OF ab] .
  have a: "0 < a" using assms b by (simp add: q zero_less_divide_iff)
  have bl: "pow2 (bitlen n - 1) \<le> of_int n \<and> of_int n < pow2 (bitlen n)" if "0 < n" for n
  proof -
    have "0 < bitlen n" using that bitlen_nonneg [of n] bitlen_eq_zero_iff [of n] by linarith
    then have "pow2 (bitlen n - 1) = of_int (2 ^ nat (bitlen n - 1))"
      "pow2 (bitlen n) = of_int (2 ^ nat (bitlen n))"
      by (simp_all only: pow2_nat')
    then show ?thesis using bitlen_bounds [OF that]
      by (simp only: of_int_le_iff of_int_less_iff)
  qed
  let ?k = "bitlen a - bitlen b"
  have up: "q < pow2 (?k + 1)"
  proof -
    have "q * of_int b < pow2 (bitlen a)" using bl [OF a] b by (simp add: q)
    also have "\<dots> = pow2 (?k + 1) * pow2 (bitlen b - 1)"
      by (simp add: pow2_add [symmetric])
    also have "\<dots> \<le> pow2 (?k + 1) * of_int b"
      using bl [OF b] by (intro mult_left_mono) auto
    finally show ?thesis using b by simp
  qed
  have lo: "pow2 (?k - 1) \<le> q"
  proof -
    have "pow2 (?k - 1) * of_int b \<le> pow2 (?k - 1) * pow2 (bitlen b)"
      using bl [OF b] by (intro mult_left_mono) auto
    also have "\<dots> = pow2 (bitlen a - 1)"
      by (simp add: pow2_add [symmetric])
    also have "\<dots> \<le> q * of_int b" using bl [OF a] b by (simp add: q)
    finally show ?thesis using b by simp
  qed
  show ?thesis
    using up lo by (auto simp: ilog2_def ab Let_def)
qed

lemma ilog2_unique:
  assumes "pow2 k \<le> q" "q < pow2 (k + 1)"
  shows "ilog2 q = k"
proof -
  have "0 < q" using assms(1) pow2_pos [of k] by linarith
  note b = ilog2_bounds [OF this]
  have "pow2 k < pow2 (ilog2 q + 1)" "pow2 (ilog2 q) < pow2 (k + 1)"
    using assms b by linarith+
  then show ?thesis by simp
qed

lemma ilog2_mono: "0 < x \<Longrightarrow> x \<le> y \<Longrightarrow> ilog2 x \<le> ilog2 y"
proof -
  assume "0 < x" "x \<le> y"
  then have "pow2 (ilog2 x) < pow2 (ilog2 y + 1)"
    using ilog2_bounds [of x] ilog2_bounds [of y] by linarith
  then show ?thesis by simp
qed

section \<open>Rounding to 53 bits\<close>

text \<open>\<open>uexp q\<close> is the exponent of the last place of a value of magnitude \<open>q\<close>.\<close>

definition uexp :: "rat \<Rightarrow> int" where
  "uexp q = max (ilog2 q - 52) (- 1074)"

definition rnd :: "rat \<Rightarrow> rat" where
  "rnd x = (if x = 0 then 0 else of_int (rne (x / pow2 (uexp \<bar>x\<bar>))) * pow2 (uexp \<bar>x\<bar>))"

lemma rnd_0 [simp]: "rnd 0 = 0"
  by (simp add: rnd_def)

lemma rnd_minus: "rnd (- x) = - rnd x"
  by (simp add: rnd_def rne_minus)

lemma rnd_error_ulp: "x \<noteq> 0 \<Longrightarrow> \<bar>rnd x - x\<bar> \<le> pow2 (uexp \<bar>x\<bar>) / 2"
proof -
  assume "x \<noteq> 0"
  let ?u = "pow2 (uexp \<bar>x\<bar>)"
  have "\<bar>rnd x - x\<bar> = \<bar>of_int (rne (x / ?u)) - x / ?u\<bar> * ?u"
    using \<open>x \<noteq> 0\<close> by (simp add: rnd_def abs_mult_pos [symmetric] field_simps)
  also have "\<dots> \<le> 1/2 * ?u"
    by (intro mult_right_mono rne_error) simp
  finally show ?thesis by simp
qed

text \<open>The relative error of one rounding in the normal range.\<close>

definition u64eps :: rat where "u64eps = 1 / 2 ^ 53"

lemma rnd_rel_error:
  assumes "pow2 (- 1022) \<le> \<bar>x\<bar>"
  shows "\<bar>rnd x - x\<bar> \<le> u64eps * \<bar>x\<bar>"
proof -
  have "0 < \<bar>x\<bar>" using assms pow2_pos [of "- 1022"] by linarith
  then have x: "x \<noteq> 0" by simp
  have "- 1022 \<le> ilog2 \<bar>x\<bar>"
    using ilog2_mono [OF _ assms] ilog2_unique [of "- 1022" "pow2 (- 1022)"] by simp
  then have "uexp \<bar>x\<bar> = ilog2 \<bar>x\<bar> - 52" by (simp add: uexp_def)
  then have "pow2 (uexp \<bar>x\<bar>) / 2 = u64eps * pow2 (ilog2 \<bar>x\<bar>)"
    by (simp only: pow2_diff) (simp add: u64eps_def pow2_nat')
  also have "\<dots> \<le> u64eps * \<bar>x\<bar>"
    using ilog2_bounds [OF \<open>0 < \<bar>x\<bar>\<close>] by (simp add: u64eps_def)
  finally show ?thesis using rnd_error_ulp [OF x] by linarith
qed

text \<open>Values that fit in 53 bits are exact.\<close>

lemma rnd_exact:
  assumes "\<bar>m\<bar> \<le> 2 ^ 53" "- 1074 \<le> e"
  shows "rnd (of_int m * pow2 e) = of_int m * pow2 e"
proof (cases "m = 0")
  case False
  let ?x = "of_int m * pow2 e :: rat"
  let ?u = "uexp \<bar>?x\<bar>"
  have x: "?x \<noteq> 0" "0 < \<bar>?x\<bar>" using False by auto
  have le: "\<bar>?x\<bar> \<le> pow2 (53 + e)"
  proof -
    have "\<bar>?x\<bar> = of_int \<bar>m\<bar> * pow2 e" by (simp add: abs_mult)
    also have "\<dots> \<le> pow2 53 * pow2 e"
      using assms(1) by (intro mult_right_mono) (simp_all add: pow2_nat' del: of_int_abs)
    finally show ?thesis by (simp add: pow2_add)
  qed
  show ?thesis
  proof (cases "\<bar>m\<bar> = 2 ^ 53")
    case True
    have "even \<bar>m\<bar>" unfolding True by simp
    then have ev: "even m" by simp
    have xe: "\<bar>?x\<bar> = pow2 (53 + e)" using True
      by (simp add: abs_mult pow2_add pow2_nat' flip: of_int_abs)
    have "ilog2 \<bar>?x\<bar> = 53 + e" unfolding xe by (intro ilog2_unique) auto
    then have u: "?u = max (e + 1) (- 1074)" by (simp add: uexp_def)
    have "?u = e + 1" using u assms(2) by simp
    moreover have "?x / pow2 (e + 1) = of_int (m div 2)"
    proof -
      have "even m" using ev .
      then obtain k where "m = 2 * k" by blast
      then show ?thesis by (simp add: pow2_add pow2_nat')
    qed
    moreover have "of_int (m div 2) * pow2 (e + 1) = ?x"
    proof -
      have "even m" using ev .
      then obtain k where "m = 2 * k" by blast
      then show ?thesis by (simp add: pow2_add pow2_nat')
    qed
    ultimately show ?thesis using x by (simp add: rnd_def)
  next
    case False
    then have "\<bar>m\<bar> < 2 ^ 53" using assms(1) by simp
    then have lt: "\<bar>?x\<bar> < pow2 (53 + e)"
    proof -
      assume a: "\<bar>m\<bar> < 2 ^ 53"
      have "\<bar>?x\<bar> = of_int \<bar>m\<bar> * pow2 e" by (simp add: abs_mult)
      also have "\<dots> < pow2 53 * pow2 e"
        using a by (intro mult_strict_right_mono) (simp_all add: pow2_nat' del: of_int_abs)
      finally show ?thesis by (simp add: pow2_add)
    qed
    have "pow2 (ilog2 \<bar>?x\<bar>) < pow2 (53 + e)"
      using ilog2_bounds [OF x(2)] lt by linarith
    then have "?u \<le> e" using assms(2) by (simp add: uexp_def)
    then have d: "pow2 e = of_int (2 ^ nat (e - ?u)) * pow2 ?u"
      using pow2_add [of "e - ?u" ?u] by (simp only: pow2_nat' diff_add_cancel diff_ge_0_iff_ge)
    have "?x / pow2 ?u = of_int (m * 2 ^ nat (e - ?u))"
      by (subst d) (simp only: of_int_mult mult.assoc nonzero_mult_div_cancel_right
          times_divide_eq_right [symmetric] pow2_neq_0 div_self mult_1_right, simp)
    then have "rne (?x / pow2 ?u) = m * 2 ^ nat (e - ?u)" by (simp only: rne_of_int)
    then have "rnd ?x = of_int (m * 2 ^ nat (e - ?u)) * pow2 ?u"
      unfolding rnd_def using x(1) by (simp only: if_False)
    also have "\<dots> = ?x" by (subst (2) d) (simp add: mult.assoc)
    finally show ?thesis .
  qed
qed simp

lemma rnd_of_int: "\<bar>m\<bar> \<le> 2 ^ 53 \<Longrightarrow> rnd (of_int m) = of_int m"
  using rnd_exact [of m 0] by simp

lemma rnd_pow2: "- 1074 \<le> e \<Longrightarrow> rnd (pow2 e) = pow2 e"
  using rnd_exact [of 1 e] by simp

text \<open>Rounding is monotone.\<close>

lemma rnd_binade:
  assumes "0 < x"
  shows "rnd x \<le> pow2 (max (ilog2 x + 1) (- 1074))"
    and "- 1022 \<le> ilog2 x \<Longrightarrow> pow2 (ilog2 x) \<le> rnd x"
proof -
  let ?u = "uexp \<bar>x\<bar>" and ?k = "max (ilog2 x + 1) (- 1074)"
  have x: "x \<noteq> 0" "\<bar>x\<bar> = x" using assms by auto
  have r: "rnd x = of_int (rne (x / pow2 ?u)) * pow2 ?u" using x by (simp add: rnd_def)
  have "?u \<le> ?k" by (simp add: uexp_def x)
  then have e: "pow2 ?k = of_int (2 ^ nat (?k - ?u)) * pow2 ?u"
    using pow2_add [of "?k - ?u" ?u] by (simp only: pow2_nat' diff_add_cancel diff_ge_0_iff_ge)
  have "x \<le> pow2 ?k"
    using ilog2_bounds [OF assms] pow2_mono [of "ilog2 x + 1" ?k] by linarith
  then have "x / pow2 ?u \<le> of_int (2 ^ nat (?k - ?u))"
    by (simp only: e pos_divide_le_eq pow2_pos)
  then have "rne (x / pow2 ?u) \<le> 2 ^ nat (?k - ?u)" by (rule rne_le_int)
  then show "rnd x \<le> pow2 ?k"
    unfolding r e by (intro mult_right_mono) (simp_all only: of_int_le_iff pow2_nonneg)
  assume n: "- 1022 \<le> ilog2 x"
  let ?l = "ilog2 x"
  have "?u \<le> ?l" using n by (simp add: uexp_def x)
  then have l: "pow2 ?l = of_int (2 ^ nat (?l - ?u)) * pow2 ?u"
    using pow2_add [of "?l - ?u" ?u] by (simp only: pow2_nat' diff_add_cancel diff_ge_0_iff_ge)
  have "of_int (2 ^ nat (?l - ?u)) \<le> x / pow2 ?u"
    using ilog2_bounds [OF assms] by (simp only: l pos_le_divide_eq pow2_pos)
  then have "2 ^ nat (?l - ?u) \<le> rne (x / pow2 ?u)" by (rule rne_ge_int)
  then show "pow2 ?l \<le> rnd x"
    unfolding r l by (intro mult_right_mono) (simp_all only: of_int_le_iff pow2_nonneg)
qed

lemma rnd_nonneg: "0 \<le> x \<Longrightarrow> 0 \<le> rnd x"
  by (auto simp: rnd_def intro!: mult_nonneg_nonneg rne_ge_int)

lemma rnd_mono_pos:
  assumes "0 < x" "x \<le> y"
  shows "rnd x \<le> rnd y"
proof (cases "uexp x = uexp y")
  case True
  then show ?thesis using assms
    by (auto simp: rnd_def intro!: mult_right_mono rne_mono divide_right_mono)
next
  case False
  have lm: "ilog2 x \<le> ilog2 y" using assms by (rule ilog2_mono)
  with False have lt: "ilog2 x < ilog2 y" and n: "- 1022 < ilog2 y"
    by (auto simp: uexp_def max_def split: if_splits)
  have "rnd x \<le> pow2 (max (ilog2 x + 1) (- 1074))" using assms(1) by (rule rnd_binade)
  also have "\<dots> \<le> pow2 (ilog2 y)" using lt n by simp
  also have "\<dots> \<le> rnd y" using assms n by (intro rnd_binade(2)) auto
  finally show ?thesis .
qed

lemma rnd_mono: "x \<le> y \<Longrightarrow> rnd x \<le> rnd y"
proof (cases "0 < x")
  case True
  moreover assume "x \<le> y"
  ultimately show ?thesis by (rule rnd_mono_pos)
next
  case x: False
  assume le: "x \<le> y"
  have nx: "rnd x \<le> 0" using rnd_nonneg [of "- x"] x by (simp add: rnd_minus)
  show ?thesis
  proof (cases "0 \<le> y")
    case True
    then show ?thesis using nx rnd_nonneg [OF True] by linarith
  next
    case False
    then show ?thesis using rnd_mono_pos [of "- y" "- x"] le by (simp add: rnd_minus)
  qed
qed

lemma rnd_le_int: "\<bar>n\<bar> \<le> 2 ^ 53 \<Longrightarrow> x \<le> of_int n \<Longrightarrow> rnd x \<le> of_int n"
  using rnd_mono [of x "of_int n"] by (simp add: rnd_of_int)

lemma rnd_ge_int: "\<bar>n\<bar> \<le> 2 ^ 53 \<Longrightarrow> of_int n \<le> x \<Longrightarrow> of_int n \<le> rnd x"
  using rnd_mono [of "of_int n" x] by (simp add: rnd_of_int)

section \<open>The type and its operations\<close>

datatype f64 = FNaN | FPosInf | FNegInf | Fin rat

definition round64 :: "rat \<Rightarrow> f64" where
  "round64 x = (let r = rnd x in
     if 2 ^ 1024 \<le> r then FPosInf else if r \<le> - (2 ^ 1024) then FNegInf else Fin r)"

text \<open>\<open>of_sign b\<close> is an infinity: positive when \<open>b\<close>.\<close>

definition finf :: "bool \<Rightarrow> f64" where
  "finf pos = (if pos then FPosInf else FNegInf)"

fun fneg :: "f64 \<Rightarrow> f64" where
  "fneg FNaN = FNaN"
| "fneg FPosInf = FNegInf"
| "fneg FNegInf = FPosInf"
| "fneg (Fin x) = Fin (- x)"

fun fadd :: "f64 \<Rightarrow> f64 \<Rightarrow> f64" where
  "fadd (Fin x) (Fin y) = round64 (x + y)"
| "fadd FNaN _ = FNaN"
| "fadd _ FNaN = FNaN"
| "fadd FPosInf FNegInf = FNaN"
| "fadd FNegInf FPosInf = FNaN"
| "fadd FPosInf _ = FPosInf"
| "fadd FNegInf _ = FNegInf"
| "fadd (Fin _) FPosInf = FPosInf"
| "fadd (Fin _) FNegInf = FNegInf"

definition fsub :: "f64 \<Rightarrow> f64 \<Rightarrow> f64" where
  "fsub a b = fadd a (fneg b)"

fun fsign :: "f64 \<Rightarrow> bool" where
  "fsign (Fin x) = (0 \<le> x)"
| "fsign FNegInf = False"
| "fsign _ = True"

fun fmul :: "f64 \<Rightarrow> f64 \<Rightarrow> f64" where
  "fmul (Fin x) (Fin y) = round64 (x * y)"
| "fmul FNaN _ = FNaN"
| "fmul _ FNaN = FNaN"
| "fmul (Fin x) b = (if x = 0 then FNaN else finf (fsign (Fin x) = fsign b))"
| "fmul a (Fin y) = (if y = 0 then FNaN else finf (fsign a = fsign (Fin y)))"
| "fmul a b = finf (fsign a = fsign b)"

fun fdiv :: "f64 \<Rightarrow> f64 \<Rightarrow> f64" where
  "fdiv (Fin x) (Fin y) =
     (if y = 0 then if x = 0 then FNaN else finf (0 < x) else round64 (x / y))"
| "fdiv FNaN _ = FNaN"
| "fdiv _ FNaN = FNaN"
| "fdiv (Fin _) _ = Fin 0"
| "fdiv a (Fin y) = finf (fsign a = fsign (Fin y))"
| "fdiv _ _ = FNaN"

fun flt :: "f64 \<Rightarrow> f64 \<Rightarrow> bool" where
  "flt (Fin x) (Fin y) = (x < y)"
| "flt FNaN _ = False"
| "flt _ FNaN = False"
| "flt FPosInf _ = False"
| "flt _ FPosInf = True"
| "flt _ FNegInf = False"
| "flt FNegInf _ = True"

definition feq :: "f64 \<Rightarrow> f64 \<Rightarrow> bool" where
  "feq a b = (a = b \<and> a \<noteq> FNaN)"

definition fle :: "f64 \<Rightarrow> f64 \<Rightarrow> bool" where
  "fle a b = (flt a b \<or> feq a b)"

text \<open>Rust's \<open>f64::max\<close> and \<open>f64::min\<close> ignore one \<open>NaN\<close> argument.\<close>

definition fmax :: "f64 \<Rightarrow> f64 \<Rightarrow> f64" where
  "fmax a b = (if a = FNaN then b else if b = FNaN then a else if flt a b then b else a)"

definition fmin :: "f64 \<Rightarrow> f64 \<Rightarrow> f64" where
  "fmin a b = (if a = FNaN then b else if b = FNaN then a else if flt b a then b else a)"

text \<open>
  \<open>f64::clamp\<close> panics unless \<open>min <= max\<close>; where it is used the bounds are ordered
  (constants, or shown so by a lemma of the component).
\<close>

definition fclamp :: "f64 \<Rightarrow> f64 \<Rightarrow> f64 \<Rightarrow> f64" where
  "fclamp x lo hi = (let y = if flt x lo then lo else x in if flt hi y then hi else y)"

fun ffloor :: "f64 \<Rightarrow> f64" where
  "ffloor (Fin x) = Fin (of_int \<lfloor>x\<rfloor>)"
| "ffloor a = a"

text \<open>\<open>f64::round\<close> rounds half away from zero.\<close>

fun fround :: "f64 \<Rightarrow> f64" where
  "fround (Fin x) = Fin (if 0 \<le> x then of_int \<lfloor>x + 1/2\<rfloor> else - of_int \<lfloor>1/2 - x\<rfloor>)"
| "fround a = a"

text \<open>Casts: an integer to \<open>f64\<close> rounds; a float to an integer truncates and saturates.\<close>

definition f64_of_int :: "int \<Rightarrow> f64" where
  "f64_of_int n = round64 (of_int n)"

definition rtrunc :: "rat \<Rightarrow> int" where
  "rtrunc x = (if 0 \<le> x then \<lfloor>x\<rfloor> else - \<lfloor>- x\<rfloor>)"

fun f64_to_int :: "int \<Rightarrow> int \<Rightarrow> f64 \<Rightarrow> int" where
  "f64_to_int lo hi FNaN = 0"
| "f64_to_int lo hi FPosInf = hi"
| "f64_to_int lo hi FNegInf = lo"
| "f64_to_int lo hi (Fin x) = max lo (min hi (rtrunc x))"

definition as_i64 :: "f64 \<Rightarrow> int" where
  "as_i64 x = f64_to_int (- (2 ^ 63)) (2 ^ 63 - 1) x"

definition as_u8 :: "f64 \<Rightarrow> u8" where
  "as_u8 x = word_of_int (f64_to_int 0 255 x)"

definition as_usize :: "f64 \<Rightarrow> nat" where
  "as_usize x = nat (f64_to_int 0 (2 ^ 64 - 1) x)"

text \<open>
  The code only raises 2 and 256 to constant powers.  Every intermediate product is a power
  of two, so the result is exact whatever the order of the multiplications.
\<close>

definition fpow2 :: "int \<Rightarrow> f64" where
  "fpow2 e = Fin (pow2 e)"

definition f64_sum :: "f64 list \<Rightarrow> f64" where
  "f64_sum xs = foldl fadd (Fin 0) xs"

definition is_fin :: "f64 \<Rightarrow> bool" where
  "is_fin a = (case a of Fin _ \<Rightarrow> True | _ \<Rightarrow> False)"

fun fval :: "f64 \<Rightarrow> rat" where
  "fval (Fin x) = x"
| "fval _ = 0"

section \<open>Facts\<close>

lemma is_fin_simps [simp]:
  "is_fin (Fin x)" "\<not> is_fin FNaN" "\<not> is_fin FPosInf" "\<not> is_fin FNegInf"
  by (simp_all add: is_fin_def)

lemma is_fin_iff: "is_fin a \<longleftrightarrow> (\<exists>x. a = Fin x)"
  by (cases a) auto

lemma feq_Fin [simp]: "feq (Fin x) (Fin y) = (x = y)"
  by (simp add: feq_def)

lemma fle_Fin [simp]: "fle (Fin x) (Fin y) = (x \<le> y)"
  by (auto simp: fle_def)

lemma fmax_Fin [simp]: "fmax (Fin x) (Fin y) = Fin (max x y)"
  by (auto simp: fmax_def max_def)

lemma fmin_Fin [simp]: "fmin (Fin x) (Fin y) = Fin (min x y)"
  by (auto simp: fmin_def min_def)

lemma fclamp_Fin: "lo \<le> hi \<Longrightarrow> fclamp (Fin x) (Fin lo) (Fin hi) = Fin (max lo (min hi x))"
  by (auto simp: fclamp_def Let_def)

lemma fsub_Fin [simp]: "fsub (Fin x) (Fin y) = round64 (x - y)"
  by (simp add: fsub_def)

lemma round64_fin: "\<bar>rnd x\<bar> < 2 ^ 1024 \<Longrightarrow> round64 x = Fin (rnd x)"
  by (auto simp: round64_def Let_def)

lemma two53_lt_overflow: "(2 ^ 53 :: rat) < 2 ^ 1024"
  by (rule power_strict_increasing) simp_all

lemma round64_small:
  assumes "\<bar>x\<bar> \<le> 2 ^ 53"
  shows "round64 x = Fin (rnd x)"
proof (rule round64_fin)
  have "rnd x \<le> of_int (2 ^ 53)" using assms by (intro rnd_le_int) auto
  moreover have "of_int (- (2 ^ 53)) \<le> rnd x" using assms by (intro rnd_ge_int) auto
  ultimately show "\<bar>rnd x\<bar> < 2 ^ 1024" using two53_lt_overflow
    by (auto simp: abs_less_iff)
qed

lemma f64_of_int_exact: "\<bar>n\<bar> \<le> 2 ^ 53 \<Longrightarrow> f64_of_int n = Fin (of_int n)"
proof -
  assume n: "\<bar>n\<bar> \<le> 2 ^ 53"
  then have "\<bar>of_int n :: rat\<bar> \<le> of_int (2 ^ 53)" by (simp only: of_int_abs [symmetric] of_int_le_iff)
  then show ?thesis using n
    unfolding f64_of_int_def by (subst round64_small) (simp_all add: rnd_of_int)
qed

lemma rtrunc_nonneg: "0 \<le> x \<Longrightarrow> rtrunc x = \<lfloor>x\<rfloor>"
  by (simp add: rtrunc_def)

lemma rtrunc_of_int [simp]: "rtrunc (of_int n) = n"
  by (simp add: rtrunc_def floor_minus)

lemma as_i64_Fin:
  assumes "- (2 ^ 63) \<le> rtrunc x" "rtrunc x < 2 ^ 63"
  shows "as_i64 (Fin x) = rtrunc x"
  using assms by (simp add: as_i64_def)

text \<open>For evaluation: most results are small, so the overflow threshold need not be computed.\<close>

lemma round64_code [code]:
  "round64 x = (let r = rnd x in
     if \<bar>r\<bar> \<le> 9007199254740992 then Fin r
     else if 2 ^ 1024 \<le> r then FPosInf else if r \<le> - (2 ^ 1024) then FNegInf else Fin r)"
  using two53_lt_overflow by (auto simp: round64_def Let_def)

lemma round64_of_int: "\<bar>n\<bar> \<le> 2 ^ 53 \<Longrightarrow> round64 (of_int n) = Fin (of_int n)"
  using f64_of_int_exact by (simp add: f64_of_int_def)

lemma as_i64_of_int: "- (2 ^ 63) \<le> n \<Longrightarrow> n < 2 ^ 63 \<Longrightarrow> as_i64 (Fin (of_int n)) = n"
  by (simp add: as_i64_Fin)

lemma as_u8_Fin: "0 \<le> x \<Longrightarrow> x < 256 \<Longrightarrow> as_u8 (Fin x) = word_of_int \<lfloor>x\<rfloor>"
proof -
  assume "0 \<le> x" "x < 256"
  then have "\<lfloor>x\<rfloor> \<le> 255" by linarith
  with \<open>0 \<le> x\<close> show ?thesis by (simp add: as_u8_def rtrunc_def)
qed

section \<open>Representable numbers\<close>

definition rep64 :: "rat \<Rightarrow> bool" where
  "rep64 x \<longleftrightarrow> rnd x = x"

lemma rnd_form:
  obtains m e where "rnd x = of_int m * pow2 e" "\<bar>m\<bar> \<le> 2 ^ 53" "- 1074 \<le> e"
proof (cases "x = 0")
  case True
  then show ?thesis using that [of 0 0] by simp
next
  case False
  let ?u = "uexp \<bar>x\<bar>"
  have p: "0 < \<bar>x\<bar>" using False by simp
  have "\<bar>x\<bar> < pow2 (ilog2 \<bar>x\<bar> + 1)" using ilog2_bounds [OF p] by blast
  also have "\<dots> \<le> pow2 (53 + ?u)" by (simp add: uexp_def)
  finally have "\<bar>x\<bar> < 2 ^ 53 * pow2 ?u" by (simp add: pow2_add pow2_nat')
  then have "x < 2 ^ 53 * pow2 ?u" "- (2 ^ 53) * pow2 ?u < x" by linarith+
  then have "x / pow2 ?u \<le> of_int (2 ^ 53)" "of_int (- (2 ^ 53)) \<le> x / pow2 ?u"
    by (simp_all add: pos_divide_le_eq pos_le_divide_eq)
  then have "rne (x / pow2 ?u) \<le> 2 ^ 53" "- (2 ^ 53) \<le> rne (x / pow2 ?u)"
    using rne_le_int rne_ge_int by blast+
  then have "\<bar>rne (x / pow2 ?u)\<bar> \<le> 2 ^ 53" by simp
  then show ?thesis using that [of "rne (x / pow2 ?u)" ?u] False by (simp add: rnd_def uexp_def)
qed

lemma rep64_rnd [simp]: "rep64 (rnd x)"
proof -
  obtain m e where "rnd x = of_int m * pow2 e" "\<bar>m\<bar> \<le> 2 ^ 53" "- 1074 \<le> e" by (rule rnd_form)
  then show ?thesis by (simp add: rep64_def rnd_exact)
qed

lemma rep64_int: "\<bar>n\<bar> \<le> 2 ^ 53 \<Longrightarrow> rep64 (of_int n)"
  by (simp add: rep64_def rnd_of_int)

lemma rep64_dyadic: "\<bar>m\<bar> \<le> 2 ^ 53 \<Longrightarrow> - 1074 \<le> e \<Longrightarrow> rep64 (of_int m * pow2 e)"
  by (simp add: rep64_def rnd_exact)

lemma rep64_pow2: "- 1074 \<le> e \<Longrightarrow> rep64 (pow2 e)"
  by (simp add: rep64_def rnd_pow2)

lemma rep64_double: "rep64 x \<Longrightarrow> rep64 (2 * x)"
proof -
  assume "rep64 x"
  then have "rnd x = x" by (simp add: rep64_def)
  with rnd_form [of x] obtain m e where m: "x = of_int m * pow2 e" "\<bar>m\<bar> \<le> 2 ^ 53" "- 1074 \<le> e" by metis
  have "2 * x = of_int m * pow2 (e + 1)" using m(1) pow2_nat' [of 1] by (simp add: pow2_add)
  then show ?thesis using rep64_dyadic [OF m(2), of "e + 1"] m(3) by simp
qed

lemma rep64_half:
  assumes "rep64 x" "pow2 (- 1000) \<le> x"
  shows "rep64 (x / 2)"
proof -
  have "rnd x = x" using assms(1) by (simp add: rep64_def)
  with rnd_form [of x] obtain m e where m: "x = of_int m * pow2 e" "\<bar>m\<bar> \<le> 2 ^ 53" "- 1074 \<le> e" by metis
  have "of_int m \<le> (of_int (2 ^ 53) :: rat)" using m(2) by (simp only: of_int_le_iff)
  then have "x \<le> pow2 53 * pow2 e" unfolding m(1)
    by (intro mult_right_mono) (simp_all add: pow2_nat')
  then have "pow2 (- 1000) \<le> pow2 (53 + e)" using assms(2) by (simp add: pow2_add)
  then have "- 1000 \<le> 53 + e" by (simp only: pow2_le_iff)
  moreover have "x / 2 = of_int m * pow2 (e - 1)" using m(1) pow2_nat' [of 1] by (simp add: pow2_diff)
  ultimately show ?thesis using rep64_dyadic [OF m(2), of "e - 1"] by simp
qed

lemma rep64_le: "rep64 y \<Longrightarrow> x \<le> y \<Longrightarrow> rnd x \<le> y"
  using rnd_mono [of x y] by (simp add: rep64_def)

lemma rep64_ge: "rep64 y \<Longrightarrow> y \<le> x \<Longrightarrow> y \<le> rnd x"
  using rnd_mono [of y x] by (simp add: rep64_def)

definition fpos :: "f64 \<Rightarrow> bool" where
  "fpos x \<longleftrightarrow> x = FPosInf \<or> (\<exists>q. x = Fin q \<and> 0 \<le> q)"

lemma fpos_round64: "0 \<le> x \<Longrightarrow> fpos (round64 x)"
proof -
  assume "0 \<le> x"
  then have "0 \<le> rnd x" by (rule rnd_nonneg)
  moreover have "(0 :: rat) < 2 ^ 1024" by simp
  ultimately have "\<not> rnd x \<le> - (2 ^ 1024)" by linarith
  with \<open>0 \<le> rnd x\<close> show ?thesis by (auto simp: fpos_def round64_def Let_def)
qed

lemma fpos_div: "fpos x \<Longrightarrow> 0 < y \<Longrightarrow> fpos (fdiv x (Fin y))"
proof -
  assume "fpos x" "0 < y"
  then show ?thesis using fpos_round64 [of "fval x / y"]
    by (cases x) (auto simp: fpos_def finf_def)
qed

lemma fpos_mul: "fpos x \<Longrightarrow> 0 < y \<Longrightarrow> fpos (fmul x (Fin y))"
proof -
  assume "fpos x" "0 < y"
  then show ?thesis using fpos_round64 [of "fval x * y"]
    by (cases x) (auto simp: fpos_def finf_def)
qed

lemma round64_rep_bounded:
  assumes "- (2 ^ 1000) \<le> x" "x \<le> 2 ^ 1000"
  shows "round64 x = Fin (rnd x)"
proof (rule round64_fin)
  have b: "rep64 (2 ^ 1000)" "(2 ^ 1000 :: rat) < 2 ^ 1024"
    using rep64_pow2 [of 1000] by (simp add: pow2_nat', intro power_strict_increasing) simp_all
  have "rnd x \<le> 2 ^ 1000" using b(1) assms(2) by (rule rep64_le)
  moreover have "- (2 ^ 1000) \<le> rnd x"
    using rep64_le [OF b(1), of "- x"] assms(1) by (simp add: rnd_minus)
  ultimately show "\<bar>rnd x\<bar> < 2 ^ 1024" using b(2) by linarith
qed

lemma rnd_upper: "pow2 (- 1022) \<le> x \<Longrightarrow> rnd x \<le> (1 + u64eps) * x"
  using rnd_rel_error [of x] pow2_pos [of "- 1022"] by (auto simp: algebra_simps abs_le_iff)

lemma rnd_lower: "pow2 (- 1022) \<le> x \<Longrightarrow> (1 - u64eps) * x \<le> rnd x"
  using rnd_rel_error [of x] pow2_pos [of "- 1022"] by (auto simp: algebra_simps abs_le_iff)

lemma u64eps_bounds [simp]: "0 < u64eps" "0 \<le> u64eps" "u64eps < 1" "u64eps \<le> 1" "0 < 1 - u64eps"
  by (simp_all add: u64eps_def)

end
