(* ===== verification/Json.thy ===== *)
theory Json
  imports F64
begin

text \<open>
  The values of \<open>serde_json\<close> as the code uses them: the public enum \<open>Value\<close>, the accessors
  \<open>get\<close>, \<open>as_str\<close>, \<open>as_u64\<close>, \<open>as_i64\<close>, \<open>as_f64\<close>, \<open>as_array\<close>, and decimal rendering of
  integers (\<open>to_string\<close>).  Turning text into a value and back is the crate's work and is a
  parameter wherever it is used.
\<close>

datatype jnum = PosInt nat | NegInt int | Float f64

datatype json =
    JNull
  | JBool bool
  | JNum jnum
  | JStr string
  | JArr "json list"
  | JObj "(string \<times> json) list"

fun as_str :: "json \<Rightarrow> string option" where
  "as_str (JStr s) = Some s"
| "as_str _ = None"

fun as_array :: "json \<Rightarrow> json list option" where
  "as_array (JArr xs) = Some xs"
| "as_array _ = None"

fun as_u64 :: "json \<Rightarrow> nat option" where
  "as_u64 (JNum (PosInt n)) = Some n"
| "as_u64 _ = None"

fun as_int64 :: "json \<Rightarrow> int option" where
  "as_int64 (JNum (PosInt n)) = (if n < 2 ^ 63 then Some (int n) else None)"
| "as_int64 (JNum (NegInt i)) = Some i"
| "as_int64 _ = None"

fun as_f64 :: "json \<Rightarrow> f64 option" where
  "as_f64 (JNum (PosInt n)) = Some (f64_of_int (int n))"
| "as_f64 (JNum (NegInt i)) = Some (f64_of_int i)"
| "as_f64 (JNum (Float x)) = Some x"
| "as_f64 _ = None"

fun jget :: "string \<Rightarrow> json \<Rightarrow> json option" where
  "jget k (JObj kvs) = map_of kvs k"
| "jget k _ = None"

definition nth_opt :: "'a list \<Rightarrow> nat \<Rightarrow> 'a option" where
  "nth_opt xs i = (if i < length xs then Some (xs ! i) else None)"

lemma nth_opt_simps [simp]:
  "nth_opt [] i = None"
  "nth_opt (x # xs) 0 = Some x"
  "nth_opt (x # xs) (Suc i) = nth_opt xs i"
  by (simp_all add: nth_opt_def)

lemma nth_opt_numeral [simp]:
  "nth_opt (x # xs) (numeral k) = nth_opt xs (pred_numeral k)"
  by (simp add: nth_opt_def numeral_eq_Suc)

lemma nth_opt_1 [simp]: "nth_opt (x # xs) 1 = nth_opt xs 0"
  by (simp add: nth_opt_def)

text \<open>\<open>arr.get(i).and_then(|v| v.as_str()).unwrap_or("")\<close>\<close>

definition str_at :: "json list \<Rightarrow> nat \<Rightarrow> string" where
  "str_at arr i = (case Option.bind (nth_opt arr i) as_str of Some s \<Rightarrow> s | None \<Rightarrow> [])"

definition str_opt_at :: "json list \<Rightarrow> nat \<Rightarrow> string option" where
  "str_opt_at arr i = Option.bind (nth_opt arr i) as_str"

fun show_nat :: "nat \<Rightarrow> string" where
  "show_nat n = (if n < 10 then [char_of (48 + n)]
                 else show_nat (n div 10) @ [char_of (48 + n mod 10)])"

declare show_nat.simps [simp del]

definition show_int :: "int \<Rightarrow> string" where
  "show_int i = (if i < 0 then CHR ''-'' # show_nat (nat (- i)) else show_nat (nat i))"

definition dec_value :: "char \<Rightarrow> nat option" where
  "dec_value c = (let n = of_char c :: nat in if 48 \<le> n \<and> n \<le> 57 then Some (n - 48) else None)"

fun parse_dec :: "nat \<Rightarrow> string \<Rightarrow> nat option" where
  "parse_dec acc [] = Some acc"
| "parse_dec acc (c # cs) =
     (case dec_value c of None \<Rightarrow> None | Some d \<Rightarrow> parse_dec (10 * acc + d) cs)"

lemma dec_value_digit: "n < 10 \<Longrightarrow> dec_value (char_of (48 + n)) = Some n"
  by (simp add: dec_value_def)

lemma parse_dec_append:
  "parse_dec acc (s @ t) = (case parse_dec acc s of None \<Rightarrow> None | Some a \<Rightarrow> parse_dec a t)"
  by (induction s arbitrary: acc) (auto split: option.splits)

lemma parse_show_nat: "parse_dec 0 (show_nat n) = Some n"
proof (induction n rule: show_nat.induct)
  case (1 n)
  show ?case
  proof (cases "n < 10")
    case True
    then show ?thesis by (simp add: show_nat.simps dec_value_digit)
  next
    case False
    then show ?thesis using 1
      by (simp add: show_nat.simps [of n] parse_dec_append dec_value_digit)
  qed
qed

lemma show_nat_inj: "show_nat m = show_nat n \<longleftrightarrow> m = n"
  by (metis option.inject parse_show_nat)

lemma show_nat_nonempty [simp]: "show_nat n \<noteq> []"
  by (subst show_nat.simps) simp

end
