(* ===== verification/Stratum_Messages.thy ===== *)
theory Stratum_Messages
  imports Json
begin

text \<open>
  \<open>crates/stratum/src/messages.rs\<close>: JSON-RPC requests of miners, messages of the server,
  the error codes of ZIP 301, parsing a raw message into a request and rendering a server
  message as JSON.
\<close>

record raw_message =
  rm_id :: "json option"
  rm_method :: "string option"
  rm_params :: "json option"
  rm_result :: "json option"
  rm_error :: "json option"

datatype client_request =
    Subscribe (cr_id: json) (user_agent: string) (sub_session_id: "string option")
      (sub_host: "string option") (sub_port: "u16 option")
  | Authorize (cr_id: json) (worker_name: string) (worker_password: string)
  | Submit (cr_id: json) (worker_name: string) (job_id: string) (time: string)
      (nonce_2: string) (equihash_solution: string)
  | SuggestTarget (cr_id: json) (sug_target: string)
  | ExtranonceSubscribe (cr_id: json)
  | Unknown (cr_id: json) (unk_method: string)

record stratum_error =
  code :: int
  message :: string
  traceback :: "json option"

definition err_other :: "string \<Rightarrow> stratum_error" where
  "err_other msg = \<lparr>code = 20, message = msg, traceback = None\<rparr>"

definition job_not_found :: stratum_error where
  "job_not_found = \<lparr>code = 21, message = ''Job not found'', traceback = None\<rparr>"

definition duplicate_share :: stratum_error where
  "duplicate_share = \<lparr>code = 22, message = ''Duplicate share'', traceback = None\<rparr>"

definition low_difficulty :: stratum_error where
  "low_difficulty = \<lparr>code = 23, message = ''Low difficulty share'', traceback = None\<rparr>"

definition is_low_difficulty :: "stratum_error \<Rightarrow> bool" where
  "is_low_difficulty e = (code e = 23)"

definition unauthorized :: stratum_error where
  "unauthorized = \<lparr>code = 24, message = ''Unauthorized worker'', traceback = None\<rparr>"

definition not_subscribed :: stratum_error where
  "not_subscribed = \<lparr>code = 25, message = ''Not subscribed'', traceback = None\<rparr>"

lemmas error_defs = err_other_def job_not_found_def duplicate_share_def low_difficulty_def
  is_low_difficulty_def unauthorized_def not_subscribed_def

datatype server_message =
    SubscribeResult (sm_id: json) (sm_session_id: string) (sm_nonce_1: string) (nonce2_size: nat)
  | AuthorizeResult (sm_id: json) (authorized: bool) (sm_error: "stratum_error option")
  | SetTarget (sm_target: string)
  | SetDifficulty (sm_difficulty: f64)
  | Notify (sm_job_id: string) (sm_version: string) (sm_prev_hash: string)
      (sm_merkle_root: string) (sm_reserved: string) (sm_time: string) (sm_bits: string)
      (clean_jobs: bool)
  | SubmitResult (sm_id: json) (accepted: bool) (sm_error: "stratum_error option")
  | Reconnect (sm_host: "string option") (sm_port: "u16 option") (wait_time: "u32 option")

text \<open>\<open>ClientRequest::parse\<close>.  A port above 65535 is truncated (\<open>v as u16\<close>).\<close>

definition parse_request :: "raw_message \<Rightarrow> client_request option" where
  "parse_request raw =
     (case rm_method raw of
        None \<Rightarrow> None
      | Some m \<Rightarrow>
          (let rid = (case rm_id raw of Some v \<Rightarrow> v | None \<Rightarrow> JNull);
               params = (case rm_params raw of Some v \<Rightarrow> v | None \<Rightarrow> JArr []);
               arr = as_array params in
           if m = ''mining.subscribe'' then
             (let a = (case arr of Some a \<Rightarrow> a | None \<Rightarrow> []) in
              Some (Subscribe rid (str_at a 0) (str_opt_at a 1) (str_opt_at a 2)
                (map_option of_nat (Option.bind (nth_opt a 3) as_u64))))
           else if m = ''mining.authorize'' then
             map_option (\<lambda>a. Authorize rid (str_at a 0) (str_at a 1)) arr
           else if m = ''mining.submit'' then
             map_option (\<lambda>a. Submit rid (str_at a 0) (str_at a 1) (str_at a 2) (str_at a 3)
               (str_at a 4)) arr
           else if m = ''mining.suggest_target'' then
             map_option (\<lambda>a. SuggestTarget rid (str_at a 0)) arr
           else if m = ''mining.extranonce.subscribe'' then Some (ExtranonceSubscribe rid)
           else Some (Unknown rid m)))"

definition error_json :: "stratum_error option \<Rightarrow> json" where
  "error_json e = (case e of
     None \<Rightarrow> JNull
   | Some e \<Rightarrow> JArr [JNum (if 0 \<le> code e then PosInt (nat (code e)) else NegInt (code e)),
                      JStr (message e), (case traceback e of Some t \<Rightarrow> t | None \<Rightarrow> JNull)])"

definition reply_json :: "json \<Rightarrow> bool \<Rightarrow> stratum_error option \<Rightarrow> json" where
  "reply_json rid ok e =
     (if ok then JObj [(''id'', rid), (''result'', JBool True), (''error'', JNull)]
      else JObj [(''id'', rid), (''result'', JNull), (''error'', error_json e)])"

definition notification_json :: "string \<Rightarrow> json list \<Rightarrow> json" where
  "notification_json m ps = JObj [(''id'', JNull), (''method'', JStr m), (''params'', JArr ps)]"

text \<open>\<open>serde_json::json!\<close> renders a non-finite float as \<open>null\<close>.\<close>

definition f64_json :: "f64 \<Rightarrow> json" where
  "f64_json x = (if is_fin x then JNum (Float x) else JNull)"

fun message_json :: "server_message \<Rightarrow> json" where
  "message_json (SubscribeResult rid sid n1 n2) =
     JObj [(''id'', rid),
           (''result'', JArr [JArr [JStr ''mining.notify'', JStr sid], JStr n1, JNum (PosInt n2)]),
           (''error'', JNull)]"
| "message_json (AuthorizeResult rid ok e) = reply_json rid ok e"
| "message_json (SetTarget t) = notification_json ''mining.set_target'' [JStr t]"
| "message_json (SetDifficulty d) = notification_json ''mining.set_difficulty'' [f64_json d]"
| "message_json (Notify j v p m r t b c) =
     notification_json ''mining.notify''
       [JStr j, JStr v, JStr p, JStr m, JStr r, JStr t, JStr b, JBool c]"
| "message_json (SubmitResult rid ok e) = reply_json rid ok e"
| "message_json (Reconnect h p w) =
     notification_json ''client.reconnect''
       (case (h, p, w) of
          (Some h, Some p, Some w) \<Rightarrow> [JStr h, JNum (PosInt (unat p)), JNum (PosInt (unat w))]
        | _ \<Rightarrow> [])"

text \<open>\<open>ServerMessage::to_json\<close>, over the crate's serializer.\<close>

definition to_json :: "(json \<Rightarrow> string) \<Rightarrow> server_message \<Rightarrow> string" where
  "to_json ser m = ser (message_json m)"

section \<open>Properties\<close>

lemma parse_request_method: "parse_request raw = Some r \<Longrightarrow> \<exists>m. rm_method raw = Some m"
  by (auto simp: parse_request_def split: option.splits)

lemma parse_request_id:
  "parse_request raw = Some r \<Longrightarrow>
   cr_id r = (case rm_id raw of Some v \<Rightarrow> v | None \<Rightarrow> JNull)"
  by (auto simp: parse_request_def Let_def split: option.splits if_splits)

text \<open>Every reply carries the id of its request; every notification carries \<open>null\<close>.\<close>

lemma message_json_id:
  "jget ''id'' (message_json m) =
     Some (case m of SubscribeResult i _ _ _ \<Rightarrow> i | AuthorizeResult i _ _ \<Rightarrow> i
           | SubmitResult i _ _ \<Rightarrow> i | _ \<Rightarrow> JNull)"
  by (cases m) (auto simp: reply_json_def notification_json_def)

text \<open>The line a miner writes for a submission parses back to that submission.\<close>

definition submit_raw :: "json \<Rightarrow> string \<Rightarrow> string \<Rightarrow> string \<Rightarrow> string \<Rightarrow> string \<Rightarrow> raw_message" where
  "submit_raw rid w j t n s =
     \<lparr>rm_id = Some rid, rm_method = Some ''mining.submit'',
      rm_params = Some (JArr [JStr w, JStr j, JStr t, JStr n, JStr s]),
      rm_result = None, rm_error = None\<rparr>"

lemma parse_submit_raw: "parse_request (submit_raw rid w j t n s) = Some (Submit rid w j t n s)"
  by (simp add: parse_request_def submit_raw_def str_at_def Let_def)

end
