(* ===== verification/Bytes_Hex.thy ===== *)
theory Bytes_Hex
  imports Pool_Prelude "HOL-Library.Char_ord"
begin

unbundle bit_operations_syntax

text \<open>
  Bytes, little-endian integers and hexadecimal text.  The \<open>hex\<close> crate is third-party code:
  its \<open>encode\<close> and \<open>decode\<close> are a parameter (record \<open>hexlib\<close>) whose documented behaviour is
  the predicate \<open>hex_ok\<close>.  \<open>hex_ref\<close> is a concrete instance, which shows that the hypothesis
  can hold and lets witnesses evaluate.  Rust's own \<open>{:08x}\<close> formatting and
  \<open>u32::from_str_radix\<close> are modelled.
\<close>

section \<open>Hexadecimal digits\<close>

definition hex_digit :: "nat \<Rightarrow> char" where
  "hex_digit n = (if n < 10 then char_of (48 + n) else char_of (87 + n))"

definition hex_value :: "char \<Rightarrow> nat option" where
  "hex_value c = (let n = of_char c :: nat in
     if 48 \<le> n \<and> n \<le> 57 then Some (n - 48)
     else if 97 \<le> n \<and> n \<le> 102 then Some (n - 87)
     else if 65 \<le> n \<and> n \<le> 70 then Some (n - 55)
     else None)"

lemma hex_value_digit [simp]: "n < 16 \<Longrightarrow> hex_value (hex_digit n) = Some n"
  by (auto simp: hex_value_def hex_digit_def Let_def)

lemma hex_value_less: "hex_value c = Some n \<Longrightarrow> n < 16"
  by (auto simp: hex_value_def Let_def split: if_splits)

definition to_lower :: "char \<Rightarrow> char" where
  "to_lower c = (let n = of_char c :: nat in
     if 65 \<le> n \<and> n \<le> 90 then char_of (n + 32) else c)"

section \<open>The hex crate as a parameter\<close>

record hexlib =
  hx_encode :: "bytes \<Rightarrow> string"
  hx_decode :: "string \<Rightarrow> bytes option"

definition hex_ok :: "hexlib \<Rightarrow> bool" where
  "hex_ok H \<longleftrightarrow>
     (\<forall>bs. hx_decode H (hx_encode H bs) = Some bs) \<and>
     (\<forall>bs. length (hx_encode H bs) = 2 * length bs) \<and>
     (\<forall>s bs. hx_decode H s = Some bs \<longrightarrow> length s = 2 * length bs)"

lemma hex_okD:
  assumes "hex_ok H"
  shows "hx_decode H (hx_encode H bs) = Some bs"
    and "length (hx_encode H bs) = 2 * length bs"
    and "hx_decode H s = Some cs \<Longrightarrow> length s = 2 * length cs"
  using assms by (auto simp: hex_ok_def)

lemma hex_encode_inj: "hex_ok H \<Longrightarrow> hx_encode H a = hx_encode H b \<longleftrightarrow> a = b"
  by (metis hex_okD(1) option.inject)

fun ref_encode :: "bytes \<Rightarrow> string" where
  "ref_encode [] = []"
| "ref_encode (b # bs) = hex_digit (unat b div 16) # hex_digit (unat b mod 16) # ref_encode bs"

fun ref_decode :: "string \<Rightarrow> bytes option" where
  "ref_decode [] = Some []"
| "ref_decode [c] = None"
| "ref_decode (c # d # cs) =
     (case (hex_value c, hex_value d, ref_decode cs) of
        (Some h, Some l, Some bs) \<Rightarrow> Some (of_nat (16 * h + l) # bs)
      | _ \<Rightarrow> None)"

definition hex_ref :: hexlib where
  "hex_ref = \<lparr>hx_encode = ref_encode, hx_decode = ref_decode\<rparr>"

lemma ref_decode_encode: "ref_decode (ref_encode bs) = Some bs"
proof (induction bs)
  case (Cons b bs)
  have "unat b < 256" using unsigned_less [of b] by simp
  then have "unat b div 16 < 16" by (simp add: less_mult_imp_div_less)
  with Cons show ?case by simp
qed simp

lemma length_ref_encode: "length (ref_encode bs) = 2 * length bs"
  by (induction bs) auto

lemma length_ref_decode: "ref_decode s = Some bs \<Longrightarrow> length s = 2 * length bs"
  by (induction s arbitrary: bs rule: ref_decode.induct) (auto split: option.splits)

lemma hex_ok_ref: "hex_ok hex_ref"
  by (simp add: hex_ok_def hex_ref_def ref_decode_encode length_ref_encode length_ref_decode)

text \<open>\<open>hex::decode(s).unwrap_or_default()\<close> and the byte reversal of \<open>reverse_hex\<close>.\<close>

definition decode_or_default :: "hexlib \<Rightarrow> string \<Rightarrow> bytes" where
  "decode_or_default H s = (case hx_decode H s of None \<Rightarrow> [] | Some bs \<Rightarrow> bs)"

definition reverse_hex :: "hexlib \<Rightarrow> string \<Rightarrow> string" where
  "reverse_hex H s = hx_encode H (rev (decode_or_default H s))"

lemma reverse_hex_encode: "hex_ok H \<Longrightarrow> reverse_hex H (hx_encode H bs) = hx_encode H (rev bs)"
  by (simp add: reverse_hex_def decode_or_default_def hex_okD)

lemma decode_reverse_hex:
  "hex_ok H \<Longrightarrow> hx_decode H s = Some bs \<Longrightarrow> hx_decode H (reverse_hex H s) = Some (rev bs)"
  by (simp add: reverse_hex_def decode_or_default_def hex_okD)

section \<open>Little-endian integers\<close>

fun le_bytes :: "nat \<Rightarrow> nat \<Rightarrow> bytes" where
  "le_bytes 0 n = []"
| "le_bytes (Suc k) n = of_nat (n mod 256) # le_bytes k (n div 256)"

fun le_value :: "bytes \<Rightarrow> nat" where
  "le_value [] = 0"
| "le_value (b # bs) = unat b + 256 * le_value bs"

lemma length_le_bytes [simp]: "length (le_bytes k n) = k"
  by (induction k arbitrary: n) auto

lemma le_value_bytes: "n < 256 ^ k \<Longrightarrow> le_value (le_bytes k n) = n"
proof (induction k arbitrary: n)
  case (Suc k)
  then have "n div 256 < 256 ^ k" by (simp add: less_mult_imp_div_less mult.commute)
  with Suc.IH show ?case by (simp add: unat_of_nat)
qed simp

lemma le_value_bound: "le_value bs < 256 ^ length bs"
proof (induction bs)
  case (Cons b bs)
  have "unat b < 256" using unsigned_less [of b] by simp
  moreover have "le_value bs + 1 \<le> 256 ^ length bs" using Cons by simp
  ultimately have "unat b + 256 * le_value bs < 256 * 256 ^ length bs"
    by linarith
  then show ?case by simp
qed simp

lemma le_bytes_value: "le_bytes (length bs) (le_value bs) = bs"
proof (induction bs)
  case (Cons b bs)
  have "unat b < 256" using unsigned_less [of b] by simp
  with Cons show ?case by (simp add: div_mult_self1_is_m)
qed simp

lemma le_value_inj: "length a = length b \<Longrightarrow> le_value a = le_value b \<Longrightarrow> a = b"
  by (metis le_bytes_value)

text \<open>Big-endian value, most significant byte first.\<close>

definition be_value :: "bytes \<Rightarrow> nat" where
  "be_value bs = le_value (rev bs)"

lemma le_value_append: "le_value (xs @ ys) = le_value xs + 256 ^ length xs * le_value ys"
  by (induction xs) (auto simp: algebra_simps)

lemma be_value_Nil [simp]: "be_value [] = 0"
  by (simp add: be_value_def)

lemma be_value_Cons [simp]: "be_value (b # bs) = unat b * 256 ^ length bs + be_value bs"
  by (simp add: be_value_def le_value_append)

lemma be_value_bound: "be_value bs < 256 ^ length bs"
  using le_value_bound [of "rev bs"] by (simp add: be_value_def)

lemma be_value_inj: "length a = length b \<Longrightarrow> be_value a = be_value b \<Longrightarrow> a = b"
  unfolding be_value_def by (metis le_value_inj length_rev rev_rev_ident)

section \<open>Formatting and parsing of \<open>u32\<close>\<close>

text \<open>\<open>u32::swap_bytes\<close>, \<open>format!("{:08x}", v)\<close> and \<open>u32::from_str_radix(s, 16)\<close>.\<close>

definition swap_bytes32 :: "u32 \<Rightarrow> u32" where
  "swap_bytes32 v = of_nat (le_value (rev (le_bytes 4 (unat v))))"

fun hex_be :: "nat \<Rightarrow> nat \<Rightarrow> string" where
  "hex_be 0 n = []"
| "hex_be (Suc k) n = hex_be k (n div 16) @ [hex_digit (n mod 16)]"

definition fmt_08x :: "u32 \<Rightarrow> string" where
  "fmt_08x v = hex_be 8 (unat v)"

fun parse_digits16 :: "nat \<Rightarrow> string \<Rightarrow> nat option" where
  "parse_digits16 acc [] = Some acc"
| "parse_digits16 acc (c # cs) =
     (case hex_value c of
        None \<Rightarrow> None
      | Some d \<Rightarrow> if 16 * acc + d < 2 ^ 32 then parse_digits16 (16 * acc + d) cs else None)"

definition u32_from_str_radix16 :: "string \<Rightarrow> u32 option" where
  "u32_from_str_radix16 s =
     (let t = (case s of c # cs \<Rightarrow> if c = CHR ''+'' then cs else s | [] \<Rightarrow> []) in
      if t = [] then None else map_option of_nat (parse_digits16 0 t))"

lemma length_hex_be [simp]: "length (hex_be k n) = k"
  by (induction k arbitrary: n) auto

lemma parse_digits16_append:
  "parse_digits16 acc (s @ t) =
     (case parse_digits16 acc s of None \<Rightarrow> None | Some a \<Rightarrow> parse_digits16 a t)"
  by (induction s arbitrary: acc) (auto split: option.splits)

lemma parse_hex_be: "n < 16 ^ k \<Longrightarrow> k \<le> 8 \<Longrightarrow> parse_digits16 0 (hex_be k n) = Some n"
proof (induction k arbitrary: n)
  case (Suc k)
  have "n div 16 < 16 ^ k" using Suc.prems by (simp add: less_mult_imp_div_less mult.commute)
  then have p: "parse_digits16 0 (hex_be k (n div 16)) = Some (n div 16)"
    using Suc by simp
  have "(16::nat) ^ Suc k \<le> 16 ^ 8" using Suc.prems by (intro power_increasing) auto
  then have "16 * (n div 16) + n mod 16 < 2 ^ 32" using Suc.prems by simp
  with p show ?case by (simp add: parse_digits16_append)
qed simp

lemma hex_digit_not_plus: "n < 16 \<Longrightarrow> hex_digit n \<noteq> CHR ''+''"
  using hex_value_digit [of n] by (auto simp: hex_value_def Let_def)

lemma hex_be_digits: "c \<in> set (hex_be k n) \<Longrightarrow> \<exists>d < 16. c = hex_digit d"
proof (induction k arbitrary: n)
  case (Suc k)
  have "n mod 16 < 16" by simp
  with Suc show ?case by fastforce
qed simp

lemma from_str_radix_fmt: "u32_from_str_radix16 (fmt_08x v) = Some v"
proof -
  have v: "unat v < 16 ^ 8" using unsigned_less [of v] by simp
  obtain c cs where s: "fmt_08x v = c # cs"
    by (cases "fmt_08x v") (auto simp: fmt_08x_def dest: arg_cong [of _ _ length])
  have "c \<in> set (hex_be 8 (unat v))" using s unfolding fmt_08x_def by simp
  then obtain d where "d < 16" "c = hex_digit d" using hex_be_digits by blast
  then have "c \<noteq> CHR ''+''" using hex_digit_not_plus by simp
  moreover have "parse_digits16 0 (c # cs) = Some (unat v)"
    using parse_hex_be [OF v] s by (simp add: fmt_08x_def)
  ultimately show ?thesis by (simp add: u32_from_str_radix16_def s del: parse_digits16.simps)
qed

lemma swap_bytes32_swap [simp]: "swap_bytes32 (swap_bytes32 v) = v"
proof -
  have l: "le_value (rev (le_bytes 4 (unat v))) < 256 ^ 4"
    using le_value_bound [of "rev (le_bytes 4 (unat v))"] by simp
  have v: "unat v < 256 ^ 4" using unsigned_less [of v] by simp
  have u: "unat (swap_bytes32 v) = le_value (rev (le_bytes 4 (unat v)))"
    using l unfolding swap_bytes32_def by (subst unat_of_nat) simp
  have "le_bytes 4 (unat (swap_bytes32 v)) = rev (le_bytes 4 (unat v))"
    unfolding u using le_bytes_value [of "rev (le_bytes 4 (unat v))"] by simp
  then show ?thesis
    unfolding swap_bytes32_def [of "swap_bytes32 v"] by (simp add: le_value_bytes [OF v])
qed

end
