(* ===== verification/Stratum_Codec.thy ===== *)
theory Stratum_Codec
  imports Stratum_Messages Bytes_Hex
begin

text \<open>
  \<open>crates/stratum/src/codec.rs\<close>: newline-delimited JSON messages.  The buffer is a byte
  list; \<open>decode\<close> returns its result and the remaining buffer.  Parsing one line is
  \<open>serde_json::from_slice\<close>, a parameter.
\<close>

datatype codec_error = CodecJson | LineTooLong nat

definition MAX_LINE_LENGTH :: nat where
  "MAX_LINE_LENGTH = 64 * 1024"

abbreviation newline :: u8 where "newline \<equiv> 10"

definition decode ::
  "(bytes \<Rightarrow> raw_message option) \<Rightarrow> bytes \<Rightarrow> (codec_error + raw_message option) \<times> bytes" where
  "decode from_slice src =
     (if newline \<in> set src then
        (let line = takeWhile (\<lambda>b. b \<noteq> newline) src;
             rest = drop (length line + 1) src in
         if line = [] then (Inr None, rest)
         else (case from_slice line of
                 None \<Rightarrow> (Inl CodecJson, rest)
               | Some msg \<Rightarrow> (Inr (Some msg), rest)))
      else if MAX_LINE_LENGTH < length src then (Inl (LineTooLong MAX_LINE_LENGTH), src)
      else (Inr None, src))"

definition encode :: "bytes \<Rightarrow> bytes \<Rightarrow> bytes" where
  "encode item dst = dst @ item @ [newline]"

lemma takeWhile_line:
  "newline \<notin> set item \<Longrightarrow> takeWhile (\<lambda>b. b \<noteq> newline) (item @ newline # rest) = item"
  by (induction item) auto

lemma drop_line: "drop (Suc (length item)) (item @ b # rest) = rest"
  by (induction item) auto

lemma decode_line:
  assumes "newline \<notin> set item" "item \<noteq> []"
  shows "decode from_slice (item @ newline # rest) =
    (case from_slice item of None \<Rightarrow> (Inl CodecJson, rest) | Some m \<Rightarrow> (Inr (Some m), rest))"
proof -
  have "newline \<in> set (item @ newline # rest)" by simp
  then show ?thesis
    using assms by (simp only: decode_def takeWhile_line [OF assms(1)] drop_line Let_def
        if_True if_False Suc_eq_plus1 [symmetric])
qed

lemma decode_partial:
  "newline \<notin> set src \<Longrightarrow> length src \<le> MAX_LINE_LENGTH \<Longrightarrow> decode from_slice src = (Inr None, src)"
  by (simp add: decode_def)

lemma decode_consumes:
  assumes "decode from_slice src = (Inr (Some m), rest)"
  shows "\<exists>line. src = line @ newline # rest \<and> newline \<notin> set line \<and> line \<noteq> []
           \<and> from_slice line = Some m"
proof -
  let ?line = "takeWhile (\<lambda>b. b \<noteq> newline) src"
  have nl: "newline \<in> set src" using assms by (auto simp: decode_def split: if_splits)
  then have rest: "rest = drop (length ?line + 1) src" and ne: "?line \<noteq> []"
    and p: "from_slice ?line = Some m"
    using assms by (auto simp: decode_def Let_def split: if_splits option.splits)
  from nl obtain b bs where d: "dropWhile (\<lambda>b. b \<noteq> newline) src = b # bs" "b = newline"
    by (cases "dropWhile (\<lambda>b. b \<noteq> newline) src") (auto dest: dropWhile_eq_Cons_conv [THEN iffD1])
  have "src = ?line @ newline # bs" using d takeWhile_dropWhile_id by metis
  moreover from this have "rest = bs"
    unfolding rest by (metis Suc_eq_plus1 append_eq_conv_conj drop_Suc drop_append append_Nil
        diff_self_eq_0 drop_eq_Nil le_add2 list.sel(3) nat_le_linear tl_drop)
  moreover have "newline \<notin> set ?line" by (auto dest: set_takeWhileD)
  ultimately show ?thesis using ne p by blast
qed

text \<open>
  Draining a buffer the way a framed stream does: decode until the decoder asks for more
  bytes (\<open>Ok(None)\<close>) or fails.
\<close>

fun drain ::
  "nat \<Rightarrow> (bytes \<Rightarrow> raw_message option) \<Rightarrow> bytes \<Rightarrow> raw_message list \<times> bytes" where
  "drain 0 from_slice src = ([], src)"
| "drain (Suc k) from_slice src =
     (case decode from_slice src of
        (Inr (Some m), rest) \<Rightarrow> (let (ms, r) = drain k from_slice rest in (m # ms, r))
      | (_, rest) \<Rightarrow> ([], rest))"

fun wire :: "bytes list \<Rightarrow> bytes" where
  "wire [] = []"
| "wire (l # ls) = encode l [] @ wire ls"

lemma drain_wire_aux:
  assumes "\<forall>l \<in> set ls. newline \<notin> set l \<and> l \<noteq> [] \<and> from_slice l = Some (f l)"
    and "newline \<notin> set tail" "length tail \<le> MAX_LINE_LENGTH" "length ls < k"
  shows "drain k from_slice (wire ls @ tail) = (map f ls, tail)"
  using assms(1,4)
proof (induction ls arbitrary: k)
  case Nil
  then obtain k' where "k = Suc k'" by (cases k) auto
  then show ?case using assms(2,3) by (simp add: decode_partial)
next
  case (Cons l ls)
  then obtain k' where k: "k = Suc k'" by (cases k) auto
  then have IH: "drain k' from_slice (wire ls @ tail) = (map f ls, tail)"
    using Cons by simp
  show ?case using Cons.prems
    by (simp add: k encode_def decode_line IH)
qed

end
