(* ===== verification/Stratum_Session.thy ===== *)
theory Stratum_Session
  imports Bytes_Hex
begin

text \<open>
  \<open>crates/stratum/src/session.rs\<close>: the allocator of server nonces and the state of one miner
  session.  The counter is an \<open>AtomicU32\<close>, so it wraps.  \<open>NonceAllocator::new\<close> panics
  outside \<open>0 < nonce1_size < 32\<close>: \<open>new_allocator\<close> is then \<open>None\<close>.
\<close>

record nonce_allocator =
  nonce1_size :: nat
  na_counter :: u32

definition new_allocator :: "nat \<Rightarrow> nonce_allocator option" where
  "new_allocator sz =
     (if 0 < sz \<and> sz < 32 then Some \<lparr>nonce1_size = sz, na_counter = 1\<rparr> else None)"

text \<open>The first \<open>size\<close> bytes of the little-endian counter, zero padded.\<close>

definition nonce1_bytes :: "nat \<Rightarrow> u32 \<Rightarrow> bytes" where
  "nonce1_bytes sz v =
     map (\<lambda>i. if i < 4 then le_bytes 4 (unat v) ! i else 0) [0..<sz]"

definition allocate :: "hexlib \<Rightarrow> nonce_allocator \<Rightarrow> string \<times> nonce_allocator" where
  "allocate H a =
     (hx_encode H (nonce1_bytes (nonce1_size a) (na_counter a)),
      a\<lparr>na_counter := na_counter a + 1\<rparr>)"

definition nonce2_size_of :: "nonce_allocator \<Rightarrow> nat" where
  "nonce2_size_of a = 32 - nonce1_size a"

record miner_session =
  ms_session_id :: string
  ms_nonce_1 :: string
  authorized_workers :: "string set"
  current_target :: "string option"
  subscribed :: bool

definition new_session :: "string \<Rightarrow> string \<Rightarrow> miner_session" where
  "new_session sid n1 =
     \<lparr>ms_session_id = sid, ms_nonce_1 = n1, authorized_workers = {}, current_target = None,
      subscribed = False\<rparr>"

definition authorize_worker :: "string \<Rightarrow> miner_session \<Rightarrow> bool \<times> miner_session" where
  "authorize_worker name s =
     (name \<notin> authorized_workers s,
      s\<lparr>authorized_workers := insert name (authorized_workers s)\<rparr>)"

definition is_worker_authorized :: "string \<Rightarrow> miner_session \<Rightarrow> bool" where
  "is_worker_authorized name s = (name \<in> authorized_workers s)"

section \<open>Properties\<close>

lemma length_nonce1_bytes [simp]: "length (nonce1_bytes sz v) = sz"
  by (simp add: nonce1_bytes_def)

lemma take_le_bytes: "k \<le> n \<Longrightarrow> take k (le_bytes n v) = le_bytes k (v mod 256 ^ k)"
proof (induction k arbitrary: n v)
  case (Suc k)
  then obtain n' where n: "n = Suc n'" by (cases n) auto
  have "v mod 256 ^ Suc k div 256 = v div 256 mod 256 ^ k"
    by (simp add: mod_mult2_eq)
  moreover have "v mod 256 ^ Suc k mod 256 = v mod 256"
    by (simp add: mod_mult2_eq)
  ultimately show ?case using Suc by (simp add: n)
qed simp

lemma take_nonce1_bytes:
  "take (min sz 4) (nonce1_bytes sz v) = le_bytes (min sz 4) (unat v mod 256 ^ min sz 4)"
proof -
  have "take (min sz 4) (nonce1_bytes sz v) = take (min sz 4) (le_bytes 4 (unat v))"
    by (rule nth_equalityI) (auto simp: nonce1_bytes_def)
  then show ?thesis by (simp add: take_le_bytes)
qed

lemma nonce1_bytes_eq_iff:
  "nonce1_bytes sz v = nonce1_bytes sz w \<longleftrightarrow>
   unat v mod 256 ^ min sz 4 = unat w mod 256 ^ min sz 4"
proof
  assume "nonce1_bytes sz v = nonce1_bytes sz w"
  then have "le_bytes (min sz 4) (unat v mod 256 ^ min sz 4)
           = le_bytes (min sz 4) (unat w mod 256 ^ min sz 4)"
    by (metis take_nonce1_bytes)
  then show "unat v mod 256 ^ min sz 4 = unat w mod 256 ^ min sz 4"
    by (metis le_value_bytes mod_less_divisor zero_less_numeral zero_less_power)
next
  assume eq: "unat v mod 256 ^ min sz 4 = unat w mod 256 ^ min sz 4"
  then have t: "take (min sz 4) (nonce1_bytes sz v) = take (min sz 4) (nonce1_bytes sz w)"
    by (simp add: take_nonce1_bytes)
  show "nonce1_bytes sz v = nonce1_bytes sz w"
  proof (rule nth_equalityI)
    fix i assume i: "i < length (nonce1_bytes sz v)"
    show "nonce1_bytes sz v ! i = nonce1_bytes sz w ! i"
    proof (cases "i < 4")
      case True
      then show ?thesis using i arg_cong [OF t, of "\<lambda>xs. xs ! i"] by simp
    next
      case False
      then show ?thesis using i by (simp add: nonce1_bytes_def)
    qed
  qed simp
qed

text \<open>The nonce of the \<open>n\<close>-th allocation, and the state after it.\<close>

fun allocate_n :: "hexlib \<Rightarrow> nat \<Rightarrow> nonce_allocator \<Rightarrow> string list \<times> nonce_allocator" where
  "allocate_n H 0 a = ([], a)"
| "allocate_n H (Suc n) a =
     (let (x, a') = allocate H a; (xs, a'') = allocate_n H n a' in (x # xs, a''))"

lemma allocate_n_nonces:
  "fst (allocate_n H n a) =
   map (\<lambda>i. hx_encode H (nonce1_bytes (nonce1_size a) (na_counter a + of_nat i))) [0..<n]"
proof (induction n arbitrary: a)
  case (Suc n)
  let ?f = "\<lambda>v. hx_encode H (nonce1_bytes (nonce1_size a) v)"
  have "map (\<lambda>i. ?f (na_counter a + of_nat i)) [0..<Suc n]
      = ?f (na_counter a) # map (\<lambda>i. ?f (na_counter a + 1 + of_nat i)) [0..<n]"
    by (simp add: upt_conv_Cons map_Suc_upt [symmetric] o_def algebra_simps del: upt_Suc)
  moreover have "fst (allocate_n H (Suc n) a)
      = ?f (na_counter a) # fst (allocate_n H n (a\<lparr>na_counter := na_counter a + 1\<rparr>))"
    by (simp add: allocate_def split_beta Let_def)
  ultimately show ?case using Suc [of "a\<lparr>na_counter := na_counter a + 1\<rparr>"] by simp
qed simp

lemma unat_add_mod:
  fixes c :: u32
  assumes "k \<le> 4"
  shows "unat (c + of_nat i) mod 256 ^ k = (unat c + i) mod 256 ^ k"
proof -
  have "unat (c + of_nat i) = (unat c + i) mod 2 ^ 32"
    by (simp add: unat_word_ariths unat_of_nat mod_add_right_eq)
  moreover have "(256::nat) ^ k dvd 2 ^ 32"
  proof -
    have "(256::nat) ^ k dvd 256 ^ 4" using assms by (rule le_imp_power_dvd)
    then show ?thesis by simp
  qed
  ultimately show ?thesis by (simp add: mod_mod_cancel)
qed

lemma mod_shift_inj:
  fixes a i j m :: nat
  assumes "(a + i) mod m = (a + j) mod m" "i < m" "j < m"
  shows "i = j"
proof -
  have *: "i = j" if "i \<le> j" "(a + j) mod m = (a + i) mod m" "j < m" for i j
  proof -
    have "m dvd j - i" using that mod_eq_dvd_iff_nat [of "a + i" "a + j" m] by simp
    then show ?thesis using that by (metis dvd_imp_le le_antisym diff_is_0_eq
        less_imp_diff_less linorder_not_less not_gr_zero)
  qed
  show ?thesis using * [of i j] * [of j i] assms by (cases "i \<le> j") auto
qed

end
