(* ===== verification/Stratum_Server.thy ===== *)
theory Stratum_Server
  imports Stratum_Messages Stratum_Session
begin

text \<open>
  \<open>crates/stratum/src/server.rs\<close>: the server shared by all miner connections, the handling
  of one request, and the life of one connection.  A socket's behaviour is an input: how
  many messages it takes before a write fails.  The channel to the validator is the list of
  events sent so far; the per-session channels are bounded queues.
\<close>

datatype stratum_event =
    ShareSubmitted (ev_session_id: string) (ev_request_id: json) (ev_worker_name: string)
      (ev_job_id: string) (ev_time: string) (ev_nonce_1: string) (ev_nonce_2: string)
      (ev_solution: string)
  | WorkerConnected (ev_session_id: string) (ev_worker_name: string) (ev_password: string)
      (ev_addr: string) (ev_local_port: nat)
  | SessionDisconnected (ev_session_id: string)
  | TargetSuggested (ev_session_id: string) (ev_target: string)

definition MAX_CONNECTIONS_PER_IP :: nat where
  "MAX_CONNECTIONS_PER_IP = 5"

definition SESSION_CHANNEL_CAPACITY :: nat where
  "SESSION_CHANNEL_CAPACITY = 64"

text \<open>
  \<open>srv_senders\<close> are the sessions with an entry in \<open>session_senders\<close>, \<open>srv_receivers\<close> those
  whose connection task still holds the receiving end.
\<close>

record server =
  srv_allocator :: nonce_allocator
  srv_events :: "stratum_event list"
  srv_broadcasts :: "server_message list"
  srv_senders :: "string set"
  srv_receivers :: "string set"
  srv_queues :: "string \<Rightarrow> server_message list"
  srv_latest_notify :: "server_message option"
  srv_ip_connections :: "string \<rightharpoonup> nat"
  srv_port_initial :: "nat \<rightharpoonup> f64 \<times> string"
  srv_fallback_initial :: "f64 \<times> string"

definition default_fallback :: "f64 \<times> string" where
  "default_fallback =
     (Fin 8192, ''000042e340f98608c00000000000000000000000000000000000000000000000'')"

definition new_server :: "nonce_allocator \<Rightarrow> server_message option \<Rightarrow> server" where
  "new_server a latest =
     \<lparr>srv_allocator = a, srv_events = [], srv_broadcasts = [], srv_senders = {},
      srv_receivers = {}, srv_queues = (\<lambda>_. []), srv_latest_notify = latest,
      srv_ip_connections = Map.empty, srv_port_initial = Map.empty,
      srv_fallback_initial = default_fallback\<rparr>"

definition set_initial_difficulty ::
  "(nat \<rightharpoonup> f64 \<times> string) \<Rightarrow> f64 \<times> string \<Rightarrow> server \<Rightarrow> server" where
  "set_initial_difficulty per_port fallback srv =
     srv\<lparr>srv_port_initial := per_port, srv_fallback_initial := fallback\<rparr>"

definition broadcast_notify :: "server_message \<Rightarrow> server \<Rightarrow> server" where
  "broadcast_notify msg srv = srv\<lparr>srv_broadcasts := srv_broadcasts srv @ [msg]\<rparr>"

text \<open>\<open>try_send\<close>: a full queue drops the message, a closed one ignores it.\<close>

definition send_to_session :: "string \<Rightarrow> server_message \<Rightarrow> server \<Rightarrow> server" where
  "send_to_session sid msg srv =
     (if sid \<in> srv_senders srv \<and> sid \<in> srv_receivers srv
         \<and> length (srv_queues srv sid) < SESSION_CHANNEL_CAPACITY
      then srv\<lparr>srv_queues := (srv_queues srv)(sid := srv_queues srv sid @ [msg])\<rparr>
      else srv)"

definition disconnect_session :: "string \<Rightarrow> server \<Rightarrow> server" where
  "disconnect_session sid srv = srv\<lparr>srv_senders := srv_senders srv - {sid}\<rparr>"

section \<open>Accepting connections\<close>

text \<open>The accept branch of \<open>listen\<close>, and what runs when the connection task ends.\<close>

definition ip_count :: "server \<Rightarrow> string \<Rightarrow> nat" where
  "ip_count srv ip = (case srv_ip_connections srv ip of None \<Rightarrow> 0 | Some n \<Rightarrow> n)"

definition accept_connection :: "string \<Rightarrow> server \<Rightarrow> bool \<times> server" where
  "accept_connection ip srv =
     (let n = ip_count srv ip in
      if MAX_CONNECTIONS_PER_IP \<le> n
      then (False, srv\<lparr>srv_ip_connections := (srv_ip_connections srv)(ip \<mapsto> n)\<rparr>)
      else (True, srv\<lparr>srv_ip_connections := (srv_ip_connections srv)(ip \<mapsto> n + 1)\<rparr>))"

definition release_connection :: "string \<Rightarrow> server \<Rightarrow> server" where
  "release_connection ip srv =
     (case srv_ip_connections srv ip of
        None \<Rightarrow> srv
      | Some n \<Rightarrow> srv\<lparr>srv_ip_connections := (srv_ip_connections srv)(ip \<mapsto> n - 1)\<rparr>)"

section \<open>Handling one request\<close>

definition push_event :: "stratum_event \<Rightarrow> server \<Rightarrow> server" where
  "push_event e srv = srv\<lparr>srv_events := srv_events srv @ [e]\<rparr>"

definition is_ascii_alphanumeric :: "char \<Rightarrow> bool" where
  "is_ascii_alphanumeric c = (let n = of_char c :: nat in
     48 \<le> n \<and> n \<le> 57 \<or> 65 \<le> n \<and> n \<le> 90 \<or> 97 \<le> n \<and> n \<le> 122)"

definition worker_name_ok :: "string \<Rightarrow> bool" where
  "worker_name_ok w \<longleftrightarrow> w \<noteq> [] \<and> length w \<le> 256 \<and>
     list_all (\<lambda>c. is_ascii_alphanumeric c \<or> c = CHR ''.'' \<or> c = CHR ''_'' \<or> c = CHR ''-'') w"

fun as_clean :: "server_message \<Rightarrow> server_message" where
  "as_clean (Notify j v p m r t b _) = Notify j v p m r t b True"
| "as_clean m = m"

definition subscribe_result :: "server \<Rightarrow> miner_session \<Rightarrow> json \<Rightarrow> server_message" where
  "subscribe_result srv s rid =
     SubscribeResult rid (ms_session_id s) (ms_nonce_1 s) (nonce2_size_of (srv_allocator srv))"

definition handle_subscribe ::
  "server \<Rightarrow> miner_session \<Rightarrow> json \<Rightarrow> nat \<Rightarrow> miner_session \<times> server_message list" where
  "handle_subscribe srv s rid port =
     (if subscribed s then (s, [subscribe_result srv s rid])
      else
        (let (difficulty, target) = (case srv_port_initial srv port of
               Some dt \<Rightarrow> dt | None \<Rightarrow> srv_fallback_initial srv) in
         (s\<lparr>subscribed := True\<rparr>,
          [subscribe_result srv s rid, SetDifficulty difficulty, SetTarget target]
          @ (case srv_latest_notify srv of None \<Rightarrow> [] | Some n \<Rightarrow> [as_clean n]))))"

definition handle_authorize ::
  "server \<Rightarrow> miner_session \<Rightarrow> json \<Rightarrow> string \<Rightarrow> string \<Rightarrow> string \<Rightarrow> nat \<Rightarrow>
   server \<times> miner_session \<times> server_message list" where
  "handle_authorize srv s rid w pw addr port =
     (if \<not> subscribed s then (srv, s, [AuthorizeResult rid False (Some not_subscribed)])
      else if \<not> worker_name_ok w then
        (srv, s, [AuthorizeResult rid False (Some (err_other
          ''Invalid worker name (allowed characters: A-Z a-z 0-9 . _ -)''))])
      else
        (let (_, s') = authorize_worker w s in
         (push_event (WorkerConnected (ms_session_id s) w pw addr port) srv, s',
          [AuthorizeResult rid True None])))"

definition handle_submit ::
  "server \<Rightarrow> miner_session \<Rightarrow> json \<Rightarrow> string \<Rightarrow> string \<Rightarrow> string \<Rightarrow> string \<Rightarrow> string \<Rightarrow>
   server \<times> server_message list" where
  "handle_submit srv s rid w j t n2 sol =
     (if \<not> is_worker_authorized w s then (srv, [SubmitResult rid False (Some unauthorized)])
      else (push_event (ShareSubmitted (ms_session_id s) rid w j t (ms_nonce_1 s) n2 sol) srv, []))"

fun handle_request ::
  "server \<Rightarrow> miner_session \<Rightarrow> client_request \<Rightarrow> string \<Rightarrow> nat \<Rightarrow>
   server \<times> miner_session \<times> server_message list" where
  "handle_request srv s (Subscribe rid _ _ _ _) addr port =
     (let (s', rs) = handle_subscribe srv s rid port in (srv, s', rs))"
| "handle_request srv s (Authorize rid w pw) addr port =
     handle_authorize srv s rid w pw addr port"
| "handle_request srv s (Submit rid w j t n2 sol) addr port =
     (let (srv', rs) = handle_submit srv s rid w j t n2 sol in (srv', s, rs))"
| "handle_request srv s (SuggestTarget rid target) addr port =
     (push_event (TargetSuggested (ms_session_id s) target) srv, s, [])"
| "handle_request srv s (ExtranonceSubscribe rid) addr port =
     (srv, s, [AuthorizeResult rid True None])"
| "handle_request srv s (Unknown rid m) addr port =
     (srv, s, [SubmitResult rid False (Some (err_other (''Unknown method: '' @ m)))])"

section \<open>The connection task\<close>

datatype wire_out = Wire server_message | Ping

record connection =
  c_session :: miner_session
  c_addr :: string
  c_port :: nat
  c_last_activity :: nanos
  c_out :: "wire_out list"

datatype conn_input =
    Frame raw_message
  | FrameError
  | FrameEof
  | Broadcast server_message
  | BroadcastLagged
  | SessionRecv
  | PingTick

text \<open>\<open>Failed\<close> is the early return of \<open>framed.send(..).await?\<close>, which skips the cleanup.\<close>

datatype conn_status = Running | Stopped | Failed

definition IDLE_TIMEOUT :: nanos where
  "IDLE_TIMEOUT = 300 * 10 ^ 9"

text \<open>The messages written before the socket fails, and whether all were.\<close>

definition send_all :: "nat option \<Rightarrow> wire_out list \<Rightarrow> wire_out list \<times> bool" where
  "send_all room msgs =
     (case room of
        None \<Rightarrow> (msgs, True)
      | Some k \<Rightarrow> if length msgs \<le> k then (msgs, True) else (take k msgs, False))"

definition open_connection ::
  "hexlib \<Rightarrow> string \<Rightarrow> string \<Rightarrow> nat \<Rightarrow> nanos \<Rightarrow> server \<Rightarrow> server \<times> connection" where
  "open_connection H sid addr port now srv =
     (let (n1, a) = allocate H (srv_allocator srv) in
      (srv\<lparr>srv_allocator := a, srv_senders := insert sid (srv_senders srv),
           srv_receivers := insert sid (srv_receivers srv),
           srv_queues := (srv_queues srv)(sid := [])\<rparr>,
       \<lparr>c_session = new_session sid n1, c_addr = addr, c_port = port,
        c_last_activity = now, c_out = []\<rparr>))"

fun conn_step ::
  "nanos \<Rightarrow> nat option \<Rightarrow> conn_input \<Rightarrow> server \<times> connection \<Rightarrow> (server \<times> connection) \<times> conn_status"
where
  "conn_step now room (Frame raw) (srv, c) =
     (let c1 = c\<lparr>c_last_activity := now\<rparr> in
      case parse_request raw of
        None \<Rightarrow> ((srv, c1), Running)
      | Some req \<Rightarrow>
          (let (srv', s', rs) = handle_request srv (c_session c1) req (c_addr c1) (c_port c1);
               (out, ok) = send_all room (map Wire rs) in
           ((srv', c1\<lparr>c_session := s', c_out := c_out c1 @ out\<rparr>),
            if ok then Running else Failed)))"
| "conn_step now room FrameError (srv, c) = ((srv, c\<lparr>c_last_activity := now\<rparr>), Stopped)"
| "conn_step now room FrameEof (srv, c) = ((srv, c\<lparr>c_last_activity := now\<rparr>), Stopped)"
| "conn_step now room (Broadcast m) (srv, c) =
     (let (out, ok) = send_all room [Wire m] in
      ((srv, c\<lparr>c_out := c_out c @ out\<rparr>), if ok then Running else Stopped))"
| "conn_step now room BroadcastLagged (srv, c) = ((srv, c), Running)"
| "conn_step now room SessionRecv (srv, c) =
     (let sid = ms_session_id (c_session c) in
      case srv_queues srv sid of
        m # ms \<Rightarrow>
          (let (out, ok) = send_all room [Wire m] in
           ((srv\<lparr>srv_queues := (srv_queues srv)(sid := ms)\<rparr>, c\<lparr>c_out := c_out c @ out\<rparr>),
            if ok then Running else Stopped))
      | [] \<Rightarrow> ((srv, c), if sid \<in> srv_senders srv then Running else Stopped))"
| "conn_step now room PingTick (srv, c) =
     (if IDLE_TIMEOUT < now - c_last_activity c then ((srv, c), Stopped)
      else (let (out, ok) = send_all room [Ping] in
        ((srv, c\<lparr>c_out := c_out c @ out\<rparr>), if ok then Running else Stopped)))"

definition cleanup_connection :: "string \<Rightarrow> server \<Rightarrow> server" where
  "cleanup_connection sid srv =
     push_event (SessionDisconnected sid)
       (srv\<lparr>srv_senders := srv_senders srv - {sid}, srv_receivers := srv_receivers srv - {sid}\<rparr>)"

definition drop_connection :: "string \<Rightarrow> server \<Rightarrow> server" where
  "drop_connection sid srv = srv\<lparr>srv_receivers := srv_receivers srv - {sid}\<rparr>"

text \<open>A connection over a list of (clock, socket room, input): \<open>handle_connection\<close>'s loop.\<close>

fun conn_run ::
  "(nanos \<times> nat option \<times> conn_input) list \<Rightarrow> server \<times> connection \<Rightarrow>
   (server \<times> connection) \<times> conn_status" where
  "conn_run [] st = (st, Running)"
| "conn_run ((now, room, i) # is) st =
     (case conn_step now room i st of
        (st', Running) \<Rightarrow> conn_run is st'
      | ((srv, c), Stopped) \<Rightarrow>
          ((cleanup_connection (ms_session_id (c_session c)) srv, c), Stopped)
      | ((srv, c), Failed) \<Rightarrow>
          ((drop_connection (ms_session_id (c_session c)) srv, c), Failed))"

end
