(* ===== verification/Stratum_Properties.thy ===== *)
theory Stratum_Properties
  imports Stratum_Codec Stratum_Server
begin

text \<open>
  Properties of the stratum server: framing, nonce allocation, and the life of all
  connections as a step relation over the shared server and the open connections.
\<close>

section \<open>Framing\<close>

text \<open>
  C28: Draining a buffer of encoded messages yields exactly those messages, in order, and
  leaves the bytes of an unfinished line in the buffer.
\<close>

theorem drain_encoded:
  assumes "\<forall>l \<in> set ls. newline \<notin> set l \<and> l \<noteq> [] \<and> from_slice l = Some (f l)"
    and "newline \<notin> set tail" "length tail \<le> MAX_LINE_LENGTH"
  shows "drain (length ls + 1) from_slice (wire ls @ tail) = (map f ls, tail)"
  using assms by (intro drain_wire_aux) auto

definition raw_of :: "bytes \<Rightarrow> raw_message" where
  "raw_of l = \<lparr>rm_id = None, rm_method = None, rm_params = None, rm_result = Some (JNum (PosInt (length l))),
     rm_error = None\<rparr>"

theorem drain_encoded_witness:
  "drain 3 (\<lambda>l. Some (raw_of l)) (wire [[123, 125], [123, 49, 125]] @ [123])
     = ([raw_of [123, 125], raw_of [123, 49, 125]], [123])"
proof -
  let ?ls = "[[123, 125], [123, 49, 125]] :: bytes list"
  have n: "length ?ls + 1 = 3" by simp
  have m: "map raw_of ?ls = [raw_of [123, 125], raw_of [123, 49, 125]]" by (simp only: list.map)
  have "drain (length ?ls + 1) (\<lambda>l. Some (raw_of l)) (wire ?ls @ [123]) = (map raw_of ?ls, [123])"
    by (rule drain_encoded) (auto simp: MAX_LINE_LENGTH_def)
  then show ?thesis unfolding n m .
qed

text \<open>
  An empty line stalls the decoder: it answers "need more bytes" although a complete
  message is buffered, so the stream delivers none of the messages behind the empty line.
\<close>

theorem empty_line_stalls:
  assumes "newline \<notin> set l" "l \<noteq> []" "from_slice l = Some m"
  shows "decode from_slice (newline # l @ newline # rest) = (Inr None, l @ newline # rest)
    \<and> drain k from_slice (newline # l @ newline # rest)
        = (if k = 0 then ([], newline # l @ newline # rest) else ([], l @ newline # rest))
    \<and> decode from_slice (l @ newline # rest) = (Inr (Some m), rest)"
proof -
  have 1: "decode from_slice (newline # l @ newline # rest) = (Inr None, l @ newline # rest)"
    by (simp add: decode_def)
  then have "drain k from_slice (newline # l @ newline # rest)
        = (if k = 0 then ([], newline # l @ newline # rest) else ([], l @ newline # rest))"
    by (cases k) simp_all
  then show ?thesis using 1 decode_line [OF assms(1,2), of from_slice rest] assms(3) by simp
qed

theorem empty_line_stalls_witness:
  "drain 5 (\<lambda>l. Some (raw_of l)) (10 # [123, 125] @ 10 # []) = ([], [123, 125, 10])"
  using empty_line_stalls [of "[123, 125]" "\<lambda>l. Some (raw_of l)" "raw_of [123, 125]" "[]" 5]
  by simp

section \<open>Server nonces\<close>

text \<open>
  Two of the first 256^min(size,4) allocations of a nonce allocator never return the same
  server nonce, whatever the counter started from.
\<close>

theorem nonces_distinct:
  assumes "hex_ok H" and "n \<le> 256 ^ min (nonce1_size a) 4"
  shows "distinct (fst (allocate_n H n a)) \<and> length (fst (allocate_n H n a)) = n"
proof -
  let ?k = "min (nonce1_size a) 4"
  let ?f = "\<lambda>i. hx_encode H (nonce1_bytes (nonce1_size a) (na_counter a + of_nat i))"
  have "inj_on ?f {0..<n}"
  proof (rule inj_onI)
    fix i j assume ij: "i \<in> {0..<n}" "j \<in> {0..<n}" and eq: "?f i = ?f j"
    have "nonce1_bytes (nonce1_size a) (na_counter a + of_nat i)
        = nonce1_bytes (nonce1_size a) (na_counter a + of_nat j)"
      using eq hex_encode_inj [OF assms(1)] by simp
    then have "(unat (na_counter a) + i) mod 256 ^ ?k = (unat (na_counter a) + j) mod 256 ^ ?k"
      by (simp add: nonce1_bytes_eq_iff unat_add_mod)
    moreover have "i < 256 ^ ?k" "j < 256 ^ ?k" using ij assms(2) by auto
    ultimately show "i = j" by (rule mod_shift_inj)
  qed
  then show ?thesis by (simp add: allocate_n_nonces distinct_map)
qed

theorem nonces_distinct_witness:
  "distinct (fst (allocate_n hex_ref 200 \<lparr>nonce1_size = 1, na_counter = 4294967200\<rparr>))"
  using nonces_distinct [OF hex_ok_ref, of 200 "\<lparr>nonce1_size = 1, na_counter = 4294967200\<rparr>"]
  by simp

section \<open>Subscribing\<close>

text \<open>
  A miner's first subscribe is answered with its server nonce, the difficulty and target of
  its port, and, when a job is cached, that job with \<open>clean_jobs\<close> set; a repeated subscribe
  only repeats the session data and changes nothing.
\<close>

theorem first_subscribe_is_clean:
  assumes "srv_latest_notify srv = Some (Notify j v p m r t b cl)"
  shows "handle_request srv s (Subscribe rid ua sid h pt) addr port =
    (if subscribed s
     then (srv, s, [SubscribeResult rid (ms_session_id s) (ms_nonce_1 s)
                      (32 - nonce1_size (srv_allocator srv))])
     else (srv, s\<lparr>subscribed := True\<rparr>,
       let dt = (case srv_port_initial srv port of Some x \<Rightarrow> x | None \<Rightarrow> srv_fallback_initial srv) in
       [SubscribeResult rid (ms_session_id s) (ms_nonce_1 s) (32 - nonce1_size (srv_allocator srv)),
        SetDifficulty (fst dt), SetTarget (snd dt), Notify j v p m r t b True]))"
  using assms
  by (auto simp: handle_subscribe_def subscribe_result_def nonce2_size_of_def Let_def split_beta
      split: option.split)

definition job_a :: server_message where
  "job_a = Notify ''1'' ''04000000'' ''aa'' ''bb'' ''cc'' ''00000000'' ''1f07ffff'' False"

theorem first_subscribe_is_clean_witness:
  "last (snd (snd (handle_request (new_server \<lparr>nonce1_size = 4, na_counter = 1\<rparr> (Some job_a))
      (new_session ''s'' ''01000000'') (Subscribe JNull ''ua'' None None None) ''ip'' 3333)))
   = Notify ''1'' ''04000000'' ''aa'' ''bb'' ''cc'' ''00000000'' ''1f07ffff'' True"
proof -
  have l: "srv_latest_notify (new_server \<lparr>nonce1_size = 4, na_counter = 1\<rparr> (Some job_a))
      = Some (Notify ''1'' ''04000000'' ''aa'' ''bb'' ''cc'' ''00000000'' ''1f07ffff'' False)"
    by (simp add: new_server_def job_a_def)
  show ?thesis
    unfolding first_subscribe_is_clean [OF l] by (simp add: new_session_def Let_def)
qed

section \<open>All connections\<close>

text \<open>
  The shared server with the list of open connection tasks.  \<open>ip_of\<close> is the IP part of a
  socket address; \<open>sid\<close> is a freshly generated session id.  A task that stops runs the
  cleanup; one that fails in a write returns early and only drops its receiver.  When a task
  is over, its IP slot is released.
\<close>

type_synonym net = "server \<times> connection list"

definition remove_at :: "nat \<Rightarrow> 'a list \<Rightarrow> 'a list" where
  "remove_at i xs = take i xs @ drop (Suc i) xs"

inductive net_step :: "hexlib \<Rightarrow> (string \<Rightarrow> string) \<Rightarrow> net \<Rightarrow> net \<Rightarrow> bool"
  for H :: hexlib and ip_of :: "string \<Rightarrow> string" where
  refuse: "accept_connection (ip_of addr) srv = (False, srv') \<Longrightarrow>
    net_step H ip_of (srv, cs) (srv', cs)"
| accept: "accept_connection (ip_of addr) srv = (True, srv1) \<Longrightarrow>
    open_connection H sid addr port now srv1 = (srv', c) \<Longrightarrow>
    net_step H ip_of (srv, cs) (srv', cs @ [c])"
| run: "i < length cs \<Longrightarrow> conn_step now room inp (srv, cs ! i) = ((srv', c), Running) \<Longrightarrow>
    net_step H ip_of (srv, cs) (srv', cs[i := c])"
| stop: "i < length cs \<Longrightarrow> conn_step now room inp (srv, cs ! i) = ((srv', c), Stopped) \<Longrightarrow>
    net_step H ip_of (srv, cs)
      (release_connection (ip_of (c_addr c)) (cleanup_connection (ms_session_id (c_session c)) srv'),
       remove_at i cs)"
| fail: "i < length cs \<Longrightarrow> conn_step now room inp (srv, cs ! i) = ((srv', c), Failed) \<Longrightarrow>
    net_step H ip_of (srv, cs)
      (release_connection (ip_of (c_addr c)) (drop_connection (ms_session_id (c_session c)) srv'),
       remove_at i cs)"

inductive net_reach :: "hexlib \<Rightarrow> (string \<Rightarrow> string) \<Rightarrow> net \<Rightarrow> net \<Rightarrow> bool"
  for H :: hexlib and ip_of :: "string \<Rightarrow> string" and n0 :: net where
  start: "net_reach H ip_of n0 n0"
| step: "net_reach H ip_of n0 n \<Longrightarrow> net_step H ip_of n n' \<Longrightarrow> net_reach H ip_of n0 n'"

inductive_cases net_stepE: "net_step H ip_of (srv, cs) n'"

subsection \<open>What one input does\<close>

lemma push_event_simps [simp]:
  "srv_ip_connections (push_event e srv) = srv_ip_connections srv"
  "srv_events (push_event e srv) = srv_events srv @ [e]"
  by (simp_all add: push_event_def)

lemma handle_request_ip:
  "handle_request srv s req addr port = (srv', s', rs) \<Longrightarrow>
   srv_ip_connections srv' = srv_ip_connections srv \<and> ms_session_id s' = ms_session_id s
   \<and> ms_nonce_1 s' = ms_nonce_1 s"
  by (cases req) (auto simp: handle_subscribe_def handle_authorize_def handle_submit_def
      authorize_worker_def split: if_splits prod.splits)

lemma conn_step_ip:
  "conn_step now room inp (srv, c) = ((srv', c'), st) \<Longrightarrow>
   srv_ip_connections srv' = srv_ip_connections srv \<and> c_addr c' = c_addr c
   \<and> ms_session_id (c_session c') = ms_session_id (c_session c)"
  by (cases inp) (auto simp: Let_def dest!: handle_request_ip split: option.splits prod.splits
      if_splits list.splits)

definition announced :: "stratum_event list \<Rightarrow> string \<Rightarrow> string \<Rightarrow> bool" where
  "announced evs sid w \<longleftrightarrow> (\<exists>pw addr port. WorkerConnected sid w pw addr port \<in> set evs)"

lemma announced_append: "announced evs sid w \<Longrightarrow> announced (evs @ evs') sid w"
  by (auto simp: announced_def)

text \<open>Every submitted share names a worker its session announced before, with a safe name.\<close>

definition well_announced :: "stratum_event list \<Rightarrow> bool" where
  "well_announced evs \<longleftrightarrow> (\<forall>xs ys sid rid w j t n1 n2 sol.
     evs = xs @ ShareSubmitted sid rid w j t n1 n2 sol # ys \<longrightarrow>
     announced xs sid w \<and> worker_name_ok w)"

lemma well_announced_Nil [simp]: "well_announced []"
  by (simp add: well_announced_def)

lemma well_announced_snoc:
  assumes "well_announced evs"
    "\<And>sid rid w j t n1 n2 sol. e = ShareSubmitted sid rid w j t n1 n2 sol \<Longrightarrow>
       announced evs sid w \<and> worker_name_ok w"
  shows "well_announced (evs @ [e])"
  unfolding well_announced_def
proof (intro allI impI)
  fix xs ys sid rid w j t n1 n2 sol
  assume eq: "evs @ [e] = xs @ ShareSubmitted sid rid w j t n1 n2 sol # ys"
  show "announced xs sid w \<and> worker_name_ok w"
  proof (cases ys rule: rev_cases)
    case Nil
    then have "evs = xs" "e = ShareSubmitted sid rid w j t n1 n2 sol" using eq by simp_all
    then show ?thesis using assms(2) by blast
  next
    case (snoc zs z)
    then have "evs = xs @ ShareSubmitted sid rid w j t n1 n2 sol # zs" using eq by simp
    then show ?thesis using assms(1) unfolding well_announced_def by blast
  qed
qed

definition session_announced :: "stratum_event list \<Rightarrow> miner_session \<Rightarrow> bool" where
  "session_announced evs s \<longleftrightarrow>
     (\<forall>w \<in> authorized_workers s. announced evs (ms_session_id s) w \<and> worker_name_ok w)"

lemma session_announced_append:
  "session_announced evs s \<Longrightarrow> session_announced (evs @ evs') s"
  by (auto simp: session_announced_def announced_append)

lemma handle_request_announced:
  assumes "handle_request srv s req addr port = (srv', s', rs)"
    and "well_announced (srv_events srv)" "session_announced (srv_events srv) s"
  shows "well_announced (srv_events srv') \<and> session_announced (srv_events srv') s'
    \<and> (\<exists>evs. srv_events srv' = srv_events srv @ evs)"
proof (cases req)
  case (Authorize rid w pw)
  show ?thesis
  proof (cases "subscribed s \<and> worker_name_ok w")
    case True
    then have "srv' = push_event (WorkerConnected (ms_session_id s) w pw addr port) srv"
      "s' = s\<lparr>authorized_workers := insert w (authorized_workers s)\<rparr>"
      using assms(1) Authorize by (auto simp: handle_authorize_def authorize_worker_def)
    moreover have "session_announced (srv_events srv @ [WorkerConnected (ms_session_id s) w pw addr port])
        (s\<lparr>authorized_workers := insert w (authorized_workers s)\<rparr>)"
    proof -
      let ?evs = "srv_events srv @ [WorkerConnected (ms_session_id s) w pw addr port]"
      have "announced ?evs (ms_session_id s) w" by (auto simp: announced_def)
      moreover have "session_announced ?evs s" by (rule session_announced_append [OF assms(3)])
      ultimately show ?thesis using True unfolding session_announced_def by simp
    qed
    ultimately show ?thesis using assms(2) by (auto intro!: well_announced_snoc)
  next
    case False
    then have "srv' = srv" "s' = s"
      using assms(1) Authorize by (auto simp: handle_authorize_def split: if_splits)
    then show ?thesis using assms(2,3) by simp
  qed
next
  case (Submit rid w j t n2 sol)
  show ?thesis
  proof (cases "w \<in> authorized_workers s")
    case True
    then have "srv' = push_event (ShareSubmitted (ms_session_id s) rid w j t (ms_nonce_1 s) n2 sol) srv"
      "s' = s"
      using assms(1) Submit by (auto simp: handle_submit_def is_worker_authorized_def)
    then show ?thesis
      using True assms(2,3)
      by (auto simp: session_announced_def announced_append intro!: well_announced_snoc)
  next
    case False
    then have "srv' = srv" "s' = s"
      using assms(1) Submit by (auto simp: handle_submit_def is_worker_authorized_def)
    then show ?thesis using assms(2,3) by simp
  qed
next
  case (SuggestTarget rid t)
  then have "srv' = push_event (TargetSuggested (ms_session_id s) t) srv" "s' = s"
    using assms(1) by auto
  then show ?thesis
    using assms(2,3) by (auto intro!: well_announced_snoc session_announced_append)
next
  case (Subscribe rid ua sid h pt)
  then have "srv' = srv" "authorized_workers s' = authorized_workers s"
    "ms_session_id s' = ms_session_id s"
    using assms(1) by (auto simp: handle_subscribe_def split: if_splits prod.splits)
  then show ?thesis using assms(2,3) by (auto simp: session_announced_def)
qed (use assms in auto)

lemma conn_step_announced:
  assumes "conn_step now room inp (srv, c) = ((srv', c'), st)"
    and W: "well_announced (srv_events srv)" and S: "session_announced (srv_events srv) (c_session c)"
  shows "well_announced (srv_events srv') \<and> session_announced (srv_events srv') (c_session c')
    \<and> (\<exists>evs. srv_events srv' = srv_events srv @ evs)"
proof (cases inp)
  case (Frame raw)
  show ?thesis
  proof (cases "parse_request raw")
    case None
    then show ?thesis using assms Frame by auto
  next
    case (Some req)
    obtain srv1 s1 rs where h: "handle_request srv (c_session c) req (c_addr c) (c_port c) = (srv1, s1, rs)"
      by (metis prod.exhaust)
    have "srv' = srv1" "c_session c' = s1"
      using assms(1) Frame Some h by (auto simp: Let_def split: prod.splits)
    then show ?thesis using handle_request_announced [OF h W S] by simp
  qed
qed (use assms in \<open>auto simp: Let_def split: prod.splits if_splits list.splits\<close>)

subsection \<open>The invariant\<close>

definition net_inv :: "(string \<Rightarrow> string) \<Rightarrow> net \<Rightarrow> bool" where
  "net_inv ip_of n \<longleftrightarrow>
     (\<forall>ip. ip_count (fst n) ip = length (filter (\<lambda>c. ip_of (c_addr c) = ip) (snd n))
           \<and> length (filter (\<lambda>c. ip_of (c_addr c) = ip) (snd n)) \<le> MAX_CONNECTIONS_PER_IP)
     \<and> well_announced (srv_events (fst n))
     \<and> (\<forall>c \<in> set (snd n). session_announced (srv_events (fst n)) (c_session c))"

lemma ip_count_cong: "srv_ip_connections srv' = srv_ip_connections srv \<Longrightarrow> ip_count srv' = ip_count srv"
  by (simp add: ip_count_def fun_eq_iff)

lemma ip_count_release:
  "ip_count (release_connection ip srv) jp = ip_count srv jp - (if jp = ip then 1 else 0)"
  by (auto simp: release_connection_def ip_count_def split: option.split)

lemma release_events [simp]: "srv_events (release_connection ip srv) = srv_events srv"
  by (simp add: release_connection_def split: option.split)

lemma filter_list_update_same:
  "i < length cs \<Longrightarrow> P c = P (cs ! i) \<Longrightarrow>
   length (filter P (cs[i := c])) = length (filter P cs)"
  by (induction cs arbitrary: i) (auto split: nat.split)

lemma filter_remove_at:
  "i < length cs \<Longrightarrow>
   length (filter P (remove_at i cs)) = length (filter P cs) - (if P (cs ! i) then 1 else 0)"
proof -
  assume i: "i < length cs"
  then have "cs = take i cs @ cs ! i # drop (Suc i) cs" by (rule id_take_nth_drop)
  then have "length (filter P cs) = length (filter P (take i cs @ cs ! i # drop (Suc i) cs))" by simp
  then show ?thesis by (simp add: remove_at_def)
qed

lemma set_remove_at: "set (remove_at i cs) \<subseteq> set cs"
  by (auto simp: remove_at_def dest: in_set_takeD in_set_dropD)

lemma session_announced_mono:
  "srv_events srv' = srv_events srv @ evs \<Longrightarrow> session_announced (srv_events srv) s \<Longrightarrow>
   session_announced (srv_events srv') s"
  by (simp add: session_announced_append)

lemma net_inv_removed:
  assumes inv: "net_inv ip_of (srv, cs)" and i: "i < length cs"
    and step: "conn_step now room inp (srv, cs ! i) = ((srv', c), st)"
    and ip: "srv_ip_connections srv2 = srv_ip_connections srv'"
    and ev: "well_announced (srv_events srv2)" "\<exists>evs. srv_events srv2 = srv_events srv' @ evs"
  shows "net_inv ip_of (release_connection (ip_of (c_addr c)) srv2, remove_at i cs)"
proof -
  note C = conn_step_ip [OF step]
  have S: "session_announced (srv_events srv) (c_session (cs ! i))" using inv i by (simp add: net_inv_def)
  have A: "\<exists>evs. srv_events srv' = srv_events srv @ evs"
    using conn_step_announced [OF step _ S] inv by (simp add: net_inv_def)
  have cnt: "ip_count srv2 = ip_count srv" using C ip by (intro ip_count_cong) simp
  have "session_announced (srv_events srv2) (c_session d)" if "d \<in> set (remove_at i cs)" for d
  proof -
    have "session_announced (srv_events srv) (c_session d)"
      using that set_remove_at inv by (fastforce simp: net_inv_def)
    then show ?thesis using A ev(2) by (auto simp: session_announced_append)
  qed
  moreover have "ip_count (release_connection (ip_of (c_addr c)) srv2) ip
      = length (filter (\<lambda>c. ip_of (c_addr c) = ip) (remove_at i cs))
    \<and> length (filter (\<lambda>c. ip_of (c_addr c) = ip) (remove_at i cs)) \<le> MAX_CONNECTIONS_PER_IP" for ip
  proof -
    have "ip_count srv ip = length (filter (\<lambda>c. ip_of (c_addr c) = ip) cs)"
      "length (filter (\<lambda>c. ip_of (c_addr c) = ip) cs) \<le> MAX_CONNECTIONS_PER_IP"
      using inv by (simp_all add: net_inv_def)
    then show ?thesis
      using i C cnt ip_count_release [of "ip_of (c_addr c)" srv2 ip]
        filter_remove_at [OF i, of "\<lambda>c. ip_of (c_addr c) = ip"]
      by (cases "ip_of (c_addr (cs ! i)) = ip") simp_all
  qed
  ultimately show ?thesis using ev(1) by (simp add: net_inv_def)
qed

lemma net_inv_step:
  assumes "net_step H ip_of n n'" "net_inv ip_of n"
  shows "net_inv ip_of n'"
proof -
  obtain srv cs where n: "n = (srv, cs)" by (cases n)
  from assms(1) [unfolded n] show ?thesis
  proof (cases rule: net_stepE [consumes 1, case_names refuse accept run stop fail])
    case (refuse addr srv')
    then have "srv_events srv' = srv_events srv" "ip_count srv' = ip_count srv"
      by (auto simp: accept_connection_def ip_count_def Let_def fun_eq_iff split: if_splits)
    then show ?thesis using refuse assms(2) n by (simp add: net_inv_def)
  next
    case (accept addr srv1 sid port now srv' c)
    have s1: "srv_events srv1 = srv_events srv" "ip_count srv (ip_of addr) < MAX_CONNECTIONS_PER_IP"
      "ip_count srv1 jp = ip_count srv jp + (if jp = ip_of addr then 1 else 0)" for jp
      using accept(2) by (auto simp: accept_connection_def ip_count_def Let_def split: if_splits)
    have c: "srv_events srv' = srv_events srv1" "srv_ip_connections srv' = srv_ip_connections srv1"
      "c_addr c = addr" "authorized_workers (c_session c) = {}"
      using accept(3) by (auto simp: open_connection_def Let_def new_session_def split: prod.splits)
    show ?thesis
      using accept(1) assms(2) n s1 c ip_count_cong [OF c(2)]
      by (auto simp: net_inv_def session_announced_def Suc_le_eq)
  next
    case (run i now room inp srv' c)
    note C = conn_step_ip [OF run(3)]
    have S: "session_announced (srv_events srv) (c_session (cs ! i))"
      using assms(2) n run(2) by (simp add: net_inv_def)
    note A = conn_step_announced [OF run(3) _ S]
    have "session_announced (srv_events srv') (c_session d)" if "d \<in> set (cs[i := c])" for d
    proof -
      have "d = c \<or> d \<in> set cs" using that set_update_subset_insert by fastforce
      then show ?thesis using A assms(2) n by (auto simp: net_inv_def session_announced_append)
    qed
    moreover have "length (filter (\<lambda>c. ip_of (c_addr c) = ip) (cs[i := c]))
        = length (filter (\<lambda>c. ip_of (c_addr c) = ip) cs)" for ip
      using run(2) C by (intro filter_list_update_same) simp_all
    moreover have "ip_count srv' = ip_count srv" using C by (intro ip_count_cong) simp
    ultimately show ?thesis using run(1) A assms(2) n by (simp add: net_inv_def)
  next
    case (stop i now room inp srv' c)
    have S: "session_announced (srv_events srv) (c_session (cs ! i))"
      using assms(2) n stop(2) by (simp add: net_inv_def)
    note A = conn_step_announced [OF stop(3) _ S]
    have "well_announced (srv_events srv' @ [SessionDisconnected (ms_session_id (c_session c))])"
      using A assms(2) n by (intro well_announced_snoc) (auto simp: net_inv_def)
    then show ?thesis
      unfolding stop(1) using assms(2) n stop
      by (intro net_inv_removed [OF _ stop(2,3)]) (auto simp: cleanup_connection_def)
  next
    case (fail i now room inp srv' c)
    have S: "session_announced (srv_events srv) (c_session (cs ! i))"
      using assms(2) n fail(2) by (simp add: net_inv_def)
    note A = conn_step_announced [OF fail(3) _ S]
    then show ?thesis
      unfolding fail(1) using assms(2) n fail
      by (intro net_inv_removed [OF _ fail(2,3)]) (auto simp: drop_connection_def net_inv_def)
  qed
qed

lemma net_inv_start: "net_inv ip_of (new_server a latest, [])"
  by (simp add: net_inv_def new_server_def ip_count_def)

lemma net_inv_reach: "net_reach H ip_of n0 n \<Longrightarrow> net_inv ip_of n0 \<Longrightarrow> net_inv ip_of n"
  by (induction rule: net_reach.induct) (auto intro: net_inv_step)

subsection \<open>Properties of every reachable state\<close>

text \<open>
  C26: In every reachable state of the server the per-IP counters equal the number of open
  connection tasks of that address, and no address has more than five.
\<close>

theorem per_ip_limit:
  assumes "net_reach H ip_of (new_server a latest, []) (srv, cs)"
  shows "ip_count srv ip = length (filter (\<lambda>c. ip_of (c_addr c) = ip) cs)
    \<and> length (filter (\<lambda>c. ip_of (c_addr c) = ip) cs) \<le> 5"
  using net_inv_reach [OF assms net_inv_start]
  by (simp add: net_inv_def MAX_CONNECTIONS_PER_IP_def)

definition net_a :: net where
  "net_a = (let (srv, c) = open_connection hex_ref ''s1'' ''10.0.0.9:1'' 3333 0
      (snd (accept_connection ''10.0.0.9:1'' (new_server \<lparr>nonce1_size = 4, na_counter = 1\<rparr> None))) in
    (srv, [c]))"

lemma net_a_reach: "net_reach hex_ref id (new_server \<lparr>nonce1_size = 4, na_counter = 1\<rparr> None, []) net_a"
proof -
  let ?s0 = "new_server \<lparr>nonce1_size = 4, na_counter = 1\<rparr> None"
  obtain srv c where o: "open_connection hex_ref ''s1'' ''10.0.0.9:1'' 3333 0
      (snd (accept_connection ''10.0.0.9:1'' ?s0)) = (srv, c)" by fastforce
  have ac: "accept_connection (id ''10.0.0.9:1'') ?s0
      = (True, snd (accept_connection ''10.0.0.9:1'' ?s0))"
    by (simp add: accept_connection_def new_server_def ip_count_def MAX_CONNECTIONS_PER_IP_def)
  have "net_step hex_ref id (?s0, []) (srv, [] @ [c])"
    using ac o by (rule net_step.accept [where ip_of = id and addr = "''10.0.0.9:1''"])
  moreover have "net_a = (srv, [c])" using o by (simp add: net_a_def)
  ultimately show ?thesis by (auto intro: net_reach.intros)
qed

theorem per_ip_limit_witness:
  "ip_count (fst net_a) ''10.0.0.9:1'' = 1 \<and> length (snd net_a) = 1"
proof -
  have e: "c_addr (hd (snd net_a)) = ''10.0.0.9:1''" "length (snd net_a) = 1"
    by (simp_all add: net_a_def open_connection_def split_beta Let_def)
  then have n: "snd net_a = [hd (snd net_a)]" by (cases "snd net_a") auto
  have "length (filter (\<lambda>c. id (c_addr c) = ''10.0.0.9:1'') (snd net_a)) = 1"
    by (subst n) (simp add: e(1))
  then show ?thesis
    using per_ip_limit [of hex_ref id _ None "fst net_a" "snd net_a" "''10.0.0.9:1''"] net_a_reach e(2)
    by simp
qed

text \<open>
  C27: Whatever the miners send and however the connection tasks interleave, every share that
  reaches the validator names a worker its session announced earlier, and the name consists of
  1 to 256 letters, digits, dots, underscores and dashes.
\<close>

theorem shares_from_announced_workers:
  assumes "net_reach H ip_of (new_server a latest, []) (srv, cs)"
    and "srv_events srv = xs @ ShareSubmitted sid rid w j t n1 n2 sol # ys"
  shows "(\<exists>pw addr port. WorkerConnected sid w pw addr port \<in> set xs)
    \<and> w \<noteq> [] \<and> length w \<le> 256
    \<and> (\<forall>c \<in> set w. is_ascii_alphanumeric c \<or> c = CHR ''.'' \<or> c = CHR ''_'' \<or> c = CHR ''-'')"
proof -
  have "well_announced (srv_events srv)"
    using net_inv_reach [OF assms(1) net_inv_start] by (simp add: net_inv_def)
  then have "announced xs sid w \<and> worker_name_ok w"
    using assms(2) unfolding well_announced_def by blast
  then show ?thesis by (auto simp: announced_def worker_name_ok_def list_all_iff)
qed

definition msg_of :: "json \<Rightarrow> string \<Rightarrow> json list \<Rightarrow> raw_message" where
  "msg_of rid m ps = \<lparr>rm_id = Some rid, rm_method = Some m, rm_params = Some (JArr ps),
     rm_result = None, rm_error = None\<rparr>"

definition inputs_a :: "conn_input list" where
  "inputs_a =
     [Frame (msg_of (JNum (PosInt 1)) ''mining.subscribe'' [JStr ''ua'']),
      Frame (msg_of (JNum (PosInt 2)) ''mining.authorize'' [JStr ''t1x.rig'', JStr ''x'']),
      Frame (msg_of (JNum (PosInt 3)) ''mining.submit''
        [JStr ''t1x.rig'', JStr ''j'', JStr ''t'', JStr ''n'', JStr ''s''])]"

fun feed :: "conn_input list \<Rightarrow> server \<times> connection \<Rightarrow> server \<times> connection" where
  "feed [] st = st"
| "feed (i # is) st = feed is (fst (conn_step 0 None i st))"

lemma feed_reach:
  assumes "net_reach H ip_of n0 (srv, [c])"
    and "list_all (\<lambda>i. \<exists>raw. i = Frame raw) is" "feed is (srv, c) = (srv', c')"
  shows "net_reach H ip_of n0 (srv', [c'])"
  using assms
proof (induction "is" arbitrary: srv c)
  case (Cons i "is")
  then obtain raw where i: "i = Frame raw" by auto
  obtain srv1 c1 st where s: "conn_step 0 None i (srv, c) = ((srv1, c1), st)" by (metis prod.exhaust)
  have "st = Running" using s i
    by (auto simp: Let_def send_all_def split: option.splits prod.splits)
  then have "net_step H ip_of (srv, [c]) (srv1, [c][0 := c1])"
    using s by (intro net_step.run [of 0 "[c]" 0 None i]) simp_all
  then have "net_reach H ip_of n0 (srv1, [c1])"
    using Cons.prems(1) by (auto intro: net_reach.step)
  then show ?case using Cons.IH Cons.prems(2,3) s by simp
qed simp

theorem shares_from_announced_workers_witness:
  "srv_events (fst (feed inputs_a (fst net_a, hd (snd net_a))))
     = [WorkerConnected ''s1'' ''t1x.rig'' ''x'' ''10.0.0.9:1'' 3333,
        ShareSubmitted ''s1'' (JNum (PosInt 3)) ''t1x.rig'' ''j'' ''t'' ''01000000'' ''n'' ''s'']
   \<and> (\<exists>pw addr port. WorkerConnected ''s1'' ''t1x.rig'' pw addr port
        \<in> set [WorkerConnected ''s1'' ''t1x.rig'' ''x'' ''10.0.0.9:1'' 3333])"
proof -
  let ?f = "feed inputs_a (fst net_a, hd (snd net_a))"
  have e: "srv_events (fst ?f)
     = [WorkerConnected ''s1'' ''t1x.rig'' ''x'' ''10.0.0.9:1'' 3333]
       @ ShareSubmitted ''s1'' (JNum (PosInt 3)) ''t1x.rig'' ''j'' ''t'' ''01000000'' ''n'' ''s'' # []"
    by code_simp
  have "snd net_a = [hd (snd net_a)]" by code_simp
  then have r: "net_reach hex_ref id (new_server \<lparr>nonce1_size = 4, na_counter = 1\<rparr> None, [])
      (fst net_a, [hd (snd net_a)])"
    using net_a_reach by (metis prod.collapse)
  have "net_reach hex_ref id (new_server \<lparr>nonce1_size = 4, na_counter = 1\<rparr> None, []) (fst ?f, [snd ?f])"
    by (rule feed_reach [OF r, of inputs_a]) (simp_all add: inputs_a_def)
  from shares_from_announced_workers [OF this e] e show ?thesis by simp
qed

text \<open>
  A write error while answering a request ends the connection task without its cleanup: the
  session stays registered and the validator is never told that it disconnected, while a write
  error on a broadcast runs the cleanup.
\<close>

theorem request_write_error_leaks_session:
  assumes "parse_request raw = Some req"
    and "handle_request srv (c_session c) req (c_addr c) (c_port c) = (srv1, s1, rs)"
    and "k < length rs" and "ms_session_id (c_session c) \<in> srv_senders srv"
  shows "\<exists>c1. conn_run [(now, Some k, Frame raw)] (srv, c)
      = ((drop_connection (ms_session_id s1) srv1, c1), Failed)
    \<and> ms_session_id (c_session c) \<in> srv_senders (drop_connection (ms_session_id s1) srv1)
    \<and> srv_events (drop_connection (ms_session_id s1) srv1) = srv_events srv1
    \<and> snd (conn_run [(now, Some 0, Broadcast m)] (srv, c)) = Stopped
    \<and> SessionDisconnected (ms_session_id (c_session c))
        \<in> set (srv_events (fst (fst (conn_run [(now, Some 0, Broadcast m)] (srv, c)))))"
proof -
  have "srv_senders srv1 = srv_senders srv"
    using assms(2) by (cases req) (auto simp: handle_subscribe_def handle_authorize_def
        handle_submit_def push_event_def split: if_splits prod.splits)
  then show ?thesis
    using assms by (simp add: send_all_def Let_def drop_connection_def cleanup_connection_def push_event_def)
qed

theorem request_write_error_leaks_session_witness:
  "\<exists>c1. conn_run [(0, Some 0, hd inputs_a)] (fst net_a, hd (snd net_a))
      = ((drop_connection ''s1'' (fst net_a), c1), Failed)
    \<and> ''s1'' \<in> srv_senders (drop_connection ''s1'' (fst net_a))
    \<and> srv_events (drop_connection ''s1'' (fst net_a)) = []"
proof -
  let ?srv = "fst net_a" and ?c = "hd (snd net_a)"
  let ?raw = "msg_of (JNum (PosInt 1)) ''mining.subscribe'' [JStr ''ua'']"
  let ?req = "Subscribe (JNum (PosInt 1)) ''ua'' None None None"
  have 1: "parse_request ?raw = Some ?req" by code_simp
  have 2: "handle_request ?srv (c_session ?c) ?req (c_addr ?c) (c_port ?c)
      = (?srv, (c_session ?c)\<lparr>subscribed := True\<rparr>, snd (handle_subscribe ?srv (c_session ?c) (JNum (PosInt 1)) 3333))"
    by (simp add: net_a_def open_connection_def Let_def split_beta new_session_def handle_subscribe_def)
  have 3: "0 < length (snd (handle_subscribe ?srv (c_session ?c) (JNum (PosInt 1)) 3333))"
    by (simp add: net_a_def open_connection_def Let_def split_beta new_session_def handle_subscribe_def)
  have 4: "ms_session_id (c_session ?c) = ''s1''" "''s1'' \<in> srv_senders ?srv" "srv_events ?srv = []"
    by (simp_all add: net_a_def open_connection_def Let_def split_beta new_session_def
        accept_connection_def new_server_def)
  have h: "hd inputs_a = Frame ?raw" by (simp add: inputs_a_def)
  have s: "ms_session_id ((c_session ?c)\<lparr>subscribed := True\<rparr>) = ''s1''" using 4(1) by simp
  from request_write_error_leaks_session [OF 1 2 3, of 0 "SetDifficulty (Fin 1)"] 4
  show ?thesis unfolding h s by auto
qed

text \<open>
  A per-session queue never holds more than 64 messages: sending to a session never waits,
  and when the queue is full or the session is gone the message is dropped and nothing changes.
\<close>

theorem send_to_session_bounded:
  "length (srv_queues (send_to_session sid m srv) sid) \<le> max 64 (length (srv_queues srv sid))
   \<and> (length (srv_queues srv sid) < 64 \<and> sid \<in> srv_senders srv \<and> sid \<in> srv_receivers srv
        \<and> srv_queues (send_to_session sid m srv) sid = srv_queues srv sid @ [m]
      \<or> send_to_session sid m srv = srv)
   \<and> (sid' = sid \<or> srv_queues (send_to_session sid m srv) sid' = srv_queues srv sid')"
  by (auto simp: send_to_session_def SESSION_CHANNEL_CAPACITY_def)

end
