(* ===== verification/Db_Core.thy ===== *)
theory Db_Core
  imports Json
begin

text \<open>
  The tables of \<open>crates/pool-db/migrations\<close> and the execution of SQL statements.  A table is
  a list of rows in insertion order; \<open>db_seq\<close> is SQLite's \<open>sqlite_sequence\<close> (the last
  \<open>AUTOINCREMENT\<close> id of each table).  A \<open>created_at\<close> text column is its instant in seconds
  (\<open>datetime('now')\<close> has second resolution and sorts like the instant); \<open>db_clock\<close> is what
  \<open>datetime('now')\<close> reads.  \<open>db_fk\<close> says whether the connection enforces foreign keys.

  A statement can fail for reasons outside the tables (busy, I/O, closed pool): \<open>db_faults\<close>
  is the schedule of these failures, one entry per statement, consumed from the front; an
  exhausted schedule means no further failures.  Theorems hold for every schedule.
  Errors that the tables determine (no row, a violated constraint) are computed.
\<close>

section \<open>Rows and tables\<close>

record miner_row =
  mi_id :: int
  mi_address :: string
  mi_created :: int

record worker_row =
  wk_id :: int
  wk_miner :: int
  wk_name :: string
  wk_last_seen :: int
  wk_last_difficulty :: "f64 option"

record share_row =
  sh_id :: int
  sh_worker :: int
  sh_job :: string
  sh_difficulty :: f64
  sh_is_block :: bool
  sh_created :: int
  sh_session :: "string option"

record block_row =
  bk_id :: int
  bk_height :: int
  bk_hash :: string
  bk_reward :: int
  bk_status :: string
  bk_found_by :: "int option"
  bk_created :: int
  bk_luck :: "f64 option"
  bk_actual :: "int option"
  bk_costs :: int

record balance_row =
  bl_miner :: int
  bl_pending :: int
  bl_paid :: int
  bl_paying :: int

record payout_row =
  po_id :: int
  po_miner :: int
  po_txid :: "string option"
  po_amount :: int
  po_created :: int

record attempt_row =
  at_id :: int
  at_opid :: "string option"
  at_txid :: "string option"
  at_status :: string
  at_miner_count :: int
  at_total :: int
  at_source :: string
  at_error :: "string option"
  at_created :: int
  at_updated :: int

record item_row =
  it_id :: int
  it_attempt :: int
  it_miner :: int
  it_amount :: int
  it_created :: int

record credit_row =
  cr_block :: int
  cr_miner :: int
  cr_amount :: int

record clawback_row =
  cb_id :: int
  cb_block :: int
  cb_miner :: int
  cb_amount :: int
  cb_created :: int
  cb_acked :: bool
  cb_note :: "string option"

record cost_row =
  tc_id :: int
  tc_kind :: string
  tc_ref :: "string option"
  tc_fee :: int
  tc_recovered :: bool
  tc_created :: int

record submission_row =
  su_id :: int
  su_height :: int
  su_hash :: string
  su_worker :: int
  su_reward :: int
  su_actual :: "int option"
  su_resolved :: bool
  su_outcome :: "string option"
  su_created :: int

record rollup_row =
  ru_bucket :: int
  ru_cnt :: int
  ru_sum :: f64

record label_row =
  lb_address :: string
  lb_name :: string
  lb_note :: string
  lb_updated :: int

record status_row =
  ps_key :: string
  ps_value :: string
  ps_updated :: int

record db =
  miners :: "miner_row list"
  workers :: "worker_row list"
  shares :: "share_row list"
  blocks :: "block_row list"
  balances :: "balance_row list"
  payouts :: "payout_row list"
  attempts :: "attempt_row list"
  items :: "item_row list"
  credits :: "credit_row list"
  clawbacks :: "clawback_row list"
  tx_costs :: "cost_row list"
  submissions :: "submission_row list"
  rollups :: "rollup_row list"
  labels :: "label_row list"
  statuses :: "status_row list"
  db_seq :: "string \<Rightarrow> int"
  db_clock :: int
  db_fk :: bool
  db_faults :: "bool list"

definition empty_db :: "bool \<Rightarrow> int \<Rightarrow> bool list \<Rightarrow> db" where
  "empty_db fk clock faults =
     \<lparr>miners = [], workers = [], shares = [], blocks = [], balances = [], payouts = [],
      attempts = [], items = [], credits = [], clawbacks = [], tx_costs = [],
      submissions = [], rollups = [], labels = [], statuses = [], db_seq = (\<lambda>_. 0),
      db_clock = clock, db_fk = fk, db_faults = faults\<rparr>"

section \<open>Errors and the statement monad\<close>

datatype sqlx_error =
    Transient
  | RowNotFound
  | UniqueViolation
  | ForeignKeyViolation
  | NotNullViolation
  | ColumnDecode
  | Protocol string

datatype db_error =
    Sqlx sqlx_error
  | InsufficientPending (ip_miner_id: int) (ip_amount: int)

type_synonym 'a dbm = "db \<Rightarrow> (db_error + 'a) \<times> db"

definition dret :: "'a \<Rightarrow> 'a dbm" where
  "dret a s = (Inr a, s)"

definition draise :: "db_error \<Rightarrow> 'a dbm" where
  "draise e s = (Inl e, s)"

definition dbind :: "'a dbm \<Rightarrow> ('a \<Rightarrow> 'b dbm) \<Rightarrow> 'b dbm" where
  "dbind m k s = (case m s of (Inl e, s') \<Rightarrow> (Inl e, s') | (Inr a, s') \<Rightarrow> k a s')"

definition dseq :: "'a dbm \<Rightarrow> 'b dbm \<Rightarrow> 'b dbm" where
  "dseq m n = dbind m (\<lambda>_. n)"

definition dwhen :: "bool \<Rightarrow> unit dbm \<Rightarrow> unit dbm" where
  "dwhen c m = (if c then m else dret ())"

text \<open>Whether the next statement fails, and the state with its entry consumed.\<close>

definition tick :: "db \<Rightarrow> bool \<times> db" where
  "tick s = (case db_faults s of [] \<Rightarrow> (False, s) | b # bs \<Rightarrow> (b, s\<lparr>db_faults := bs\<rparr>))"

definition stmt :: "'a dbm \<Rightarrow> 'a dbm" where
  "stmt f s = (case tick s of (True, s') \<Rightarrow> (Inl (Sqlx Transient), s') | (False, s') \<Rightarrow> f s')"

definition select :: "(db \<Rightarrow> 'a) \<Rightarrow> 'a dbm" where
  "select f = stmt (\<lambda>s. (Inr (f s), s))"

definition fetch_one :: "(db \<Rightarrow> 'a list) \<Rightarrow> 'a dbm" where
  "fetch_one f = stmt (\<lambda>s. case f s of [] \<Rightarrow> (Inl (Sqlx RowNotFound), s) | x # _ \<Rightarrow> (Inr x, s))"

definition fetch_optional :: "(db \<Rightarrow> 'a list) \<Rightarrow> 'a option dbm" where
  "fetch_optional f = select (\<lambda>s. case f s of [] \<Rightarrow> None | x # _ \<Rightarrow> Some x)"

definition modify :: "(db \<Rightarrow> db) \<Rightarrow> unit dbm" where
  "modify f = stmt (\<lambda>s. (Inr (), f s))"

text \<open>\<open>BEGIN .. COMMIT\<close>, with \<open>ROLLBACK\<close> when the body or the commit fails.\<close>

definition rollback_to :: "db \<Rightarrow> db \<Rightarrow> db" where
  "rollback_to s0 s1 = s0\<lparr>db_faults := db_faults s1\<rparr>"

definition txn :: "'a dbm \<Rightarrow> 'a dbm" where
  "txn m s =
     (case tick s of
        (True, s0) \<Rightarrow> (Inl (Sqlx Transient), s0)
      | (False, s0) \<Rightarrow>
          (case m s0 of
             (Inl e, s1) \<Rightarrow> (Inl e, rollback_to s0 s1)
           | (Inr v, s1) \<Rightarrow>
               (case tick s1 of
                  (True, s2) \<Rightarrow> (Inl (Sqlx Transient), rollback_to s0 s2)
                | (False, s2) \<Rightarrow> (Inr v, s2))))"

primrec dfold :: "('b \<Rightarrow> 'a \<Rightarrow> 'b dbm) \<Rightarrow> 'b \<Rightarrow> 'a list \<Rightarrow> 'b dbm" where
  "dfold f acc [] = dret acc"
| "dfold f acc (x # xs) = dbind (f acc x) (\<lambda>acc'. dfold f acc' xs)"

definition dfor :: "'a list \<Rightarrow> ('a \<Rightarrow> unit dbm) \<Rightarrow> unit dbm" where
  "dfor xs f = dfold (\<lambda>_ x. f x) () xs"

section \<open>SQL on tables\<close>

text \<open>\<open>UPDATE .. SET f WHERE c\<close> and \<open>rows_affected\<close>.\<close>

definition upd_where :: "('r \<Rightarrow> bool) \<Rightarrow> ('r \<Rightarrow> 'r) \<Rightarrow> 'r list \<Rightarrow> 'r list" where
  "upd_where c f rows = map (\<lambda>r. if c r then f r else r) rows"

definition count_where :: "('r \<Rightarrow> bool) \<Rightarrow> 'r list \<Rightarrow> nat" where
  "count_where c rows = length (filter c rows)"

definition sum_where :: "('r \<Rightarrow> bool) \<Rightarrow> ('r \<Rightarrow> int) \<Rightarrow> 'r list \<Rightarrow> int" where
  "sum_where c f rows = sum_list (map f (filter c rows))"

definition next_id :: "string \<Rightarrow> db \<Rightarrow> int" where
  "next_id t s = db_seq s t + 1"

definition bump_id :: "string \<Rightarrow> db \<Rightarrow> db" where
  "bump_id t s = s\<lparr>db_seq := (db_seq s)(t := db_seq s t + 1)\<rparr>"

definition has_miner :: "db \<Rightarrow> int \<Rightarrow> bool" where
  "has_miner s m \<longleftrightarrow> list_ex (\<lambda>r. mi_id r = m) (miners s)"

definition has_worker :: "db \<Rightarrow> int \<Rightarrow> bool" where
  "has_worker s w \<longleftrightarrow> list_ex (\<lambda>r. wk_id r = w) (workers s)"

definition has_block :: "db \<Rightarrow> int \<Rightarrow> bool" where
  "has_block s b \<longleftrightarrow> list_ex (\<lambda>r. bk_id r = b) (blocks s)"

definition has_attempt :: "db \<Rightarrow> int \<Rightarrow> bool" where
  "has_attempt s a \<longleftrightarrow> list_ex (\<lambda>r. at_id r = a) (attempts s)"

definition check_fk :: "(db \<Rightarrow> bool) \<Rightarrow> 'a dbm \<Rightarrow> 'a dbm" where
  "check_fk parent f s =
     (if db_fk s \<and> \<not> parent s then (Inl (Sqlx ForeignKeyViolation), s) else f s)"

text \<open>A NaN bound to a REAL parameter is stored as NULL.\<close>

definition bind_real :: "f64 \<Rightarrow> f64 option" where
  "bind_real x = (if x = FNaN then None else Some x)"

definition bind_real_opt :: "f64 option \<Rightarrow> f64 option" where
  "bind_real_opt x = Option.bind x bind_real"

definition COALESCE :: "'a option \<Rightarrow> 'a \<Rightarrow> 'a" where
  "COALESCE x d = (case x of None \<Rightarrow> d | Some a \<Rightarrow> a)"

lemma COALESCE_simps [simp]: "COALESCE None d = d" "COALESCE (Some a) d = a"
  by (simp_all add: COALESCE_def)

section \<open>Rules for outcomes\<close>

lemma dret_eq [simp]: "dret a s = (Inr a, s)"
  by (simp add: dret_def)

lemma draise_eq [simp]: "draise e s = (Inl e, s)"
  by (simp add: draise_def)

lemma dbind_Inr:
  "dbind m k s = (Inr b, s') \<longleftrightarrow> (\<exists>a s1. m s = (Inr a, s1) \<and> k a s1 = (Inr b, s'))"
  by (auto simp: dbind_def split: prod.splits sum.splits)

lemma dseq_Inr:
  "dseq m n s = (Inr b, s') \<longleftrightarrow> (\<exists>a s1. m s = (Inr a, s1) \<and> n s1 = (Inr b, s'))"
  by (simp add: dseq_def dbind_Inr)

lemma dbind_InrE:
  assumes "dbind m k s = (Inr b, s')"
  obtains a s1 where "m s = (Inr a, s1)" "k a s1 = (Inr b, s')"
  using assms by (auto simp: dbind_Inr)

lemma dseq_InrE:
  assumes "dseq m n s = (Inr b, s')"
  obtains a s1 where "m s = (Inr a, s1)" "n s1 = (Inr b, s')"
  using assms by (auto simp: dseq_Inr)

text \<open>
  Partial correctness of successful runs: from a state satisfying \<open>P\<close>, an \<open>Ok\<close> result \<open>a\<close>
  and its state satisfy \<open>Q a\<close>.  States that differ in the fault schedule only are the same
  for the assertions of this development (\<open>no_faults_dep\<close>).
\<close>

definition on_ok :: "(db \<Rightarrow> bool) \<Rightarrow> 'a dbm \<Rightarrow> ('a \<Rightarrow> db \<Rightarrow> bool) \<Rightarrow> bool" where
  "on_ok P m Q \<longleftrightarrow> (\<forall>s a s'. P s \<longrightarrow> m s = (Inr a, s') \<longrightarrow> Q a s')"

text \<open>Every run, failed or not, keeps the assertion.\<close>

definition keeps :: "(db \<Rightarrow> bool) \<Rightarrow> 'a dbm \<Rightarrow> bool" where
  "keeps P m \<longleftrightarrow> (\<forall>s. P s \<longrightarrow> P (snd (m s)))"

definition no_faults_dep :: "(db \<Rightarrow> bool) \<Rightarrow> bool" where
  "no_faults_dep P \<longleftrightarrow> (\<forall>s fs. P (s\<lparr>db_faults := fs\<rparr>) = P s)"

lemma on_okI: "(\<And>s a s'. P s \<Longrightarrow> m s = (Inr a, s') \<Longrightarrow> Q a s') \<Longrightarrow> on_ok P m Q"
  by (simp add: on_ok_def)

lemma on_okD: "on_ok P m Q \<Longrightarrow> P s \<Longrightarrow> m s = (Inr a, s') \<Longrightarrow> Q a s'"
  by (simp add: on_ok_def)

lemma keepsI: "(\<And>s. P s \<Longrightarrow> P (snd (m s))) \<Longrightarrow> keeps P m"
  by (simp add: keeps_def)

lemma keepsD: "keeps P m \<Longrightarrow> P s \<Longrightarrow> m s = (r, s') \<Longrightarrow> P s'"
  by (metis keeps_def snd_conv)

lemma tick_cases:
  obtains fs b where "tick s = (b, s\<lparr>db_faults := fs\<rparr>)"
proof (cases "db_faults s")
  case Nil
  then have "tick s = (False, s\<lparr>db_faults := db_faults s\<rparr>)" by (simp add: tick_def)
  then show ?thesis using that by blast
next
  case (Cons b bs)
  then have "tick s = (b, s\<lparr>db_faults := bs\<rparr>)" by (simp add: tick_def)
  then show ?thesis using that by blast
qed

lemma stmt_Inr:
  assumes "stmt f s = (Inr a, s')"
  obtains fs where "f (s\<lparr>db_faults := fs\<rparr>) = (Inr a, s')"
proof (cases rule: tick_cases [of s])
  case (1 fs b)
  then show ?thesis using assms that by (cases b) (simp_all add: stmt_def)
qed

lemma no_faults_depD:
  "no_faults_dep P \<Longrightarrow> P s \<Longrightarrow> P (s\<lparr>db_faults := fs\<rparr>)"
  by (simp add: no_faults_dep_def)

lemma stmt_cases:
  obtains (fault) fs where "stmt f s = (Inl (Sqlx Transient), s\<lparr>db_faults := fs\<rparr>)"
  | (run) fs where "stmt f s = f (s\<lparr>db_faults := fs\<rparr>)"
proof (cases rule: tick_cases [of s])
  case (1 fs b)
  show ?thesis
  proof (cases b)
    case True
    then show ?thesis using 1 by (intro that(1) [of fs]) (simp add: stmt_def)
  next
    case False
    then show ?thesis using 1 by (intro that(2) [of fs]) (simp add: stmt_def)
  qed
qed

lemma stmt_Inl:
  assumes "stmt f s = (Inl e, s')"
  obtains (fault) fs where "e = Sqlx Transient" "s' = s\<lparr>db_faults := fs\<rparr>"
  | (run) fs where "f (s\<lparr>db_faults := fs\<rparr>) = (Inl e, s')"
proof (cases rule: stmt_cases [of f s])
  case (fault fs)
  then show ?thesis using assms by (intro that(1) [of fs]) simp_all
next
  case (run fs)
  then show ?thesis using assms by (intro that(2) [of fs]) simp
qed

lemma select_Inr:
  assumes "select f s = (Inr a, s')"
  obtains fs where "a = f (s\<lparr>db_faults := fs\<rparr>)" "s' = s\<lparr>db_faults := fs\<rparr>"
  using assms unfolding select_def by (auto elim: stmt_Inr)

lemma modify_Inr:
  assumes "modify f s = (Inr a, s')"
  obtains fs where "s' = f (s\<lparr>db_faults := fs\<rparr>)"
  using assms unfolding modify_def by (auto elim: stmt_Inr)

lemma on_ok_bind:
  assumes "on_ok P m Q" "\<And>a. on_ok (Q a) (k a) R"
  shows "on_ok P (dbind m k) R"
  using assms by (fastforce simp: on_ok_def dbind_Inr)

lemma on_ok_seq:
  assumes "on_ok P m (\<lambda>_. Q)" "on_ok Q n R"
  shows "on_ok P (dseq m n) R"
  using assms by (fastforce simp: on_ok_def dseq_Inr)

lemma on_ok_ret: "(\<And>s. P s \<Longrightarrow> Q a s) \<Longrightarrow> on_ok P (dret a) Q"
  by (simp add: on_ok_def)

lemma on_ok_stmt:
  assumes "no_faults_dep P" "\<And>s a s'. P s \<Longrightarrow> f s = (Inr a, s') \<Longrightarrow> Q a s'"
  shows "on_ok P (stmt f) Q"
proof (rule on_okI)
  fix s a s' assume P: "P s" and r: "stmt f s = (Inr a, s')"
  from r obtain fs where "f (s\<lparr>db_faults := fs\<rparr>) = (Inr a, s')" by (rule stmt_Inr)
  then show "Q a s'" by (rule assms(2) [OF no_faults_depD [OF assms(1) P]])
qed

lemma on_ok_modify:
  assumes "no_faults_dep P" "\<And>s. P s \<Longrightarrow> Q () (f s)"
  shows "on_ok P (modify f) Q"
  unfolding modify_def using assms by (auto intro!: on_ok_stmt)

lemma on_ok_select:
  assumes "no_faults_dep P" "\<And>s. P s \<Longrightarrow> Q (f s) s"
  shows "on_ok P (select f) Q"
  unfolding select_def using assms by (auto intro!: on_ok_stmt)

lemma on_ok_fold:
  assumes "\<And>acc x xs'. x \<in> set xs \<Longrightarrow> on_ok (I acc) (f acc x) I"
  shows "on_ok (I acc) (dfold f acc xs) I"
  using assms
proof (induction xs arbitrary: acc)
  case (Cons x xs)
  show ?case unfolding dfold.simps
    by (rule on_ok_bind [where Q = I]) (use Cons in auto)
qed (simp add: on_ok_def)

lemma on_ok_for:
  assumes "\<And>x. x \<in> set xs \<Longrightarrow> on_ok P (f x) (\<lambda>_. P)"
  shows "on_ok P (dfor xs f) (\<lambda>_. P)"
  unfolding dfor_def using assms by (intro on_ok_fold)

text \<open>A transaction keeps what its body keeps when it succeeds, whatever fails.\<close>

lemma txn_outcome:
  obtains (failed) e fs where "txn m s = (Inl e, s\<lparr>db_faults := fs\<rparr>)"
  | (ok) fs fs' v s1 where "m (s\<lparr>db_faults := fs\<rparr>) = (Inr v, s1)"
      "txn m s = (Inr v, s1\<lparr>db_faults := fs'\<rparr>)"
proof (cases rule: tick_cases [of s])
  case (1 fs b)
  show ?thesis
  proof (cases b)
    case True
    then show ?thesis using 1 that(1) by (simp add: txn_def)
  next
    case False
    obtain r s1 where m: "m (s\<lparr>db_faults := fs\<rparr>) = (r, s1)" by fastforce
    show ?thesis
    proof (cases r)
      case (Inl e)
      then show ?thesis using 1 False m that(1) by (simp add: txn_def rollback_to_def)
    next
      case (Inr v)
      obtain b' fs' where t: "tick s1 = (b', s1\<lparr>db_faults := fs'\<rparr>)" by (rule tick_cases)
      show ?thesis
      proof (cases b')
        case True
        then show ?thesis using 1 False m Inr t that(1)
          by (simp add: txn_def rollback_to_def)
      next
        case f: False
        then show ?thesis using 1 False m Inr t that(2) [of fs v s1 fs']
          by (simp add: txn_def)
      qed
    qed
  qed
qed

lemma txn_Inr:
  assumes "txn m s = (Inr v, s')"
  obtains fs fs' s1 where "m (s\<lparr>db_faults := fs\<rparr>) = (Inr v, s1)" "s' = s1\<lparr>db_faults := fs'\<rparr>"
proof (cases rule: txn_outcome [of m s])
  case (failed e fs)
  then show ?thesis using assms by simp
next
  case (ok fs fs' w s1)
  then show ?thesis using assms by (intro that [of fs s1 fs']) simp_all
qed

lemma keeps_txn [db_inv]:
  assumes "no_faults_dep P" "on_ok P m (\<lambda>_. P)"
  shows "keeps P (txn m)"
proof (rule keepsI)
  fix s assume P: "P s"
  show "P (snd (txn m s))"
  proof (cases rule: txn_outcome [of m s])
    case (failed e fs)
    then show ?thesis using no_faults_depD [OF assms(1) P] by simp
  next
    case (ok fs fs' v s1)
    then show ?thesis
      using no_faults_depD [OF assms(1)] on_okD [OF assms(2) no_faults_depD [OF assms(1) P]]
      by simp
  qed
qed

text \<open>All or nothing: a failed transaction leaves every table as it was.\<close>

lemma txn_atomic:
  assumes "txn m s = (Inl e, s')"
  shows "\<exists>fs. s' = s\<lparr>db_faults := fs\<rparr>"
  using assms by (cases rule: txn_outcome [of m s]) auto

lemma on_ok_txn:
  assumes "no_faults_dep P" "\<And>a. no_faults_dep (Q a)" "on_ok P m Q"
  shows "on_ok P (txn m) Q"
proof (rule on_okI)
  fix s a s' assume P: "P s" and r: "txn m s = (Inr a, s')"
  show "Q a s'"
  proof (cases rule: txn_outcome [of m s])
    case (failed e fs)
    then show ?thesis using r by simp
  next
    case (ok fs fs' v s1)
    then show ?thesis
      using r no_faults_depD [OF assms(2)]
        on_okD [OF assms(3) no_faults_depD [OF assms(1) P]] by auto
  qed
qed

lemma keeps_bind [db_inv]:
  "keeps P m \<Longrightarrow> (\<And>a. keeps P (k a)) \<Longrightarrow> keeps P (dbind m k)"
  by (force simp: keeps_def dbind_def split: prod.splits sum.splits)

lemma keeps_seq [db_inv]: "keeps P m \<Longrightarrow> keeps P n \<Longrightarrow> keeps P (dseq m n)"
  unfolding dseq_def by (rule keeps_bind)

lemma keeps_ret [db_inv]: "keeps P (dret a)"
  by (simp add: keeps_def)

lemma keeps_raise [db_inv]: "keeps P (draise e)"
  by (simp add: keeps_def)

lemma keeps_when [db_inv]: "keeps P m \<Longrightarrow> keeps P (dwhen c m)"
  by (simp add: dwhen_def keeps_ret)

lemma keeps_stmt [db_inv]:
  assumes "no_faults_dep P" "\<And>s. P s \<Longrightarrow> P (snd (f s))"
  shows "keeps P (stmt f)"
proof (rule keepsI)
  fix s assume P: "P s"
  note P' = no_faults_depD [OF assms(1) P]
  show "P (snd (stmt f s))"
    by (cases rule: stmt_cases [of f s]) (simp_all add: P' assms(2))
qed

lemma keeps_modify [db_inv]:
  "no_faults_dep P \<Longrightarrow> (\<And>s. P s \<Longrightarrow> P (f s)) \<Longrightarrow> keeps P (modify f)"
  unfolding modify_def by (rule keeps_stmt) auto

lemma keeps_select [db_inv]: "no_faults_dep P \<Longrightarrow> keeps P (select f)"
  unfolding select_def by (rule keeps_stmt) auto

lemma keeps_fetch_one [db_inv]: "no_faults_dep P \<Longrightarrow> keeps P (fetch_one f)"
  unfolding fetch_one_def by (rule keeps_stmt) (auto split: list.splits)

lemma keeps_fetch_optional [db_inv]: "no_faults_dep P \<Longrightarrow> keeps P (fetch_optional f)"
  unfolding fetch_optional_def by (rule keeps_select)

lemma keeps_fold [db_inv]:
  "(\<And>acc x. x \<in> set xs \<Longrightarrow> keeps P (f acc x)) \<Longrightarrow> keeps P (dfold f acc xs)"
  by (induction xs arbitrary: acc) (auto intro: keeps_bind keeps_ret)

lemma keeps_for [db_inv]:
  "(\<And>x. x \<in> set xs \<Longrightarrow> keeps P (f x)) \<Longrightarrow> keeps P (dfor xs f)"
  unfolding dfor_def by (rule keeps_fold)

text \<open>Runs without scheduled failures.\<close>

lemma stmt_no_faults: "db_faults s = [] \<Longrightarrow> stmt f s = f s"
  by (simp add: stmt_def tick_def)

lemma select_no_faults: "db_faults s = [] \<Longrightarrow> select f s = (Inr (f s), s)"
  by (simp add: select_def stmt_no_faults)

lemma modify_no_faults: "db_faults s = [] \<Longrightarrow> modify f s = (Inr (), f s)"
  by (simp add: modify_def stmt_no_faults)

lemma dbind_Inr_step: "m s = (Inr a, s1) \<Longrightarrow> dbind m k s = k a s1"
  by (simp add: dbind_def)

lemma txn_no_faults:
  "db_faults s = [] \<Longrightarrow> m s = (Inr v, s1) \<Longrightarrow> db_faults s1 = [] \<Longrightarrow> txn m s = (Inr v, s1)"
  by (simp add: txn_def tick_def)

section \<open>Facts on table operations\<close>

lemma length_upd_where [simp]: "length (upd_where c f rows) = length rows"
  by (simp add: upd_where_def)

lemma upd_where_Nil [simp]: "upd_where c f [] = []"
  by (simp add: upd_where_def)

lemma map_upd_where_key:
  "(\<And>r. k (f r) = k r) \<Longrightarrow> map k (upd_where c f rows) = map k rows"
  by (simp add: upd_where_def)

lemma count_where_0: "count_where c rows = 0 \<longleftrightarrow> (\<forall>r \<in> set rows. \<not> c r)"
  by (auto simp: count_where_def filter_empty_conv)

lemma sum_where_Nil [simp]: "sum_where c f [] = 0"
  by (simp add: sum_where_def)

lemma sum_where_append [simp]:
  "sum_where c f (xs @ ys) = sum_where c f xs + sum_where c f ys"
  by (simp add: sum_where_def)

lemma sum_where_Cons [simp]:
  "sum_where c f (x # xs) = (if c x then f x else 0) + sum_where c f xs"
  by (simp add: sum_where_def)

lemma sum_where_nonneg:
  "(\<And>r. r \<in> set rows \<Longrightarrow> c r \<Longrightarrow> 0 \<le> f r) \<Longrightarrow> 0 \<le> sum_where c f rows"
  by (induction rows) auto

lemma sum_where_filter_not:
  "sum_where c f (filter (\<lambda>r. \<not> d r) rows)
     = sum_where c f rows - sum_where (\<lambda>r. c r \<and> d r) f rows"
  by (induction rows) auto

lemma sum_where_upd:
  assumes "\<And>r. c (g r) = c r"
  shows "sum_where c f (upd_where d g rows)
       = sum_where c f rows + sum_where (\<lambda>r. c r \<and> d r) (\<lambda>r. f (g r) - f r) rows"
  by (induction rows) (auto simp: upd_where_def assms)

end
