(* ===== verification/Db_Queries.thy ===== *)
theory Db_Queries
  imports Db_Core "HOL-Library.Char_ord" "HOL-Library.Multiset"
begin

text \<open>
  \<open>crates/pool-db/src/queries.rs\<close>: miners, workers, shares, blocks, labels, the status table
  and the read-only statistics.  Each operation is the sequence of the statements the method
  executes.  SQLite's floating-point aggregates are code of the database library: they are
  the parameter \<open>sql_agg\<close>.  A time bound the caller computed as text is its instant.
\<close>

record sql_agg =
  ag_sum :: "f64 list \<Rightarrow> f64"
  ag_avg :: "f64 list \<Rightarrow> f64"

text \<open>\<open>LIMIT n\<close>: a negative limit is no limit.\<close>

definition sql_limit :: "int \<Rightarrow> 'a list \<Rightarrow> 'a list" where
  "sql_limit n xs = (if n < 0 then xs else take (nat n) xs)"

text \<open>
  \<open>t < datetime('now', '-' || n || ' units')\<close>.  For a negative \<open>n\<close> the modifier is malformed
  and the result NULL, so no row qualifies.
\<close>

definition older_than :: "db \<Rightarrow> int \<Rightarrow> int \<Rightarrow> int \<Rightarrow> bool" where
  "older_than s n unit_secs t \<longleftrightarrow> 0 \<le> n \<and> t < db_clock s - n * unit_secs"

definition newer_than :: "db \<Rightarrow> int \<Rightarrow> int \<Rightarrow> int \<Rightarrow> bool" where
  "newer_than s n unit_secs t \<longleftrightarrow> 0 \<le> n \<and> db_clock s - n * unit_secs < t"

text \<open>\<open>ORDER BY\<close> with a comparison.\<close>

fun insert_by :: "('a \<Rightarrow> 'a \<Rightarrow> bool) \<Rightarrow> 'a \<Rightarrow> 'a list \<Rightarrow> 'a list" where
  "insert_by le x [] = [x]"
| "insert_by le x (y # ys) = (if le x y then x # y # ys else y # insert_by le x ys)"

definition order_by :: "('a \<Rightarrow> 'a \<Rightarrow> bool) \<Rightarrow> 'a list \<Rightarrow> 'a list" where
  "order_by le xs = foldr (insert_by le) xs []"

definition desc :: "('a \<Rightarrow> int) \<Rightarrow> 'a list \<Rightarrow> 'a list" where
  "desc k xs = order_by (\<lambda>a b. k b \<le> k a) xs"

section \<open>Schema checks\<close>

record schema =
  sc_tables :: "string list"
  sc_columns :: "(string \<times> string) list"
  sc_pps_rows :: nat

definition critical_tables :: "string list" where
  "critical_tables =
     [''miners'', ''workers'', ''shares'', ''blocks'', ''balances'', ''payouts'',
      ''payout_attempts'', ''payout_items'', ''block_credits'', ''orphan_clawbacks'',
      ''pool_tx_costs'', ''block_submissions'', ''shares_rollup'', ''pool_status'']"

definition critical_columns :: "(string \<times> string) list" where
  "critical_columns =
     [(''balances'', ''paying''), (''blocks'', ''actual_reward''), (''blocks'', ''costs_recovered'')]"

definition assert_critical_schema :: "schema \<Rightarrow> unit dbm" where
  "assert_critical_schema sc =
     dseq
       (dfor critical_tables (\<lambda>t.
          dbind (select (\<lambda>_. count_where (\<lambda>x. x = t) (sc_tables sc))) (\<lambda>n.
            if n = 0
            then draise (Sqlx (Protocol (''critical table missing after migrations: '' @ t)))
            else dret ())))
       (dfor critical_columns (\<lambda>(t, c).
          dbind (select (\<lambda>_. count_where (\<lambda>x. x = (t, c)) (sc_columns sc))) (\<lambda>n.
            if n = 0
            then draise (Sqlx (Protocol
              (''critical column missing after migrations: '' @ t @ ''.'' @ c)))
            else dret ())))"

definition pps_epoch_present :: "schema \<Rightarrow> bool dbm" where
  "pps_epoch_present sc =
     dbind (select (\<lambda>_. count_where (\<lambda>x. x = ''pps_meta'') (sc_tables sc))) (\<lambda>n.
       if n = 0 then dret False
       else dbind (select (\<lambda>_. sc_pps_rows sc)) (\<lambda>rows. dret (0 < rows)))"

section \<open>Share retention\<close>

definition hour_bucket :: "int \<Rightarrow> int" where
  "hour_bucket t = t div 3600 * 3600"

definition in_hour :: "int \<Rightarrow> share_row \<Rightarrow> bool" where
  "in_hour b r \<longleftrightarrow> b \<le> sh_created r \<and> sh_created r < b + 3600"

text \<open>The hour of the oldest share past the retention period.\<close>

definition oldest_bucket :: "int \<Rightarrow> db \<Rightarrow> int option" where
  "oldest_bucket days s =
     (case sort_key id (map sh_created
             (filter (\<lambda>r. older_than s days 86400 (sh_created r)) (shares s))) of
        [] \<Rightarrow> None
      | t # _ \<Rightarrow> Some (hour_bucket t))"

definition upsert_rollup :: "int \<Rightarrow> int \<Rightarrow> f64 \<Rightarrow> db \<Rightarrow> db" where
  "upsert_rollup b cnt dsum s =
     (if list_ex (\<lambda>r. ru_bucket r = b) (rollups s)
      then s\<lparr>rollups := upd_where (\<lambda>r. ru_bucket r = b)
             (\<lambda>r. r\<lparr>ru_cnt := cnt + ru_cnt r, ru_sum := fadd dsum (ru_sum r)\<rparr>) (rollups s)\<rparr>
      else s\<lparr>rollups := rollups s @ [\<lparr>ru_bucket = b, ru_cnt = cnt, ru_sum = dsum\<rparr>]\<rparr>)"

definition sum_difficulty :: "sql_agg \<Rightarrow> share_row list \<Rightarrow> f64" where
  "sum_difficulty A rows = (if rows = [] then Fin 0 else ag_sum A (map sh_difficulty rows))"

definition rollup_hour_txn :: "sql_agg \<Rightarrow> int \<Rightarrow> int dbm" where
  "rollup_hour_txn A b =
     dbind (select (\<lambda>s. (int (count_where (in_hour b) (shares s)),
                         sum_difficulty A (filter (in_hour b) (shares s))))) (\<lambda>(cnt, dsum).
     dseq (modify (upsert_rollup b cnt dsum))
          (stmt (\<lambda>s. (Inr (int (count_where (in_hour b) (shares s))),
                      s\<lparr>shares := filter (\<lambda>r. \<not> in_hour b r) (shares s)\<rparr>))))"

primrec rollup_loop :: "sql_agg \<Rightarrow> int \<Rightarrow> nat \<Rightarrow> int \<times> int \<Rightarrow> (int \<times> int) dbm" where
  "rollup_loop A days 0 acc = dret acc"
| "rollup_loop A days (Suc k) acc =
     dbind (select (oldest_bucket days)) (\<lambda>bucket.
       case bucket of
         None \<Rightarrow> dret acc
       | Some b \<Rightarrow>
           dbind (txn (rollup_hour_txn A b)) (\<lambda>d.
             rollup_loop A days k (fst acc + 1, snd acc + d)))"

definition rollup_and_prune_shares :: "sql_agg \<Rightarrow> int \<Rightarrow> int \<Rightarrow> (int \<times> int) dbm" where
  "rollup_and_prune_shares A older_than_days max_hours =
     rollup_loop A older_than_days (nat max_hours) (0, 0)"

section \<open>Labels and status\<close>

definition get_pool_label_map :: "(string \<times> string) list dbm" where
  "get_pool_label_map = select (\<lambda>s. map (\<lambda>r. (lb_address r, lb_name r)) (labels s))"

definition list_pool_labels :: "label_row list dbm" where
  "list_pool_labels = select (\<lambda>s. order_by (\<lambda>a b. \<not> lexordp (<) (lb_name b) (lb_name a)) (labels s))"

definition upsert_pool_label :: "string \<Rightarrow> string \<Rightarrow> string \<Rightarrow> unit dbm" where
  "upsert_pool_label address name note =
     modify (\<lambda>s.
       if list_ex (\<lambda>r. lb_address r = address) (labels s)
       then s\<lparr>labels := upd_where (\<lambda>r. lb_address r = address)
              (\<lambda>r. r\<lparr>lb_name := name, lb_note := note, lb_updated := db_clock s\<rparr>) (labels s)\<rparr>
       else s\<lparr>labels := labels s @
              [\<lparr>lb_address = address, lb_name = name, lb_note = note, lb_updated = db_clock s\<rparr>]\<rparr>)"

definition delete_pool_label :: "string \<Rightarrow> unit dbm" where
  "delete_pool_label address =
     modify (\<lambda>s. s\<lparr>labels := filter (\<lambda>r. lb_address r \<noteq> address) (labels s)\<rparr>)"

definition set_pool_status :: "string \<Rightarrow> string \<Rightarrow> unit dbm" where
  "set_pool_status key v =
     modify (\<lambda>s.
       if list_ex (\<lambda>r. ps_key r = key) (statuses s)
       then s\<lparr>statuses := upd_where (\<lambda>r. ps_key r = key)
              (\<lambda>r. r\<lparr>ps_value := v, ps_updated := db_clock s\<rparr>) (statuses s)\<rparr>
       else s\<lparr>statuses := statuses s @ [\<lparr>ps_key = key, ps_value = v, ps_updated = db_clock s\<rparr>]\<rparr>)"

definition get_pool_status :: "string \<Rightarrow> (string \<times> int) option dbm" where
  "get_pool_status key =
     fetch_optional (\<lambda>s. map (\<lambda>r. (ps_value r, ps_updated r))
       (filter (\<lambda>r. ps_key r = key) (statuses s)))"

section \<open>Miners and workers\<close>

definition get_miner_by_address :: "string \<Rightarrow> miner_row option dbm" where
  "get_miner_by_address address =
     fetch_optional (\<lambda>s. filter (\<lambda>r. mi_address r = address) (miners s))"

definition insert_or_ignore_miner :: "string \<Rightarrow> db \<Rightarrow> db" where
  "insert_or_ignore_miner address s =
     (if list_ex (\<lambda>r. mi_address r = address) (miners s) then s
      else (bump_id ''miners'' s)\<lparr>miners := miners s @
        [\<lparr>mi_id = next_id ''miners'' s, mi_address = address, mi_created = db_clock s\<rparr>]\<rparr>)"

definition get_or_create_miner :: "string \<Rightarrow> miner_row dbm" where
  "get_or_create_miner address =
     dseq (modify (insert_or_ignore_miner address))
          (fetch_one (\<lambda>s. filter (\<lambda>r. mi_address r = address) (miners s)))"

definition is_worker :: "int \<Rightarrow> string \<Rightarrow> worker_row \<Rightarrow> bool" where
  "is_worker m name r \<longleftrightarrow> wk_miner r = m \<and> wk_name r = name"

definition insert_or_ignore_worker :: "int \<Rightarrow> string \<Rightarrow> unit dbm" where
  "insert_or_ignore_worker m name s =
     (if list_ex (is_worker m name) (workers s) then (Inr (), s)
      else check_fk (\<lambda>s. has_miner s m) (\<lambda>s.
        (Inr (), (bump_id ''workers'' s)\<lparr>workers := workers s @
          [\<lparr>wk_id = next_id ''workers'' s, wk_miner = m, wk_name = name,
            wk_last_seen = db_clock s, wk_last_difficulty = None\<rparr>]\<rparr>)) s)"

definition get_or_create_worker :: "int \<Rightarrow> string \<Rightarrow> worker_row dbm" where
  "get_or_create_worker m name =
     dseq (stmt (insert_or_ignore_worker m name))
    (dseq (modify (\<lambda>s. s\<lparr>workers := upd_where (is_worker m name)
             (\<lambda>r. r\<lparr>wk_last_seen := db_clock s\<rparr>) (workers s)\<rparr>))
          (fetch_one (\<lambda>s. filter (is_worker m name) (workers s))))"

definition update_worker_difficulty :: "int \<Rightarrow> f64 \<Rightarrow> unit dbm" where
  "update_worker_difficulty w d =
     modify (\<lambda>s. s\<lparr>workers := upd_where (\<lambda>r. wk_id r = w)
       (\<lambda>r. r\<lparr>wk_last_difficulty := bind_real d\<rparr>) (workers s)\<rparr>)"

definition get_miner_id_for_worker :: "int \<Rightarrow> int dbm" where
  "get_miner_id_for_worker w =
     fetch_one (\<lambda>s. map wk_miner (filter (\<lambda>r. wk_id r = w) (workers s)))"

definition touch_worker :: "int \<Rightarrow> unit dbm" where
  "touch_worker w =
     modify (\<lambda>s. s\<lparr>workers := upd_where (\<lambda>r. wk_id r = w)
       (\<lambda>r. r\<lparr>wk_last_seen := db_clock s\<rparr>) (workers s)\<rparr>)"

definition get_workers_for_miner :: "int \<Rightarrow> worker_row list dbm" where
  "get_workers_for_miner m =
     select (\<lambda>s. filter (\<lambda>r. wk_miner r = m \<and> db_clock s - 7 * 86400 \<le> wk_last_seen r) (workers s))"

section \<open>Shares\<close>

definition record_share ::
  "int \<Rightarrow> string \<Rightarrow> f64 \<Rightarrow> bool \<Rightarrow> string \<Rightarrow> int dbm" where
  "record_share w job d is_block sess =
     stmt (\<lambda>s.
       case bind_real d of
         None \<Rightarrow> (Inl (Sqlx NotNullViolation), s)
       | Some x \<Rightarrow>
           check_fk (\<lambda>s. has_worker s w) (\<lambda>s.
             (Inr (next_id ''shares'' s),
              (bump_id ''shares'' s)\<lparr>shares := shares s @
                [\<lparr>sh_id = next_id ''shares'' s, sh_worker = w, sh_job = job, sh_difficulty = x,
                  sh_is_block = is_block, sh_created = db_clock s, sh_session = Some sess\<rparr>]\<rparr>)) s)"

definition last_shares :: "int \<Rightarrow> db \<Rightarrow> share_row list" where
  "last_shares n s = sql_limit n (desc sh_id (shares s))"

definition get_last_n_shares :: "int \<Rightarrow> share_row list dbm" where
  "get_last_n_shares n = select (last_shares n)"

definition total_shares :: "db \<Rightarrow> int" where
  "total_shares s = sum_where (\<lambda>_. True) ru_cnt (rollups s) + int (length (shares s))"

definition get_total_shares_count :: "int dbm" where
  "get_total_shares_count = select total_shares"

definition get_shares_count_since :: "int \<Rightarrow> f64 dbm" where
  "get_shares_count_since since =
     select (\<lambda>s. f64_of_int (int (count_where (\<lambda>r. since \<le> sh_created r) (shares s))))"

definition get_difficulty_sum_since :: "sql_agg \<Rightarrow> int \<Rightarrow> f64 dbm" where
  "get_difficulty_sum_since A since =
     select (\<lambda>s. sum_difficulty A (filter (\<lambda>r. since \<le> sh_created r) (shares s)))"

definition get_shares_count_between :: "int \<Rightarrow> int \<Rightarrow> int dbm" where
  "get_shares_count_between a b =
     select (\<lambda>s. int (count_where (\<lambda>r. a < sh_created r \<and> sh_created r \<le> b) (shares s)))"

definition get_difficulty_sum_between :: "sql_agg \<Rightarrow> int \<Rightarrow> int \<Rightarrow> f64 dbm" where
  "get_difficulty_sum_between A a b =
     select (\<lambda>s. sum_difficulty A
       (filter (\<lambda>r. a < sh_created r \<and> sh_created r \<le> b) (shares s)))"

record pplns_entry =
  pe_miner :: int
  pe_difficulty :: f64

definition pplns_order :: "pplns_entry \<Rightarrow> pplns_entry \<Rightarrow> bool" where
  "pplns_order a b \<longleftrightarrow>
     flt (pe_difficulty b) (pe_difficulty a)
     \<or> feq (pe_difficulty a) (pe_difficulty b) \<and> pe_miner a \<le> pe_miner b"

definition pplns_join :: "int \<Rightarrow> db \<Rightarrow> (int \<times> f64) list" where
  "pplns_join n s =
     concat (map (\<lambda>x. map (\<lambda>w. (wk_miner w, sh_difficulty x))
                        (filter (\<lambda>w. wk_id w = sh_worker x) (workers s)))
                 (last_shares n s))"

definition group_sums :: "sql_agg \<Rightarrow> (int \<times> f64) list \<Rightarrow> pplns_entry list" where
  "group_sums A rows =
     map (\<lambda>m. \<lparr>pe_miner = m,
               pe_difficulty = ag_sum A (map snd (filter (\<lambda>p. fst p = m) rows))\<rparr>)
         (remdups (map fst rows))"

definition get_pplns_shares :: "sql_agg \<Rightarrow> int \<Rightarrow> pplns_entry list dbm" where
  "get_pplns_shares A window_size =
     select (\<lambda>s. order_by pplns_order (group_sums A (pplns_join window_size s)))"

section \<open>Blocks\<close>

definition record_block ::
  "int \<Rightarrow> string \<Rightarrow> int \<Rightarrow> int option \<Rightarrow> int \<Rightarrow> f64 option \<Rightarrow> int dbm" where
  "record_block height hash reward actual found_by luck =
     stmt (\<lambda>s.
       if list_ex (\<lambda>r. bk_hash r = hash) (blocks s) then (Inl (Sqlx UniqueViolation), s)
       else check_fk (\<lambda>s. has_worker s found_by) (\<lambda>s.
         (Inr (next_id ''blocks'' s),
          (bump_id ''blocks'' s)\<lparr>blocks := blocks s @
            [\<lparr>bk_id = next_id ''blocks'' s, bk_height = height, bk_hash = hash,
              bk_reward = reward, bk_status = ''pending'', bk_found_by = Some found_by,
              bk_created = db_clock s, bk_luck = bind_real_opt luck, bk_actual = actual,
              bk_costs = 0\<rparr>]\<rparr>)) s)"

definition get_block_id_by_hash :: "string \<Rightarrow> int option dbm" where
  "get_block_id_by_hash hash =
     fetch_optional (\<lambda>s. map bk_id (filter (\<lambda>r. bk_hash r = hash) (blocks s)))"

definition get_confirmed_blocks_above :: "int \<Rightarrow> int \<Rightarrow> (int \<times> string) list dbm" where
  "get_confirmed_blocks_above height limit =
     select (\<lambda>s. sql_limit limit (map (\<lambda>r. (bk_height r, bk_hash r))
       (sort_key bk_height
         (filter (\<lambda>r. bk_status r = ''confirmed'' \<and> height < bk_height r) (blocks s)))))"

definition get_recent_blocks :: "int \<Rightarrow> block_row list dbm" where
  "get_recent_blocks limit = select (\<lambda>s. sql_limit limit (desc bk_id (blocks s)))"

definition get_blocks_count :: "int dbm" where
  "get_blocks_count = select (\<lambda>s. int (length (blocks s)))"

definition get_blocks_count_since :: "int \<Rightarrow> int dbm" where
  "get_blocks_count_since since =
     select (\<lambda>s. int (count_where (\<lambda>r. since \<le> bk_created r) (blocks s)))"

definition update_block_luck :: "int \<Rightarrow> f64 \<Rightarrow> unit dbm" where
  "update_block_luck b luck =
     modify (\<lambda>s. s\<lparr>blocks := upd_where (\<lambda>r. bk_id r = b)
       (\<lambda>r. r\<lparr>bk_luck := bind_real luck\<rparr>) (blocks s)\<rparr>)"

definition get_all_blocks_by_height :: "block_row list dbm" where
  "get_all_blocks_by_height = select (\<lambda>s. sort_key bk_height (blocks s))"

definition update_block_status :: "int \<Rightarrow> string \<Rightarrow> unit dbm" where
  "update_block_status b st =
     modify (\<lambda>s. s\<lparr>blocks := upd_where (\<lambda>r. bk_id r = b)
       (\<lambda>r. r\<lparr>bk_status := st\<rparr>) (blocks s)\<rparr>)"

definition get_pending_blocks :: "block_row list dbm" where
  "get_pending_blocks =
     select (\<lambda>s. sort_key bk_height (filter (\<lambda>r. bk_status r = ''pending'') (blocks s)))"

definition get_immature_blocks_count :: "int dbm" where
  "get_immature_blocks_count =
     select (\<lambda>s. int (count_where (\<lambda>r. bk_status r = ''pending'') (blocks s)))"

definition get_pending_payout_blocks_count :: "int dbm" where
  "get_pending_payout_blocks_count =
     select (\<lambda>s. int (count_where (\<lambda>r. bk_status r = ''confirmed'') (blocks s)))"

definition somes :: "'a option list \<Rightarrow> 'a list" where
  "somes xs = concat (map (\<lambda>x. case x of None \<Rightarrow> [] | Some a \<Rightarrow> [a]) xs)"

definition get_lifetime_luck :: "sql_agg \<Rightarrow> f64 option dbm" where
  "get_lifetime_luck A =
     select (\<lambda>s. let ls = somes (map bk_luck (blocks s)) in
       if ls = [] then None else Some (ag_avg A ls))"

section \<open>Statistics\<close>

definition get_connected_miners_count :: "int dbm" where
  "get_connected_miners_count =
     select (\<lambda>s. int (card (set (map wk_miner
       (filter (\<lambda>r. db_clock s - 300 \<le> wk_last_seen r) (workers s))))))"

definition get_connected_workers_count :: "int dbm" where
  "get_connected_workers_count =
     select (\<lambda>s. int (count_where (\<lambda>r. db_clock s - 300 \<le> wk_last_seen r) (workers s)))"

definition shares_of_miner :: "db \<Rightarrow> int \<Rightarrow> share_row list" where
  "shares_of_miner s m =
     concat (map (\<lambda>x. map (\<lambda>_. x)
       (filter (\<lambda>w. wk_id w = sh_worker x \<and> wk_miner w = m) (workers s))) (shares s))"

definition pending_of :: "db \<Rightarrow> int \<Rightarrow> int" where
  "pending_of s m = (case filter (\<lambda>b. bl_miner b = m) (balances s) of [] \<Rightarrow> 0 | b # _ \<Rightarrow> bl_pending b)"

definition paid_of :: "db \<Rightarrow> int \<Rightarrow> int" where
  "paid_of s m = (case filter (\<lambda>b. bl_miner b = m) (balances s) of [] \<Rightarrow> 0 | b # _ \<Rightarrow> bl_paid b)"

definition workers_of :: "db \<Rightarrow> int \<Rightarrow> worker_row list" where
  "workers_of s m = filter (\<lambda>w. wk_miner w = m) (workers s)"

record miner_list_entry =
  ml_miner :: miner_row
  ml_pending :: int
  ml_share_count :: int
  ml_worker_count :: int
  ml_recent_diff :: f64
  ml_recent_diff_1m :: f64

definition get_all_miners_with_stats :: "sql_agg \<Rightarrow> miner_list_entry list dbm" where
  "get_all_miners_with_stats A =
     select (\<lambda>s. desc ml_share_count (map (\<lambda>m.
       let xs = shares_of_miner s (mi_id m) in
       \<lparr>ml_miner = m, ml_pending = pending_of s (mi_id m), ml_share_count = int (length xs),
        ml_worker_count = int (length (workers_of s (mi_id m))),
        ml_recent_diff = sum_difficulty A (filter (\<lambda>x. db_clock s - 600 \<le> sh_created x) xs),
        ml_recent_diff_1m = sum_difficulty A (filter (\<lambda>x. db_clock s - 60 \<le> sh_created x) xs)\<rparr>)
       (miners s)))"

record worker_diagnostics =
  wd_worker :: worker_row
  wd_current_difficulty :: "f64 option"
  wd_diff_sum_1m :: f64
  wd_diff_sum_10m :: f64
  wd_shares_1m :: int
  wd_shares_10m :: int
  wd_total_shares :: int
  wd_first_share_at :: "int option"

definition hd_opt :: "'a list \<Rightarrow> 'a option" where
  "hd_opt xs = (case xs of [] \<Rightarrow> None | x # _ \<Rightarrow> Some x)"

definition get_worker_stats_for_miner ::
  "sql_agg \<Rightarrow> int \<Rightarrow> int \<Rightarrow> int \<Rightarrow> worker_diagnostics list dbm" where
  "get_worker_stats_for_miner A m since_1m since_10m =
     select (\<lambda>s. map (\<lambda>w.
       let xs = filter (\<lambda>x. sh_worker x = wk_id w) (shares s);
           x1 = filter (\<lambda>x. since_1m \<le> sh_created x) xs;
           x10 = filter (\<lambda>x. since_10m \<le> sh_created x) xs in
       \<lparr>wd_worker = w,
        wd_current_difficulty = map_option sh_difficulty (hd_opt (desc sh_id xs)),
        wd_diff_sum_1m = sum_difficulty A x1, wd_diff_sum_10m = sum_difficulty A x10,
        wd_shares_1m = int (length x1), wd_shares_10m = int (length x10),
        wd_total_shares = int (length xs),
        wd_first_share_at = map_option sh_created (hd_opt (sort_key sh_id xs))\<rparr>)
       (workers_of s m))"

definition get_recent_shares_for_miner ::
  "int \<Rightarrow> int \<Rightarrow> (share_row \<times> string) list dbm" where
  "get_recent_shares_for_miner m limit =
     select (\<lambda>s. sql_limit limit (desc (\<lambda>p. sh_id (fst p))
       (concat (map (\<lambda>x. map (\<lambda>w. (x, wk_name w))
          (filter (\<lambda>w. wk_id w = sh_worker x \<and> wk_miner w = m) (workers s))) (shares s)))))"

definition get_miner_blocks :: "int \<Rightarrow> block_row list dbm" where
  "get_miner_blocks m =
     select (\<lambda>s. desc bk_height
       (concat (map (\<lambda>b. map (\<lambda>_. b)
          (filter (\<lambda>w. bk_found_by b = Some (wk_id w) \<and> wk_miner w = m) (workers s))) (blocks s))))"

definition get_miner_payouts :: "int \<Rightarrow> int \<Rightarrow> payout_row list dbm" where
  "get_miner_payouts m limit =
     select (\<lambda>s. sql_limit limit (desc po_id (filter (\<lambda>p. po_miner p = m) (payouts s))))"

record admin_miner_entry =
  am_miner :: miner_row
  am_pending :: int
  am_paid :: int
  am_share_count :: int
  am_worker_count :: int
  am_last_seen :: "int option"

definition get_all_miners_admin :: "admin_miner_entry list dbm" where
  "get_all_miners_admin =
     select (\<lambda>s. desc am_pending (map (\<lambda>m.
       \<lparr>am_miner = m, am_pending = pending_of s (mi_id m), am_paid = paid_of s (mi_id m),
        am_share_count = int (length (shares_of_miner s (mi_id m))),
        am_worker_count = int (length (workers_of s (mi_id m))),
        am_last_seen = hd_opt (desc id (map wk_last_seen (workers_of s (mi_id m))))\<rparr>)
       (miners s)))"

section \<open>Properties\<close>

lemma mset_order_by: "mset (order_by le xs) = mset xs"
proof -
  have i: "mset (insert_by le x ys) = add_mset x (mset ys)" for x ys
    by (induction ys) auto
  show ?thesis by (induction xs) (auto simp: order_by_def i)
qed

lemma set_order_by [simp]: "set (order_by le xs) = set xs"
  by (metis mset_order_by set_mset_mset)

lemma length_order_by [simp]: "length (order_by le xs) = length xs"
  by (metis mset_order_by size_mset)

lemma sum_where_upsert_rollup:
  assumes "distinct (map ru_bucket (rollups s))"
  shows "sum_where (\<lambda>_. True) ru_cnt (rollups (upsert_rollup b cnt d s))
       = sum_where (\<lambda>_. True) ru_cnt (rollups s) + cnt"
proof (cases "list_ex (\<lambda>r. ru_bucket r = b) (rollups s)")
  case True
  let ?g = "\<lambda>r. r\<lparr>ru_cnt := cnt + ru_cnt r, ru_sum := fadd d (ru_sum r)\<rparr>"
  have "sum_where (\<lambda>_. True) ru_cnt (upd_where (\<lambda>r. ru_bucket r = b) ?g rows)
      = sum_where (\<lambda>_. True) ru_cnt rows + (if b \<in> ru_bucket ` set rows then cnt else 0)"
    if "distinct (map ru_bucket rows)" for rows
    using that by (induction rows) (auto simp: upd_where_def)
  from this [OF assms] True show ?thesis
    by (simp add: upsert_rollup_def list_ex_iff) (metis image_eqI)
qed (simp add: upsert_rollup_def)

lemma upsert_rollup_sel [simp]:
  "shares (upsert_rollup b c d s) = shares s"
  "rollups (upsert_rollup b c d (s\<lparr>db_faults := fs\<rparr>)) = rollups (upsert_rollup b c d s)"
  by (simp_all add: upsert_rollup_def)

lemma distinct_upsert_rollup:
  "distinct (map ru_bucket (rollups s)) \<Longrightarrow>
   distinct (map ru_bucket (rollups (upsert_rollup b cnt d s)))"
  by (auto simp: upsert_rollup_def map_upd_where_key list_ex_iff)

text \<open>The total share count and the uniqueness of rollup buckets, fixed to a value.\<close>

definition share_total_is :: "int \<Rightarrow> db \<Rightarrow> bool" where
  "share_total_is n s \<longleftrightarrow> total_shares s = n \<and> distinct (map ru_bucket (rollups s))"

lemma share_total_no_faults [simp, intro]: "no_faults_dep (share_total_is n)"
  by (simp add: no_faults_dep_def share_total_is_def total_shares_def)

lemma on_ok_rollup_hour: "on_ok (share_total_is n) (rollup_hour_txn A b) (\<lambda>_. share_total_is n)"
proof (rule on_okI)
  fix s d s' assume P: "share_total_is n s" and r: "rollup_hour_txn A b s = (Inr d, s')"
  let ?c = "int (count_where (in_hour b) (shares s))"
  from r obtain dsum where
    "rollups s' = rollups (upsert_rollup b ?c dsum s)"
    "shares s' = filter (\<lambda>r. \<not> in_hour b r) (shares s)"
    unfolding rollup_hour_txn_def
    by (auto simp: dbind_Inr dseq_Inr elim!: select_Inr modify_Inr stmt_Inr)
  moreover have "int (length (filter (\<lambda>r. \<not> in_hour b r) (shares s))) = int (length (shares s)) - ?c"
    using sum_length_filter_compl [of "in_hour b" "shares s"] by (simp add: count_where_def)
  ultimately show "share_total_is n s'"
    using P sum_where_upsert_rollup [of s b ?c dsum] distinct_upsert_rollup [of s b ?c dsum]
    by (simp add: share_total_is_def total_shares_def)
qed

lemma keeps_rollup: "keeps (share_total_is n) (rollup_loop A days k acc)"
  by (induction k arbitrary: acc)
    (auto intro!: db_inv on_ok_rollup_hour split: option.split)

end
