(* ===== verification/Db_Ledger.thy ===== *)
theory Db_Ledger
  imports Db_Queries
begin

text \<open>
  \<open>crates/pool-db/src/queries.rs\<close>: the money path.  Block credits and their reversal, pipeline
  costs, block submissions, balances, payouts and the reserve / confirm / refund saga.
  \<open>BEGIN IMMEDIATE .. COMMIT\<close> with its rollback is \<open>txn\<close>.
\<close>

section \<open>Balance updates\<close>

text \<open>
  \<open>INSERT OR IGNORE INTO balances (miner_id)\<close> and the guarded
  \<open>UPDATE balances SET .. WHERE miner_id = ?2 AND ..\<close>, which returns \<open>rows_affected\<close>.
\<close>

definition ensure_balance :: "int \<Rightarrow> unit dbm" where
  "ensure_balance m =
     stmt (\<lambda>s.
       if list_ex (\<lambda>b. bl_miner b = m) (balances s) then (Inr (), s)
       else check_fk (\<lambda>s. has_miner s m) (\<lambda>s.
         (Inr (), s\<lparr>balances := balances s @
           [\<lparr>bl_miner = m, bl_pending = 0, bl_paid = 0, bl_paying = 0\<rparr>]\<rparr>)) s)"

definition update_balance ::
  "int \<Rightarrow> (balance_row \<Rightarrow> bool) \<Rightarrow> (balance_row \<Rightarrow> balance_row) \<Rightarrow> nat dbm" where
  "update_balance m guard f =
     stmt (\<lambda>s. let c = (\<lambda>b. bl_miner b = m \<and> guard b) in
       (Inr (count_where c (balances s)),
        s\<lparr>balances := upd_where c f (balances s)\<rparr>))"

definition add_pending :: "int \<Rightarrow> balance_row \<Rightarrow> balance_row" where
  "add_pending a b = b\<lparr>bl_pending := bl_pending b + a\<rparr>"

section \<open>Block credits\<close>

definition insert_credit :: "int \<Rightarrow> int \<Rightarrow> int \<Rightarrow> unit dbm" where
  "insert_credit b m a =
     stmt (\<lambda>s.
       if list_ex (\<lambda>c. cr_block c = b \<and> cr_miner c = m) (credits s)
       then (Inl (Sqlx UniqueViolation), s)
       else check_fk (\<lambda>s. has_block s b \<and> has_miner s m) (\<lambda>s.
         (Inr (), s\<lparr>credits := credits s @
           [\<lparr>cr_block = b, cr_miner = m, cr_amount = a\<rparr>]\<rparr>)) s)"

definition credit_one :: "int \<Rightarrow> int \<times> int \<Rightarrow> unit dbm" where
  "credit_one b c = (case c of (m, a) \<Rightarrow>
     dseq (ensure_balance m)
    (dseq (insert_credit b m a)
    (dseq (update_balance m (\<lambda>_. True) (add_pending a))
          (dret ()))))"

definition distribute_block_credits :: "int \<Rightarrow> (int \<times> int) list \<Rightarrow> unit dbm" where
  "distribute_block_credits b cs = txn (dfor cs (credit_one b))"

definition insert_clawback :: "int \<Rightarrow> int \<Rightarrow> int \<Rightarrow> unit dbm" where
  "insert_clawback b m a =
     modify (\<lambda>s. (bump_id ''orphan_clawbacks'' s)\<lparr>clawbacks := clawbacks s @
       [\<lparr>cb_id = next_id ''orphan_clawbacks'' s, cb_block = b, cb_miner = m, cb_amount = a,
         cb_created = db_clock s, cb_acked = False, cb_note = None\<rparr>]\<rparr>)"

definition insert_cost :: "string \<Rightarrow> string \<Rightarrow> int \<Rightarrow> unit dbm" where
  "insert_cost kind ref fee =
     modify (\<lambda>s. (bump_id ''pool_tx_costs'' s)\<lparr>tx_costs := tx_costs s @
       [\<lparr>tc_id = next_id ''pool_tx_costs'' s, tc_kind = kind, tc_ref = Some ref, tc_fee = fee,
         tc_recovered = False, tc_created = db_clock s\<rparr>]\<rparr>)"

definition set_block_costs :: "int \<Rightarrow> int \<Rightarrow> unit dbm" where
  "set_block_costs b c =
     modify (\<lambda>s. s\<lparr>blocks := upd_where (\<lambda>r. bk_id r = b) (\<lambda>r. r\<lparr>bk_costs := c\<rparr>) (blocks s)\<rparr>)"

text \<open>One credit of the block, with the accumulated (reversed, clawback).\<close>

definition reverse_one :: "int \<Rightarrow> int \<times> int \<Rightarrow> int \<times> int \<Rightarrow> (int \<times> int) dbm" where
  "reverse_one b acc c = (case (acc, c) of ((reversed, clawback), (m, amount)) \<Rightarrow>
     dbind (fetch_optional (\<lambda>s. map bl_pending (filter (\<lambda>x. bl_miner x = m) (balances s)))) (\<lambda>p.
       let recoverable = max (min amount (COALESCE p 0)) 0;
           shortfall = amount - recoverable in
       dseq (dwhen (0 < recoverable)
              (dseq (update_balance m (\<lambda>_. True) (add_pending (- recoverable))) (dret ())))
      (dseq (dwhen (0 < shortfall) (insert_clawback b m shortfall))
            (dret (if 0 < recoverable then reversed + recoverable else reversed,
                   if 0 < shortfall then clawback + shortfall else clawback)))))"

definition requeue_costs :: "int \<Rightarrow> unit dbm" where
  "requeue_costs b =
     dbind (fetch_one (\<lambda>s. map bk_costs (filter (\<lambda>r. bk_id r = b) (blocks s)))) (\<lambda>recovered.
       dwhen (0 < recovered)
         (dseq (insert_cost ''reorphaned'' (''block:'' @ show_int b) recovered)
               (set_block_costs b 0)))"

definition reverse_block_credits_precise_txn :: "int \<Rightarrow> (int \<times> int) option dbm" where
  "reverse_block_credits_precise_txn b =
     dbind (select (\<lambda>s. map (\<lambda>c. (cr_miner c, cr_amount c))
                          (filter (\<lambda>c. cr_block c = b) (credits s)))) (\<lambda>cs.
       if cs = [] then dret None
       else
         dbind (dfold (reverse_one b) (0, 0) cs) (\<lambda>acc.
         dseq (modify (\<lambda>s. s\<lparr>credits := filter (\<lambda>c. cr_block c \<noteq> b) (credits s)\<rparr>))
        (dseq (requeue_costs b)
              (dret (Some acc)))))"

definition reverse_block_credits_precise :: "int \<Rightarrow> (int \<times> int) option dbm" where
  "reverse_block_credits_precise b = txn (reverse_block_credits_precise_txn b)"

text \<open>
  The legacy reversal: \<open>MAX(0, pending - CAST(pending * 1.0 * ?1 / ?2 AS INTEGER))\<close> on every
  balance with a positive pending amount.
\<close>

definition positive_pending :: "db \<Rightarrow> int" where
  "positive_pending s = sum_where (\<lambda>b. 0 < bl_pending b) bl_pending (balances s)"

definition proportional_cut :: "int \<Rightarrow> int \<Rightarrow> int \<Rightarrow> int" where
  "proportional_cut reversal tot p =
     as_i64 (fdiv (fmul (fmul (f64_of_int p) (Fin 1)) (f64_of_int reversal)) (f64_of_int tot))"

definition proportional_reversal :: "int \<Rightarrow> int \<Rightarrow> unit dbm" where
  "proportional_reversal reversal tot =
     modify (\<lambda>s. s\<lparr>balances := upd_where (\<lambda>b. 0 < bl_pending b)
       (\<lambda>b. b\<lparr>bl_pending := max 0 (bl_pending b - proportional_cut reversal tot (bl_pending b))\<rparr>)
       (balances s)\<rparr>)"

definition reverse_block_credits :: "int \<Rightarrow> unit dbm" where
  "reverse_block_credits block_reward =
     dbind (select positive_pending) (\<lambda>tot.
       if tot \<le> 0 then dret ()
       else proportional_reversal (min block_reward tot) tot)"

definition orphan_block_txn :: "int \<Rightarrow> int \<Rightarrow> (int \<times> int) option dbm" where
  "orphan_block_txn b block_reward =
     dbind (reverse_block_credits_precise_txn b) (\<lambda>outcome.
     dseq (if outcome = None
           then dbind (select positive_pending) (\<lambda>tot.
                  dwhen (0 < tot) (proportional_reversal (min block_reward tot) tot))
           else dret ())
    (dseq (modify (\<lambda>s. s\<lparr>blocks := upd_where (\<lambda>r. bk_id r = b)
             (\<lambda>r. r\<lparr>bk_status := ''orphaned''\<rparr>) (blocks s)\<rparr>))
          (dret outcome)))"

definition orphan_block :: "int \<Rightarrow> int \<Rightarrow> (int \<times> int) option dbm" where
  "orphan_block b block_reward = txn (orphan_block_txn b block_reward)"

section \<open>Clawbacks and exposure\<close>

definition get_recent_clawbacks :: "int \<Rightarrow> (int \<times> int \<times> int) list dbm" where
  "get_recent_clawbacks hours =
     select (\<lambda>s. map (\<lambda>r. (cb_block r, cb_miner r, cb_amount r))
       (filter (\<lambda>r. newer_than s hours 3600 (cb_created r) \<and> \<not> cb_acked r) (clawbacks s)))"

definition acknowledge_where :: "(clawback_row \<Rightarrow> bool) \<Rightarrow> string \<Rightarrow> int dbm" where
  "acknowledge_where c note =
     stmt (\<lambda>s. let d = (\<lambda>r. \<not> cb_acked r \<and> c r) in
       (Inr (int (count_where d (clawbacks s))),
        s\<lparr>clawbacks := upd_where d (\<lambda>r. r\<lparr>cb_acked := True, cb_note := Some note\<rparr>) (clawbacks s)\<rparr>))"

definition acknowledge_clawbacks :: "string \<Rightarrow> int dbm" where
  "acknowledge_clawbacks note = acknowledge_where (\<lambda>_. True) note"

definition acknowledge_clawbacks_for_block :: "int \<Rightarrow> string \<Rightarrow> int dbm" where
  "acknowledge_clawbacks_for_block b note = acknowledge_where (\<lambda>r. cb_block r = b) note"

definition block_pending :: "db \<Rightarrow> int \<Rightarrow> bool" where
  "block_pending s b \<longleftrightarrow> list_ex (\<lambda>r. bk_id r = b \<and> bk_status r = ''pending'') (blocks s)"

definition immature_exposure :: "db \<Rightarrow> int" where
  "immature_exposure s = sum_where (\<lambda>c. block_pending s (cr_block c)) cr_amount (credits s)"

definition get_immature_exposure :: "int dbm" where
  "get_immature_exposure = select immature_exposure"

definition credited_reward :: "db \<Rightarrow> int" where
  "credited_reward s =
     sum_where (\<lambda>b. bk_status b = ''pending'' \<or> bk_status b = ''confirmed'')
       (\<lambda>b. COALESCE (bk_actual b) (bk_reward b) - bk_costs b) (blocks s)"

definition balances_total :: "db \<Rightarrow> int" where
  "balances_total s =
     sum_where (\<lambda>_. True) bl_pending (balances s) + sum_where (\<lambda>_. True) bl_paying (balances s)
     + sum_where (\<lambda>_. True) bl_paid (balances s)"

definition clawback_total :: "db \<Rightarrow> int" where
  "clawback_total s = sum_where (\<lambda>_. True) cb_amount (clawbacks s)"

definition get_accounting_invariant :: "(int \<times> int \<times> int) dbm" where
  "get_accounting_invariant =
     dbind (select credited_reward) (\<lambda>r.
     dbind (select balances_total) (\<lambda>b.
     dbind (select clawback_total) (\<lambda>c. dret (r, b, c))))"

section \<open>Pipeline costs\<close>

definition record_tx_cost :: "string \<Rightarrow> string \<Rightarrow> int \<Rightarrow> unit dbm" where
  "record_tx_cost kind ref fee = insert_cost kind ref fee"

text \<open>The longest prefix of the unrecovered costs whose sum stays within the cap.\<close>

fun take_within :: "int \<Rightarrow> int \<Rightarrow> (int \<times> int) list \<Rightarrow> int \<times> int list" where
  "take_within cap taken [] = (taken, [])"
| "take_within cap taken ((i, fee) # rows) =
     (if cap < taken + fee then (taken, [])
      else (let (t, ids) = take_within cap (taken + fee) rows in (t, i # ids)))"

definition mark_recovered :: "int \<Rightarrow> unit dbm" where
  "mark_recovered i =
     modify (\<lambda>s. s\<lparr>tx_costs := upd_where (\<lambda>r. tc_id r = i)
       (\<lambda>r. r\<lparr>tc_recovered := True\<rparr>) (tx_costs s)\<rparr>)"

definition unrecovered :: "db \<Rightarrow> (int \<times> int) list" where
  "unrecovered s =
     map (\<lambda>r. (tc_id r, tc_fee r)) (sort_key tc_id (filter (\<lambda>r. \<not> tc_recovered r) (tx_costs s)))"

definition take_costs_for_block_txn :: "int \<Rightarrow> int \<Rightarrow> int dbm" where
  "take_costs_for_block_txn b cap =
     dbind (select unrecovered) (\<lambda>rows.
       let (taken, ids) = take_within cap 0 rows in
       dseq (dfor ids mark_recovered)
      (dseq (dwhen (0 < taken) (set_block_costs b taken))
            (dret taken)))"

definition take_costs_for_block :: "int \<Rightarrow> int \<Rightarrow> int dbm" where
  "take_costs_for_block b cap = txn (take_costs_for_block_txn b cap)"

section \<open>Block submissions\<close>

definition record_block_submission ::
  "int \<Rightarrow> string \<Rightarrow> int \<Rightarrow> int \<Rightarrow> int option \<Rightarrow> int dbm" where
  "record_block_submission height hash w reward actual =
     stmt (\<lambda>s. (Inr (next_id ''block_submissions'' s),
       (bump_id ''block_submissions'' s)\<lparr>submissions := submissions s @
         [\<lparr>su_id = next_id ''block_submissions'' s, su_height = height, su_hash = hash,
           su_worker = w, su_reward = reward, su_actual = actual, su_resolved = False,
           su_outcome = None, su_created = db_clock s\<rparr>]\<rparr>))"

definition resolve_block_submission :: "int \<Rightarrow> string \<Rightarrow> unit dbm" where
  "resolve_block_submission i outcome =
     modify (\<lambda>s. s\<lparr>submissions := upd_where (\<lambda>r. su_id r = i)
       (\<lambda>r. r\<lparr>su_resolved := True, su_outcome := Some outcome\<rparr>) (submissions s)\<rparr>)"

definition get_open_block_submissions :: "submission_row list dbm" where
  "get_open_block_submissions =
     select (\<lambda>s. sort_key su_id (filter (\<lambda>r. \<not> su_resolved r) (submissions s)))"

definition missing_credits :: "int \<Rightarrow> db \<Rightarrow> block_row list" where
  "missing_credits days s =
     sort_key bk_id (filter (\<lambda>b. (bk_status b = ''pending'' \<or> bk_status b = ''confirmed'')
       \<and> newer_than s days 86400 (bk_created b)
       \<and> \<not> list_ex (\<lambda>c. cr_block c = bk_id b) (credits s)) (blocks s))"

text \<open>The row is decoded with a non-null \<open>found_by\<close>.\<close>

fun decode_missing :: "block_row list \<Rightarrow> (int \<times> int \<times> int \<times> int) list option" where
  "decode_missing [] = Some []"
| "decode_missing (b # bs) =
     (case (bk_found_by b, decode_missing bs) of
        (Some w, Some rows) \<Rightarrow>
          Some ((bk_id b, bk_height b, COALESCE (bk_actual b) (bk_reward b), w) # rows)
      | _ \<Rightarrow> None)"

definition get_recent_blocks_missing_credits ::
  "int \<Rightarrow> (int \<times> int \<times> int \<times> int) list dbm" where
  "get_recent_blocks_missing_credits days =
     stmt (\<lambda>s. case decode_missing (missing_credits days s) of
       None \<Rightarrow> (Inl (Sqlx ColumnDecode), s)
     | Some rows \<Rightarrow> (Inr rows, s))"

section \<open>Balances\<close>

definition get_or_create_balance :: "int \<Rightarrow> balance_row dbm" where
  "get_or_create_balance m =
     dseq (ensure_balance m) (fetch_one (\<lambda>s. filter (\<lambda>b. bl_miner b = m) (balances s)))"

definition credit_balance :: "int \<Rightarrow> int \<Rightarrow> unit dbm" where
  "credit_balance m a =
     dseq (ensure_balance m) (dseq (update_balance m (\<lambda>_. True) (add_pending a)) (dret ()))"

definition adjust_miner_balance :: "int \<Rightarrow> int \<Rightarrow> int dbm" where
  "adjust_miner_balance m delta =
     dseq (ensure_balance m)
    (dseq (update_balance m (\<lambda>_. True) (\<lambda>b. b\<lparr>bl_pending := max 0 (bl_pending b + delta)\<rparr>))
          (fetch_one (\<lambda>s. map bl_pending (filter (\<lambda>b. bl_miner b = m) (balances s)))))"

section \<open>Payout attempts\<close>

definition create_payout_attempt :: "int \<Rightarrow> int \<Rightarrow> string \<Rightarrow> int dbm" where
  "create_payout_attempt miner_count tot source =
     stmt (\<lambda>s. (Inr (next_id ''payout_attempts'' s),
       (bump_id ''payout_attempts'' s)\<lparr>attempts := attempts s @
         [\<lparr>at_id = next_id ''payout_attempts'' s, at_opid = None, at_txid = None,
           at_status = ''queued'', at_miner_count = miner_count, at_total = tot,
           at_source = source, at_error = None, at_created = db_clock s,
           at_updated = db_clock s\<rparr>]\<rparr>))"

definition in_flight_status :: "string \<Rightarrow> bool" where
  "in_flight_status st \<longleftrightarrow> st = ''queued'' \<or> st = ''submitting'' \<or> st = ''sent''"

definition get_inflight_payout_attempt :: "(int \<times> string \<times> string) option dbm" where
  "get_inflight_payout_attempt =
     fetch_optional (\<lambda>s. map (\<lambda>r. (at_id r, at_status r, at_source r))
       (desc at_id (filter (\<lambda>r. in_flight_status (at_status r)
          \<and> newer_than s 5 60 (at_created r)) (attempts s))))"

definition coalesce_first :: "'a option \<Rightarrow> 'a option \<Rightarrow> 'a option" where
  "coalesce_first x y = (case x of None \<Rightarrow> y | Some a \<Rightarrow> Some a)"

definition update_payout_attempt ::
  "int \<Rightarrow> string \<Rightarrow> string option \<Rightarrow> string option \<Rightarrow> string option \<Rightarrow> unit dbm" where
  "update_payout_attempt i status opid txid err =
     modify (\<lambda>s. s\<lparr>attempts := upd_where (\<lambda>r. at_id r = i)
       (\<lambda>r. r\<lparr>at_status := status, at_opid := coalesce_first opid (at_opid r),
             at_txid := coalesce_first txid (at_txid r),
             at_error := coalesce_first err (at_error r), at_updated := db_clock s\<rparr>)
       (attempts s)\<rparr>)"

definition has_items :: "db \<Rightarrow> int \<Rightarrow> bool" where
  "has_items s a \<longleftrightarrow> list_ex (\<lambda>i. it_attempt i = a) (items s)"

definition get_stale_payout_attempts :: "int \<Rightarrow> attempt_row list dbm" where
  "get_stale_payout_attempts stale_minutes =
     select (\<lambda>s. sort_key at_id (filter (\<lambda>r. in_flight_status (at_status r)
       \<and> older_than s stale_minutes 60 (at_created r) \<and> \<not> has_items s (at_id r)) (attempts s)))"

definition items_of :: "db \<Rightarrow> int \<Rightarrow> (int \<times> int) list" where
  "items_of s a = map (\<lambda>i. (it_miner i, it_amount i)) (filter (\<lambda>i. it_attempt i = a) (items s))"

record reserved_attempt =
  ra_id :: int
  ra_status :: string
  ra_opid :: "string option"
  ra_txid :: "string option"
  ra_total :: int
  ra_created :: int

definition reserved_entry :: "db \<Rightarrow> attempt_row \<Rightarrow> reserved_attempt" where
  "reserved_entry s r =
     \<lparr>ra_id = at_id r, ra_status = at_status r, ra_opid = at_opid r, ra_txid = at_txid r,
      ra_total = sum_list (map snd (items_of s (at_id r))), ra_created = at_created r\<rparr>"

definition get_reserved_attempts :: "int option \<Rightarrow> reserved_attempt list dbm" where
  "get_reserved_attempts older =
     select (\<lambda>s. map (reserved_entry s) (sort_key at_id (filter (\<lambda>r. has_items s (at_id r)
       \<and> (case older of None \<Rightarrow> True | Some mins \<Rightarrow> older_than s mins 60 (at_created r)))
       (attempts s))))"

section \<open>Payouts\<close>

definition txid_groups :: "payout_row list \<Rightarrow> (string option \<times> int) list" where
  "txid_groups ps =
     map (\<lambda>t. (t, sum_where (\<lambda>p. po_txid p = t) po_amount ps)) (remdups (map po_txid ps))"

definition get_recent_payout_txids :: "int \<Rightarrow> (string option \<times> int) list dbm" where
  "get_recent_payout_txids hours =
     select (\<lambda>s. txid_groups (filter (\<lambda>p. newer_than s hours 3600 (po_created p)) (payouts s)))"

definition get_recent_payouts :: "int \<Rightarrow> payout_row list dbm" where
  "get_recent_payouts limit = select (\<lambda>s. sql_limit limit (desc po_id (payouts s)))"

definition get_miner_address :: "int \<Rightarrow> string dbm" where
  "get_miner_address m = fetch_one (\<lambda>s. map mi_address (filter (\<lambda>r. mi_id r = m) (miners s)))"

record pending_payout =
  pp_miner :: int
  pp_address :: string
  pp_amount :: int
  pp_created :: int

definition immature_of :: "db \<Rightarrow> int \<Rightarrow> int" where
  "immature_of s m =
     sum_where (\<lambda>c. cr_miner c = m \<and> block_pending s (cr_block c)) cr_amount (credits s)"

definition payable_rows :: "bool \<Rightarrow> db \<Rightarrow> pending_payout list" where
  "payable_rows include_immature s =
     concat (map (\<lambda>b. map (\<lambda>m.
         \<lparr>pp_miner = bl_miner b, pp_address = mi_address m,
          pp_amount = (if include_immature then bl_pending b
                       else bl_pending b - immature_of s (bl_miner b)),
          pp_created = mi_created m\<rparr>)
       (filter (\<lambda>m. mi_id m = bl_miner b) (miners s))) (balances s))"

definition paid_recently :: "db \<Rightarrow> int \<Rightarrow> int \<Rightarrow> bool" where
  "paid_recently s m cooldown \<longleftrightarrow>
     list_ex (\<lambda>p. po_miner p = m \<and> db_clock s - cooldown \<le> po_created p) (payouts s)"

definition eligible_payouts :: "int \<Rightarrow> bool \<Rightarrow> int \<Rightarrow> int \<Rightarrow> db \<Rightarrow> pending_payout list" where
  "eligible_payouts min_amount include_immature cooldown override_amount s =
     desc pp_amount (filter (\<lambda>t. min_amount \<le> pp_amount t
       \<and> (cooldown \<le> 0 \<or> override_amount \<le> pp_amount t \<or> \<not> paid_recently s (pp_miner t) cooldown))
       (payable_rows include_immature s))"

definition get_pending_payouts :: "int \<Rightarrow> bool \<Rightarrow> int \<Rightarrow> int \<Rightarrow> pending_payout list dbm" where
  "get_pending_payouts min_amount include_immature cooldown override_amount =
     select (eligible_payouts min_amount include_immature cooldown override_amount)"

definition insert_payout :: "int \<Rightarrow> string \<Rightarrow> int \<Rightarrow> int dbm" where
  "insert_payout m txid a =
     stmt (check_fk (\<lambda>s. has_miner s m) (\<lambda>s.
       (Inr (next_id ''payouts'' s),
        (bump_id ''payouts'' s)\<lparr>payouts := payouts s @
          [\<lparr>po_id = next_id ''payouts'' s, po_miner = m, po_txid = Some txid, po_amount = a,
            po_created = db_clock s\<rparr>]\<rparr>)))"

definition pending_to_paid :: "int \<Rightarrow> balance_row \<Rightarrow> balance_row" where
  "pending_to_paid a b = b\<lparr>bl_pending := bl_pending b - a, bl_paid := bl_paid b + a\<rparr>"

definition create_payout :: "int \<Rightarrow> int \<Rightarrow> string \<Rightarrow> int dbm" where
  "create_payout m a txid =
     txn (dbind (update_balance m (\<lambda>b. a \<le> bl_pending b) (pending_to_paid a)) (\<lambda>n.
       if n = 0 then draise (InsufficientPending m a)
       else insert_payout m txid a))"

definition void_one :: "string \<Rightarrow> int \<Rightarrow> int \<times> int \<Rightarrow> int dbm" where
  "void_one txid zats r = (case r of (m, a) \<Rightarrow>
     dbind (update_balance m (\<lambda>b. a \<le> bl_paid b)
              (\<lambda>b. b\<lparr>bl_paid := bl_paid b - a, bl_pending := bl_pending b + a\<rparr>)) (\<lambda>n.
       if n = 0
       then draise (Sqlx (Protocol (''auto-void aborted: miner '' @ show_int m @ '' paid < ''
              @ show_int a @ '' for txid '' @ txid)))
       else dret (zats + a)))"

definition rows_of_txid :: "string \<Rightarrow> db \<Rightarrow> (int \<times> int) list" where
  "rows_of_txid txid s =
     map (\<lambda>p. (po_miner p, po_amount p)) (filter (\<lambda>p. po_txid p = Some txid) (payouts s))"

definition void_reorged_payout_txn :: "string \<Rightarrow> (int \<times> int) dbm" where
  "void_reorged_payout_txn txid =
     dbind (select (\<lambda>s. count_where (\<lambda>p. po_txid p = Some txid
              \<and> newer_than s 60 60 (po_created p)) (payouts s))) (\<lambda>fresh.
       if 0 < fresh then dret (0, 0)
       else dbind (select (rows_of_txid txid)) (\<lambda>rows.
         if rows = [] then dret (0, 0)
         else
           dbind (dfold (void_one txid) 0 rows) (\<lambda>zats.
           dseq (modify (\<lambda>s. s\<lparr>payouts := filter (\<lambda>p. po_txid p \<noteq> Some txid) (payouts s)\<rparr>))
          (dseq (modify (\<lambda>s. s\<lparr>attempts := upd_where
                   (\<lambda>r. at_txid r = Some txid \<and> at_status r = ''confirmed'')
                   (\<lambda>r. r\<lparr>at_status := ''failed'', at_updated := db_clock s,
                     at_error := Some ''auto-void: tx reorged out and expired (-5); funds returned to pending''\<rparr>)
                   (attempts s)\<rparr>))
                (dret (int (length rows), zats))))))"

definition void_reorged_payout :: "string \<Rightarrow> (int \<times> int) dbm" where
  "void_reorged_payout txid = txn (void_reorged_payout_txn txid)"

section \<open>The payout saga\<close>

definition insert_item :: "int \<Rightarrow> int \<Rightarrow> int \<Rightarrow> unit dbm" where
  "insert_item aid m a =
     stmt (check_fk (\<lambda>s. has_attempt s aid \<and> has_miner s m) (\<lambda>s.
       (Inr (), (bump_id ''payout_items'' s)\<lparr>items := items s @
          [\<lparr>it_id = next_id ''payout_items'' s, it_attempt = aid, it_miner = m, it_amount = a,
            it_created = db_clock s\<rparr>]\<rparr>)))"

definition pending_to_paying :: "int \<Rightarrow> balance_row \<Rightarrow> balance_row" where
  "pending_to_paying a b = b\<lparr>bl_pending := bl_pending b - a, bl_paying := bl_paying b + a\<rparr>"

definition reserve_one ::
  "int \<Rightarrow> (int \<times> int) list \<Rightarrow> int \<times> int \<Rightarrow> (int \<times> int) list dbm" where
  "reserve_one aid reserved r = (case r of (m, a) \<Rightarrow>
     if a \<le> 0 then dret reserved
     else
       dbind (update_balance m (\<lambda>b. a \<le> bl_pending b) (pending_to_paying a)) (\<lambda>n.
         if n = 0 then dret reserved
         else dseq (insert_item aid m a) (dret (reserved @ [(m, a)]))))"

definition reserve_payout :: "int \<Rightarrow> (int \<times> int) list \<Rightarrow> (int \<times> int) list dbm" where
  "reserve_payout aid rs = txn (dfold (reserve_one aid) [] rs)"

definition saga_refused :: "string \<Rightarrow> string \<Rightarrow> int \<Rightarrow> int \<Rightarrow> int \<Rightarrow> db_error" where
  "saga_refused what verb aid m a =
     Sqlx (Protocol (what @ '' attempt '' @ show_int aid @ '': miner '' @ show_int m
       @ '' has paying < '' @ show_int a @ '' zatoshis - refusing to '' @ verb
       @ ''; investigate before retry''))"

definition paying_to_paid :: "int \<Rightarrow> balance_row \<Rightarrow> balance_row" where
  "paying_to_paid a b = b\<lparr>bl_paying := bl_paying b - a, bl_paid := bl_paid b + a\<rparr>"

definition confirm_one :: "int \<Rightarrow> string \<Rightarrow> int \<Rightarrow> int \<times> int \<Rightarrow> int dbm" where
  "confirm_one aid txid k r = (case r of (m, a) \<Rightarrow>
     dbind (update_balance m (\<lambda>b. a \<le> bl_paying b) (paying_to_paid a)) (\<lambda>n.
       if n = 0 then draise (saga_refused ''confirm_payout'' ''settle'' aid m a)
       else dseq (insert_payout m txid a) (dret (k + 1))))"

definition delete_items :: "int \<Rightarrow> unit dbm" where
  "delete_items aid = modify (\<lambda>s. s\<lparr>items := filter (\<lambda>i. it_attempt i \<noteq> aid) (items s)\<rparr>)"

definition confirm_payout :: "int \<Rightarrow> string \<Rightarrow> int dbm" where
  "confirm_payout aid txid =
     txn (dbind (select (\<lambda>s. items_of s aid)) (\<lambda>is.
          dbind (dfold (confirm_one aid txid) 0 is) (\<lambda>k.
          dseq (delete_items aid) (dret k))))"

definition paying_to_pending :: "int \<Rightarrow> balance_row \<Rightarrow> balance_row" where
  "paying_to_pending a b = b\<lparr>bl_paying := bl_paying b - a, bl_pending := bl_pending b + a\<rparr>"

definition refund_one :: "int \<Rightarrow> int \<Rightarrow> int \<times> int \<Rightarrow> int dbm" where
  "refund_one aid k r = (case r of (m, a) \<Rightarrow>
     dbind (update_balance m (\<lambda>b. a \<le> bl_paying b) (paying_to_pending a)) (\<lambda>n.
       if n = 0 then draise (saga_refused ''refund_payout'' ''refund'' aid m a)
       else dret (k + 1)))"

definition refund_payout :: "int \<Rightarrow> int dbm" where
  "refund_payout aid =
     txn (dbind (select (\<lambda>s. items_of s aid)) (\<lambda>is.
          dbind (dfold (refund_one aid) 0 is) (\<lambda>k.
          dseq (delete_items aid) (dret k))))"

end
