(* ===== verification/Ledger_Books.thy ===== *)
theory Ledger_Books
  imports Db_Ledger
begin

text \<open>
  The invariant of the balance sheet and how each money statement moves it.  \<open>sheet E F W\<close>
  says that every balance row is non-negative, that its \<open>paying\<close> and \<open>paid\<close> columns are
  \<open>E\<close> and \<open>F\<close> of its miner, and that what the pool owes each miner in all three columns is
  \<open>W\<close>.  \<open>books_ok\<close> instantiates \<open>E\<close> with the reserved payout items and \<open>F\<close> with the recorded
  payouts.
\<close>

section \<open>Sums per miner\<close>

definition item_sum :: "db \<Rightarrow> int \<Rightarrow> int" where
  "item_sum s m = sum_where (\<lambda>i. it_miner i = m) it_amount (items s)"

definition payout_sum :: "db \<Rightarrow> int \<Rightarrow> int" where
  "payout_sum s m = sum_where (\<lambda>p. po_miner p = m) po_amount (payouts s)"

definition credit_sum :: "db \<Rightarrow> int \<Rightarrow> int" where
  "credit_sum s m = sum_where (\<lambda>c. cr_miner c = m) cr_amount (credits s)"

definition clawback_sum :: "db \<Rightarrow> int \<Rightarrow> int" where
  "clawback_sum s m = sum_where (\<lambda>c. cb_miner c = m) cb_amount (clawbacks s)"

definition owed :: "db \<Rightarrow> int \<Rightarrow> int" where
  "owed s m = sum_where (\<lambda>b. bl_miner b = m)
     (\<lambda>b. bl_pending b + bl_paying b + bl_paid b) (balances s)"

definition pair_sum :: "(int \<times> int) list \<Rightarrow> int \<Rightarrow> int" where
  "pair_sum rs m = sum_where (\<lambda>r. fst r = m) snd rs"

lemma pair_sum_simps [simp]:
  "pair_sum [] m = 0"
  "pair_sum (r # rs) m = (if fst r = m then snd r else 0) + pair_sum rs m"
  "pair_sum (rs @ rs') m = pair_sum rs m + pair_sum rs' m"
  by (simp_all add: pair_sum_def)

lemma pair_sum_nonneg: "(\<forall>r \<in> set rs. 0 \<le> snd r) \<Longrightarrow> 0 \<le> pair_sum rs m"
  by (induction rs) auto

definition has_balance :: "db \<Rightarrow> int \<Rightarrow> bool" where
  "has_balance s m \<longleftrightarrow> m \<in> bl_miner ` set (balances s)"

section \<open>The sheet\<close>

definition sheet :: "(int \<Rightarrow> int) \<Rightarrow> (int \<Rightarrow> int) \<Rightarrow> (int \<Rightarrow> int) \<Rightarrow> balance_row list \<Rightarrow> bool" where
  "sheet E F W bs \<longleftrightarrow>
     distinct (map bl_miner bs) \<and>
     (\<forall>b \<in> set bs. 0 \<le> bl_pending b \<and> 0 \<le> bl_paying b \<and> 0 \<le> bl_paid b
        \<and> bl_paying b = E (bl_miner b) \<and> bl_paid b = F (bl_miner b)) \<and>
     (\<forall>m. sum_where (\<lambda>b. bl_miner b = m) (\<lambda>b. bl_pending b + bl_paying b + bl_paid b) bs = W m)"

lemma sheet_row:
  assumes "sheet E F W bs" "b \<in> set bs"
  shows "0 \<le> bl_pending b" "0 \<le> bl_paying b" "0 \<le> bl_paid b"
    "bl_paying b = E (bl_miner b)" "bl_paid b = F (bl_miner b)"
  using assms unfolding sheet_def by blast+

definition shift :: "int \<Rightarrow> int \<Rightarrow> int \<Rightarrow> balance_row \<Rightarrow> balance_row" where
  "shift p q r b =
     b\<lparr>bl_pending := bl_pending b + p, bl_paying := bl_paying b + q, bl_paid := bl_paid b + r\<rparr>"

lemma shift_sel [simp]:
  "bl_miner (shift p q r b) = bl_miner b"
  "bl_pending (shift p q r b) = bl_pending b + p"
  "bl_paying (shift p q r b) = bl_paying b + q"
  "bl_paid (shift p q r b) = bl_paid b + r"
  by (simp_all add: shift_def)

lemma as_shift:
  "add_pending a = shift a 0 0"
  "pending_to_paying a = shift (- a) a 0"
  "paying_to_paid a = shift 0 (- a) a"
  "paying_to_pending a = shift a (- a) 0"
  "pending_to_paid a = shift (- a) 0 a"
  "(\<lambda>b. b\<lparr>bl_paid := bl_paid b - a, bl_pending := bl_pending b + a\<rparr>) = shift a 0 (- a)"
  by (auto simp: fun_eq_iff shift_def add_pending_def pending_to_paying_def paying_to_paid_def
      paying_to_pending_def pending_to_paid_def)

lemma upd_where_none: "count_where c rows = 0 \<Longrightarrow> upd_where c f rows = rows"
  unfolding count_where_0 upd_where_def by (rule map_idI) auto

lemma unique_row:
  assumes "distinct (map k rows)" "r \<in> set rows"
  obtains xs ys where "rows = xs @ r # ys" "k r \<notin> k ` set xs" "k r \<notin> k ` set ys"
proof -
  obtain xs ys where "rows = xs @ r # ys" using assms(2) by (meson split_list)
  with that assms(1) show ?thesis by auto
qed

lemma upd_where_unique:
  assumes "distinct (map bl_miner rows)" "count_where (\<lambda>b. bl_miner b = m \<and> g b) rows \<noteq> 0"
  obtains xs b ys where "rows = xs @ b # ys" "bl_miner b = m" "g b"
    "m \<notin> bl_miner ` set xs" "m \<notin> bl_miner ` set ys"
    "upd_where (\<lambda>b. bl_miner b = m \<and> g b) f rows = xs @ f b # ys"
    "count_where (\<lambda>b. bl_miner b = m \<and> g b) rows = 1"
proof -
  from assms(2) obtain b where b: "b \<in> set rows" "bl_miner b = m" "g b"
    by (auto simp: count_where_0)
  from unique_row [OF assms(1) b(1)] obtain xs ys where r: "rows = xs @ b # ys"
    "m \<notin> bl_miner ` set xs" "m \<notin> bl_miner ` set ys" using b(2) by auto
  have "map (\<lambda>b. if bl_miner b = m \<and> g b then f b else b) xs = xs"
    "map (\<lambda>b. if bl_miner b = m \<and> g b then f b else b) ys = ys"
    "filter (\<lambda>b. bl_miner b = m \<and> g b) xs = []" "filter (\<lambda>b. bl_miner b = m \<and> g b) ys = []"
    using r(2,3) by (auto intro!: map_idI simp: filter_empty_conv)
  then show ?thesis
    using that [of xs b ys] r b by (simp add: upd_where_def count_where_def)
qed

lemma sum_where_others: "m \<notin> bl_miner ` set xs \<Longrightarrow> sum_where (\<lambda>b. bl_miner b = m) f xs = 0"
  by (induction xs) auto

lemma sheet_shift:
  assumes sh: "sheet E F W (xs @ b # ys)" and m: "bl_miner b = m"
    and nn: "0 \<le> bl_pending b + p" "0 \<le> bl_paying b + q" "0 \<le> bl_paid b + r"
  shows "sheet (E(m := E m + q)) (F(m := F m + r)) (W(m := W m + (p + q + r)))
           (xs @ shift p q r b # ys)"
proof -
  have d: "m \<notin> bl_miner ` set xs" "m \<notin> bl_miner ` set ys"
    using sh m by (auto simp: sheet_def)
  have w: "W m = bl_pending b + bl_paying b + bl_paid b"
  proof -
    have "sum_where (\<lambda>b. bl_miner b = m) (\<lambda>b. bl_pending b + bl_paying b + bl_paid b)
        (xs @ b # ys) = W m"
      using sh unfolding sheet_def by blast
    then show ?thesis using m d by (simp add: sum_where_others)
  qed
  have t: "sum_where (\<lambda>b. bl_miner b = k) (\<lambda>b. bl_pending b + bl_paying b + bl_paid b)
      (xs @ b # ys) = W k" for k
    using sh unfolding sheet_def by blast
  have t': "sum_where (\<lambda>b. bl_miner b = k) (\<lambda>b. bl_pending b + bl_paying b + bl_paid b)
      (xs @ shift p q r b # ys) = (W(m := W m + (p + q + r))) k" for k
    using t [of k] m d w by (cases "k = m") (simp_all add: sum_where_others)
  show ?thesis
    unfolding sheet_def
  proof (intro conjI allI)
    show "distinct (map bl_miner (xs @ shift p q r b # ys))"
      using sh by (simp add: sheet_def)
    have others: "0 \<le> bl_pending b' \<and> 0 \<le> bl_paying b' \<and> 0 \<le> bl_paid b' \<and>
        bl_paying b' = (E(m := E m + q)) (bl_miner b') \<and>
        bl_paid b' = (F(m := F m + r)) (bl_miner b')"
      if "b' \<in> set xs \<union> set ys" for b'
    proof -
      have "bl_miner b' \<noteq> m" using that d by auto
      moreover have "b' \<in> set (xs @ b # ys)" using that by auto
      ultimately show ?thesis using sheet_row [OF sh, of b'] by simp
    qed
    have ef: "bl_paying b = E m" "bl_paid b = F m" using sheet_row [OF sh, of b] m by auto
    show "\<forall>b' \<in> set (xs @ shift p q r b # ys). 0 \<le> bl_pending b' \<and> 0 \<le> bl_paying b' \<and>
        0 \<le> bl_paid b' \<and> bl_paying b' = (E(m := E m + q)) (bl_miner b') \<and>
        bl_paid b' = (F(m := F m + r)) (bl_miner b')"
    proof (intro ballI)
      fix b' assume "b' \<in> set (xs @ shift p q r b # ys)"
      then consider "b' \<in> set xs \<union> set ys" | "b' = shift p q r b" by auto
      then show "0 \<le> bl_pending b' \<and> 0 \<le> bl_paying b' \<and> 0 \<le> bl_paid b' \<and>
          bl_paying b' = (E(m := E m + q)) (bl_miner b') \<and>
          bl_paid b' = (F(m := F m + r)) (bl_miner b')"
      proof cases
        case 1
        then show ?thesis by (rule others)
      next
        case 2
        then show ?thesis using ef nn m by simp
      qed
    qed
  qed (rule t')
qed

text \<open>What a guarded update of one miner's balance does to the sheet.\<close>

lemma update_balance_sheet:
  assumes run: "update_balance m g (shift p q r) s = (Inr n, s')"
    and sh: "sheet E F W (balances s)"
    and nn: "\<forall>b \<in> set (balances s). bl_miner b = m \<longrightarrow> g b \<longrightarrow>
               0 \<le> bl_pending b + p \<and> 0 \<le> bl_paying b + q \<and> 0 \<le> bl_paid b + r"
  obtains (none) fs where "n = 0" "s' = s\<lparr>db_faults := fs\<rparr>"
      "\<And>b. b \<in> set (balances s) \<Longrightarrow> bl_miner b = m \<Longrightarrow> \<not> g b"
  | (one) fs bs where "n = 1" "s' = s\<lparr>balances := bs, db_faults := fs\<rparr>"
      "sheet (E(m := E m + q)) (F(m := F m + r)) (W(m := W m + (p + q + r))) bs"
      "bl_miner ` set bs = bl_miner ` set (balances s)"
      "m \<in> bl_miner ` set (balances s)"
proof -
  let ?c = "\<lambda>b. bl_miner b = m \<and> g b"
  from run [unfolded update_balance_def] obtain fs where
    "(let c = ?c in (Inr (count_where c (balances (s\<lparr>db_faults := fs\<rparr>))),
        s\<lparr>db_faults := fs\<rparr>\<lparr>balances := upd_where c (shift p q r) (balances (s\<lparr>db_faults := fs\<rparr>))\<rparr>))
     = (Inr n :: db_error + nat, s')"
    by (rule stmt_Inr)
  then have n: "n = count_where ?c (balances s)"
    and s': "s' = s\<lparr>balances := upd_where ?c (shift p q r) (balances s), db_faults := fs\<rparr>"
    by (auto simp: Let_def)
  show ?thesis
  proof (cases "count_where ?c (balances s) = 0")
    case True
    then have "s' = s\<lparr>db_faults := fs\<rparr>" using s' by (simp add: upd_where_none)
    moreover have "\<not> g b" if "b \<in> set (balances s)" "bl_miner b = m" for b
      using True that by (auto simp: count_where_0)
    moreover have "n = 0" using n True by simp
    ultimately show ?thesis by (intro none)
  next
    case False
    have "distinct (map bl_miner (balances s))" using sh by (simp add: sheet_def)
    from upd_where_unique [OF this False, of "shift p q r"] obtain xs b ys where
      u: "balances s = xs @ b # ys" "bl_miner b = m" "g b"
      "upd_where ?c (shift p q r) (balances s) = xs @ shift p q r b # ys"
      "count_where ?c (balances s) = 1" .
    then have "0 \<le> bl_pending b + p \<and> 0 \<le> bl_paying b + q \<and> 0 \<le> bl_paid b + r"
      using nn by simp
    then have "sheet (E(m := E m + q)) (F(m := F m + r)) (W(m := W m + (p + q + r)))
        (xs @ shift p q r b # ys)"
      using sheet_shift [of E F W xs b ys m p q r] sh u by simp
    moreover have "n = 1" "s' = s\<lparr>balances := xs @ shift p q r b # ys, db_faults := fs\<rparr>"
      using n s' u by simp_all
    moreover have "bl_miner ` set (xs @ shift p q r b # ys) = bl_miner ` set (balances s)"
      "m \<in> bl_miner ` set (balances s)" using u by auto
    ultimately show ?thesis by (intro one)
  qed
qed

section \<open>Books\<close>

definition books_ok :: "db \<Rightarrow> bool" where
  "books_ok s \<longleftrightarrow>
     sheet (item_sum s) (payout_sum s) (owed s) (balances s) \<and>
     (\<forall>i \<in> set (items s). 0 < it_amount i \<and> has_balance s (it_miner i)) \<and>
     (\<forall>p \<in> set (payouts s). 0 \<le> po_amount p \<and> has_balance s (po_miner p))"

text \<open>\<open>books W s\<close>: the books are in order and what is owed to each miner is \<open>W\<close>.\<close>

definition books :: "(int \<Rightarrow> int) \<Rightarrow> db \<Rightarrow> bool" where
  "books W s \<longleftrightarrow> books_ok s \<and> owed s = W"

lemma sheet_owed: "sheet E F W (balances s) \<Longrightarrow> owed s = W"
  by (auto simp: sheet_def owed_def)

lemma books_iff:
  "books W s \<longleftrightarrow>
     sheet (item_sum s) (payout_sum s) W (balances s) \<and>
     (\<forall>i \<in> set (items s). 0 < it_amount i \<and> has_balance s (it_miner i)) \<and>
     (\<forall>p \<in> set (payouts s). 0 \<le> po_amount p \<and> has_balance s (po_miner p))"
  unfolding books_def books_ok_def using sheet_owed by metis

lemma sum_sel_faults [simp]:
  "item_sum (s\<lparr>db_faults := fs\<rparr>) = item_sum s"
  "payout_sum (s\<lparr>db_faults := fs\<rparr>) = payout_sum s"
  "credit_sum (s\<lparr>db_faults := fs\<rparr>) = credit_sum s"
  "clawback_sum (s\<lparr>db_faults := fs\<rparr>) = clawback_sum s"
  "owed (s\<lparr>db_faults := fs\<rparr>) = owed s"
  "has_balance (s\<lparr>db_faults := fs\<rparr>) = has_balance s"
  by (auto simp: fun_eq_iff item_sum_def payout_sum_def credit_sum_def clawback_sum_def
      owed_def has_balance_def)

text \<open>Each sum depends on its own table.\<close>

lemma sum_frame [simp]:
  "item_sum (balances_update f s) = item_sum s"
  "item_sum (payouts_update f2 s) = item_sum s"
  "item_sum (credits_update f3 s) = item_sum s"
  "item_sum (clawbacks_update f4 s) = item_sum s"
  "item_sum (db_seq_update f5 s) = item_sum s"
  "item_sum (attempts_update f6 s) = item_sum s"
  "item_sum (blocks_update f7 s) = item_sum s"
  "item_sum (tx_costs_update f8 s) = item_sum s"
  "payout_sum (balances_update f s) = payout_sum s"
  "payout_sum (items_update f9 s) = payout_sum s"
  "payout_sum (credits_update f3 s) = payout_sum s"
  "payout_sum (clawbacks_update f4 s) = payout_sum s"
  "payout_sum (db_seq_update f5 s) = payout_sum s"
  "payout_sum (attempts_update f6 s) = payout_sum s"
  "payout_sum (blocks_update f7 s) = payout_sum s"
  "payout_sum (tx_costs_update f8 s) = payout_sum s"
  by (auto simp: fun_eq_iff item_sum_def payout_sum_def)

lemma sum_frame_credits [simp]:
  "credit_sum (balances_update f s) = credit_sum s"
  "credit_sum (payouts_update f2 s) = credit_sum s"
  "credit_sum (items_update f9 s) = credit_sum s"
  "credit_sum (clawbacks_update f4 s) = credit_sum s"
  "credit_sum (db_seq_update f5 s) = credit_sum s"
  "credit_sum (attempts_update f6 s) = credit_sum s"
  "credit_sum (blocks_update f7 s) = credit_sum s"
  "credit_sum (tx_costs_update f8 s) = credit_sum s"
  "clawback_sum (balances_update f s) = clawback_sum s"
  "clawback_sum (payouts_update f2 s) = clawback_sum s"
  "clawback_sum (items_update f9 s) = clawback_sum s"
  "clawback_sum (credits_update f3 s) = clawback_sum s"
  "clawback_sum (db_seq_update f5 s) = clawback_sum s"
  "clawback_sum (attempts_update f6 s) = clawback_sum s"
  "clawback_sum (blocks_update f7 s) = clawback_sum s"
  "clawback_sum (tx_costs_update f8 s) = clawback_sum s"
  by (auto simp: fun_eq_iff credit_sum_def clawback_sum_def)

lemma books_no_faults [simp, intro]:
  "no_faults_dep (books W)" "no_faults_dep books_ok"
  by (auto simp: no_faults_dep_def books_iff books_ok_def)

lemma books_empty: "books (\<lambda>_. 0) (empty_db fk t fs)"
  by (simp add: books_iff empty_db_def sheet_def item_sum_def payout_sum_def fun_eq_iff)

lemma books_okD:
  assumes "books_ok s" "b \<in> set (balances s)"
  shows "0 \<le> bl_pending b" "0 \<le> bl_paying b" "0 \<le> bl_paid b"
    "bl_paying b = item_sum s (bl_miner b)" "bl_paid b = payout_sum s (bl_miner b)"
proof -
  have "sheet (item_sum s) (payout_sum s) (owed s) (balances s)"
    using assms(1) by (simp add: books_ok_def)
  from sheet_row [OF this assms(2)] show "0 \<le> bl_pending b" "0 \<le> bl_paying b" "0 \<le> bl_paid b"
    "bl_paying b = item_sum s (bl_miner b)" "bl_paid b = payout_sum s (bl_miner b)"
    by auto
qed

end
