(* ===== verification/Ledger_Saga.thy ===== *)
theory Ledger_Saga
  imports Ledger_Books
begin

text \<open>
  The payout saga and the other money operations keep the books: what each run of
  \<open>reserve_payout\<close>, \<open>confirm_payout\<close>, \<open>refund_payout\<close>, \<open>create_payout\<close>,
  \<open>void_reorged_payout\<close> and \<open>distribute_block_credits\<close> does to \<open>sheet\<close>, whatever statements
  fail.
\<close>

section \<open>Single statements\<close>

lemma check_fk_Inr:
  "check_fk p f s = (Inr a, s') \<longleftrightarrow> \<not> (db_fk s \<and> \<not> p s) \<and> f s = (Inr a, s')"
  by (simp add: check_fk_def)

lemma insert_item_Inr:
  assumes "insert_item aid m a s = (Inr u, s')"
  obtains fs q i where
    "s' = s\<lparr>items := items s @ [i], db_seq := q, db_faults := fs\<rparr>"
    "it_attempt i = aid" "it_miner i = m" "it_amount i = a"
proof -
  from assms [unfolded insert_item_def] obtain fs where
    r: "check_fk (\<lambda>s. has_attempt s aid \<and> has_miner s m) (\<lambda>s.
       (Inr (), (bump_id ''payout_items'' s)\<lparr>items := items s @
          [\<lparr>it_id = next_id ''payout_items'' s, it_attempt = aid, it_miner = m, it_amount = a,
            it_created = db_clock s\<rparr>]\<rparr>)) (s\<lparr>db_faults := fs\<rparr>) = (Inr u, s')"
    by (rule stmt_Inr)
  show ?thesis
    by (rule that [where i = "\<lparr>it_id = next_id ''payout_items'' s, it_attempt = aid, it_miner = m,
          it_amount = a, it_created = db_clock s\<rparr>" and q = "db_seq s'" and fs = fs])
      (use r in \<open>auto simp: check_fk_Inr bump_id_def next_id_def\<close>)
qed

lemma insert_payout_Inr:
  assumes "insert_payout m txid a s = (Inr u, s')"
  obtains fs q p where
    "s' = s\<lparr>payouts := payouts s @ [p], db_seq := q, db_faults := fs\<rparr>"
    "po_txid p = Some txid" "po_miner p = m" "po_amount p = a" "po_created p = db_clock s"
proof -
  from assms [unfolded insert_payout_def] obtain fs where
    r: "check_fk (\<lambda>s. has_miner s m) (\<lambda>s.
       (Inr (next_id ''payouts'' s),
        (bump_id ''payouts'' s)\<lparr>payouts := payouts s @
          [\<lparr>po_id = next_id ''payouts'' s, po_miner = m, po_txid = Some txid, po_amount = a,
            po_created = db_clock s\<rparr>]\<rparr>)) (s\<lparr>db_faults := fs\<rparr>) = (Inr u, s')"
    by (rule stmt_Inr)
  show ?thesis
    by (rule that [where p = "\<lparr>po_id = next_id ''payouts'' s, po_miner = m, po_txid = Some txid,
          po_amount = a, po_created = db_clock s\<rparr>" and q = "db_seq s'" and fs = fs])
      (use r in \<open>auto simp: check_fk_Inr bump_id_def next_id_def\<close>)
qed

lemma insert_credit_Inr:
  assumes "insert_credit b m a s = (Inr u, s')"
  obtains fs where
    "s' = s\<lparr>credits := credits s @ [\<lparr>cr_block = b, cr_miner = m, cr_amount = a\<rparr>], db_faults := fs\<rparr>"
    "\<not> list_ex (\<lambda>c. cr_block c = b \<and> cr_miner c = m) (credits s)"
proof -
  from assms [unfolded insert_credit_def] obtain fs where
    r: "(if list_ex (\<lambda>c. cr_block c = b \<and> cr_miner c = m) (credits (s\<lparr>db_faults := fs\<rparr>))
       then (Inl (Sqlx UniqueViolation), s\<lparr>db_faults := fs\<rparr>)
       else check_fk (\<lambda>s. has_block s b \<and> has_miner s m) (\<lambda>s.
         (Inr (), s\<lparr>credits := credits s @
           [\<lparr>cr_block = b, cr_miner = m, cr_amount = a\<rparr>]\<rparr>)) (s\<lparr>db_faults := fs\<rparr>)) = (Inr u, s')"
    by (rule stmt_Inr)
  show ?thesis
    by (rule that [of fs]) (use r in \<open>auto simp: check_fk_Inr split: if_splits\<close>)
qed

lemma ensure_balance_Inr:
  assumes "ensure_balance m s = (Inr u, s')"
  obtains (old) fs where "s' = s\<lparr>db_faults := fs\<rparr>" "has_balance s m"
  | (new) fs where "s' = s\<lparr>balances := balances s @
        [\<lparr>bl_miner = m, bl_pending = 0, bl_paid = 0, bl_paying = 0\<rparr>], db_faults := fs\<rparr>"
      "\<not> has_balance s m"
proof -
  from assms [unfolded ensure_balance_def] obtain fs where
    r: "(if list_ex (\<lambda>b. bl_miner b = m) (balances (s\<lparr>db_faults := fs\<rparr>))
         then (Inr (), s\<lparr>db_faults := fs\<rparr>)
       else check_fk (\<lambda>s. has_miner s m) (\<lambda>s.
         (Inr (), s\<lparr>balances := balances s @
           [\<lparr>bl_miner = m, bl_pending = 0, bl_paid = 0, bl_paying = 0\<rparr>]\<rparr>))
         (s\<lparr>db_faults := fs\<rparr>)) = (Inr u, s')"
    by (rule stmt_Inr)
  have hb: "has_balance s m \<longleftrightarrow> list_ex (\<lambda>b. bl_miner b = m) (balances s)"
    by (auto simp: has_balance_def list_ex_iff)
  show ?thesis
  proof (cases "has_balance s m")
    case True
    show ?thesis by (rule old [of fs]) (use r True hb in auto)
  next
    case False
    show ?thesis by (rule new [of fs]) (use r False hb in \<open>auto simp: check_fk_Inr\<close>)
  qed
qed

lemma sheet_new_row:
  assumes "sheet E F W bs" "m \<notin> bl_miner ` set bs" "E m = 0" "F m = 0"
  shows "sheet E F W (bs @ [\<lparr>bl_miner = m, bl_pending = 0, bl_paid = 0, bl_paying = 0\<rparr>])"
  unfolding sheet_def
proof (intro conjI allI)
  show "\<forall>b \<in> set (bs @ [\<lparr>bl_miner = m, bl_pending = 0, bl_paid = 0, bl_paying = 0\<rparr>]).
      0 \<le> bl_pending b \<and> 0 \<le> bl_paying b \<and> 0 \<le> bl_paid b
        \<and> bl_paying b = E (bl_miner b) \<and> bl_paid b = F (bl_miner b)"
    using sheet_row [OF assms(1)] assms(3,4) by auto
qed (use assms(1,2) in \<open>auto simp: sheet_def\<close>)

lemma no_items_no_sum: "\<forall>i \<in> set (items s). it_miner i \<noteq> m \<Longrightarrow> item_sum s m = 0"
  by (simp add: item_sum_def sum_where_def filter_False)

lemma no_payouts_no_sum: "\<forall>p \<in> set (payouts s). po_miner p \<noteq> m \<Longrightarrow> payout_sum s m = 0"
  by (simp add: payout_sum_def sum_where_def filter_False)

lemma books_new_row:
  assumes "books W s" "\<not> has_balance s m"
  shows "books W (s\<lparr>balances := balances s @
    [\<lparr>bl_miner = m, bl_pending = 0, bl_paid = 0, bl_paying = 0\<rparr>], db_faults := fs\<rparr>)"
proof -
  have "item_sum s m = 0" "payout_sum s m = 0"
    using assms by (auto simp: books_iff has_balance_def intro!: no_items_no_sum no_payouts_no_sum)
  then have "sheet (item_sum s) (payout_sum s) W (balances s @
      [\<lparr>bl_miner = m, bl_pending = 0, bl_paid = 0, bl_paying = 0\<rparr>])"
    using assms sheet_new_row by (simp add: books_iff has_balance_def)
  then show ?thesis
    using assms(1) by (auto simp: books_iff has_balance_def)
qed

lemma on_ok_ensure_balance:
  "on_ok (books W) (ensure_balance m) (\<lambda>_ s. books W s \<and> has_balance s m)"
proof (rule on_okI)
  fix s u s' assume P: "books W s" and r: "ensure_balance m s = (Inr u, s')"
  from r show "books W s' \<and> has_balance s' m"
  proof (cases rule: ensure_balance_Inr)
    case (old fs)
    then show ?thesis using P no_faults_depD [OF books_no_faults(1)] by auto
  next
    case (new fs)
    then show ?thesis using books_new_row [OF P new(2)] by (simp add: has_balance_def)
  qed
qed

section \<open>Reserve\<close>

lemma books_reserved:
  assumes B: "books W s"
    and sh: "sheet ((item_sum s)(m := item_sum s m + a)) (payout_sum s) W bs"
    and mi: "bl_miner ` set bs = bl_miner ` set (balances s)" "m \<in> bl_miner ` set (balances s)"
    and i: "it_miner i = m" "it_amount i = a" "0 < a"
  shows "books W (s\<lparr>balances := bs, items := items s @ [i], db_seq := q, db_faults := fs\<rparr>)"
proof -
  let ?s = "s\<lparr>balances := bs, items := items s @ [i], db_seq := q, db_faults := fs\<rparr>"
  have "item_sum ?s = (item_sum s)(m := item_sum s m + a)"
    using i by (auto simp: item_sum_def fun_eq_iff)
  then show ?thesis
    using B sh mi i by (auto simp: books_iff has_balance_def)
qed

lemma on_ok_reserve_one: "on_ok (books W) (reserve_one aid acc r) (\<lambda>_. books W)"
proof (rule on_okI)
  fix s acc' s' assume B: "books W s" and run: "reserve_one aid acc r s = (Inr acc', s')"
  obtain m a where r: "r = (m, a)" by (cases r)
  show "books W s'"
  proof (cases "a \<le> 0")
    case True
    then show ?thesis using B run by (simp add: reserve_one_def r)
  next
    case False
    then obtain n s1 where
      u: "update_balance m (\<lambda>b. a \<le> bl_pending b) (shift (- a) a 0) s = (Inr n, s1)"
      and k: "(if n = 0 then dret acc else dseq (insert_item aid m a) (dret (acc @ [(m, a)]))) s1
                = (Inr acc', s')"
      using run by (auto simp: reserve_one_def r dbind_Inr as_shift)
    have sh: "sheet (item_sum s) (payout_sum s) W (balances s)" using B by (simp add: books_iff)
    have nn: "\<forall>b \<in> set (balances s). bl_miner b = m \<longrightarrow> a \<le> bl_pending b \<longrightarrow>
        0 \<le> bl_pending b + - a \<and> 0 \<le> bl_paying b + a \<and> 0 \<le> bl_paid b + 0"
      using sheet_row [OF sh] False by auto
    from u sh nn show ?thesis
    proof (cases rule: update_balance_sheet)
      case (none fs)
      then show ?thesis using k B no_faults_depD [OF books_no_faults(1)] by auto
    next
      case (one fs bs)
      then obtain v s2 where "insert_item aid m a s1 = (Inr v, s2)" "s' = s2"
        using k by (auto simp: dseq_Inr)
      then obtain fs' q i where "s' = s1\<lparr>items := items s1 @ [i], db_seq := q, db_faults := fs'\<rparr>"
        "it_miner i = m" "it_amount i = a" by (auto elim: insert_item_Inr)
      moreover have "sheet ((item_sum s)(m := item_sum s m + a)) (payout_sum s) W bs"
        using one(3) by simp
      ultimately show ?thesis
        using books_reserved [OF B _ one(4,5), where a = a and i = i and q = q and fs = fs'] one(2) False
        by simp
    qed
  qed
qed

lemma keeps_reserve: "keeps (books W) (reserve_payout aid rs)"
  unfolding reserve_payout_def
  by (rule keeps_txn) (auto intro!: on_ok_fold [where I = "\<lambda>_. books W"] on_ok_reserve_one)

section \<open>Confirm, refund, void\<close>

lemma item_sum_delete:
  "item_sum (s\<lparr>items := filter (\<lambda>i. it_attempt i \<noteq> aid) (items s)\<rparr>)
     = (\<lambda>m. item_sum s m - pair_sum (items_of s aid) m)"
proof (rule ext)
  fix m
  have "sum_where (\<lambda>i. it_miner i = m) it_amount (filter (\<lambda>i. it_attempt i \<noteq> aid) is)
      = sum_where (\<lambda>i. it_miner i = m) it_amount is
        - pair_sum (map (\<lambda>i. (it_miner i, it_amount i)) (filter (\<lambda>i. it_attempt i = aid) is)) m" for "is"
    by (induction "is") auto
  then show "item_sum (s\<lparr>items := filter (\<lambda>i. it_attempt i \<noteq> aid) (items s)\<rparr>) m
      = item_sum s m - pair_sum (items_of s aid) m"
    by (simp add: item_sum_def items_of_def)
qed

lemma payout_sum_delete:
  "payout_sum (s\<lparr>payouts := filter (\<lambda>p. po_txid p \<noteq> Some txid) (payouts s)\<rparr>)
     = (\<lambda>m. payout_sum s m - pair_sum (rows_of_txid txid s) m)"
proof (rule ext)
  fix m
  have "sum_where (\<lambda>p. po_miner p = m) po_amount (filter (\<lambda>p. po_txid p \<noteq> Some txid) ps)
      = sum_where (\<lambda>p. po_miner p = m) po_amount ps
        - pair_sum (map (\<lambda>p. (po_miner p, po_amount p)) (filter (\<lambda>p. po_txid p = Some txid) ps)) m" for ps
    by (induction ps) auto
  then show "payout_sum (s\<lparr>payouts := filter (\<lambda>p. po_txid p \<noteq> Some txid) (payouts s)\<rparr>) m
      = payout_sum s m - pair_sum (rows_of_txid txid s) m"
    by (simp add: payout_sum_def rows_of_txid_def)
qed

lemma payout_sum_append:
  "po_miner p = m \<Longrightarrow> po_amount p = a \<Longrightarrow>
   payout_sum (s\<lparr>payouts := payouts s @ [p]\<rparr>) = (payout_sum s)(m := payout_sum s m + a)"
  by (auto simp: payout_sum_def fun_eq_iff)

text \<open>One item that the guard lets through.\<close>

lemma move_one:
  assumes u: "update_balance m g (shift p q r) s = (Inr n, s1)" and n: "n \<noteq> 0"
    and sh: "sheet E F W (balances s)"
    and nn: "\<forall>b \<in> set (balances s). bl_miner b = m \<longrightarrow> g b \<longrightarrow>
               0 \<le> bl_pending b + p \<and> 0 \<le> bl_paying b + q \<and> 0 \<le> bl_paid b + r"
  obtains fs bs where "s1 = s\<lparr>balances := bs, db_faults := fs\<rparr>"
    "sheet (E(m := E m + q)) (F(m := F m + r)) (W(m := W m + (p + q + r))) bs"
    "bl_miner ` set bs = bl_miner ` set (balances s)" "m \<in> bl_miner ` set (balances s)"
  using u sh nn
proof (cases rule: update_balance_sheet)
  case (none fs)
  then show ?thesis using n by simp
next
  case (one fs bs)
  then show ?thesis using that by blast
qed

text \<open>The tables and settings that the payout operations leave alone.\<close>

definition rest_same :: "db \<Rightarrow> db \<Rightarrow> bool" where
  "rest_same s s' \<longleftrightarrow> miners s' = miners s \<and> workers s' = workers s \<and> shares s' = shares s
     \<and> blocks s' = blocks s \<and> credits s' = credits s \<and> clawbacks s' = clawbacks s
     \<and> tx_costs s' = tx_costs s \<and> submissions s' = submissions s \<and> rollups s' = rollups s
     \<and> labels s' = labels s \<and> statuses s' = statuses s \<and> db_clock s' = db_clock s
     \<and> db_fk s' = db_fk s"

lemma rest_same_refl [simp]: "rest_same s s"
  by (simp add: rest_same_def)

lemma rest_same_trans: "rest_same s t \<Longrightarrow> rest_same t u \<Longrightarrow> rest_same s u"
  by (simp add: rest_same_def)

definition same_miners :: "balance_row list \<Rightarrow> balance_row list \<Rightarrow> bool" where
  "same_miners bs bs' \<longleftrightarrow> bl_miner ` set bs = bl_miner ` set bs'"

definition new_payouts :: "string \<Rightarrow> (int \<times> int) list \<Rightarrow> db \<Rightarrow> db \<Rightarrow> bool" where
  "new_payouts txid rs s s' \<longleftrightarrow> (\<exists>ps. payouts s' = payouts s @ ps
     \<and> map (\<lambda>p. (po_miner p, po_amount p)) ps = rs
     \<and> (\<forall>p \<in> set ps. po_txid p = Some txid \<and> po_created p = db_clock s))"

lemma new_payouts_Nil [simp]: "new_payouts txid [] s s"
  by (simp add: new_payouts_def)

lemma new_payouts_Cons:
  assumes "payouts s1 = payouts s @ [p]" "po_txid p = Some txid" "po_created p = db_clock s"
    "db_clock s1 = db_clock s" "new_payouts txid rs s1 s'"
  shows "new_payouts txid ((po_miner p, po_amount p) # rs) s s'"
proof -
  from assms(5) obtain ps where "payouts s' = payouts s @ (p # ps)"
    "map (\<lambda>p. (po_miner p, po_amount p)) (p # ps) = (po_miner p, po_amount p) # rs"
    "\<forall>p \<in> set (p # ps). po_txid p = Some txid \<and> po_created p = db_clock s"
    using assms(1-4) by (auto simp: new_payouts_def)
  then show ?thesis unfolding new_payouts_def by (intro exI [of _ "p # ps"]) simp
qed

lemma confirm_one_step:
  assumes run: "confirm_one aid txid k (m, a) s = (Inr k', s')"
    and sh: "sheet E (payout_sum s) W (balances s)" and a: "0 \<le> a"
  obtains p where "k' = k + 1" "rest_same s s'" "items s' = items s" "attempts s' = attempts s"
    "payouts s' = payouts s @ [p]"
    "po_txid p = Some txid" "po_miner p = m" "po_amount p = a" "po_created p = db_clock s"
    "sheet (E(m := E m - a)) (payout_sum s') W (balances s')"
    "same_miners (balances s') (balances s)" "has_balance s m"
proof -
  from run obtain n s1 where
    u: "update_balance m (\<lambda>b. a \<le> bl_paying b) (shift 0 (- a) a) s = (Inr n, s1)"
    and k: "(if n = 0 then draise (saga_refused ''confirm_payout'' ''settle'' aid m a)
             else dseq (insert_payout m txid a) (dret (k + 1))) s1 = (Inr k', s')"
    by (auto simp: confirm_one_def dbind_Inr as_shift)
  then have n: "n \<noteq> 0" by (auto split: if_splits)
  have "\<forall>b \<in> set (balances s). bl_miner b = m \<longrightarrow> a \<le> bl_paying b \<longrightarrow>
      0 \<le> bl_pending b + 0 \<and> 0 \<le> bl_paying b + - a \<and> 0 \<le> bl_paid b + a"
    using sheet_row [OF sh] a by auto
  from move_one [OF u n sh this] obtain fs bs where
    1: "s1 = s\<lparr>balances := bs, db_faults := fs\<rparr>"
    "sheet (E(m := E m + - a)) ((payout_sum s)(m := payout_sum s m + a)) (W(m := W m + (0 + - a + a))) bs"
    "bl_miner ` set bs = bl_miner ` set (balances s)" "m \<in> bl_miner ` set (balances s)" .
  from k n obtain u' where i: "insert_payout m txid a s1 = (Inr u', s')" and k': "k' = k + 1"
    by (auto simp: dseq_Inr)
  from i obtain fs' q p where
    2: "s' = s1\<lparr>payouts := payouts s1 @ [p], db_seq := q, db_faults := fs'\<rparr>"
    "po_txid p = Some txid" "po_miner p = m" "po_amount p = a" "po_created p = db_clock s1"
    by (rule insert_payout_Inr)
  have ps: "payout_sum s' = (payout_sum s)(m := payout_sum s m + a)"
    using 1(1) 2 by (auto simp: payout_sum_def fun_eq_iff)
  show ?thesis
    by (rule that [of p])
      (use 1 2 ps k' in \<open>simp_all add: same_miners_def has_balance_def rest_same_def\<close>)
qed

lemma confirm_fold:
  assumes "dfold (confirm_one aid txid) k rs s = (Inr k', s')"
    and "sheet E (payout_sum s) W (balances s)" and "\<forall>r \<in> set rs. 0 \<le> snd r"
  shows "k' = k + int (length rs) \<and> sheet (\<lambda>m. E m - pair_sum rs m) (payout_sum s') W (balances s')
    \<and> rest_same s s' \<and> items s' = items s \<and> attempts s' = attempts s
    \<and> new_payouts txid rs s s'
    \<and> same_miners (balances s') (balances s) \<and> (\<forall>r \<in> set rs. has_balance s (fst r))"
  using assms
proof (induction rs arbitrary: k s E)
  case Nil
  then show ?case by (auto simp: same_miners_def)
next
  case (Cons r rs)
  obtain m a where r: "r = (m, a)" by (cases r)
  from Cons.prems(1) obtain k1 s1 where s1: "confirm_one aid txid k (m, a) s = (Inr k1, s1)"
    and rest: "dfold (confirm_one aid txid) k1 rs s1 = (Inr k', s')"
    by (auto simp: dbind_Inr r)
  have a: "0 \<le> a" using Cons.prems(3) r by simp
  from s1 Cons.prems(2) a obtain p where
    p: "k1 = k + 1" "rest_same s s1" "items s1 = items s" "attempts s1 = attempts s"
    "payouts s1 = payouts s @ [p]"
    "po_txid p = Some txid" "po_miner p = m" "po_amount p = a" "po_created p = db_clock s"
    "sheet (E(m := E m - a)) (payout_sum s1) W (balances s1)"
    "same_miners (balances s1) (balances s)" "has_balance s m"
    by (rule confirm_one_step)
  note IH = Cons.IH [OF rest p(10)]
  have e: "(\<lambda>x. (E(m := E m - a)) x - pair_sum rs x) = (\<lambda>x. E x - pair_sum (r # rs) x)"
    by (auto simp: fun_eq_iff r)
  have "new_payouts txid (r # rs) s s'"
    using new_payouts_Cons [of s1 s p txid rs s'] IH Cons.prems(3) p r by (simp add: rest_same_def)
  moreover have "\<forall>r' \<in> set (r # rs). has_balance s (fst r')"
    using IH Cons.prems(3) p r by (simp add: has_balance_def same_miners_def)
  ultimately show ?case
    using IH Cons.prems(3) p e rest_same_trans by (simp add: same_miners_def)
qed

lemma delete_items_Inr:
  assumes "dseq (delete_items aid) (dret k0) s = (Inr k, s')"
  obtains fs where "s' = s\<lparr>db_faults := fs, items := filter (\<lambda>i. it_attempt i \<noteq> aid) (items s)\<rparr>"
    "k = k0"
  using assms by (auto simp: dseq_Inr delete_items_def elim!: modify_Inr)

lemma books_confirmed:
  assumes "books W s" "confirm_payout aid txid s = (Inr k, s')"
  shows "books W s' \<and> k = int (length (items_of s aid)) \<and> items_of s' aid = []
    \<and> new_payouts txid (items_of s aid) s s' \<and> rest_same s s' \<and> attempts s' = attempts s
    \<and> items s' = filter (\<lambda>i. it_attempt i \<noteq> aid) (items s)"
proof -
  from assms(2) obtain fs fs' s1 where
    body: "dbind (select (\<lambda>s. items_of s aid)) (\<lambda>is. dbind (dfold (confirm_one aid txid) 0 is)
       (\<lambda>k. dseq (delete_items aid) (dret k))) (s\<lparr>db_faults := fs\<rparr>) = (Inr k, s1)"
    and s': "s' = s1\<lparr>db_faults := fs'\<rparr>"
    unfolding confirm_payout_def by (rule txn_Inr)
  let ?is = "items_of s aid"
  from body obtain k0 s2 fs2 where
    f: "dfold (confirm_one aid txid) 0 ?is (s\<lparr>db_faults := fs2\<rparr>) = (Inr k0, s2)"
    and d: "dseq (delete_items aid) (dret k0) s2 = (Inr k, s1)"
    by (auto simp: dbind_Inr items_of_def elim!: select_Inr)
  have pos: "\<forall>r \<in> set ?is. 0 \<le> snd r"
    using assms(1) by (auto simp: books_iff items_of_def)
  have "sheet (item_sum s) (payout_sum (s\<lparr>db_faults := fs2\<rparr>)) W (balances (s\<lparr>db_faults := fs2\<rparr>))"
    using assms(1) by (simp add: books_iff)
  note F = confirm_fold [OF f this pos]
  from d obtain fs3 where d': "s1 = s2\<lparr>db_faults := fs3,
      items := filter (\<lambda>i. it_attempt i \<noteq> aid) (items s2)\<rparr>" "k = k0"
    by (rule delete_items_Inr)
  have it: "items s' = filter (\<lambda>i. it_attempt i \<noteq> aid) (items s)" using d' s' F by simp
  then have es: "item_sum s' = (\<lambda>m. item_sum s m - pair_sum ?is m)"
    using item_sum_delete [where s = s and aid = aid] by (simp add: item_sum_def fun_eq_iff)
  have ps: "payout_sum s' = payout_sum s2" "balances s' = balances s2" "payouts s' = payouts s2"
    using d' s' by (simp_all add: payout_sum_def fun_eq_iff)
  have hb: "has_balance s' m \<longleftrightarrow> has_balance s m" for m
    using F ps by (simp add: has_balance_def same_miners_def)
  have np: "new_payouts txid ?is s s'" using F ps by (simp add: new_payouts_def)
  have "\<forall>p \<in> set (payouts s'). 0 \<le> po_amount p \<and> has_balance s' (po_miner p)"
  proof
    fix p assume p: "p \<in> set (payouts s')"
    from np obtain qs where qs: "payouts s' = payouts s @ qs"
      "map (\<lambda>p. (po_miner p, po_amount p)) qs = ?is" by (auto simp: new_payouts_def)
    from p qs(1) consider "p \<in> set (payouts s)" | "p \<in> set qs" by auto
    then show "0 \<le> po_amount p \<and> has_balance s' (po_miner p)"
    proof cases
      case 1
      then show ?thesis using assms(1) hb by (simp add: books_iff)
    next
      case 2
      then have "(po_miner p, po_amount p) \<in> set ?is" unfolding qs(2) [symmetric] by force
      then show ?thesis using pos F hb by (fastforce simp: has_balance_def)
    qed
  qed
  moreover have "\<forall>i \<in> set (items s'). 0 < it_amount i \<and> has_balance s' (it_miner i)"
    using assms(1) it hb by (auto simp: books_iff)
  moreover have "sheet (item_sum s') (payout_sum s') W (balances s')"
    using F es ps by simp
  ultimately have "books W s'" by (simp add: books_iff)
  moreover have "items_of s' aid = []" using it by (simp add: items_of_def filter_empty_conv)
  moreover have "rest_same s s' \<and> attempts s' = attempts s"
    using F d' s' by (simp add: rest_same_def)
  ultimately show ?thesis using F d' it np by simp
qed

lemma refund_one_step:
  assumes run: "refund_one aid k (m, a) s = (Inr k', s')"
    and sh: "sheet E F W (balances s)" and a: "0 \<le> a"
  obtains fs bs where "k' = k + 1" "s' = s\<lparr>balances := bs, db_faults := fs\<rparr>"
    "sheet (E(m := E m - a)) F W bs" "same_miners bs (balances s)" "has_balance s m"
proof -
  from run obtain n s1 where
    u: "update_balance m (\<lambda>b. a \<le> bl_paying b) (shift a (- a) 0) s = (Inr n, s1)"
    and k: "(if n = 0 then draise (saga_refused ''refund_payout'' ''refund'' aid m a)
             else dret (k + 1)) s1 = (Inr k', s')"
    by (auto simp: refund_one_def dbind_Inr as_shift)
  then have n: "n \<noteq> 0" by (auto split: if_splits)
  have "\<forall>b \<in> set (balances s). bl_miner b = m \<longrightarrow> a \<le> bl_paying b \<longrightarrow>
      0 \<le> bl_pending b + a \<and> 0 \<le> bl_paying b + - a \<and> 0 \<le> bl_paid b + 0"
    using sheet_row [OF sh] a by auto
  from move_one [OF u n sh this] obtain fs bs where
    "s1 = s\<lparr>balances := bs, db_faults := fs\<rparr>"
    "sheet (E(m := E m + - a)) (F(m := F m + 0)) (W(m := W m + (a + - a + 0))) bs"
    "bl_miner ` set bs = bl_miner ` set (balances s)" "m \<in> bl_miner ` set (balances s)" .
  then show ?thesis
    using k n by (intro that [where bs = bs and fs = fs]) (simp_all add: same_miners_def has_balance_def)
qed

lemma refund_fold:
  assumes "dfold (refund_one aid) k rs s = (Inr k', s')"
    and "sheet E F W (balances s)" and "\<forall>r \<in> set rs. 0 \<le> snd r"
  shows "k' = k + int (length rs) \<and> sheet (\<lambda>m. E m - pair_sum rs m) F W (balances s')
    \<and> rest_same s s' \<and> items s' = items s \<and> attempts s' = attempts s \<and> payouts s' = payouts s
    \<and> same_miners (balances s') (balances s)"
  using assms
proof (induction rs arbitrary: k s E)
  case Nil
  then show ?case by (auto simp: same_miners_def)
next
  case (Cons r rs)
  obtain m a where r: "r = (m, a)" by (cases r)
  from Cons.prems(1) obtain k1 s1 where s1: "refund_one aid k (m, a) s = (Inr k1, s1)"
    and rest: "dfold (refund_one aid) k1 rs s1 = (Inr k', s')"
    by (auto simp: dbind_Inr r)
  have a: "0 \<le> a" using Cons.prems(3) r by simp
  from s1 Cons.prems(2) a obtain fs bs where
    p: "k1 = k + 1" "s1 = s\<lparr>balances := bs, db_faults := fs\<rparr>"
    "sheet (E(m := E m - a)) F W bs" "same_miners bs (balances s)" "has_balance s m"
    by (rule refund_one_step)
  have "sheet (E(m := E m - a)) F W (balances s1)" using p by simp
  note IH = Cons.IH [OF rest this]
  have "(\<lambda>x. (E(m := E m - a)) x - pair_sum rs x) = (\<lambda>x. E x - pair_sum (r # rs) x)"
    by (auto simp: fun_eq_iff r)
  then show ?case
    using IH Cons.prems(3) p by (simp add: same_miners_def rest_same_def)
qed

lemma books_refunded:
  assumes "books W s" "refund_payout aid s = (Inr k, s')"
  shows "books W s' \<and> k = int (length (items_of s aid)) \<and> items_of s' aid = []
    \<and> payouts s' = payouts s \<and> rest_same s s' \<and> attempts s' = attempts s
    \<and> items s' = filter (\<lambda>i. it_attempt i \<noteq> aid) (items s)"
proof -
  from assms(2) obtain fs fs' s1 where
    body: "dbind (select (\<lambda>s. items_of s aid)) (\<lambda>is. dbind (dfold (refund_one aid) 0 is)
       (\<lambda>k. dseq (delete_items aid) (dret k))) (s\<lparr>db_faults := fs\<rparr>) = (Inr k, s1)"
    and s': "s' = s1\<lparr>db_faults := fs'\<rparr>"
    unfolding refund_payout_def by (rule txn_Inr)
  let ?is = "items_of s aid"
  from body obtain k0 s2 fs2 where
    f: "dfold (refund_one aid) 0 ?is (s\<lparr>db_faults := fs2\<rparr>) = (Inr k0, s2)"
    and d: "dseq (delete_items aid) (dret k0) s2 = (Inr k, s1)"
    by (auto simp: dbind_Inr items_of_def elim!: select_Inr)
  have pos: "\<forall>r \<in> set ?is. 0 \<le> snd r"
    using assms(1) by (auto simp: books_iff items_of_def)
  have "sheet (item_sum s) (payout_sum s) W (balances (s\<lparr>db_faults := fs2\<rparr>))"
    using assms(1) by (simp add: books_iff)
  note F = refund_fold [OF f this pos]
  from d obtain fs3 where d': "s1 = s2\<lparr>db_faults := fs3,
      items := filter (\<lambda>i. it_attempt i \<noteq> aid) (items s2)\<rparr>" "k = k0"
    by (rule delete_items_Inr)
  have it: "items s' = filter (\<lambda>i. it_attempt i \<noteq> aid) (items s)" using d' s' F by simp
  then have es: "item_sum s' = (\<lambda>m. item_sum s m - pair_sum ?is m)"
    using item_sum_delete [where s = s and aid = aid] by (simp add: item_sum_def fun_eq_iff)
  have ps: "payout_sum s' = payout_sum s" "balances s' = balances s2" "payouts s' = payouts s"
    using d' s' F by (simp_all add: payout_sum_def fun_eq_iff)
  have hb: "has_balance s' m \<longleftrightarrow> has_balance s m" for m
    using F ps by (simp add: has_balance_def same_miners_def)
  have "books W s'"
    using assms(1) F es ps hb it by (auto simp: books_iff)
  moreover have "items_of s' aid = []" using it by (simp add: items_of_def filter_empty_conv)
  moreover have "rest_same s s' \<and> attempts s' = attempts s"
    using F d' s' by (simp add: rest_same_def)
  ultimately show ?thesis using F d' it ps by simp
qed

lemma void_one_step:
  assumes run: "void_one txid z (m, a) s = (Inr z', s')"
    and sh: "sheet E F W (balances s)" and a: "0 \<le> a"
  obtains fs bs where "z' = z + a" "s' = s\<lparr>balances := bs, db_faults := fs\<rparr>"
    "sheet E (F(m := F m - a)) W bs" "same_miners bs (balances s)"
proof -
  from run obtain n s1 where
    u: "update_balance m (\<lambda>b. a \<le> bl_paid b) (shift a 0 (- a)) s = (Inr n, s1)"
    and n: "n \<noteq> 0" and k: "z' = z + a" "s' = s1"
    by (auto simp: void_one_def dbind_Inr as_shift split: if_splits)
  have "\<forall>b \<in> set (balances s). bl_miner b = m \<longrightarrow> a \<le> bl_paid b \<longrightarrow>
      0 \<le> bl_pending b + a \<and> 0 \<le> bl_paying b + 0 \<and> 0 \<le> bl_paid b + - a"
    using sheet_row [OF sh] a by auto
  from move_one [OF u n sh this] obtain fs bs where
    "s1 = s\<lparr>balances := bs, db_faults := fs\<rparr>"
    "sheet (E(m := E m + 0)) (F(m := F m + - a)) (W(m := W m + (a + 0 + - a))) bs"
    "bl_miner ` set bs = bl_miner ` set (balances s)" "m \<in> bl_miner ` set (balances s)" .
  then show ?thesis using k by (intro that [where bs = bs and fs = fs]) (simp_all add: same_miners_def)
qed

lemma void_fold:
  assumes "dfold (void_one txid) z rs s = (Inr z', s')"
    and "sheet E F W (balances s)" and "\<forall>r \<in> set rs. 0 \<le> snd r"
  shows "z' = z + sum_list (map snd rs) \<and> sheet E (\<lambda>m. F m - pair_sum rs m) W (balances s')
    \<and> rest_same s s' \<and> items s' = items s \<and> attempts s' = attempts s \<and> payouts s' = payouts s
    \<and> same_miners (balances s') (balances s)"
  using assms
proof (induction rs arbitrary: z s F)
  case Nil
  then show ?case by (auto simp: same_miners_def)
next
  case (Cons r rs)
  obtain m a where r: "r = (m, a)" by (cases r)
  from Cons.prems(1) obtain z1 s1 where s1: "void_one txid z (m, a) s = (Inr z1, s1)"
    and rest: "dfold (void_one txid) z1 rs s1 = (Inr z', s')"
    by (auto simp: dbind_Inr r)
  have a: "0 \<le> a" using Cons.prems(3) r by simp
  from s1 Cons.prems(2) a obtain fs bs where
    p: "z1 = z + a" "s1 = s\<lparr>balances := bs, db_faults := fs\<rparr>"
    "sheet E (F(m := F m - a)) W bs" "same_miners bs (balances s)"
    by (rule void_one_step)
  have "sheet E (F(m := F m - a)) W (balances s1)" using p by simp
  note IH = Cons.IH [OF rest this]
  have "(\<lambda>x. (F(m := F m - a)) x - pair_sum rs x) = (\<lambda>x. F x - pair_sum (r # rs) x)"
    by (auto simp: fun_eq_iff r)
  then show ?case
    using IH Cons.prems(3) p r by (simp add: same_miners_def rest_same_def)
qed

definition fresh_payout :: "string \<Rightarrow> db \<Rightarrow> bool" where
  "fresh_payout txid s \<longleftrightarrow>
     list_ex (\<lambda>p. po_txid p = Some txid \<and> newer_than s 60 60 (po_created p)) (payouts s)"

lemma fresh_payout_count:
  "fresh_payout txid s \<longleftrightarrow>
   0 < count_where (\<lambda>p. po_txid p = Some txid \<and> newer_than s 60 60 (po_created p)) (payouts s)"
  by (auto simp: fresh_payout_def count_where_def list_ex_iff filter_empty_conv)

lemma fresh_payout_faults [simp]: "fresh_payout txid (s\<lparr>db_faults := fs\<rparr>) = fresh_payout txid s"
  by (simp add: fresh_payout_def newer_than_def)

lemma rows_of_txid_faults [simp]: "rows_of_txid txid (s\<lparr>db_faults := fs\<rparr>) = rows_of_txid txid s"
  by (simp add: rows_of_txid_def)

text \<open>The body of the void once its rows are known.\<close>

definition void_rows :: "string \<Rightarrow> (int \<times> int) list \<Rightarrow> (int \<times> int) dbm" where
  "void_rows txid rows =
     (if rows = [] then dret (0, 0)
      else
        dbind (dfold (void_one txid) 0 rows) (\<lambda>zats.
        dseq (modify (\<lambda>s. s\<lparr>payouts := filter (\<lambda>p. po_txid p \<noteq> Some txid) (payouts s)\<rparr>))
       (dseq (modify (\<lambda>s. s\<lparr>attempts := upd_where
                (\<lambda>r. at_txid r = Some txid \<and> at_status r = ''confirmed'')
                (\<lambda>r. r\<lparr>at_status := ''failed'', at_updated := db_clock s,
                  at_error := Some ''auto-void: tx reorged out and expired (-5); funds returned to pending''\<rparr>)
                (attempts s)\<rparr>))
             (dret (int (length rows), zats)))))"

lemma void_reorged_payout_txn_alt:
  "void_reorged_payout_txn txid =
     dbind (select (\<lambda>s. count_where (\<lambda>p. po_txid p = Some txid
              \<and> newer_than s 60 60 (po_created p)) (payouts s))) (\<lambda>fresh.
       if 0 < fresh then dret (0, 0) else dbind (select (rows_of_txid txid)) (void_rows txid))"
  unfolding void_reorged_payout_txn_def void_rows_def by simp

lemma void_rows_Inr:
  assumes "rows \<noteq> []" "void_rows txid rows s = (Inr (k, z), s1)"
  obtains z0 s2 where "dfold (void_one txid) 0 rows s = (Inr z0, s2)"
    "payouts s1 = filter (\<lambda>p. po_txid p \<noteq> Some txid) (payouts s2)"
    "balances s1 = balances s2" "items s1 = items s2" "rest_same s2 s1"
    "k = int (length rows)" "z = z0"
proof -
  from assms obtain z0 s2 u1 s3 u2 s4 where
    1: "dfold (void_one txid) 0 rows s = (Inr z0, s2)"
    and 2: "modify (\<lambda>s. s\<lparr>payouts := filter (\<lambda>p. po_txid p \<noteq> Some txid) (payouts s)\<rparr>) s2 = (Inr u1, s3)"
    and 3: "modify (\<lambda>s. s\<lparr>attempts := upd_where
                (\<lambda>r. at_txid r = Some txid \<and> at_status r = ''confirmed'')
                (\<lambda>r. r\<lparr>at_status := ''failed'', at_updated := db_clock s,
                  at_error := Some ''auto-void: tx reorged out and expired (-5); funds returned to pending''\<rparr>)
                (attempts s)\<rparr>) s3 = (Inr u2, s4)"
    and 4: "k = int (length rows)" "z = z0" "s1 = s4"
    unfolding void_rows_def by (auto simp: dbind_Inr dseq_Inr)
  from 2 obtain fs where 5: "s3 = s2\<lparr>db_faults := fs,
      payouts := filter (\<lambda>p. po_txid p \<noteq> Some txid) (payouts s2)\<rparr>"
    by (rule modify_Inr) simp
  from 3 obtain fs' as where "s4 = s3\<lparr>db_faults := fs', attempts := as\<rparr>"
    by (rule modify_Inr) blast
  with 1 4 5 show ?thesis by (intro that [of z0 s2]) (simp_all add: rest_same_def)
qed

lemma books_voided:
  assumes "books W s" "void_reorged_payout txid s = (Inr (k, z), s')"
  shows "books W s' \<and> rest_same s s' \<and> items s' = items s
    \<and> (if fresh_payout txid s \<or> rows_of_txid txid s = []
       then k = 0 \<and> z = 0 \<and> payouts s' = payouts s \<and> balances s' = balances s
            \<and> attempts s' = attempts s
       else k = int (length (rows_of_txid txid s)) \<and> z = sum_list (map snd (rows_of_txid txid s))
            \<and> payouts s' = filter (\<lambda>p. po_txid p \<noteq> Some txid) (payouts s))"
proof -
  from assms(2) obtain fs fs' s1 where
    body: "void_reorged_payout_txn txid (s\<lparr>db_faults := fs\<rparr>) = (Inr (k, z), s1)"
    and s': "s' = s1\<lparr>db_faults := fs'\<rparr>"
    unfolding void_reorged_payout_def by (rule txn_Inr)
  let ?rs = "rows_of_txid txid s"
  let ?n = "count_where (\<lambda>p. po_txid p = Some txid \<and> newer_than s 60 60 (po_created p)) (payouts s)"
  from body obtain fsa where br:
    "(if 0 < ?n then dret (0, 0) else dbind (select (rows_of_txid txid)) (void_rows txid))
       (s\<lparr>db_faults := fsa\<rparr>) = (Inr (k, z), s1)"
    unfolding void_reorged_payout_txn_alt
    by (auto simp: dbind_Inr newer_than_def elim!: select_Inr simp del: split_paired_Ex)
  show ?thesis
  proof (cases "fresh_payout txid s \<or> ?rs = []")
    case True
    have "k = 0 \<and> z = 0 \<and> (\<exists>fs. s1 = s\<lparr>db_faults := fs\<rparr>)"
    proof (cases "fresh_payout txid s")
      case False
      then have "dbind (select (rows_of_txid txid)) (void_rows txid) (s\<lparr>db_faults := fsa\<rparr>)
          = (Inr (k, z), s1)" "?rs = []"
        using br True by (simp_all add: fresh_payout_count)
      then show ?thesis by (auto simp: dbind_Inr void_rows_def elim!: select_Inr)
    qed (use br in \<open>auto simp: fresh_payout_count\<close>)
    then have "k = 0 \<and> z = 0 \<and> (\<exists>fs. s' = s\<lparr>db_faults := fs\<rparr>)" using s' by auto
    then show ?thesis
      using True assms(1) no_faults_depD [OF books_no_faults(1)] by (auto simp: rest_same_def)
  next
    case False
    then have "dbind (select (rows_of_txid txid)) (void_rows txid) (s\<lparr>db_faults := fsa\<rparr>)
        = (Inr (k, z), s1)"
      using br by (simp add: fresh_payout_count)
    then obtain fs2 where vr: "void_rows txid ?rs (s\<lparr>db_faults := fs2\<rparr>) = (Inr (k, z), s1)"
      by (auto simp: dbind_Inr elim!: select_Inr)
    have "?rs \<noteq> []" using False by simp
    from this vr obtain z0 s2 where
      f: "dfold (void_one txid) 0 ?rs (s\<lparr>db_faults := fs2\<rparr>) = (Inr z0, s2)"
      and s1: "payouts s1 = filter (\<lambda>p. po_txid p \<noteq> Some txid) (payouts s2)"
        "balances s1 = balances s2" "items s1 = items s2" "rest_same s2 s1"
      and kz: "k = int (length ?rs)" "z = z0"
      by (rule void_rows_Inr)
    have pos: "\<forall>r \<in> set ?rs. 0 \<le> snd r"
      using assms(1) by (auto simp: books_iff rows_of_txid_def)
    have "sheet (item_sum s) (payout_sum s) W (balances (s\<lparr>db_faults := fs2\<rparr>))"
      using assms(1) by (simp add: books_iff)
    note F = void_fold [OF f this pos]
    have pay: "payouts s' = filter (\<lambda>p. po_txid p \<noteq> Some txid) (payouts s)" "items s' = items s"
      "balances s' = balances s2" using s1 s' F by simp_all
    then have ps: "payout_sum s' = (\<lambda>m. payout_sum s m - pair_sum ?rs m)" "item_sum s' = item_sum s"
      using payout_sum_delete [where s = s and txid = txid] by (simp_all add: payout_sum_def item_sum_def fun_eq_iff)
    have hb: "has_balance s' m \<longleftrightarrow> has_balance s m" for m
      using F pay by (simp add: has_balance_def same_miners_def)
    have "books W s'" using assms(1) F ps hb pay by (auto simp: books_iff)
    moreover have "rest_same s s'" using F s1(4) s' by (simp add: rest_same_def)
    ultimately show ?thesis using F False kz pay by simp
  qed
qed

end
