(* ===== verification/Ledger_Credits.thy ===== *)
theory Ledger_Credits
  imports Ledger_Saga
begin

text \<open>
  The accounting identity.  \<open>accounts D s\<close>: the books are in order and the pool owes each
  miner exactly its live block credits, plus what orphans could not claw back, plus a fixed
  \<open>D\<close> (the opening difference).  Distribution, the payout saga, manual payouts, voids and the
  precise orphan reversal keep it; the legacy proportional reversal keeps \<open>books_ok\<close> only.
\<close>

definition accounts :: "(int \<Rightarrow> int) \<Rightarrow> db \<Rightarrow> bool" where
  "accounts D s \<longleftrightarrow> books (\<lambda>m. credit_sum s m + clawback_sum s m + D m) s"

lemma accounts_no_faults [simp, intro]: "no_faults_dep (accounts D)"
proof -
  have "accounts D (s\<lparr>db_faults := fs\<rparr>) = accounts D s" for s fs
    using books_no_faults(1) by (simp add: accounts_def no_faults_dep_def)
  then show ?thesis by (simp add: no_faults_dep_def)
qed

lemma accounts_empty: "accounts (\<lambda>_. 0) (empty_db fk t fs)"
  using books_empty [of fk t fs]
  by (simp add: accounts_def empty_db_def credit_sum_def clawback_sum_def)

lemma accounts_owed: "accounts D s \<Longrightarrow> owed s m = credit_sum s m + clawback_sum s m + D m"
  by (simp add: accounts_def books_def)

lemma accounts_rest:
  "rest_same s s' \<Longrightarrow> accounts D s \<Longrightarrow> books (\<lambda>m. credit_sum s m + clawback_sum s m + D m) s'
   \<Longrightarrow> accounts D s'"
  by (simp add: accounts_def rest_same_def credit_sum_def clawback_sum_def)

lemma owed_column: "books W s \<Longrightarrow> owed s = W"
  by (simp add: books_def)

section \<open>Distribution\<close>

lemma books_tables:
  "balances s = balances t \<Longrightarrow> items s = items t \<Longrightarrow> payouts s = payouts t \<Longrightarrow> books W s = books W t"
  by (simp add: books_iff has_balance_def item_sum_def [abs_def] payout_sum_def [abs_def])

lemma books_frame:
  "books W (credits_update f3 s) = books W s"
  "books W (clawbacks_update f4 s) = books W s"
  "books W (db_seq_update f5 s) = books W s"
  "books W (blocks_update f7 s) = books W s"
  "books W (tx_costs_update f8 s) = books W s"
  "books W (attempts_update f6 s) = books W s"
  "books W (miners_update f10 s) = books W s"
  "books W (workers_update f11 s) = books W s"
  "books W (shares_update f12 s) = books W s"
  "books W (db_faults_update f13 s) = books W s"
  "books W (db_clock_update f14 s) = books W s"
  "books W (submissions_update f15 s) = books W s"
  by (rule books_tables; simp)+

lemma books_pending_shift:
  assumes B: "books W s" and u: "update_balance m (\<lambda>_. True) (shift p 0 0) s = (Inr n, s')"
    and nn: "\<forall>b \<in> set (balances s). bl_miner b = m \<longrightarrow> 0 \<le> bl_pending b + p"
    and m: "has_balance s m"
  obtains fs bs where "s' = s\<lparr>balances := bs, db_faults := fs\<rparr>" "books (W(m := W m + p)) s'"
proof -
  have sh: "sheet (item_sum s) (payout_sum s) W (balances s)" using B by (simp add: books_iff)
  have nn': "\<forall>b \<in> set (balances s). bl_miner b = m \<longrightarrow> True \<longrightarrow>
      0 \<le> bl_pending b + p \<and> 0 \<le> bl_paying b + 0 \<and> 0 \<le> bl_paid b + 0"
    using nn sheet_row [OF sh] by auto
  from u sh nn' show ?thesis
  proof (cases rule: update_balance_sheet)
    case (none fs)
    then show ?thesis using m by (auto simp: has_balance_def)
  next
    case (one fs bs)
    then have "books (W(m := W m + p)) s'"
      using B by (auto simp: books_iff has_balance_def)
    then show ?thesis using that one by blast
  qed
qed

lemma on_ok_credit_one:
  assumes "0 \<le> snd c"
  shows "on_ok (accounts D) (credit_one b c) (\<lambda>_. accounts D)"
proof (rule on_okI)
  fix s u s' assume P: "accounts D s" and run: "credit_one b c s = (Inr u, s')"
  obtain m a where c: "c = (m, a)" by (cases c)
  let ?W = "\<lambda>x. credit_sum s x + clawback_sum s x + D x"
  from run obtain u1 s1 u2 s2 n where
    1: "ensure_balance m s = (Inr u1, s1)" and 2: "insert_credit b m a s1 = (Inr u2, s2)"
    and 3: "update_balance m (\<lambda>_. True) (shift a 0 0) s2 = (Inr n, s')"
    by (auto simp: credit_one_def c dseq_Inr as_shift)
  have B1: "books ?W s1" "has_balance s1 m"
    using on_okD [OF on_ok_ensure_balance _ 1] P by (auto simp: accounts_def)
  have f1: "credits s1 = credits s" "clawbacks s1 = clawbacks s"
    using 1 by (cases rule: ensure_balance_Inr; simp)+
  from 2 obtain fs where
    2: "s2 = s1\<lparr>credits := credits s1 @ [\<lparr>cr_block = b, cr_miner = m, cr_amount = a\<rparr>], db_faults := fs\<rparr>"
    by (rule insert_credit_Inr)
  then have B2: "books ?W s2" "has_balance s2 m"
    using B1 by (simp_all add: books_frame has_balance_def)
  have "\<forall>b \<in> set (balances s2). bl_miner b = m \<longrightarrow> 0 \<le> bl_pending b + a"
    using B2(1) assms c sheet_row(1) by (fastforce simp: books_iff)
  from books_pending_shift [OF B2(1) 3 this B2(2)] obtain fs' bs where
    4: "s' = s2\<lparr>balances := bs, db_faults := fs'\<rparr>" "books (?W(m := ?W m + a)) s'" .
  have "credit_sum s' x = credit_sum s x + (if x = m then a else 0)"
    "clawback_sum s' x = clawback_sum s x" for x
    using 2 4(1) f1 by (simp_all add: credit_sum_def clawback_sum_def)
  then have "(\<lambda>x. credit_sum s' x + clawback_sum s' x + D x) = ?W(m := ?W m + a)"
    by (auto simp: fun_eq_iff)
  then show "accounts D s'" using 4(2) by (simp add: accounts_def)
qed

lemma keeps_distribute:
  assumes "\<forall>c \<in> set cs. 0 \<le> snd c"
  shows "keeps (accounts D) (distribute_block_credits b cs)"
  unfolding distribute_block_credits_def
  using assms by (intro keeps_txn on_ok_for) (auto intro: on_ok_credit_one)

section \<open>The saga and manual payouts\<close>

lemma on_ok_reserve_rest:
  "on_ok (rest_same s0) (dfold (reserve_one aid) acc rs) (\<lambda>_. rest_same s0)"
proof (rule on_ok_fold [where I = "\<lambda>_. rest_same s0"], rule on_okI)
  fix acc x s acc' s' assume P: "rest_same s0 s" and run: "reserve_one aid acc x s = (Inr acc', s')"
  obtain m a where x: "x = (m, a)" by (cases x)
  have u: "rest_same s t" if "update_balance m g f s = (Inr n, t)" for g f n t
    using that unfolding update_balance_def
    by (auto simp: Let_def rest_same_def elim!: stmt_Inr)
  have i: "rest_same t t'" if "insert_item aid m a t = (Inr v, t')" for t t' v
    using that by (auto simp: rest_same_def elim!: insert_item_Inr)
  show "rest_same s0 s'"
  proof (cases "a \<le> 0")
    case True
    then show ?thesis using P run by (simp add: reserve_one_def x)
  next
    case False
    then obtain n t where "update_balance m (\<lambda>b. a \<le> bl_pending b) (pending_to_paying a) s = (Inr n, t)"
      and k: "(if n = 0 then dret acc else dseq (insert_item aid m a) (dret (acc @ [(m, a)]))) t
        = (Inr acc', s')"
      using run by (auto simp: reserve_one_def x dbind_Inr)
    then have t: "rest_same s0 t" using u P rest_same_trans by blast
    from k have "t = s' \<or> (\<exists>v. insert_item aid m a t = (Inr v, s'))"
      by (auto simp: dseq_Inr split: if_splits)
    then show ?thesis using t i rest_same_trans by blast
  qed
qed

lemma keeps_accounts_reserve: "keeps (accounts D) (reserve_payout aid rs)"
proof (rule keepsI)
  fix s assume P: "accounts D s"
  show "accounts D (snd (reserve_payout aid rs s))"
  proof (cases rule: txn_outcome [of "dfold (reserve_one aid) [] rs" s])
    case (failed e fs)
    then show ?thesis
      using P no_faults_depD [OF accounts_no_faults] by (simp add: reserve_payout_def)
  next
    case (ok fs fs' v s1)
    let ?W = "\<lambda>m. credit_sum s m + clawback_sum s m + D m"
    have "rest_same s (s\<lparr>db_faults := fs\<rparr>)" by (simp add: rest_same_def)
    then have r: "rest_same s s1" using on_okD [OF on_ok_reserve_rest _ ok(1)] by blast
    have "books ?W (snd (reserve_payout aid rs s))"
      using keeps_reserve [of ?W aid rs] P by (simp add: keeps_def accounts_def)
    moreover have "rest_same s (snd (reserve_payout aid rs s))"
      using r ok(2) by (simp add: reserve_payout_def rest_same_def)
    ultimately show ?thesis using P accounts_rest by blast
  qed
qed

lemma keeps_accountsI:
  assumes "\<And>W s v s'. books W s \<Longrightarrow> txn m s = (Inr v, s') \<Longrightarrow> books W s' \<and> rest_same s s'"
  shows "keeps (accounts D) (txn m)"
proof (rule keepsI)
  fix s assume P: "accounts D s"
  show "accounts D (snd (txn m s))"
  proof (cases rule: txn_outcome [of m s])
    case (failed e fs)
    then show ?thesis using P no_faults_depD [OF accounts_no_faults] by simp
  next
    case (ok fs fs' v s1)
    then show ?thesis
      using P assms [OF _ ok(2)] accounts_rest [of s "s1\<lparr>db_faults := fs'\<rparr>" D]
      by (simp add: accounts_def)
  qed
qed

lemma keeps_accounts_confirm: "keeps (accounts D) (confirm_payout aid txid)"
  using books_confirmed unfolding confirm_payout_def by (intro keeps_accountsI) blast

lemma keeps_accounts_refund: "keeps (accounts D) (refund_payout aid)"
  using books_refunded unfolding refund_payout_def by (intro keeps_accountsI) blast

lemma keeps_accounts_void: "keeps (accounts D) (void_reorged_payout txid)"
  using books_voided unfolding void_reorged_payout_def
  by (intro keeps_accountsI) (metis surj_pair)

lemma books_created:
  assumes B: "books W s" and run: "create_payout m a txid s = (Inr i, s')" and a: "0 \<le> a"
  shows "books W s' \<and> rest_same s s' \<and> new_payouts txid [(m, a)] s s' \<and> items s' = items s"
proof -
  from run obtain fs fs' s1 where
    body: "dbind (update_balance m (\<lambda>b. a \<le> bl_pending b) (pending_to_paid a)) (\<lambda>n.
       if n = 0 then draise (InsufficientPending m a)
       else insert_payout m txid a) (s\<lparr>db_faults := fs\<rparr>) = (Inr i, s1)"
    and s': "s' = s1\<lparr>db_faults := fs'\<rparr>"
    unfolding create_payout_def by (rule txn_Inr)
  let ?s = "s\<lparr>db_faults := fs\<rparr>"
  from body obtain n t where
    u: "update_balance m (\<lambda>b. a \<le> bl_pending b) (shift (- a) 0 a) ?s = (Inr n, t)" and n: "n \<noteq> 0"
    and p: "insert_payout m txid a t = (Inr i, s1)"
    by (auto simp: dbind_Inr as_shift split: if_splits)
  have sh: "sheet (item_sum ?s) (payout_sum ?s) W (balances ?s)" using B by (simp add: books_iff)
  have "\<forall>b \<in> set (balances ?s). bl_miner b = m \<longrightarrow> a \<le> bl_pending b \<longrightarrow>
      0 \<le> bl_pending b + - a \<and> 0 \<le> bl_paying b + 0 \<and> 0 \<le> bl_paid b + a"
    using sheet_row [OF sh] a by auto
  from move_one [OF u n sh this] obtain fs2 bs where
    1: "t = ?s\<lparr>balances := bs, db_faults := fs2\<rparr>"
    "sheet ((item_sum ?s)(m := item_sum ?s m + 0)) ((payout_sum ?s)(m := payout_sum ?s m + a))
       (W(m := W m + (- a + 0 + a))) bs"
    "bl_miner ` set bs = bl_miner ` set (balances ?s)" "m \<in> bl_miner ` set (balances ?s)" .
  from p obtain fs3 q r where
    2: "s1 = t\<lparr>payouts := payouts t @ [r], db_seq := q, db_faults := fs3\<rparr>"
    "po_txid r = Some txid" "po_miner r = m" "po_amount r = a" "po_created r = db_clock t"
    by (rule insert_payout_Inr)
  have "payout_sum s' = (payout_sum s)(m := payout_sum s m + a)" "item_sum s' = item_sum s"
    using 1(1) 2 s' by (auto simp: payout_sum_def item_sum_def fun_eq_iff)
  then have "books W s'"
    using B 1 2 s' a by (auto simp: books_iff has_balance_def)
  then show ?thesis using 1(1) 2 s' by (auto simp: rest_same_def new_payouts_def)
qed

lemma keeps_accounts_create: "0 \<le> a \<Longrightarrow> keeps (accounts D) (create_payout m a txid)"
  using books_created unfolding create_payout_def by (intro keeps_accountsI) blast

end
