(* ===== verification/Ledger_Orphan.thy ===== *)
theory Ledger_Orphan
  imports Ledger_Credits
begin

text \<open>
  Orphaned blocks: what the precise reversal takes back from each miner, when it needs no
  clawback, and the legacy proportional reversal.
\<close>

section \<open>One balance row\<close>

lemma sheet_filter:
  assumes sh: "sheet E F W bs"
  obtains (absent) "filter (\<lambda>x. bl_miner x = m) bs = []" "W m = 0" "m \<notin> bl_miner ` set bs"
  | (row) b where "filter (\<lambda>x. bl_miner x = m) bs = [b]" "bl_miner b = m" "b \<in> set bs"
      "bl_pending b = W m - E m - F m"
proof (cases "m \<in> bl_miner ` set bs")
  case False
  then have "filter (\<lambda>x. bl_miner x = m) bs = []" by (auto simp: filter_empty_conv)
  moreover have "W m = 0"
    using sh sum_where_others [OF False] unfolding sheet_def by metis
  ultimately show ?thesis using False by (rule absent)
next
  case True
  then obtain b where b: "b \<in> set bs" "bl_miner b = m" by auto
  have "distinct (map bl_miner bs)" using sh by (simp add: sheet_def)
  from unique_row [OF this b(1)] obtain xs ys where xy: "bs = xs @ b # ys"
    "m \<notin> bl_miner ` set xs" "m \<notin> bl_miner ` set ys" using b(2) by auto
  have "filter (\<lambda>x. bl_miner x = m) xs = []" "filter (\<lambda>x. bl_miner x = m) ys = []"
    using xy(2,3) by (auto simp: filter_empty_conv)
  then have f: "filter (\<lambda>x. bl_miner x = m) bs = [b]" using xy(1) b(2) by simp
  have "sum_where (\<lambda>b. bl_miner b = m) (\<lambda>b. bl_pending b + bl_paying b + bl_paid b) bs = W m"
    using sh unfolding sheet_def by blast
  then have "bl_pending b + bl_paying b + bl_paid b = W m" using f by (simp add: sum_where_def)
  then have "bl_pending b = W m - E m - F m" using sheet_row(4,5) [OF sh b(1)] b(2) by simp
  then show ?thesis using f b by (intro row)
qed

text \<open>What a miner could still be debited: the pending column in terms of the sums.\<close>

definition pending_sum :: "db \<Rightarrow> int \<Rightarrow> int" where
  "pending_sum s m = owed s m - item_sum s m - payout_sum s m"

lemma pending_sum_of: "books_ok s \<Longrightarrow> pending_sum s m = pending_of s m"
proof -
  assume B: "books_ok s"
  then have sh: "sheet (item_sum s) (payout_sum s) (owed s) (balances s)" by (simp add: books_ok_def)
  then show ?thesis
  proof (cases rule: sheet_filter [where m = m])
    case absent
    then have "item_sum s m = 0" "payout_sum s m = 0"
      using B by (auto simp: books_ok_def has_balance_def intro!: no_items_no_sum no_payouts_no_sum)
    then show ?thesis using absent by (simp add: pending_sum_def pending_of_def)
  next
    case (row b)
    then show ?thesis by (simp add: pending_sum_def pending_of_def)
  qed
qed

lemma pending_sum_nonneg: "books_ok s \<Longrightarrow> 0 \<le> pending_sum s m"
proof -
  assume B: "books_ok s"
  have "0 \<le> pending_of s m"
  proof (cases "filter (\<lambda>b. bl_miner b = m) (balances s)")
    case Nil
    then show ?thesis by (simp add: pending_of_def)
  next
    case (Cons b bs)
    then have "b \<in> set (filter (\<lambda>b. bl_miner b = m) (balances s))" by simp
    then have "b \<in> set (balances s)" by simp
    then show ?thesis using Cons books_okD(1) [OF B] by (simp add: pending_of_def)
  qed
  then show ?thesis using pending_sum_of [OF B] by simp
qed

section \<open>The precise reversal\<close>

lemma insert_clawback_Inr:
  assumes "insert_clawback b m a s = (Inr u, s')"
  obtains fs q c where "s' = s\<lparr>clawbacks := clawbacks s @ [c], db_seq := q, db_faults := fs\<rparr>"
    "cb_block c = b" "cb_miner c = m" "cb_amount c = a"
proof -
  from assms [unfolded insert_clawback_def] obtain fs where
    r: "s' = (bump_id ''orphan_clawbacks'' (s\<lparr>db_faults := fs\<rparr>))\<lparr>clawbacks := clawbacks (s\<lparr>db_faults := fs\<rparr>) @
       [\<lparr>cb_id = next_id ''orphan_clawbacks'' (s\<lparr>db_faults := fs\<rparr>), cb_block = b, cb_miner = m,
         cb_amount = a, cb_created = db_clock (s\<lparr>db_faults := fs\<rparr>), cb_acked = False, cb_note = None\<rparr>]\<rparr>"
    by (rule modify_Inr)
  show ?thesis
    by (rule that [where c = "\<lparr>cb_id = next_id ''orphan_clawbacks'' s, cb_block = b, cb_miner = m,
          cb_amount = a, cb_created = db_clock s, cb_acked = False, cb_note = None\<rparr>"
          and q = "db_seq s'" and fs = fs])
      (use r in \<open>simp_all add: bump_id_def next_id_def\<close>)
qed

lemma update_balance_Inr:
  assumes "update_balance m g f s = (Inr n, s')"
  obtains fs where "s' = s\<lparr>db_faults := fs,
      balances := upd_where (\<lambda>b. bl_miner b = m \<and> g b) f (balances s)\<rparr>"
    "n = count_where (\<lambda>b. bl_miner b = m \<and> g b) (balances s)"
  using assms unfolding update_balance_def by (rule stmt_Inr) (auto simp: Let_def)

lemma same_miners_upd:
  assumes "\<And>b. bl_miner (f b) = bl_miner b"
  shows "same_miners (upd_where c f bs) bs"
proof -
  have "map bl_miner (upd_where c f bs) = map bl_miner bs" using assms by (rule map_upd_where_key)
  from arg_cong [OF this, of set] show ?thesis by (simp add: same_miners_def)
qed

definition claws :: "db \<Rightarrow> db \<Rightarrow> bool" where
  "claws s s' \<longleftrightarrow> payouts s' = payouts s \<and> items s' = items s \<and> credits s' = credits s
     \<and> blocks s' = blocks s \<and> same_miners (balances s') (balances s)"

lemma claws_refl [simp]: "claws s s"
  by (simp add: claws_def same_miners_def)

lemma claws_trans: "claws s t \<Longrightarrow> claws t u \<Longrightarrow> claws s u"
  by (simp add: claws_def same_miners_def)

lemma reverse_one_step:
  assumes run: "reverse_one b (r0, c0) (m, a) s = (Inr acc, s')"
    and B: "books (\<lambda>x. C x + clawback_sum s x) s" and a: "0 \<le> a"
  obtains rec where "rec = min a (pending_sum s m)" "0 \<le> rec" "acc = (r0 + rec, c0 + (a - rec))"
    "books (\<lambda>x. (C(m := C m - a)) x + clawback_sum s' x) s'" "claws s s'"
    "clawback_sum s' = (clawback_sum s)(m := clawback_sum s m + (a - rec))"
    "clawback_total s' = clawback_total s + (a - rec)"
proof -
  define rec where "rec = min a (pending_sum s m)"
  have ok: "books_ok s" using B by (simp add: books_def)
  have rec0: "0 \<le> rec" "rec \<le> a"
    using a pending_sum_nonneg [OF ok, of m] by (simp_all add: rec_def)
  from run obtain p s1 fs1 where
    p: "p = hd_opt (map bl_pending (filter (\<lambda>x. bl_miner x = m) (balances s)))"
    and s1: "s1 = s\<lparr>db_faults := fs1\<rparr>"
    and k: "(let recoverable = max (min a (COALESCE p 0)) 0;
           shortfall = a - recoverable in
       dseq (dwhen (0 < recoverable)
              (dseq (update_balance m (\<lambda>_. True) (add_pending (- recoverable))) (dret ())))
      (dseq (dwhen (0 < shortfall) (insert_clawback b m shortfall))
            (dret (if 0 < recoverable then r0 + recoverable else r0,
                   if 0 < shortfall then c0 + shortfall else c0)))) s1 = (Inr acc, s')"
    unfolding reverse_one_def fetch_optional_def
    by (auto simp: dbind_Inr hd_opt_def elim!: select_Inr)
  have "COALESCE p 0 = pending_sum s m"
    unfolding pending_sum_of [OF ok] p by (auto simp: pending_of_def hd_opt_def split: list.split)
  then have "max (min a (COALESCE p 0)) 0 = rec" using rec0 by (simp add: rec_def)
  with k obtain u2 s2 u3 where
    d: "dwhen (0 < rec) (dseq (update_balance m (\<lambda>_. True) (shift (- rec) 0 0)) (dret ())) s1
        = (Inr u2, s2)"
    and c: "dwhen (0 < a - rec) (insert_clawback b m (a - rec)) s2 = (Inr u3, s')"
    and acc: "acc = (r0 + rec, c0 + (a - rec))"
    using rec0 by (auto simp: dseq_Inr Let_def as_shift split: if_splits)
  let ?W = "\<lambda>x. C x + clawback_sum s x"
  have B1: "books ?W s1" using B s1 by (simp add: books_frame)
  have sh: "sheet (item_sum s) (payout_sum s) ?W (balances s)" using B by (simp add: books_iff)
  have "books (?W(m := ?W m - rec)) s2 \<and> claws s s2 \<and> clawbacks s2 = clawbacks s"
  proof (cases "0 < rec")
    case True
    then obtain n where u: "update_balance m (\<lambda>_. True) (shift (- rec) 0 0) s1 = (Inr n, s2)"
      using d by (auto simp: dwhen_def dseq_Inr)
    from sh have "has_balance s m \<and> (\<forall>b \<in> set (balances s). bl_miner b = m \<longrightarrow> 0 \<le> bl_pending b + - rec)"
    proof (cases rule: sheet_filter [where m = m])
      case absent
      then have "pending_of s m = 0" by (simp add: pending_of_def)
      then show ?thesis using True a by (simp add: rec_def pending_sum_of [OF ok])
    next
      case (row b)
      have pb: "bl_pending b = pending_sum s m"
        using row(1) by (simp add: pending_of_def pending_sum_of [OF ok])
      have "0 \<le> bl_pending b' + - rec" if "b' \<in> set (balances s)" "bl_miner b' = m" for b'
      proof -
        have "b' \<in> set (filter (\<lambda>x. bl_miner x = m) (balances s))" using that by simp
        then have "b' = b" unfolding row(1) by simp
        then show ?thesis using pb by (simp add: rec_def)
      qed
      moreover have "has_balance s m" using row(2,3) unfolding has_balance_def by blast
      ultimately show ?thesis by blast
    qed
    then have nn: "\<forall>b \<in> set (balances s1). bl_miner b = m \<longrightarrow> 0 \<le> bl_pending b + - rec"
      and hb: "has_balance s1 m" using s1 by simp_all
    from books_pending_shift [OF B1 u nn hb] obtain fs bs where
      "s2 = s1\<lparr>balances := bs, db_faults := fs\<rparr>" "books (?W(m := ?W m + - rec)) s2" .
    moreover have "same_miners (balances s2) (balances s1)"
      using u by (rule update_balance_Inr) (simp add: same_miners_upd)
    ultimately show ?thesis using s1 by (simp add: claws_def)
  next
    case False
    then have "rec = 0" "s2 = s1" using d rec0 by (simp_all add: dwhen_def)
    moreover from this have "?W(m := ?W m - rec) = ?W" by (simp add: fun_eq_iff)
    ultimately show ?thesis using B1 s1 by (simp only:) (simp add: claws_def same_miners_def)
  qed
  then have 2: "books (?W(m := ?W m - rec)) s2" "claws s s2" "clawbacks s2 = clawbacks s"
    by simp_all
  have 3: "balances s' = balances s2 \<and> claws s2 s'
    \<and> clawback_sum s' = (clawback_sum s)(m := clawback_sum s m + (a - rec))
    \<and> clawback_total s' = clawback_total s + (a - rec)"
  proof (cases "0 < a - rec")
    case True
    then have "insert_clawback b m (a - rec) s2 = (Inr u3, s')" using c by (simp add: dwhen_def)
    then obtain fs q cb where c2: "s' = s2\<lparr>clawbacks := clawbacks s2 @ [cb], db_seq := q, db_faults := fs\<rparr>"
      "cb_miner cb = m" "cb_amount cb = a - rec" by (rule insert_clawback_Inr)
    have "clawback_sum s' x = ((clawback_sum s)(m := clawback_sum s m + (a - rec))) x" for x
      using c2 2(3) by (simp add: clawback_sum_def)
    moreover have "clawback_total s' = clawback_total s + (a - rec)"
      using c2 2(3) by (simp add: clawback_total_def)
    moreover have "balances s' = balances s2" "claws s2 s'"
      using c2(1) by (simp_all add: claws_def same_miners_def)
    ultimately show ?thesis by (simp add: fun_eq_iff)
  next
    case False
    then have s2: "s' = s2" and z: "a - rec = 0" using c rec0 by (simp_all add: dwhen_def)
    have "clawback_sum s' = clawback_sum s" "clawback_total s' = clawback_total s"
      using s2 2(3) by (simp_all add: clawback_sum_def clawback_total_def fun_eq_iff)
    then show ?thesis using s2 z by simp
  qed
  then have "(\<lambda>x. (C(m := C m - a)) x + clawback_sum s' x) = ?W(m := ?W m - rec)"
    by (auto simp: fun_eq_iff)
  moreover have "books (?W(m := ?W m - rec)) s'"
    using 2(1) 3 books_tables [of s' s2] by (simp add: claws_def)
  ultimately have "books (\<lambda>x. (C(m := C m - a)) x + clawback_sum s' x) s'" by simp
  then show ?thesis using that [of rec] rec0 acc 2 3 claws_trans rec_def by blast
qed

lemma reverse_fold:
  assumes "dfold (reverse_one b) (r0, c0) cs s = (Inr (r, c), s')"
    and "books (\<lambda>x. C x + clawback_sum s x) s" and "\<forall>p \<in> set cs. 0 \<le> snd p"
  shows "books (\<lambda>x. C x - pair_sum cs x + clawback_sum s' x) s' \<and> claws s s'
    \<and> r + c = r0 + c0 + sum_list (map snd cs) \<and> r0 \<le> r \<and> c0 \<le> c
    \<and> clawback_total s' = clawback_total s + (c - c0)
    \<and> ((\<forall>x. pair_sum cs x \<le> pending_sum s x) \<longrightarrow> c = c0)"
  using assms
proof (induction cs arbitrary: r0 c0 s C)
  case Nil
  then show ?case by simp
next
  case (Cons p cs)
  obtain m a where p: "p = (m, a)" by (cases p)
  from Cons.prems(1) obtain acc s1 where s1: "reverse_one b (r0, c0) (m, a) s = (Inr acc, s1)"
    and rest: "dfold (reverse_one b) acc cs s1 = (Inr (r, c), s')"
    by (auto simp: dbind_Inr p)
  have a: "0 \<le> a" using Cons.prems(3) p by simp
  from s1 Cons.prems(2) a obtain rec where
    q: "rec = min a (pending_sum s m)" "0 \<le> rec" "acc = (r0 + rec, c0 + (a - rec))"
    "books (\<lambda>x. (C(m := C m - a)) x + clawback_sum s1 x) s1" "claws s s1"
    "clawback_sum s1 = (clawback_sum s)(m := clawback_sum s m + (a - rec))"
    "clawback_total s1 = clawback_total s + (a - rec)"
    by (rule reverse_one_step)
  have IH: "books (\<lambda>x. (C(m := C m - a)) x - pair_sum cs x + clawback_sum s' x) s' \<and> claws s1 s'
    \<and> r + c = (r0 + rec) + (c0 + (a - rec)) + sum_list (map snd cs) \<and> r0 + rec \<le> r
    \<and> c0 + (a - rec) \<le> c
    \<and> clawback_total s' = clawback_total s1 + (c - (c0 + (a - rec)))
    \<and> ((\<forall>x. pair_sum cs x \<le> pending_sum s1 x) \<longrightarrow> c = c0 + (a - rec))"
    using Cons.IH [OF rest [unfolded q(3)] q(4)] Cons.prems(3) by simp
  have e: "(\<lambda>x. (C(m := C m - a)) x - pair_sum cs x + clawback_sum s' x)
      = (\<lambda>x. C x - pair_sum (p # cs) x + clawback_sum s' x)"
    by (auto simp: fun_eq_iff p)
  have "c = c0" if all: "\<forall>x. pair_sum (p # cs) x \<le> pending_sum s x"
  proof -
    have nn: "0 \<le> pair_sum cs x" for x using Cons.prems(3) by (intro pair_sum_nonneg) simp
    have "a \<le> pending_sum s m" using all [rule_format, of m] nn [of m] p by simp
    then have rec: "rec = a" using q(1) by simp
    have W: "owed s = (\<lambda>x. C x + clawback_sum s x)"
      "owed s1 = (\<lambda>x. (C(m := C m - a)) x + clawback_sum s1 x)"
      using Cons.prems(2) q(4) by (simp_all add: books_def)
    have "item_sum s1 = item_sum s" "payout_sum s1 = payout_sum s"
      using q(5) by (simp_all add: claws_def item_sum_def payout_sum_def fun_eq_iff)
    then have ps: "pending_sum s1 x = pending_sum s x - (if x = m then a else 0)" for x
      unfolding pending_sum_def W using q(6) rec by simp
    have "pair_sum cs x \<le> pending_sum s1 x" for x
      using all [rule_format, of x] ps [of x] p by (cases "x = m") simp_all
    then show ?thesis using IH rec by simp
  qed
  then show ?case
    using IH e q(2,5,7) claws_trans p by (auto simp: q(1))
qed

definition credits_of :: "db \<Rightarrow> int \<Rightarrow> (int \<times> int) list" where
  "credits_of s b = map (\<lambda>c. (cr_miner c, cr_amount c)) (filter (\<lambda>c. cr_block c = b) (credits s))"

lemma credit_sum_delete:
  "credit_sum (s\<lparr>credits := filter (\<lambda>c. cr_block c \<noteq> b) (credits s)\<rparr>)
     = (\<lambda>m. credit_sum s m - pair_sum (credits_of s b) m)"
proof (rule ext)
  fix m
  have "sum_where (\<lambda>c. cr_miner c = m) cr_amount (filter (\<lambda>c. cr_block c \<noteq> b) cs)
      = sum_where (\<lambda>c. cr_miner c = m) cr_amount cs
        - pair_sum (map (\<lambda>c. (cr_miner c, cr_amount c)) (filter (\<lambda>c. cr_block c = b) cs)) m" for cs
    by (induction cs) auto
  then show "credit_sum (s\<lparr>credits := filter (\<lambda>c. cr_block c \<noteq> b) (credits s)\<rparr>) m
      = credit_sum s m - pair_sum (credits_of s b) m"
    by (simp add: credit_sum_def credits_of_def)
qed

text \<open>Statements that touch neither the balance sheet nor the credits nor the clawbacks.\<close>

definition off_sheet :: "db \<Rightarrow> db \<Rightarrow> bool" where
  "off_sheet s s' \<longleftrightarrow> balances s' = balances s \<and> items s' = items s \<and> payouts s' = payouts s
     \<and> credits s' = credits s \<and> clawbacks s' = clawbacks s"

lemma off_sheet_refl [simp]: "off_sheet s s"
  by (simp add: off_sheet_def)

lemma off_sheet_trans: "off_sheet s t \<Longrightarrow> off_sheet t u \<Longrightarrow> off_sheet s u"
  by (simp add: off_sheet_def)

lemma off_sheet_books: "off_sheet s s' \<Longrightarrow> books W s' = books W s"
  by (rule books_tables) (simp_all add: off_sheet_def)

lemma off_sheet_sums:
  "off_sheet s s' \<Longrightarrow> credit_sum s' = credit_sum s"
  "off_sheet s s' \<Longrightarrow> clawback_sum s' = clawback_sum s"
  "off_sheet s s' \<Longrightarrow> item_sum s' = item_sum s"
  "off_sheet s s' \<Longrightarrow> payout_sum s' = payout_sum s"
  by (simp_all add: off_sheet_def credit_sum_def clawback_sum_def item_sum_def payout_sum_def fun_eq_iff)

lemma off_sheet_accounts: "off_sheet s s' \<Longrightarrow> accounts D s' = accounts D s"
  by (simp add: accounts_def off_sheet_sums off_sheet_books)

lemma off_sheet_modify:
  assumes "modify f s = (Inr u, s')" "\<And>t. off_sheet t (f t)"
  shows "off_sheet s s'"
  using assms(1)
proof (rule modify_Inr)
  fix fs assume "s' = f (s\<lparr>db_faults := fs\<rparr>)"
  then show ?thesis using assms(2) [of "s\<lparr>db_faults := fs\<rparr>"] by (simp add: off_sheet_def)
qed

lemma requeue_costs_off:
  assumes "requeue_costs b s = (Inr u, s')"
  shows "off_sheet s s'"
proof -
  from assms obtain a s1 where
    1: "fetch_one (\<lambda>s. map bk_costs (filter (\<lambda>r. bk_id r = b) (blocks s))) s = (Inr a, s1)"
    and 2: "dwhen (0 < a) (dseq (insert_cost ''reorphaned'' (''block:'' @ show_int b) a)
               (set_block_costs b 0)) s1 = (Inr u, s')"
    by (auto simp: requeue_costs_def dbind_Inr)
  from 1 have o1: "off_sheet s s1"
    unfolding fetch_one_def by (auto simp: off_sheet_def elim!: stmt_Inr split: list.splits)
  show ?thesis
  proof (cases "0 < a")
    case True
    then obtain v s2 where
      3: "insert_cost ''reorphaned'' (''block:'' @ show_int b) a s1 = (Inr v, s2)"
      and 4: "set_block_costs b 0 s2 = (Inr u, s')"
      using 2 by (auto simp: dwhen_def dseq_Inr)
    have "off_sheet s1 s2"
      using 3 unfolding insert_cost_def
      by (rule off_sheet_modify) (simp add: off_sheet_def bump_id_def)
    moreover have "off_sheet s2 s'"
      using 4 unfolding set_block_costs_def by (rule off_sheet_modify) (simp add: off_sheet_def)
    ultimately have "off_sheet s1 s2" "off_sheet s2 s'" .
    then show ?thesis using o1 off_sheet_trans by blast
  next
    case False
    then show ?thesis using 2 o1 by (simp add: dwhen_def)
  qed
qed

lemma precise_reversal:
  assumes A: "accounts D s" and nn: "\<forall>c \<in> set (credits s). 0 \<le> cr_amount c"
    and run: "reverse_block_credits_precise_txn b s = (Inr (Some (r, c)), s')"
  shows "accounts D s' \<and> r + c = sum_list (map snd (credits_of s b)) \<and> 0 \<le> r \<and> 0 \<le> c
    \<and> clawback_total s' = clawback_total s + c
    \<and> credits s' = filter (\<lambda>c. cr_block c \<noteq> b) (credits s) \<and> items s' = items s
    \<and> payouts s' = payouts s
    \<and> ((\<forall>m. pair_sum (credits_of s b) m \<le> pending_sum s m) \<longrightarrow> c = 0)"
proof -
  let ?cs = "credits_of s b"
  from run obtain cs0 s0 where
    sel: "select (\<lambda>s. map (\<lambda>c. (cr_miner c, cr_amount c))
                          (filter (\<lambda>c. cr_block c = b) (credits s))) s = (Inr cs0, s0)"
    and k: "(if cs0 = [] then dret None
       else dbind (dfold (reverse_one b) (0, 0) cs0) (\<lambda>acc.
         dseq (modify (\<lambda>s. s\<lparr>credits := filter (\<lambda>c. cr_block c \<noteq> b) (credits s)\<rparr>))
        (dseq (requeue_costs b) (dret (Some acc))))) s0 = (Inr (Some (r, c)), s')"
    unfolding reverse_block_credits_precise_txn_def by (rule dbind_InrE)
  have "cs0 = ?cs \<and> (\<exists>fs. s0 = s\<lparr>db_faults := fs\<rparr>)"
    using sel by (rule select_Inr) (auto simp: credits_of_def)
  then obtain fs where "cs0 = ?cs" "s0 = s\<lparr>db_faults := fs\<rparr>" by blast
  moreover have "cs0 \<noteq> []" using k by auto
  ultimately have "dbind (dfold (reverse_one b) (0, 0) ?cs) (\<lambda>acc.
         dseq (modify (\<lambda>s. s\<lparr>credits := filter (\<lambda>c. cr_block c \<noteq> b) (credits s)\<rparr>))
        (dseq (requeue_costs b) (dret (Some acc)))) (s\<lparr>db_faults := fs\<rparr>) = (Inr (Some (r, c)), s')"
    using k by simp
  then obtain s1 acc s2 u where
    f: "dfold (reverse_one b) (0, 0) ?cs (s\<lparr>db_faults := fs\<rparr>) = (Inr (r, c), s1)"
    and d: "modify (\<lambda>s. s\<lparr>credits := filter (\<lambda>c. cr_block c \<noteq> b) (credits s)\<rparr>) s1 = (Inr acc, s2)"
    and q: "requeue_costs b s2 = (Inr u, s')"
    by (auto simp: dbind_Inr dseq_Inr)
  let ?s = "s\<lparr>db_faults := fs\<rparr>"
  have pos: "\<forall>p \<in> set ?cs. 0 \<le> snd p" using nn by (auto simp: credits_of_def)
  have "books (\<lambda>x. (credit_sum s x + D x) + clawback_sum ?s x) ?s"
    using A by (simp add: accounts_def books_frame algebra_simps)
  note F = reverse_fold [OF f this pos]
  have "\<exists>fs2. s2 = s1\<lparr>db_faults := fs2, credits := filter (\<lambda>c. cr_block c \<noteq> b) (credits s1)\<rparr>"
    using d by (rule modify_Inr) auto
  then obtain fs2 where s2: "s2 = s1\<lparr>db_faults := fs2, credits := filter (\<lambda>c. cr_block c \<noteq> b) (credits s1)\<rparr>"
    by blast
  have off: "off_sheet s2 s'" using q by (rule requeue_costs_off)
  have cr: "credits s' = filter (\<lambda>c. cr_block c \<noteq> b) (credits s)"
    using off s2 F by (simp add: off_sheet_def claws_def)
  have cs: "credit_sum s' = (\<lambda>m. credit_sum s m - pair_sum ?cs m)"
    using cr credit_sum_delete [where s = s and b = b] by (simp add: credit_sum_def fun_eq_iff)
  have cb: "clawback_sum s' = clawback_sum s1" "clawback_total s' = clawback_total s1"
    using off s2 by (simp_all add: off_sheet_def clawback_sum_def clawback_total_def fun_eq_iff)
  have "books (\<lambda>x. credit_sum s x + D x - pair_sum ?cs x + clawback_sum s1 x) s1" using F by simp
  then have "books (\<lambda>x. credit_sum s x + D x - pair_sum ?cs x + clawback_sum s1 x) s'"
    using off_sheet_books [OF off] s2 by (simp add: books_frame)
  moreover have "(\<lambda>x. credit_sum s x + D x - pair_sum ?cs x + clawback_sum s1 x)
      = (\<lambda>x. credit_sum s' x + clawback_sum s' x + D x)"
    using cs cb by (simp add: fun_eq_iff)
  ultimately have "accounts D s'" by (simp add: accounts_def)
  moreover have "clawback_total s' = clawback_total s + c"
    using F cb by (simp add: clawback_total_def)
  moreover have "(\<forall>m. pair_sum ?cs m \<le> pending_sum s m) \<longrightarrow> c = 0"
    using F by (simp add: pending_sum_def)
  ultimately show ?thesis using F cr off s2 by (simp add: off_sheet_def claws_def)
qed

end
