(* ===== verification/Ledger_Runs.thy ===== *)
theory Ledger_Runs
  imports Ledger_Orphan
begin

text \<open>
  Sequences of database operations, in any order and with any statement failures, and what
  every such run keeps.
\<close>

section \<open>Changes of the pending column only\<close>

lemma books_ok_pending:
  assumes B: "books_ok s" and h: "\<And>b. b \<in> set (balances s) \<Longrightarrow> c b \<Longrightarrow> 0 \<le> h b"
  shows "books_ok (s\<lparr>balances := upd_where c (\<lambda>b. b\<lparr>bl_pending := h b\<rparr>) (balances s)\<rparr>)"
proof -
  let ?bs = "upd_where c (\<lambda>b. b\<lparr>bl_pending := h b\<rparr>) (balances s)"
  let ?s = "s\<lparr>balances := ?bs\<rparr>"
  have sh: "sheet (item_sum s) (payout_sum s) (owed s) (balances s)" using B by (simp add: books_ok_def)
  have mm: "map bl_miner ?bs = map bl_miner (balances s)" by (rule map_upd_where_key) simp
  have rows: "0 \<le> bl_pending b \<and> 0 \<le> bl_paying b \<and> 0 \<le> bl_paid b
      \<and> bl_paying b = item_sum s (bl_miner b) \<and> bl_paid b = payout_sum s (bl_miner b)"
    if "b \<in> set ?bs" for b
  proof -
    from that obtain b0 where b0: "b0 \<in> set (balances s)"
      "b = (if c b0 then b0\<lparr>bl_pending := h b0\<rparr> else b0)" by (auto simp: upd_where_def)
    show ?thesis
      using sheet_row [OF sh b0(1)] h [OF b0(1)] unfolding b0(2) by (cases "c b0") auto
  qed
  have e: "item_sum ?s = item_sum s" "payout_sum ?s = payout_sum s" by simp_all
  have "sheet (item_sum ?s) (payout_sum ?s) (owed ?s) ?bs"
    unfolding sheet_def e
  proof (intro conjI)
    show "distinct (map bl_miner ?bs)" using sh mm by (simp add: sheet_def)
    show "\<forall>b \<in> set ?bs. 0 \<le> bl_pending b \<and> 0 \<le> bl_paying b \<and> 0 \<le> bl_paid b
      \<and> bl_paying b = item_sum s (bl_miner b) \<and> bl_paid b = payout_sum s (bl_miner b)"
      using rows by blast
  qed (simp add: owed_def)
  moreover have "has_balance ?s m \<longleftrightarrow> has_balance s m" for m
    using arg_cong [OF mm, of set] by (simp add: has_balance_def)
  ultimately show ?thesis using B by (simp add: books_ok_def)
qed

lemma books_ok_tables:
  "balances s = balances t \<Longrightarrow> items s = items t \<Longrightarrow> payouts s = payouts t \<Longrightarrow> books_ok s = books_ok t"
  using books_tables [of s t "owed s"] books_tables [of s t "owed t"]
  by (metis books_def)

text \<open>The invariant of all runs: the books, and no negative credit.\<close>

definition ledger_inv :: "db \<Rightarrow> bool" where
  "ledger_inv s \<longleftrightarrow> books_ok s \<and> (\<forall>c \<in> set (credits s). 0 \<le> cr_amount c)"

lemma ledger_no_faults [simp, intro]: "no_faults_dep ledger_inv"
  using books_no_faults(2) by (simp add: no_faults_dep_def ledger_inv_def)

lemma ledger_off:
  assumes "balances s' = balances s" "items s' = items s" "payouts s' = payouts s"
    "credits s' = credits s"
  shows "ledger_inv s' = ledger_inv s"
  using books_ok_tables [of s' s] assms by (simp add: ledger_inv_def)

lemma ledger_frame [simp]:
  "ledger_inv (clawbacks_update f4 s) = ledger_inv s"
  "ledger_inv (db_seq_update f5 s) = ledger_inv s"
  "ledger_inv (blocks_update f7 s) = ledger_inv s"
  "ledger_inv (tx_costs_update f8 s) = ledger_inv s"
  "ledger_inv (attempts_update f6 s) = ledger_inv s"
  "ledger_inv (miners_update f10 s) = ledger_inv s"
  "ledger_inv (workers_update f11 s) = ledger_inv s"
  "ledger_inv (shares_update f12 s) = ledger_inv s"
  "ledger_inv (db_faults_update f13 s) = ledger_inv s"
  "ledger_inv (db_clock_update f14 s) = ledger_inv s"
  "ledger_inv (submissions_update f15 s) = ledger_inv s"
  by (rule ledger_off; simp)+

lemma ledger_empty: "ledger_inv (empty_db fk t fs)"
  using books_empty [of fk t fs] by (simp add: ledger_inv_def books_def empty_db_def)

lemma ledger_accounts:
  "ledger_inv s \<Longrightarrow> accounts (\<lambda>m. owed s m - credit_sum s m - clawback_sum s m) s"
  by (simp add: accounts_def books_def ledger_inv_def fun_eq_iff)

lemma accounts_books_ok: "accounts D s \<Longrightarrow> books_ok s"
  by (simp add: accounts_def books_def)

lemma keeps_ledgerI:
  assumes "\<And>D. keeps (accounts D) (txn m)"
    and "\<And>s v s'. ledger_inv s \<Longrightarrow> txn m s = (Inr v, s') \<Longrightarrow> credits s' = credits s"
  shows "keeps ledger_inv (txn m)"
proof (rule keepsI)
  fix s assume P: "ledger_inv s"
  let ?D = "\<lambda>m. owed s m - credit_sum s m - clawback_sum s m"
  have "accounts ?D (snd (txn m s))"
    using assms(1) [of ?D] ledger_accounts [OF P] by (auto simp: keeps_def)
  then have "books_ok (snd (txn m s))" by (rule accounts_books_ok)
  moreover have "credits (snd (txn m s)) = credits s"
    using assms(2) [OF P] by (cases rule: txn_outcome [of m s]) auto
  ultimately show "ledger_inv (snd (txn m s))" using P by (simp add: ledger_inv_def)
qed

section \<open>Each operation\<close>

lemma books_of_ledger: "ledger_inv s \<Longrightarrow> books (owed s) s"
  by (simp add: ledger_inv_def books_def)

lemma ledger_confirm: "keeps ledger_inv (confirm_payout aid txid)"
  unfolding confirm_payout_def
proof (rule keeps_ledgerI)
  fix s v s' assume "ledger_inv s" "txn (dbind (select (\<lambda>s. items_of s aid)) (\<lambda>is.
      dbind (dfold (confirm_one aid txid) 0 is) (\<lambda>k. dseq (delete_items aid) (dret k)))) s = (Inr v, s')"
  from books_confirmed [OF books_of_ledger [OF this(1)] this(2) [folded confirm_payout_def]]
  show "credits s' = credits s" by (simp add: rest_same_def)
qed (rule keeps_accounts_confirm [unfolded confirm_payout_def])

lemma ledger_refund: "keeps ledger_inv (refund_payout aid)"
  unfolding refund_payout_def
proof (rule keeps_ledgerI)
  fix s v s' assume "ledger_inv s" "txn (dbind (select (\<lambda>s. items_of s aid)) (\<lambda>is.
      dbind (dfold (refund_one aid) 0 is) (\<lambda>k. dseq (delete_items aid) (dret k)))) s = (Inr v, s')"
  from books_refunded [OF books_of_ledger [OF this(1)] this(2) [folded refund_payout_def]]
  show "credits s' = credits s" by (simp add: rest_same_def)
qed (rule keeps_accounts_refund [unfolded refund_payout_def])

lemma ledger_void: "keeps ledger_inv (void_reorged_payout txid)"
  unfolding void_reorged_payout_def
proof (rule keeps_ledgerI)
  fix s v s' assume "ledger_inv s" "txn (void_reorged_payout_txn txid) s = (Inr v, s')"
  then show "credits s' = credits s"
    using books_voided [OF books_of_ledger, of s txid "fst v" "snd v" s']
    by (simp add: void_reorged_payout_def rest_same_def)
qed (rule keeps_accounts_void [unfolded void_reorged_payout_def])

lemma reserve_rest:
  assumes "reserve_payout aid rs s = (Inr v, s')"
  shows "rest_same s s'"
  using assms unfolding reserve_payout_def
proof (rule txn_Inr)
  fix fs fs' s1 assume r: "dfold (reserve_one aid) [] rs (s\<lparr>db_faults := fs\<rparr>) = (Inr v, s1)"
    "s' = s1\<lparr>db_faults := fs'\<rparr>"
  have "rest_same s s1" using on_okD [OF on_ok_reserve_rest _ r(1), of s] by (simp add: rest_same_def)
  then show ?thesis using r(2) by (simp add: rest_same_def)
qed

lemma ledger_reserve: "keeps ledger_inv (reserve_payout aid rs)"
  unfolding reserve_payout_def
proof (rule keeps_ledgerI)
  fix s v s' assume "txn (dfold (reserve_one aid) [] rs) s = (Inr v, s')"
  then show "credits s' = credits s"
    using reserve_rest [of aid rs s v s'] by (simp add: reserve_payout_def rest_same_def)
qed (rule keeps_accounts_reserve [unfolded reserve_payout_def])

lemma ledger_create: "0 \<le> a \<Longrightarrow> keeps ledger_inv (create_payout m a txid)"
  unfolding create_payout_def
proof (rule keeps_ledgerI)
  fix s v s' assume "0 \<le> a" "ledger_inv s" "txn (dbind (update_balance m (\<lambda>b. a \<le> bl_pending b) (pending_to_paid a)) (\<lambda>n.
       if n = 0 then draise (InsufficientPending m a) else insert_payout m txid a)) s = (Inr v, s')"
  from books_created [OF books_of_ledger [OF this(2)] this(3) [folded create_payout_def] this(1)]
  show "credits s' = credits s" by (simp add: rest_same_def)
qed (rule keeps_accounts_create [unfolded create_payout_def])

lemma on_ok_credit_one_nonneg:
  assumes "0 \<le> snd c"
  shows "on_ok ledger_inv (credit_one b c) (\<lambda>_. ledger_inv)"
proof (rule on_okI)
  fix s u s' assume P: "ledger_inv s" and run: "credit_one b c s = (Inr u, s')"
  have "books_ok s'"
    using on_okD [OF on_ok_credit_one [OF assms] ledger_accounts [OF P] run] by (rule accounts_books_ok)
  moreover have "\<forall>c \<in> set (credits s'). 0 \<le> cr_amount c"
  proof -
    obtain m a where c: "c = (m, a)" by (cases c)
    from run obtain u1 s1 u2 s2 n where
      1: "ensure_balance m s = (Inr u1, s1)" and 2: "insert_credit b m a s1 = (Inr u2, s2)"
      and 3: "update_balance m (\<lambda>_. True) (add_pending a) s2 = (Inr n, s')"
      by (auto simp: credit_one_def c dseq_Inr)
    have "credits s1 = credits s" using 1 by (cases rule: ensure_balance_Inr; simp)
    moreover have "credits s2 = credits s1 @ [\<lparr>cr_block = b, cr_miner = m, cr_amount = a\<rparr>]"
      using 2 by (rule insert_credit_Inr) simp
    moreover have "credits s' = credits s2" using 3 by (rule update_balance_Inr) simp
    ultimately show ?thesis using P assms c by (auto simp: ledger_inv_def)
  qed
  ultimately show "ledger_inv s'" by (simp add: ledger_inv_def)
qed

lemma ledger_distribute:
  "\<forall>c \<in> set cs. 0 \<le> snd c \<Longrightarrow> keeps ledger_inv (distribute_block_credits b cs)"
  unfolding distribute_block_credits_def
  by (intro keeps_txn on_ok_for) (auto intro: on_ok_credit_one_nonneg)

lemma ledger_proportional: "keeps ledger_inv (proportional_reversal r t)"
  unfolding proportional_reversal_def
proof (rule keeps_modify)
  fix s assume "ledger_inv s"
  then show "ledger_inv (s\<lparr>balances := upd_where (\<lambda>b. 0 < bl_pending b)
      (\<lambda>b. b\<lparr>bl_pending := max 0 (bl_pending b - proportional_cut r t (bl_pending b))\<rparr>) (balances s)\<rparr>)"
    using books_ok_pending [of s "\<lambda>b. 0 < bl_pending b"
        "\<lambda>b. max 0 (bl_pending b - proportional_cut r t (bl_pending b))"]
    by (simp add: ledger_inv_def)
qed simp

lemma ledger_legacy: "keeps ledger_inv (reverse_block_credits r)"
  unfolding reverse_block_credits_def
  by (rule keeps_bind) (auto intro: keeps_select keeps_ret ledger_proportional)

lemma keeps_on_ok: "keeps P m \<Longrightarrow> on_ok P m (\<lambda>_. P)"
  by (force simp: keeps_def on_ok_def)

lemma on_ok_precise: "on_ok ledger_inv (reverse_block_credits_precise_txn b) (\<lambda>_. ledger_inv)"
proof (rule on_okI)
  fix s v s' assume P: "ledger_inv s"
    and run: "reverse_block_credits_precise_txn b s = (Inr v, s')"
  show "ledger_inv s'"
  proof (cases v)
    case (Some rc)
    obtain r c where "v = Some (r, c)" using Some by (cases rc) auto
    from precise_reversal [OF ledger_accounts [OF P] _ run [unfolded this]]
    show ?thesis using P by (auto simp: ledger_inv_def intro: accounts_books_ok)
  next
    case None
    have "\<exists>fs. s' = s\<lparr>db_faults := fs\<rparr>"
      using run unfolding reverse_block_credits_precise_txn_def None
      by (rule dbind_InrE) (auto elim!: select_Inr simp: dbind_Inr dseq_Inr split: if_splits)
    then show ?thesis using P by auto
  qed
qed

lemma ledger_precise: "keeps ledger_inv (reverse_block_credits_precise b)"
  unfolding reverse_block_credits_precise_def by (rule keeps_txn) (auto intro: on_ok_precise)

lemma ledger_orphan: "keeps ledger_inv (orphan_block b r)"
  unfolding orphan_block_def
proof (rule keeps_txn)
  show "on_ok ledger_inv (orphan_block_txn b r) (\<lambda>_. ledger_inv)"
    unfolding orphan_block_txn_def
    by (rule on_ok_bind [OF on_ok_precise])
      (auto intro!: on_ok_seq [where Q = ledger_inv] keeps_on_ok keeps_seq keeps_bind
        keeps_select keeps_when keeps_ret ledger_proportional keeps_modify)
qed simp

lemma ledger_ensure: "keeps ledger_inv (ensure_balance m)"
proof (rule keepsI)
  fix s assume P: "ledger_inv s"
  obtain r s' where r: "ensure_balance m s = (r, s')" by fastforce
  show "ledger_inv (snd (ensure_balance m s))"
  proof (cases r)
    case (Inr u)
    have "books (owed s) s'" "credits s' = credits s"
      using on_okD [OF on_ok_ensure_balance books_of_ledger [OF P] r [unfolded Inr]]
        ensure_balance_Inr [OF r [unfolded Inr], of "credits s' = credits s"] by auto
    then show ?thesis using P r by (simp add: ledger_inv_def books_def)
  next
    case (Inl e)
    have "\<exists>fs. s' = s\<lparr>db_faults := fs\<rparr>"
      using r [unfolded ensure_balance_def Inl]
      by (rule stmt_Inl) (auto simp: check_fk_def split: if_splits)
    then show ?thesis using P r by auto
  qed
qed

lemma ledger_update_pending:
  assumes "\<And>b. 0 \<le> bl_pending b \<Longrightarrow> 0 \<le> h b"
  shows "keeps ledger_inv (update_balance m (\<lambda>_. True) (\<lambda>b. b\<lparr>bl_pending := h b\<rparr>))"
  unfolding update_balance_def
proof (rule keeps_stmt)
  fix s assume P: "ledger_inv s"
  then have B: "books_ok s" by (simp add: ledger_inv_def)
  have "books_ok (s\<lparr>balances := upd_where (\<lambda>b. bl_miner b = m \<and> True) (\<lambda>b. b\<lparr>bl_pending := h b\<rparr>)
      (balances s)\<rparr>)"
    using B by (rule books_ok_pending) (use assms books_okD(1) [OF B] in blast)
  then show "ledger_inv (snd (let c = \<lambda>b. bl_miner b = m \<and> True in
      (Inr (count_where c (balances s)) :: db_error + nat,
       s\<lparr>balances := upd_where c (\<lambda>b. b\<lparr>bl_pending := h b\<rparr>) (balances s)\<rparr>)))"
    using P by (simp add: ledger_inv_def Let_def)
qed simp

lemma ledger_credit: "0 \<le> a \<Longrightarrow> keeps ledger_inv (credit_balance m a)"
  unfolding credit_balance_def add_pending_def [abs_def]
  by (intro keeps_seq ledger_ensure ledger_update_pending keeps_ret) simp

lemma ledger_adjust: "keeps ledger_inv (adjust_miner_balance m d)"
  unfolding adjust_miner_balance_def
  by (intro keeps_seq ledger_ensure ledger_update_pending keeps_fetch_one) simp_all

section \<open>Which errors the saga can return\<close>

text \<open>Errors that come from the environment or from a missing parent row, not from a guard.\<close>

definition statement_error :: "db_error \<Rightarrow> bool" where
  "statement_error e \<longleftrightarrow> e = Sqlx Transient \<or> e = Sqlx ForeignKeyViolation"

lemma update_balance_hits:
  assumes u: "update_balance m g f s = (Inr n, s')" and b: "b \<in> set (balances s)" "bl_miner b = m" "g b"
  shows "n \<noteq> 0"
  using u by (rule update_balance_Inr) (use b in \<open>auto simp: count_where_0\<close>)

lemma update_balance_Inl: "update_balance m g f s = (Inl e, s') \<Longrightarrow> e = Sqlx Transient"
  unfolding update_balance_def by (erule stmt_Inl) (auto simp: Let_def)

lemma insert_payout_Inl: "insert_payout m t a s = (Inl e, s') \<Longrightarrow> statement_error e"
  unfolding insert_payout_def statement_error_def
  by (erule stmt_Inl) (auto simp: check_fk_def split: if_splits)

lemma dbind_InlE:
  assumes "dbind m k s = (Inl e, s')"
  obtains (first) "m s = (Inl e, s')" | (second) a s1 where "m s = (Inr a, s1)" "k a s1 = (Inl e, s')"
  using assms by (auto simp: dbind_def split: prod.splits sum.splits)

lemma confirm_one_Inl:
  assumes run: "confirm_one aid txid k (m, a) s = (Inl e, s')"
    and sh: "sheet E F W (balances s)" and m: "has_balance s m" and a: "a \<le> E m"
  shows "statement_error e"
proof -
  from m obtain b where b: "b \<in> set (balances s)" "bl_miner b = m" by (auto simp: has_balance_def)
  have g: "a \<le> bl_paying b" using sheet_row(4) [OF sh b(1)] b(2) a by simp
  from run show ?thesis
    unfolding confirm_one_def prod.case
  proof (cases rule: dbind_InlE)
    case first
    then show ?thesis using update_balance_Inl by (simp add: statement_error_def)
  next
    case (second n s1)
    have "n \<noteq> 0" by (rule update_balance_hits [OF second(1) b g])
    then have "dseq (insert_payout m txid a) (dret (k + 1)) s1 = (Inl e, s')" using second(2) by simp
    then show ?thesis unfolding dseq_def
      by (cases rule: dbind_InlE) (auto intro: insert_payout_Inl)
  qed
qed

lemma refund_one_Inl:
  assumes run: "refund_one aid k (m, a) s = (Inl e, s')"
    and sh: "sheet E F W (balances s)" and m: "has_balance s m" and a: "a \<le> E m"
  shows "statement_error e"
proof -
  from m obtain b where b: "b \<in> set (balances s)" "bl_miner b = m" by (auto simp: has_balance_def)
  have g: "a \<le> bl_paying b" using sheet_row(4) [OF sh b(1)] b(2) a by simp
  from run show ?thesis
    unfolding refund_one_def prod.case
  proof (cases rule: dbind_InlE)
    case first
    then show ?thesis using update_balance_Inl by (simp add: statement_error_def)
  next
    case (second n s1)
    have "n \<noteq> 0" by (rule update_balance_hits [OF second(1) b g])
    then show ?thesis using second(2) by simp
  qed
qed

lemma pair_sum_head:
  assumes "\<forall>x. pair_sum ((m, a) # rs) x \<le> E x" "\<forall>r \<in> set rs. 0 \<le> snd r"
  shows "a \<le> E m" "\<forall>x. pair_sum rs x \<le> (E(m := E m - a)) x"
proof -
  have "0 \<le> pair_sum rs m" using assms(2) by (rule pair_sum_nonneg)
  then show "a \<le> E m" using assms(1) [rule_format, of m] by simp
  have "pair_sum rs x \<le> (E(m := E m - a)) x" for x
    using assms(1) [rule_format, of x] by (cases "x = m") simp_all
  then show "\<forall>x. pair_sum rs x \<le> (E(m := E m - a)) x" by blast
qed

lemma confirm_fold_Inl:
  assumes "dfold (confirm_one aid txid) k rs s = (Inl e, s')"
    and "sheet E (payout_sum s) W (balances s)"
    and "\<forall>r \<in> set rs. 0 \<le> snd r \<and> has_balance s (fst r)" "\<forall>x. pair_sum rs x \<le> E x"
  shows "statement_error e"
  using assms
proof (induction rs arbitrary: k s E)
  case (Cons r rs)
  obtain m a where r: "r = (m, a)" by (cases r)
  have nn: "\<forall>r \<in> set rs. 0 \<le> snd r" using Cons.prems(3) by simp
  note ps = pair_sum_head [OF Cons.prems(4) [unfolded r] nn]
  from Cons.prems(1) have "dbind (confirm_one aid txid k (m, a)) (\<lambda>k. dfold (confirm_one aid txid) k rs) s
      = (Inl e, s')" by (simp add: r)
  then show ?case
  proof (cases rule: dbind_InlE)
    case first
    show ?thesis by (rule confirm_one_Inl [OF first Cons.prems(2)]) (use Cons.prems(3) r ps in auto)
  next
    case (second k1 s1)
    have "0 \<le> a" using Cons.prems(3) r by simp
    from second(1) Cons.prems(2) this obtain
      "sheet (E(m := E m - a)) (payout_sum s1) W (balances s1)" "same_miners (balances s1) (balances s)"
      by (rule confirm_one_step)
    then show ?thesis
      using Cons.IH [OF second(2)] Cons.prems(3) ps(2) by (simp add: has_balance_def same_miners_def)
  qed
qed simp

lemma refund_fold_Inl:
  assumes "dfold (refund_one aid) k rs s = (Inl e, s')" and "sheet E F W (balances s)"
    and "\<forall>r \<in> set rs. 0 \<le> snd r \<and> has_balance s (fst r)" "\<forall>x. pair_sum rs x \<le> E x"
  shows "statement_error e"
  using assms
proof (induction rs arbitrary: k s E)
  case (Cons r rs)
  obtain m a where r: "r = (m, a)" by (cases r)
  have nn: "\<forall>r \<in> set rs. 0 \<le> snd r" using Cons.prems(3) by simp
  note ps = pair_sum_head [OF Cons.prems(4) [unfolded r] nn]
  from Cons.prems(1) have "dbind (refund_one aid k (m, a)) (\<lambda>k. dfold (refund_one aid) k rs) s
      = (Inl e, s')" by (simp add: r)
  then show ?case
  proof (cases rule: dbind_InlE)
    case first
    show ?thesis by (rule refund_one_Inl [OF first Cons.prems(2)]) (use Cons.prems(3) r ps in auto)
  next
    case (second k1 s1)
    have "0 \<le> a" using Cons.prems(3) r by simp
    from second(1) Cons.prems(2) this obtain fs bs where "s1 = s\<lparr>balances := bs, db_faults := fs\<rparr>"
      "sheet (E(m := E m - a)) F W bs" "same_miners bs (balances s)"
      by (rule refund_one_step)
    then show ?thesis
      using Cons.IH [OF second(2)] Cons.prems(3) ps(2) by (simp add: has_balance_def same_miners_def)
  qed
qed simp

lemma items_of_covered: "books_ok s \<Longrightarrow> pair_sum (items_of s aid) x \<le> item_sum s x"
proof -
  assume B: "books_ok s"
  have "item_sum s x - pair_sum (items_of s aid) x
      = item_sum (s\<lparr>items := filter (\<lambda>i. it_attempt i \<noteq> aid) (items s)\<rparr>) x"
    by (simp only: item_sum_delete)
  moreover have "0 \<le> item_sum (s\<lparr>items := filter (\<lambda>i. it_attempt i \<noteq> aid) (items s)\<rparr>) x"
    unfolding item_sum_def using B by (intro sum_where_nonneg) (auto simp: books_ok_def less_imp_le)
  ultimately show ?thesis by simp
qed

lemma items_of_valid:
  "books_ok s \<Longrightarrow> \<forall>r \<in> set (items_of s aid). 0 \<le> snd r \<and> has_balance s (fst r)"
  by (auto simp: items_of_def books_ok_def less_imp_le)

lemma txn_Inl:
  assumes "txn m s = (Inl e, s')"
  obtains (fault) "e = Sqlx Transient" | (body) fs s1 where "m (s\<lparr>db_faults := fs\<rparr>) = (Inl e, s1)"
proof (cases rule: tick_cases [of s])
  case (1 fs b)
  show ?thesis
  proof (cases b)
    case True
    then show ?thesis using assms 1 fault by (simp add: txn_def)
  next
    case False
    obtain r s1 where m: "m (s\<lparr>db_faults := fs\<rparr>) = (r, s1)" by fastforce
    show ?thesis
    proof (cases r)
      case (Inl e')
      then show ?thesis using assms 1 False m body [of fs s1] by (simp add: txn_def)
    next
      case (Inr v)
      then show ?thesis using assms 1 False m fault by (auto simp: txn_def split: prod.splits bool.splits)
    qed
  qed
qed

lemma delete_items_Inl: "dseq (delete_items aid) (dret k) s = (Inl e, s') \<Longrightarrow> e = Sqlx Transient"
  unfolding dseq_def delete_items_def modify_def
  by (erule dbind_InlE; (erule stmt_Inl)?) auto

lemma select_items:
  assumes "select (\<lambda>s. items_of s aid) (s\<lparr>db_faults := fs\<rparr>) = (Inr a, s2)"
  shows "a = items_of s aid \<and> (\<exists>fs. s2 = s\<lparr>db_faults := fs\<rparr>)"
  using assms by (rule select_Inr) (auto simp: items_of_def)

lemma confirm_errors:
  assumes B: "books_ok s" and run: "confirm_payout aid txid s = (Inl e, s')"
  shows "statement_error e"
  using run unfolding confirm_payout_def
proof (cases rule: txn_Inl)
  case fault
  then show ?thesis by (simp add: statement_error_def)
next
  case (body fs s1)
  then show ?thesis
  proof (cases rule: dbind_InlE)
    case first
    then show ?thesis unfolding select_def by (rule stmt_Inl) (auto simp: statement_error_def)
  next
    case (second a s2)
    obtain fs2 where a: "a = items_of s aid" and s2: "s2 = s\<lparr>db_faults := fs2\<rparr>"
      using select_items [OF second(1)] by auto
    have sh: "sheet (item_sum s) (payout_sum s2) (owed s) (balances s2)"
      using B s2 by (simp add: books_ok_def)
    from second(2) show ?thesis
    proof (cases rule: dbind_InlE)
      case first
      show ?thesis
        using items_of_valid [OF B, of aid] items_of_covered [OF B, of aid] s2 a
        by (intro confirm_fold_Inl [OF first sh]) auto
    next
      case (second k s3)
      then have "e = Sqlx Transient" by (intro delete_items_Inl)
      then show ?thesis by (simp add: statement_error_def)
    qed
  qed
qed

lemma refund_errors:
  assumes B: "books_ok s" and run: "refund_payout aid s = (Inl e, s')"
  shows "statement_error e"
  using run unfolding refund_payout_def
proof (cases rule: txn_Inl)
  case fault
  then show ?thesis by (simp add: statement_error_def)
next
  case (body fs s1)
  then show ?thesis
  proof (cases rule: dbind_InlE)
    case first
    then show ?thesis unfolding select_def by (rule stmt_Inl) (auto simp: statement_error_def)
  next
    case (second a s2)
    obtain fs2 where a: "a = items_of s aid" and s2: "s2 = s\<lparr>db_faults := fs2\<rparr>"
      using select_items [OF second(1)] by auto
    have sh: "sheet (item_sum s) (payout_sum s) (owed s) (balances s2)"
      using B s2 by (simp add: books_ok_def)
    from second(2) show ?thesis
    proof (cases rule: dbind_InlE)
      case first
      show ?thesis
        using items_of_valid [OF B, of aid] items_of_covered [OF B, of aid] s2 a
        by (intro refund_fold_Inl [OF first sh]) auto
    next
      case (second k s3)
      then have "e = Sqlx Transient" by (intro delete_items_Inl)
      then show ?thesis by (simp add: statement_error_def)
    qed
  qed
qed

section \<open>Runs\<close>

text \<open>
  The operations that write the database, as the pool's tasks and the dashboard's sweeps call
  them in any order, with changes of the clock and of the fault schedule in between.
\<close>

datatype db_op =
    Op_miner string
  | Op_worker int string
  | Op_share int string f64 bool string
  | Op_block int string int "int option" int "f64 option"
  | Op_status int string
  | Op_distribute int "(int \<times> int) list"
  | Op_reverse int
  | Op_orphan int int
  | Op_legacy_reverse int
  | Op_take_costs int int
  | Op_tx_cost string string int
  | Op_ack string
  | Op_credit int int
  | Op_adjust int int
  | Op_attempt int int string
  | Op_attempt_update int string "string option" "string option" "string option"
  | Op_create_payout int int string
  | Op_reserve int "(int \<times> int) list"
  | Op_confirm int string
  | Op_refund int
  | Op_void string
  | Op_env int "bool list"

fun run_op :: "db_op \<Rightarrow> db \<Rightarrow> db" where
  "run_op (Op_miner a) s = snd (get_or_create_miner a s)"
| "run_op (Op_worker m n) s = snd (get_or_create_worker m n s)"
| "run_op (Op_share w j d b ss) s = snd (record_share w j d b ss s)"
| "run_op (Op_block h hs r ar w l) s = snd (record_block h hs r ar w l s)"
| "run_op (Op_status b st) s = snd (update_block_status b st s)"
| "run_op (Op_distribute b cs) s = snd (distribute_block_credits b cs s)"
| "run_op (Op_reverse b) s = snd (reverse_block_credits_precise b s)"
| "run_op (Op_orphan b r) s = snd (orphan_block b r s)"
| "run_op (Op_legacy_reverse r) s = snd (reverse_block_credits r s)"
| "run_op (Op_take_costs b c) s = snd (take_costs_for_block b c s)"
| "run_op (Op_tx_cost k r f) s = snd (record_tx_cost k r f s)"
| "run_op (Op_ack n) s = snd (acknowledge_clawbacks n s)"
| "run_op (Op_credit m a) s = snd (credit_balance m a s)"
| "run_op (Op_adjust m d) s = snd (adjust_miner_balance m d s)"
| "run_op (Op_attempt n t src) s = snd (create_payout_attempt n t src s)"
| "run_op (Op_attempt_update i st opid t e) s = snd (update_payout_attempt i st opid t e s)"
| "run_op (Op_create_payout m a t) s = snd (create_payout m a t s)"
| "run_op (Op_reserve i rs) s = snd (reserve_payout i rs s)"
| "run_op (Op_confirm i t) s = snd (confirm_payout i t s)"
| "run_op (Op_refund i) s = snd (refund_payout i s)"
| "run_op (Op_void t) s = snd (void_reorged_payout t s)"
| "run_op (Op_env clock faults) s = s\<lparr>db_clock := clock, db_faults := faults\<rparr>"

definition run_ops :: "db_op list \<Rightarrow> db \<Rightarrow> db" where
  "run_ops ops s = foldl (\<lambda>s op. run_op op s) s ops"

text \<open>What the callers promise: no negative credit and no negative manual payout.\<close>

fun sane_op :: "db_op \<Rightarrow> bool" where
  "sane_op (Op_distribute b cs) = list_all (\<lambda>c. 0 \<le> snd c) cs"
| "sane_op (Op_credit m a) = (0 \<le> a)"
| "sane_op (Op_create_payout m a t) = (0 \<le> a)"
| "sane_op _ = True"

lemma ledger_miner: "keeps ledger_inv (get_or_create_miner a)"
  unfolding get_or_create_miner_def
  by (intro db_inv ledger_no_faults) (simp add: insert_or_ignore_miner_def bump_id_def)

lemma ledger_worker: "keeps ledger_inv (get_or_create_worker m n)"
  unfolding get_or_create_worker_def
  by (intro db_inv ledger_no_faults)
    (simp_all add: insert_or_ignore_worker_def check_fk_def bump_id_def)

lemma ledger_share: "keeps ledger_inv (record_share w j d b ss)"
  unfolding record_share_def
  by (intro db_inv ledger_no_faults) (simp add: check_fk_def bump_id_def split: option.split)

lemma ledger_block: "keeps ledger_inv (record_block h hs r ar w l)"
  unfolding record_block_def
  by (intro db_inv ledger_no_faults) (simp add: check_fk_def bump_id_def)

lemma ledger_status: "keeps ledger_inv (update_block_status b st)"
  unfolding update_block_status_def by (intro db_inv ledger_no_faults) simp

lemma ledger_costs: "keeps ledger_inv (take_costs_for_block b c)"
  unfolding take_costs_for_block_def take_costs_for_block_txn_def mark_recovered_def
    set_block_costs_def
  by (intro keeps_txn ledger_no_faults keeps_on_ok)
    (auto intro!: db_inv simp: Let_def split_beta)

lemma ledger_tx_cost: "keeps ledger_inv (record_tx_cost k r f)"
  unfolding record_tx_cost_def insert_cost_def
  by (intro db_inv ledger_no_faults) (simp add: bump_id_def)

lemma ledger_ack: "keeps ledger_inv (acknowledge_clawbacks n)"
  unfolding acknowledge_clawbacks_def acknowledge_where_def
  by (intro db_inv ledger_no_faults) (simp add: Let_def)

lemma ledger_attempt: "keeps ledger_inv (create_payout_attempt n t src)"
  unfolding create_payout_attempt_def
  by (intro db_inv ledger_no_faults) (simp add: bump_id_def)

lemma ledger_attempt_update: "keeps ledger_inv (update_payout_attempt i st opid t e)"
  unfolding update_payout_attempt_def by (intro db_inv ledger_no_faults) simp

lemmas ledger_ops = ledger_miner ledger_worker ledger_share ledger_block ledger_status
  ledger_distribute ledger_precise ledger_orphan ledger_legacy ledger_costs ledger_tx_cost
  ledger_ack ledger_credit ledger_adjust ledger_attempt ledger_attempt_update ledger_create
  ledger_reserve ledger_confirm ledger_refund ledger_void

lemma run_op_ledger: "sane_op op \<Longrightarrow> ledger_inv s \<Longrightarrow> ledger_inv (run_op op s)"
  by (cases op) (auto simp: list_all_iff intro: ledger_ops [unfolded keeps_def, rule_format])

lemma run_ops_ledger: "list_all sane_op ops \<Longrightarrow> ledger_inv s \<Longrightarrow> ledger_inv (run_ops ops s)"
  unfolding run_ops_def by (induction ops arbitrary: s) (auto intro: run_op_ledger)

end
