(* ===== verification/Ledger_Effects.thy ===== *)
theory Ledger_Effects
  imports Ledger_Runs
begin

text \<open>
  Exact effects: what a successful reserve adds, how the exact operations keep the accounting
  identity, and when an orphan needs no clawback.
\<close>

section \<open>Reserve\<close>

definition new_items :: "int \<Rightarrow> (int \<times> int) list \<Rightarrow> db \<Rightarrow> db \<Rightarrow> bool" where
  "new_items aid rs s s' \<longleftrightarrow> (\<exists>is. items s' = items s @ is
     \<and> map (\<lambda>i. (it_miner i, it_amount i)) is = rs \<and> (\<forall>i \<in> set is. it_attempt i = aid))"

lemma new_items_sum: "new_items aid rs s s' \<Longrightarrow> item_sum s' m = item_sum s m + pair_sum rs m"
proof -
  have "sum_where (\<lambda>i. it_miner i = m) it_amount is
      = pair_sum (map (\<lambda>i. (it_miner i, it_amount i)) is) m" for "is"
    by (induction "is") auto
  then show "new_items aid rs s s' \<Longrightarrow> ?thesis"
    by (auto simp: new_items_def item_sum_def)
qed

lemma reserve_one_effect:
  assumes run: "reserve_one aid acc r s = (Inr acc', s')"
  shows "payouts s' = payouts s \<and> attempts s' = attempts s
    \<and> (acc' = acc \<and> new_items aid [] s s' \<or> acc' = acc @ [r] \<and> 0 < snd r \<and> new_items aid [r] s s')"
proof -
  obtain m a where r: "r = (m, a)" by (cases r)
  show ?thesis
  proof (cases "a \<le> 0")
    case True
    then show ?thesis using run by (auto simp: reserve_one_def r new_items_def)
  next
    case False
    then have "dbind (update_balance m (\<lambda>b. a \<le> bl_pending b) (pending_to_paying a)) (\<lambda>n.
         if n = 0 then dret acc
         else dseq (insert_item aid m a) (dret (acc @ [(m, a)]))) s = (Inr acc', s')"
      using run by (simp add: reserve_one_def r)
    then obtain n t where u: "update_balance m (\<lambda>b. a \<le> bl_pending b) (pending_to_paying a) s = (Inr n, t)"
      and k: "(if n = 0 then dret acc else dseq (insert_item aid m a) (dret (acc @ [(m, a)]))) t
        = (Inr acc', s')" by (rule dbind_InrE)
    have t: "payouts t = payouts s" "attempts t = attempts s" "items t = items s"
      using u by (rule update_balance_Inr; simp)+
    show ?thesis
    proof (cases "n = 0")
      case True
      then show ?thesis using k t by (auto simp: new_items_def)
    next
      case n: False
      then have "dseq (insert_item aid m a) (dret (acc @ [(m, a)])) t = (Inr acc', s')" using k by simp
      then obtain v t' where i: "insert_item aid m a t = (Inr v, t')"
        and e: "dret (acc @ [(m, a)]) t' = (Inr acc', s')" by (rule dseq_InrE)
      from i obtain fs q it where it: "t' = t\<lparr>items := items t @ [it], db_seq := q, db_faults := fs\<rparr>"
        "it_attempt it = aid" "it_miner it = m" "it_amount it = a" by (rule insert_item_Inr)
      have st: "s' = t'" using e by simp
      have "new_items aid [(m, a)] s s'"
      proof -
        have "items s' = items s @ [it]" unfolding st using it(1) t(3) by simp
        then show ?thesis
          unfolding new_items_def by (intro exI [of _ "[it]"]) (simp add: it)
      qed
      moreover have "payouts s' = payouts s" "attempts s' = attempts s"
        unfolding st it(1) using t by simp_all
      moreover have "acc' = acc @ [(m, a)]" using e by simp
      ultimately show ?thesis using False r by simp
    qed
  qed
qed

lemma new_items_trans:
  assumes "new_items aid rs s t" "new_items aid rs' t u"
  shows "new_items aid (rs @ rs') s u"
proof -
  obtain i1 i2 where "items t = items s @ i1" "map (\<lambda>i. (it_miner i, it_amount i)) i1 = rs"
    "\<forall>i \<in> set i1. it_attempt i = aid" "items u = items t @ i2"
    "map (\<lambda>i. (it_miner i, it_amount i)) i2 = rs'" "\<forall>i \<in> set i2. it_attempt i = aid"
    using assms by (auto simp: new_items_def)
  then show ?thesis unfolding new_items_def by (intro exI [of _ "i1 @ i2"]) auto
qed

lemma reserve_fold:
  assumes "dfold (reserve_one aid) acc rs s = (Inr v, s')"
  shows "\<exists>new. v = acc @ new \<and> set new \<subseteq> set rs \<and> (distinct (map fst rs) \<longrightarrow> distinct (map fst new))
    \<and> (\<forall>r \<in> set new. 0 < snd r) \<and> new_items aid new s s' \<and> payouts s' = payouts s
    \<and> attempts s' = attempts s"
  using assms
proof (induction rs arbitrary: acc s)
  case Nil
  then show ?case by (auto simp: new_items_def)
next
  case (Cons r rs)
  from Cons.prems have "dbind (reserve_one aid acc r) (\<lambda>acc. dfold (reserve_one aid) acc rs) s = (Inr v, s')"
    by simp
  then obtain acc1 s1 where 1: "reserve_one aid acc r s = (Inr acc1, s1)"
    and 2: "dfold (reserve_one aid) acc1 rs s1 = (Inr v, s')" by (rule dbind_InrE)
  note e = reserve_one_effect [OF 1]
  from Cons.IH [OF 2] obtain new where new: "v = acc1 @ new" "set new \<subseteq> set rs"
    "distinct (map fst rs) \<longrightarrow> distinct (map fst new)" "\<forall>r \<in> set new. 0 < snd r"
    "new_items aid new s1 s'" "payouts s' = payouts s1" "attempts s' = attempts s1" by blast
  from e consider "acc1 = acc" "new_items aid [] s s1"
    | "acc1 = acc @ [r]" "0 < snd r" "new_items aid [r] s s1" by blast
  then show ?case
  proof cases
    case 1
    then show ?thesis
      using new e new_items_trans [OF 1(2) new(5)] by (intro exI [of _ new]) auto
  next
    case 2
    then show ?thesis
      using new e new_items_trans [OF 2(3) new(5)]
      by (intro exI [of _ "r # new"]) auto
  qed
qed

lemma reserved_effect:
  assumes B: "books W s" and run: "reserve_payout aid rs s = (Inr v, s')"
  shows "books W s' \<and> rest_same s s' \<and> set v \<subseteq> set rs
    \<and> (distinct (map fst rs) \<longrightarrow> distinct (map fst v))
    \<and> (\<forall>r \<in> set v. 0 < snd r) \<and> new_items aid v s s' \<and> payouts s' = payouts s
    \<and> attempts s' = attempts s"
proof -
  from run have "txn (dfold (reserve_one aid) [] rs) s = (Inr v, s')" by (simp add: reserve_payout_def)
  then obtain fs fs' s1 where 1: "dfold (reserve_one aid) [] rs (s\<lparr>db_faults := fs\<rparr>) = (Inr v, s1)"
    and s': "s' = s1\<lparr>db_faults := fs'\<rparr>" by (rule txn_Inr)
  from reserve_fold [OF 1] s'
  have "set v \<subseteq> set rs \<and> (distinct (map fst rs) \<longrightarrow> distinct (map fst v))
    \<and> (\<forall>r \<in> set v. 0 < snd r) \<and> new_items aid v s s' \<and> payouts s' = payouts s
    \<and> attempts s' = attempts s"
    by (auto simp: new_items_def)
  moreover have "books W s'" by (rule keepsD [OF keeps_reserve B run])
  ultimately show ?thesis using reserve_rest [OF run] by blast
qed

lemma items_of_new: "new_items aid rs s s' \<Longrightarrow> items_of s aid = [] \<Longrightarrow> items_of s' aid = rs"
  by (auto simp: new_items_def items_of_def filter_empty_conv)

section \<open>Exact operations\<close>

lemma precise_None:
  assumes "reverse_block_credits_precise_txn b s = (Inr None, s')"
  shows "credits_of s b = [] \<and> (\<exists>fs. s' = s\<lparr>db_faults := fs\<rparr>)"
proof -
  from assms obtain cs0 s0 where
    sel: "select (\<lambda>s. map (\<lambda>c. (cr_miner c, cr_amount c))
                          (filter (\<lambda>c. cr_block c = b) (credits s))) s = (Inr cs0, s0)"
    and k: "(if cs0 = [] then dret None
       else dbind (dfold (reverse_one b) (0, 0) cs0) (\<lambda>acc.
         dseq (modify (\<lambda>s. s\<lparr>credits := filter (\<lambda>c. cr_block c \<noteq> b) (credits s)\<rparr>))
        (dseq (requeue_costs b) (dret (Some acc))))) s0 = (Inr None, s')"
    unfolding reverse_block_credits_precise_txn_def by (rule dbind_InrE)
  have "cs0 = credits_of s b \<and> (\<exists>fs. s0 = s\<lparr>db_faults := fs\<rparr>)"
    using sel by (rule select_Inr) (auto simp: credits_of_def)
  moreover have "cs0 = []" using k by (auto simp: dbind_Inr dseq_Inr split: if_splits)
  ultimately show ?thesis using k by auto
qed

lemma orphan_precise:
  assumes A: "accounts D s" and nn: "\<forall>c \<in> set (credits s). 0 \<le> cr_amount c"
    and run: "orphan_block b rw s = (Inr out, s')" and c: "credits_of s b \<noteq> []"
  shows "\<exists>r cl. out = Some (r, cl) \<and> accounts D s' \<and> r + cl = sum_list (map snd (credits_of s b))
    \<and> 0 \<le> r \<and> 0 \<le> cl \<and> clawback_total s' = clawback_total s + cl
    \<and> credits s' = filter (\<lambda>c. cr_block c \<noteq> b) (credits s) \<and> items s' = items s
    \<and> payouts s' = payouts s
    \<and> ((\<forall>m. pair_sum (credits_of s b) m \<le> pending_sum s m) \<longrightarrow> cl = 0)"
proof -
  from run have "txn (orphan_block_txn b rw) s = (Inr out, s')" by (simp add: orphan_block_def)
  then obtain fs fs' s1 where 1: "orphan_block_txn b rw (s\<lparr>db_faults := fs\<rparr>) = (Inr out, s1)"
    and s': "s' = s1\<lparr>db_faults := fs'\<rparr>" by (rule txn_Inr)
  let ?s = "s\<lparr>db_faults := fs\<rparr>"
  from 1 [unfolded orphan_block_txn_def] obtain oc s2 where
    p: "reverse_block_credits_precise_txn b ?s = (Inr oc, s2)"
    and k: "dseq (if oc = None
           then dbind (select positive_pending) (\<lambda>tot.
                  dwhen (0 < tot) (proportional_reversal (min rw tot) tot))
           else dret ())
    (dseq (modify (\<lambda>s. s\<lparr>blocks := upd_where (\<lambda>r. bk_id r = b)
             (\<lambda>r. r\<lparr>bk_status := ''orphaned''\<rparr>) (blocks s)\<rparr>))
          (dret oc)) s2 = (Inr out, s1)" by (rule dbind_InrE)
  have "oc \<noteq> None"
  proof
    assume "oc = None"
    with p have "reverse_block_credits_precise_txn b ?s = (Inr None, s2)" by simp
    from precise_None [OF this] c show False by (simp add: credits_of_def)
  qed
  then obtain r cl where oc: "oc = Some (r, cl)" by (metis option.exhaust surj_pair)
  have A': "accounts D ?s" using A no_faults_depD [OF accounts_no_faults] by blast
  have nn': "\<forall>c \<in> set (credits ?s). 0 \<le> cr_amount c" using nn by simp
  note P = precise_reversal [OF A' nn' p [unfolded oc]]
  from k obtain u s3 where 3: "modify (\<lambda>s. s\<lparr>blocks := upd_where (\<lambda>r. bk_id r = b)
             (\<lambda>r. r\<lparr>bk_status := ''orphaned''\<rparr>) (blocks s)\<rparr>) s2 = (Inr u, s3)"
    and out: "out = Some (r, cl)" "s1 = s3"
    by (auto simp: oc dseq_Inr)
  have off: "off_sheet s2 s3"
    using 3 by (rule off_sheet_modify) (simp add: off_sheet_def)
  then have off': "off_sheet s2 s'" using s' out by (simp add: off_sheet_def)
  have "accounts D s'" using P off_sheet_accounts [OF off'] by simp
  moreover have "credits_of ?s b = credits_of s b" "pending_sum ?s = pending_sum s"
    "clawback_total ?s = clawback_total s" "clawback_total s' = clawback_total s2"
    using off' by (simp_all add: credits_of_def pending_sum_def fun_eq_iff clawback_total_def off_sheet_def)
  ultimately show ?thesis using P out off' by (simp add: off_sheet_def)
qed

text \<open>The operations that keep the accounting identity, in the state where they run.\<close>

fun exact_op :: "db_op \<Rightarrow> db \<Rightarrow> bool" where
  "exact_op (Op_distribute b cs) s = list_all (\<lambda>c. 0 \<le> snd c) cs"
| "exact_op (Op_create_payout m a t) s = (0 \<le> a)"
| "exact_op (Op_orphan b r) s = (credits_of s b \<noteq> [])"
| "exact_op (Op_credit m a) s = False"
| "exact_op (Op_adjust m d) s = False"
| "exact_op (Op_legacy_reverse r) s = False"
| "exact_op _ s = True"

fun exact_run :: "db_op list \<Rightarrow> db \<Rightarrow> bool" where
  "exact_run [] s = True"
| "exact_run (op # ops) s = (exact_op op s \<and> exact_run ops (run_op op s))"

lemma accounts_frame [simp]:
  "accounts D (db_seq_update f5 s) = accounts D s"
  "accounts D (blocks_update f7 s) = accounts D s"
  "accounts D (tx_costs_update f8 s) = accounts D s"
  "accounts D (attempts_update f6 s) = accounts D s"
  "accounts D (miners_update f10 s) = accounts D s"
  "accounts D (workers_update f11 s) = accounts D s"
  "accounts D (shares_update f12 s) = accounts D s"
  "accounts D (db_faults_update f13 s) = accounts D s"
  "accounts D (db_clock_update f14 s) = accounts D s"
  by (rule off_sheet_accounts; simp add: off_sheet_def)+

lemma accounts_miner: "keeps (accounts D) (get_or_create_miner a)"
  unfolding get_or_create_miner_def
  by (intro db_inv accounts_no_faults) (simp add: insert_or_ignore_miner_def bump_id_def)

lemma accounts_worker: "keeps (accounts D) (get_or_create_worker m n)"
  unfolding get_or_create_worker_def
  by (intro db_inv accounts_no_faults)
    (simp_all add: insert_or_ignore_worker_def check_fk_def bump_id_def)

lemma accounts_share: "keeps (accounts D) (record_share w j d b ss)"
  unfolding record_share_def
  by (intro db_inv accounts_no_faults) (simp add: check_fk_def bump_id_def split: option.split)

lemma accounts_block: "keeps (accounts D) (record_block h hs r ar w l)"
  unfolding record_block_def
  by (intro db_inv accounts_no_faults) (simp add: check_fk_def bump_id_def)

lemma accounts_status: "keeps (accounts D) (update_block_status b st)"
  unfolding update_block_status_def by (intro db_inv accounts_no_faults) simp

lemma accounts_costs: "keeps (accounts D) (take_costs_for_block b c)"
  unfolding take_costs_for_block_def take_costs_for_block_txn_def mark_recovered_def
    set_block_costs_def
  by (intro keeps_txn accounts_no_faults keeps_on_ok)
    (auto intro!: db_inv simp: Let_def split_beta)

lemma accounts_tx_cost: "keeps (accounts D) (record_tx_cost k r f)"
  unfolding record_tx_cost_def insert_cost_def
  by (intro db_inv accounts_no_faults) (simp add: bump_id_def)

lemma accounts_ack: "keeps (accounts D) (acknowledge_clawbacks n)"
  unfolding acknowledge_clawbacks_def acknowledge_where_def
proof (intro keeps_stmt accounts_no_faults)
  fix s assume A: "accounts D s"
  let ?d = "\<lambda>r. \<not> cb_acked r \<and> True"
  let ?cb = "upd_where ?d (\<lambda>r. r\<lparr>cb_acked := True, cb_note := Some n\<rparr>) (clawbacks s)"
  have "clawback_sum (s\<lparr>clawbacks := ?cb\<rparr>) m = clawback_sum s m" for m
    by (simp add: clawback_sum_def sum_where_upd) (simp add: sum_where_def)
  then show "accounts D (snd (let d = ?d in
       (Inr (int (count_where d (clawbacks s))) :: db_error + int,
        s\<lparr>clawbacks := upd_where d (\<lambda>r. r\<lparr>cb_acked := True, cb_note := Some n\<rparr>) (clawbacks s)\<rparr>)))"
    using A by (simp add: accounts_def books_frame Let_def)
qed

lemma accounts_attempt: "keeps (accounts D) (create_payout_attempt n t src)"
  unfolding create_payout_attempt_def
  by (intro db_inv accounts_no_faults) (simp add: bump_id_def)

lemma accounts_attempt_update: "keeps (accounts D) (update_payout_attempt i st opid t e)"
  unfolding update_payout_attempt_def by (intro db_inv accounts_no_faults) simp

lemma accounts_reverse:
  assumes "accounts D s" "\<forall>c \<in> set (credits s). 0 \<le> cr_amount c"
  shows "accounts D (snd (reverse_block_credits_precise b s))"
proof (cases rule: txn_outcome [of "reverse_block_credits_precise_txn b" s])
  case (failed e fs)
  then show ?thesis using assms by (simp add: reverse_block_credits_precise_def)
next
  case (ok fs fs' v s1)
  have "accounts D s1"
  proof (cases v)
    case None
    then show ?thesis using precise_None ok(1) assms by fastforce
  next
    case (Some rc)
    obtain r c where "v = Some (r, c)" using Some by (cases rc) auto
    from precise_reversal [OF _ _ ok(1) [unfolded this], of D] assms show ?thesis by simp
  qed
  then show ?thesis using ok(2) by (simp add: reverse_block_credits_precise_def)
qed

lemma accounts_orphan:
  assumes "accounts D s" "\<forall>c \<in> set (credits s). 0 \<le> cr_amount c" "credits_of s b \<noteq> []"
  shows "accounts D (snd (orphan_block b r s))"
proof (cases rule: txn_outcome [of "orphan_block_txn b r" s])
  case (failed e fs)
  then show ?thesis using assms by (simp add: orphan_block_def)
next
  case (ok fs fs' v s1)
  then have "orphan_block b r s = (Inr v, s1\<lparr>db_faults := fs'\<rparr>)" by (simp add: orphan_block_def)
  from orphan_precise [OF assms(1,2) this assms(3)] show ?thesis
    using ok(2) by (auto simp: orphan_block_def)
qed

lemmas accounts_ops = accounts_miner accounts_worker accounts_share accounts_block accounts_status
  keeps_distribute accounts_costs accounts_tx_cost accounts_ack accounts_attempt
  accounts_attempt_update keeps_accounts_create keeps_accounts_reserve keeps_accounts_confirm
  keeps_accounts_refund keeps_accounts_void

lemma exact_sane: "exact_op op s \<Longrightarrow> sane_op op"
  by (cases op) auto

lemma run_op_accounts:
  assumes "exact_op op s" "accounts D s" "ledger_inv s"
  shows "accounts D (run_op op s)"
  using assms by (cases op) (auto simp: list_all_iff ledger_inv_def
      intro: accounts_ops [unfolded keeps_def, rule_format] accounts_orphan accounts_reverse)

lemma run_ops_accounts:
  "exact_run ops s \<Longrightarrow> accounts D s \<Longrightarrow> ledger_inv s \<Longrightarrow> accounts D (run_ops ops s)"
  unfolding run_ops_def
  by (induction ops arbitrary: s) (auto intro: run_op_accounts run_op_ledger exact_sane)

section \<open>Mature payouts\<close>

lemma sheet_pending:
  assumes sh: "sheet E F W bs" and b: "b \<in> set bs"
  shows "bl_pending b = W (bl_miner b) - E (bl_miner b) - F (bl_miner b)"
  using sh
proof (cases rule: sheet_filter [where m = "bl_miner b"])
  case absent
  then show ?thesis using b by blast
next
  case (row b')
  have "b \<in> set (filter (\<lambda>x. bl_miner x = bl_miner b) bs)" using b by simp
  then have "b = b'" unfolding row(1) by simp
  then show ?thesis using row(4) by simp
qed

lemma sum_where_mono:
  assumes "\<And>r. r \<in> set rows \<Longrightarrow> c r \<Longrightarrow> d r" "\<And>r. r \<in> set rows \<Longrightarrow> 0 \<le> f r"
  shows "sum_where c f rows \<le> sum_where d f rows"
  using assms by (induction rows) (auto simp: add_increasing)

lemma credits_of_immature:
  assumes "\<forall>c \<in> set (credits s). 0 \<le> cr_amount c" "block_pending s b"
  shows "pair_sum (credits_of s b) m \<le> immature_of s m"
proof -
  have "pair_sum (map (\<lambda>c. (cr_miner c, cr_amount c)) (filter (\<lambda>c. cr_block c = b) cs)) m
      = sum_where (\<lambda>c. cr_miner c = m \<and> cr_block c = b) cr_amount cs" for cs
    by (induction cs) auto
  then have "pair_sum (credits_of s b) m = sum_where (\<lambda>c. cr_miner c = m \<and> cr_block c = b) cr_amount (credits s)"
    by (simp add: credits_of_def)
  also have "\<dots> \<le> immature_of s m"
    unfolding immature_of_def using assms by (intro sum_where_mono) auto
  finally show ?thesis .
qed

text \<open>Every miner's pending amount still covers the credits of unconfirmed blocks.\<close>

definition immature_covered :: "db \<Rightarrow> bool" where
  "immature_covered s \<longleftrightarrow> (\<forall>m. immature_of s m \<le> pending_sum s m)"

lemma eligible_amount:
  assumes B: "books_ok s" and p: "p \<in> set (eligible_payouts mn False cd ov s)"
  shows "pp_amount p = pending_sum s (pp_miner p) - immature_of s (pp_miner p) \<and> mn \<le> pp_amount p"
proof -
  from p obtain b where b: "b \<in> set (balances s)" "pp_miner p = bl_miner b"
    "pp_amount p = bl_pending b - immature_of s (bl_miner b)" "mn \<le> pp_amount p"
    by (auto simp: eligible_payouts_def desc_def payable_rows_def)
  have "sheet (item_sum s) (payout_sum s) (owed s) (balances s)" using B by (simp add: books_ok_def)
  from sheet_pending [OF this b(1)] show ?thesis using b by (simp add: pending_sum_def)
qed

lemma pair_sum_absent: "m \<notin> fst ` set rs \<Longrightarrow> pair_sum rs m = 0"
  by (induction rs) auto

lemma pair_sum_distinct:
  "distinct (map fst rs) \<Longrightarrow> (m, a) \<in> set rs \<Longrightarrow> pair_sum rs m = a"
proof (induction rs)
  case (Cons r rs)
  then show ?case using pair_sum_absent [of m rs] by (force simp: image_iff)
qed simp

lemma rest_same_immature:
  "rest_same s s' \<Longrightarrow> immature_of s' = immature_of s"
  by (simp add: rest_same_def immature_of_def block_pending_def fun_eq_iff)

lemma reserve_covered:
  assumes L: "books_ok s" and C: "immature_covered s"
    and d: "distinct (map fst rs)"
    and el: "\<forall>r \<in> set rs. \<exists>p \<in> set (eligible_payouts mn False cd ov s). pp_miner p = fst r \<and> snd r \<le> pp_amount p"
    and run: "reserve_payout aid rs s = (Inr v, s')"
  shows "immature_covered s'"
  unfolding immature_covered_def
proof
  fix m
  have "books (owed s) s" using L by (simp add: books_def)
  note R = reserved_effect [OF this run]
  have im: "immature_of s' = immature_of s" using R rest_same_immature by blast
  have "owed s' = owed s" using R by (simp add: books_def)
  moreover have "payout_sum s' = payout_sum s" using R by (simp add: payout_sum_def fun_eq_iff)
  ultimately have ps: "pending_sum s' m = pending_sum s m - pair_sum v m"
    using R new_items_sum [of aid v s s' m] by (simp add: pending_sum_def)
  show "immature_of s' m \<le> pending_sum s' m"
  proof (cases "m \<in> fst ` set v")
    case True
    then obtain a where a: "(m, a) \<in> set v" by auto
    then have pv: "pair_sum v m = a" using R d pair_sum_distinct by blast
    have "(m, a) \<in> set rs" using a R by auto
    then obtain p where p: "p \<in> set (eligible_payouts mn False cd ov s)" "pp_miner p = m" "a \<le> pp_amount p"
      using el by fastforce
    then show ?thesis using eligible_amount [OF L p(1)] ps pv im by simp
  next
    case False
    then show ?thesis using ps pair_sum_absent C im by (simp add: immature_covered_def)
  qed
qed

section \<open>Credit rows of a distribution\<close>

lemma credit_one_conflict:
  assumes run: "credit_one b (m, a) s = (r, s')"
    and c: "list_ex (\<lambda>c. cr_block c = b \<and> cr_miner c = m) (credits s)"
  shows "isl r"
proof (cases r)
  case (Inr u)
  then obtain u1 s1 u2 s2 n where
    1: "ensure_balance m s = (Inr u1, s1)" and 2: "insert_credit b m a s1 = (Inr u2, s2)"
    using run by (auto simp: credit_one_def dseq_Inr)
  have "credits s1 = credits s" using 1 by (cases rule: ensure_balance_Inr; simp)
  moreover have "\<not> list_ex (\<lambda>c. cr_block c = b \<and> cr_miner c = m) (credits s1)"
    using 2 by (rule insert_credit_Inr) simp
  ultimately show ?thesis using c by simp
qed simp

lemma credit_one_credits:
  assumes "credit_one b (m, a) s = (Inr u, s')"
  shows "credits s' = credits s @ [\<lparr>cr_block = b, cr_miner = m, cr_amount = a\<rparr>]"
proof -
  from assms obtain u1 s1 u2 s2 n where
    1: "ensure_balance m s = (Inr u1, s1)" and 2: "insert_credit b m a s1 = (Inr u2, s2)"
    and 3: "update_balance m (\<lambda>_. True) (add_pending a) s2 = (Inr n, s')"
    by (auto simp: credit_one_def dseq_Inr)
  have "credits s1 = credits s" using 1 by (cases rule: ensure_balance_Inr; simp)
  moreover have "credits s2 = credits s1 @ [\<lparr>cr_block = b, cr_miner = m, cr_amount = a\<rparr>]"
    using 2 by (rule insert_credit_Inr) simp
  moreover have "credits s' = credits s2" using 3 by (rule update_balance_Inr) simp
  ultimately show ?thesis by simp
qed

lemma credit_for_credits:
  assumes "dfor cs (credit_one b) s = (Inr u, s')"
  shows "credits s' = credits s @ map (\<lambda>(m, a). \<lparr>cr_block = b, cr_miner = m, cr_amount = a\<rparr>) cs
    \<and> (\<forall>c \<in> set cs. \<not> list_ex (\<lambda>x. cr_block x = b \<and> cr_miner x = fst c) (credits s))"
  using assms
proof (induction cs arbitrary: s)
  case (Cons c cs)
  obtain m a where c: "c = (m, a)" by (cases c)
  from Cons.prems obtain u1 s1 where 1: "credit_one b (m, a) s = (Inr u1, s1)"
    and 2: "dfor cs (credit_one b) s1 = (Inr u, s')"
    by (auto simp: dfor_def dbind_Inr c)
  have "\<not> list_ex (\<lambda>x. cr_block x = b \<and> cr_miner x = m) (credits s)"
    using credit_one_conflict [OF 1] by auto
  then show ?case using Cons.IH [OF 2] credit_one_credits [OF 1] c by auto
qed (simp add: dfor_def)

end
