(* ===== verification/Ledger_Properties.thy ===== *)
theory Ledger_Properties
  imports Ledger_Effects
begin

text \<open>
  The properties of the money path: books that balance in every run, the accounting identity,
  the payout saga, voids, orphan reversal, pipeline costs and share retention.
\<close>

section \<open>Example data for the witnesses\<close>

definition ops1 :: "db_op list" where
  "ops1 =
     [Op_miner ''t1alice'', Op_miner ''t1bob'', Op_worker 1 ''rig'', Op_worker 2 ''rig'',
      Op_block 100 ''aa'' 1000 (Some 1000) 1 None,
      Op_distribute 1 [(1, 700), (2, 300)], Op_status 1 ''confirmed'',
      Op_attempt 2 900 ''loop'', Op_reserve 1 [(1, 600), (2, 300)]]"

definition db1 :: db where
  "db1 = run_ops ops1 (empty_db True 100000 [])"

lemma ledger_db1: "ledger_inv db1"
  unfolding db1_def by (rule run_ops_ledger) (simp_all add: ops1_def ledger_empty)

lemma books_db1: "books_ok db1"
  using ledger_db1 by (simp add: ledger_inv_def)

section \<open>The books\<close>

text \<open>
  C10: In every run of the pool's database operations from an empty database, whatever
  statements fail and whatever the order, no balance is negative, a miner's reserved amount is
  the sum of its in-flight payout items and its paid amount is the sum of its recorded payouts.
\<close>

theorem books_in_every_run:
  assumes "list_all sane_op ops" and "s = run_ops ops (empty_db fk t faults)"
    and "b \<in> set (balances s)"
  shows "0 \<le> bl_pending b \<and> 0 \<le> bl_paying b \<and> 0 \<le> bl_paid b
    \<and> bl_paying b = sum_where (\<lambda>i. it_miner i = bl_miner b) it_amount (items s)
    \<and> bl_paid b = sum_where (\<lambda>p. po_miner p = bl_miner b) po_amount (payouts s)
    \<and> distinct (map bl_miner (balances s))"
proof -
  have "ledger_inv s" unfolding assms(2) by (rule run_ops_ledger [OF assms(1) ledger_empty])
  then have B: "books_ok s" by (simp add: ledger_inv_def)
  from B have "distinct (map bl_miner (balances s))" by (simp add: books_ok_def sheet_def)
  then show ?thesis
    using books_okD [OF B assms(3)] unfolding item_sum_def payout_sum_def by blast
qed

theorem books_in_every_run_witness:
  "hd (balances db1) = \<lparr>bl_miner = 1, bl_pending = 100, bl_paid = 0, bl_paying = 600\<rparr>
   \<and> 0 \<le> bl_pending (hd (balances db1))
   \<and> bl_paying (hd (balances db1)) = sum_where (\<lambda>i. it_miner i = 1) it_amount (items db1)"
proof -
  have 1: "hd (balances db1) = \<lparr>bl_miner = 1, bl_pending = 100, bl_paid = 0, bl_paying = 600\<rparr>"
    "balances db1 \<noteq> []" by code_simp+
  have ok: "list_all sane_op ops1" by (simp add: ops1_def)
  have "hd (balances db1) \<in> set (balances db1)" using 1(2) by simp
  from books_in_every_run [OF ok db1_def this] show ?thesis using 1(1) by simp
qed

text \<open>
  C12: Whatever runs between blocks being found and payouts settling, as long as nobody adjusts
  a balance by hand or reverses a block without credit rows, the pool owes each miner exactly
  its live block credits plus its unrecovered orphan clawbacks.
\<close>

theorem accounting_identity:
  assumes "exact_run ops (empty_db fk t faults)" and "s = run_ops ops (empty_db fk t faults)"
  shows "owed s m = credit_sum s m + clawback_sum s m"
proof -
  have "accounts (\<lambda>_. 0) s"
    unfolding assms(2) by (rule run_ops_accounts [OF assms(1) accounts_empty ledger_empty])
  then show ?thesis using accounts_owed by fastforce
qed

definition ops2 :: "db_op list" where
  "ops2 = ops1 @ [Op_confirm 1 ''tx'', Op_orphan 1 1000]"

theorem accounting_identity_witness:
  "owed (run_ops ops2 (empty_db True 100000 [])) 1 = 600
   \<and> credit_sum (run_ops ops2 (empty_db True 100000 [])) 1
     + clawback_sum (run_ops ops2 (empty_db True 100000 [])) 1 = 600"
proof -
  have e: "exact_run ops2 (empty_db True 100000 [])" by code_simp
  have o: "owed (run_ops ops2 (empty_db True 100000 [])) 1 = 600" by code_simp
  show ?thesis using accounting_identity [OF e refl, of 1] o by simp
qed

section \<open>The payout saga\<close>

text \<open>
  C15: The "paying < amount" refusals of confirm and refund cannot occur: in every run, either
  call fails only because a statement failed or a referenced row is missing.
\<close>

theorem saga_never_refuses:
  assumes "list_all sane_op ops" and "s = run_ops ops (empty_db fk t faults)"
    and "fst (confirm_payout aid txid s) = Inl e \<or> fst (refund_payout aid s) = Inl e"
  shows "e = Sqlx Transient \<or> e = Sqlx ForeignKeyViolation"
proof -
  have "ledger_inv s" unfolding assms(2) by (rule run_ops_ledger [OF assms(1) ledger_empty])
  then have B: "books_ok s" by (simp add: ledger_inv_def)
  from assms(3) have "statement_error e"
    using confirm_errors [OF B] refund_errors [OF B] by (metis prod.collapse)
  then show ?thesis by (simp add: statement_error_def)
qed

theorem saga_never_refuses_witness:
  "fst (confirm_payout 1 ''tx'' (run_ops (ops1 @ [Op_env 100000 [False, False, True]])
     (empty_db True 100000 []))) = Inl (Sqlx Transient)
   \<and> (Sqlx Transient = Sqlx Transient \<or> Sqlx Transient = Sqlx ForeignKeyViolation)"
proof -
  have ok: "list_all sane_op (ops1 @ [Op_env 100000 [False, False, True]])" by (simp add: ops1_def)
  have f: "fst (confirm_payout 1 ''tx'' (run_ops (ops1 @ [Op_env 100000 [False, False, True]])
     (empty_db True 100000 []))) = Inl (Sqlx Transient)" by code_simp
  show ?thesis using saga_never_refuses [OF ok refl disjI1 [OF f]] f by simp
qed

lemma refund_undoes_reserve_facts:
  assumes "books_ok s" and "items_of s aid = []"
    and "reserve_payout aid rs s = (Inr v, s1)" and "refund_payout aid s1 = (Inr k, s2)"
  shows "pending_of s2 m = pending_of s m" "items s2 = items s" "payouts s2 = payouts s"
    "k = int (length v)" "set v \<subseteq> set rs"
proof -
  have B: "books (owed s) s" using assms(1) by (simp add: books_def)
  note R = reserved_effect [OF B assms(3)]
  from R have B1: "books (owed s) s1" by simp
  note F = books_refunded [OF B1 assms(4)]
  from R obtain "is" where i: "items s1 = items s @ is" "\<forall>i \<in> set is. it_attempt i = aid"
    by (auto simp: new_items_def)
  moreover have "\<forall>i \<in> set (items s). it_attempt i \<noteq> aid"
    using assms(2) by (auto simp: items_of_def filter_empty_conv)
  ultimately show it: "items s2 = items s" using F by (auto simp: filter_empty_conv)
  show po: "payouts s2 = payouts s" using F R by simp
  show "k = int (length v)" using F R items_of_new assms(2) by auto
  show "set v \<subseteq> set rs" using R by simp
  have "pending_sum s2 m = pending_sum s m"
    using F B it po by (simp add: pending_sum_def books_def item_sum_def payout_sum_def)
  moreover have "books_ok s2" using F by (simp add: books_def)
  ultimately show "pending_of s2 m = pending_of s m"
    using pending_sum_of assms(1) by simp
qed


definition db0 :: db where
  "db0 = run_ops (take 8 ops1) (empty_db True 100000 [])"

lemma books_db0: "books_ok db0"
proof -
  have "ledger_inv db0"
    unfolding db0_def by (rule run_ops_ledger) (simp_all add: ops1_def ledger_empty)
  then show ?thesis by (simp add: ledger_inv_def)
qed


lemma new_payouts_sum: "new_payouts txid rs s s' \<Longrightarrow> payout_sum s' m = payout_sum s m + pair_sum rs m"
proof -
  have "sum_where (\<lambda>p. po_miner p = m) po_amount ps
      = pair_sum (map (\<lambda>p. (po_miner p, po_amount p)) ps) m" for ps
    by (induction ps) auto
  then show "new_payouts txid rs s s' \<Longrightarrow> ?thesis"
    by (auto simp: new_payouts_def payout_sum_def)
qed

lemma confirm_settles_once_facts:
  assumes "books_ok s" and "confirm_payout aid txid s = (Inr k, s1)"
    and "confirm_payout aid txid' s1 = (Inr k', s2)"
  shows "k = int (length (items_of s aid))"
    "\<exists>ps. payouts s1 = payouts s @ ps \<and> map (\<lambda>p. (po_miner p, po_amount p)) ps = items_of s aid
       \<and> (\<forall>p \<in> set ps. po_txid p = Some txid)"
    "pending_of s1 m = pending_of s m"
    "items s1 = filter (\<lambda>i. it_attempt i \<noteq> aid) (items s)"
    "k' = 0" "payouts s2 = payouts s1" "pending_of s2 m = pending_of s1 m" "owed s2 m = owed s m"
proof -
  have B: "books (owed s) s" using assms(1) by (simp add: books_def)
  note C = books_confirmed [OF B assms(2)]
  then have B1: "books (owed s) s1" by simp
  note C2 = books_confirmed [OF B1 assms(3)]
  show "k = int (length (items_of s aid))" using C by simp
  show "\<exists>ps. payouts s1 = payouts s @ ps \<and> map (\<lambda>p. (po_miner p, po_amount p)) ps = items_of s aid
       \<and> (\<forall>p \<in> set ps. po_txid p = Some txid)"
    using C by (auto simp: new_payouts_def)
  show it: "items s1 = filter (\<lambda>i. it_attempt i \<noteq> aid) (items s)" using C by simp
  have "item_sum s1 m = item_sum s m - pair_sum (items_of s aid) m"
    using it item_sum_delete [where s = s and aid = aid] by (simp add: item_sum_def fun_eq_iff)
  moreover have "payout_sum s1 m = payout_sum s m + pair_sum (items_of s aid) m"
    using C new_payouts_sum by blast
  ultimately have "pending_sum s1 m = pending_sum s m"
    using B1 by (simp add: pending_sum_def books_def)
  then show "pending_of s1 m = pending_of s m"
    using pending_sum_of assms(1) B1 by (simp add: books_def)
  have n: "items_of s1 aid = []" using C by simp
  then show "k' = 0" using C2 by simp
  show p2: "payouts s2 = payouts s1" using C2 n by (simp add: new_payouts_def)
  have "\<forall>i \<in> set (items s1). it_attempt i \<noteq> aid"
    using n by (auto simp: items_of_def filter_empty_conv)
  then have "items s2 = items s1" using C2 by simp
  then have "pending_sum s2 m = pending_sum s1 m"
    using C2 B1 p2 by (simp add: pending_sum_def books_def item_sum_def payout_sum_def)
  then show "pending_of s2 m = pending_of s1 m"
    using pending_sum_of C2 B1 by (simp add: books_def)
  show "owed s2 m = owed s m" using C2 by (simp add: books_def)
qed

text \<open>
  Confirming an attempt settles each of its items exactly once: one payout row with the
  transaction id per reserved pair, no pending amount touched, the items deleted; confirming
  again settles nothing.
\<close>

theorem confirm_settles_once:
  assumes "books_ok s" and "confirm_payout aid txid s = (Inr k, s1)"
    and "confirm_payout aid txid' s1 = (Inr k', s2)"
  shows "k = int (length (items_of s aid))
    \<and> (\<exists>ps. payouts s1 = payouts s @ ps \<and> map (\<lambda>p. (po_miner p, po_amount p)) ps = items_of s aid
       \<and> (\<forall>p \<in> set ps. po_txid p = Some txid))
    \<and> pending_of s1 m = pending_of s m
    \<and> items s1 = filter (\<lambda>i. it_attempt i \<noteq> aid) (items s)
    \<and> k' = 0 \<and> payouts s2 = payouts s1 \<and> pending_of s2 m = pending_of s1 m \<and> owed s2 m = owed s m"
  by (intro conjI confirm_settles_once_facts [OF assms])

theorem confirm_settles_once_witness:
  "fst (confirm_payout 1 ''tx'' db1) = Inr 2
   \<and> fst (confirm_payout 1 ''tx2'' (snd (confirm_payout 1 ''tx'' db1))) = Inr 0
   \<and> pending_of (snd (confirm_payout 1 ''tx'' db1)) 1 = pending_of db1 1"
proof -
  let ?s1 = "snd (confirm_payout 1 ''tx'' db1)"
  have 1: "fst (confirm_payout 1 ''tx'' db1) = Inr 2" by code_simp
  have 2: "fst (confirm_payout 1 ''tx2'' ?s1) = Inr 0" by code_simp
  have c: "confirm_payout 1 ''tx'' db1 = (Inr 2, ?s1)" using 1 by (metis prod.collapse)
  have c2: "confirm_payout 1 ''tx2'' ?s1 = (Inr 0, snd (confirm_payout 1 ''tx2'' ?s1))"
    using 2 by (metis prod.collapse)
  show ?thesis using confirm_settles_once [OF books_db1 c c2, of 1] 1 2 by simp
qed

lemma void_returns_exactly_facts:
  assumes "books_ok s" and "void_reorged_payout txid s = (Inr (k, z), s')"
  shows "owed s' m = owed s m"
    "list_ex (\<lambda>p. po_txid p = Some txid \<and> db_clock s - 3600 < po_created p) (payouts s)
       \<Longrightarrow> k = 0 \<and> z = 0 \<and> balances s' = balances s \<and> payouts s' = payouts s"
    "\<not> list_ex (\<lambda>p. po_txid p = Some txid \<and> db_clock s - 3600 < po_created p) (payouts s)
       \<Longrightarrow> pending_of s' m = pending_of s m + pair_sum (rows_of_txid txid s) m
           \<and> z = sum_list (map snd (rows_of_txid txid s))
           \<and> payouts s' = filter (\<lambda>p. po_txid p \<noteq> Some txid) (payouts s)"
proof -
  have B: "books (owed s) s" using assms(1) by (simp add: books_def)
  note V = books_voided [OF B assms(2)]
  show "owed s' m = owed s m" using V by (simp add: books_def)
  have f: "fresh_payout txid s \<longleftrightarrow>
      list_ex (\<lambda>p. po_txid p = Some txid \<and> db_clock s - 3600 < po_created p) (payouts s)"
    by (simp add: fresh_payout_def newer_than_def)
  show "k = 0 \<and> z = 0 \<and> balances s' = balances s \<and> payouts s' = payouts s"
    if "list_ex (\<lambda>p. po_txid p = Some txid \<and> db_clock s - 3600 < po_created p) (payouts s)"
    using V that f by simp
  assume nf: "\<not> list_ex (\<lambda>p. po_txid p = Some txid \<and> db_clock s - 3600 < po_created p) (payouts s)"
  have p: "payouts s' = filter (\<lambda>p. po_txid p \<noteq> Some txid) (payouts s)
      \<and> z = sum_list (map snd (rows_of_txid txid s))"
  proof (cases "rows_of_txid txid s = []")
    case True
    then have "\<forall>p \<in> set (payouts s). po_txid p \<noteq> Some txid"
      by (auto simp: rows_of_txid_def filter_empty_conv)
    then have "filter (\<lambda>p. po_txid p \<noteq> Some txid) (payouts s) = payouts s" by (simp add: filter_id_conv)
    then show ?thesis using V True by simp
  next
    case False
    then show ?thesis using V nf f by simp
  qed
  then have "payout_sum s' m = payout_sum s m - pair_sum (rows_of_txid txid s) m"
    using payout_sum_delete [where s = s and txid = txid] by (simp add: payout_sum_def fun_eq_iff)
  then have "pending_sum s' m = pending_sum s m + pair_sum (rows_of_txid txid s) m"
    using V B by (simp add: pending_sum_def books_def item_sum_def)
  then show "pending_of s' m = pending_of s m + pair_sum (rows_of_txid txid s) m
      \<and> z = sum_list (map snd (rows_of_txid txid s))
      \<and> payouts s' = filter (\<lambda>p. po_txid p \<noteq> Some txid) (payouts s)"
    using p pending_sum_of assms(1) V by (simp add: books_def)
qed

definition db_paid :: db where
  "db_paid = run_ops (ops1 @ [Op_confirm 1 ''tx'', Op_env 103601 []]) (empty_db True 100000 [])"

text \<open>
  Voiding a transaction that was reorged out returns exactly what its payout rows paid:
  each miner's pending grows by its rows and nothing is lost; while any row of the
  transaction is younger than 60 minutes nothing changes.
\<close>

theorem void_returns_exactly:
  assumes "books_ok s" and "void_reorged_payout txid s = (Inr (k, z), s')"
  shows "owed s' m = owed s m
    \<and> (if list_ex (\<lambda>p. po_txid p = Some txid \<and> db_clock s - 3600 < po_created p) (payouts s)
       then k = 0 \<and> z = 0 \<and> balances s' = balances s \<and> payouts s' = payouts s
       else pending_of s' m = pending_of s m + pair_sum (rows_of_txid txid s) m
           \<and> z = sum_list (map snd (rows_of_txid txid s))
           \<and> payouts s' = filter (\<lambda>p. po_txid p \<noteq> Some txid) (payouts s))"
  using void_returns_exactly_facts [OF assms] by simp

theorem void_returns_exactly_witness:
  "fst (void_reorged_payout ''tx'' db_paid) = Inr (2, 900)
   \<and> pending_of (snd (void_reorged_payout ''tx'' db_paid)) 1 = 700"
proof -
  have "ledger_inv db_paid"
    unfolding db_paid_def by (rule run_ops_ledger) (simp_all add: ops1_def ledger_empty)
  then have B: "books_ok db_paid" by (simp add: ledger_inv_def)
  have 1: "fst (void_reorged_payout ''tx'' db_paid) = Inr (2, 900)" by code_simp
  then have v: "void_reorged_payout ''tx'' db_paid
      = (Inr (2, 900), snd (void_reorged_payout ''tx'' db_paid))" by (metis prod.collapse)
  have o: "\<not> list_ex (\<lambda>p. po_txid p = Some ''tx'' \<and> db_clock db_paid - 3600 < po_created p)
      (payouts db_paid)" by code_simp
  have p: "pending_of db_paid 1 = 100" "pair_sum (rows_of_txid ''tx'' db_paid) 1 = 600" by code_simp+
  show ?thesis using void_returns_exactly [OF B v, of 1] 1 p o by simp
qed

section \<open>Atomicity\<close>

text \<open>Whether a transactional operation returns an error in a state.\<close>

fun txn_fails :: "db_op \<Rightarrow> db \<Rightarrow> bool" where
  "txn_fails (Op_distribute b cs) s = isl (fst (distribute_block_credits b cs s))"
| "txn_fails (Op_reverse b) s = isl (fst (reverse_block_credits_precise b s))"
| "txn_fails (Op_orphan b r) s = isl (fst (orphan_block b r s))"
| "txn_fails (Op_take_costs b c) s = isl (fst (take_costs_for_block b c s))"
| "txn_fails (Op_create_payout m a t) s = isl (fst (create_payout m a t s))"
| "txn_fails (Op_reserve i rs) s = isl (fst (reserve_payout i rs s))"
| "txn_fails (Op_confirm i t) s = isl (fst (confirm_payout i t s))"
| "txn_fails (Op_refund i) s = isl (fst (refund_payout i s))"
| "txn_fails (Op_void t) s = isl (fst (void_reorged_payout t s))"
| "txn_fails _ s = False"

lemma txn_fails_tables:
  assumes "isl (fst (txn m s))"
  shows "\<exists>fs. snd (txn m s) = s\<lparr>db_faults := fs\<rparr>"
proof -
  obtain e where "fst (txn m s) = Inl e" using assms by (cases "fst (txn m s)") auto
  then have "txn m s = (Inl e, snd (txn m s))" by (metis prod.collapse)
  then show ?thesis by (rule txn_atomic)
qed

lemmas txn_operations = distribute_block_credits_def reverse_block_credits_precise_def
  orphan_block_def take_costs_for_block_def create_payout_def reserve_payout_def
  confirm_payout_def refund_payout_def void_reorged_payout_def

text \<open>
  Distribution, orphan reversal, cost recovery, payouts, the saga's three steps and the void
  are all or nothing: when one of them returns an error, every table is as it was before.
\<close>

theorem money_operations_atomic:
  assumes "txn_fails op s"
  shows "\<exists>faults. run_op op s = s\<lparr>db_faults := faults\<rparr>"
  using assms by (cases op) (simp_all add: txn_operations txn_fails_tables)

theorem money_operations_atomic_witness:
  "txn_fails (Op_distribute 1 [(3, 5), (1, 7)]) db1
   \<and> (\<exists>faults. run_op (Op_distribute 1 [(3, 5), (1, 7)]) db1 = db1\<lparr>db_faults := faults\<rparr>)"
proof -
  have "txn_fails (Op_distribute 1 [(3, 5), (1, 7)]) db1" by code_simp
  from money_operations_atomic [OF this] this show ?thesis by blast
qed

section \<open>Credits and orphans\<close>

text \<open>
  A successful distribution adds exactly one credit row per listed miner, and a block that
  already credits one of them is refused, so no block pays a miner twice.
\<close>

theorem distribution_once:
  assumes "distribute_block_credits b cs s = (r, s')"
  shows "(isl r \<longrightarrow> credits s' = credits s \<and> balances s' = balances s)
    \<and> (\<not> isl r \<longrightarrow> credits s' = credits s @
          map (\<lambda>(m, a). \<lparr>cr_block = b, cr_miner = m, cr_amount = a\<rparr>) cs)
    \<and> ((\<exists>c \<in> set cs. list_ex (\<lambda>x. cr_block x = b \<and> cr_miner x = fst c) (credits s)) \<longrightarrow> isl r)"
proof (cases r)
  case (Inl e)
  then have "txn (dfor cs (credit_one b)) s = (Inl e, s')"
    using assms by (simp add: distribute_block_credits_def)
  from txn_atomic [OF this] show ?thesis using Inl by auto
next
  case (Inr u)
  then have "txn (dfor cs (credit_one b)) s = (Inr u, s')"
    using assms by (simp add: distribute_block_credits_def)
  then obtain fs fs' s1 where 1: "dfor cs (credit_one b) (s\<lparr>db_faults := fs\<rparr>) = (Inr u, s1)"
    and 2: "s' = s1\<lparr>db_faults := fs'\<rparr>" by (rule txn_Inr)
  from credit_for_credits [OF 1] show ?thesis using Inr 2 by auto
qed

theorem distribution_once_witness:
  "isl (fst (distribute_block_credits 1 [(1, 5)] db1))
   \<and> fst (distribute_block_credits 2 [] db1) = Inr ()"
proof -
  have c: "\<exists>c \<in> set [(1 :: int, 5 :: int)]. list_ex (\<lambda>x. cr_block x = 1 \<and> cr_miner x = fst c) (credits db1)"
    by code_simp
  have e: "fst (distribute_block_credits 2 [] db1) = Inr ()" by code_simp
  have d: "distribute_block_credits 1 [(1, 5)] db1
      = (fst (distribute_block_credits 1 [(1, 5)] db1), snd (distribute_block_credits 1 [(1, 5)] db1))"
    by simp
  have "isl (fst (distribute_block_credits 1 [(1, 5)] db1))"
    using distribution_once [OF d] c by blast
  then show ?thesis using e by blast
qed


definition db_confirmed :: db where
  "db_confirmed = run_ops (ops1 @ [Op_confirm 1 ''tx'']) (empty_db True 100000 [])"

lemma ledger_db_confirmed: "ledger_inv db_confirmed"
  unfolding db_confirmed_def by (rule run_ops_ledger) (simp_all add: ops1_def ledger_empty)



definition ops3 :: "db_op list" where
  "ops3 =
     [Op_miner ''t1alice'', Op_worker 1 ''rig'',
      Op_block 100 ''aa'' 1000 None 1 None, Op_distribute 1 [(1, 1000)], Op_status 1 ''confirmed'',
      Op_block 101 ''bb'' 500 None 1 None, Op_distribute 2 [(1, 500)], Op_attempt 1 1000 ''loop'']"

definition db3 :: db where
  "db3 = run_ops ops3 (empty_db True 100000 [])"

lemma immature_covered_rows:
  assumes "books_ok s" "\<forall>m \<in> set (map cr_miner (credits s)). immature_of s m \<le> pending_of s m"
  shows "immature_covered s"
  unfolding immature_covered_def
proof
  fix m
  show "immature_of s m \<le> pending_sum s m"
  proof (cases "m \<in> set (map cr_miner (credits s))")
    case True
    then have "immature_of s m \<le> pending_of s m" using assms(2) by blast
    then show ?thesis using pending_sum_of [OF assms(1)] by simp
  next
    case False
    have "sum_where (\<lambda>c. cr_miner c = m \<and> block_pending s (cr_block c)) cr_amount cs = 0"
      if "m \<notin> set (map cr_miner cs)" for cs
      using that by (induction cs) auto
    then have "immature_of s m = 0" using False by (simp add: immature_of_def)
    then show ?thesis using pending_sum_nonneg [OF assms(1)] by simp
  qed
qed


section \<open>Orphans without credit rows\<close>

text \<open>
  Orphaning a block whose distribution never happened (no credit rows) falls back to the
  proportional reversal: it debits the pending balances of miners that block never credited.
\<close>

theorem orphan_without_credits_debits_others:
  assumes "db_faults s = []" and "credits_of s b = []" and "0 < positive_pending s"
  shows "\<exists>s'. orphan_block b rw s = (Inr None, s')
    \<and> balances s' = map (\<lambda>r. if 0 < bl_pending r
          then r\<lparr>bl_pending := max 0 (bl_pending r - proportional_cut
                 (min rw (positive_pending s)) (positive_pending s) (bl_pending r))\<rparr> else r) (balances s)
    \<and> clawbacks s' = clawbacks s"
proof -
  have 1: "reverse_block_credits_precise_txn b s = (Inr None, s)"
    using assms(1,2) by (simp add: reverse_block_credits_precise_txn_def dbind_def select_no_faults
        credits_of_def)
  obtain bl where bl: "bl = upd_where (\<lambda>r. 0 < bl_pending r)
       (\<lambda>r. r\<lparr>bl_pending := max 0 (bl_pending r - proportional_cut
          (min rw (positive_pending s)) (positive_pending s) (bl_pending r))\<rparr>) (balances s)" by blast
  define s1 where "s1 = s\<lparr>balances := bl\<rparr>"
  have 2: "proportional_reversal (min rw (positive_pending s)) (positive_pending s) s = (Inr (), s1)"
    using assms(1) by (simp add: proportional_reversal_def modify_no_faults s1_def bl)
  have f: "db_faults s1 = []" using assms(1) by (simp add: s1_def)
  define s2 where "s2 = s1\<lparr>blocks := upd_where (\<lambda>r. bk_id r = b) (\<lambda>r. r\<lparr>bk_status := ''orphaned''\<rparr>) (blocks s1)\<rparr>"
  have "orphan_block_txn b rw s = (Inr None, s2)"
    using 1 2 f assms(1,3)
    by (simp add: orphan_block_txn_def dbind_def dseq_def dret_def select_no_faults dwhen_def modify_no_faults s2_def)
  then have "orphan_block b rw s = (Inr None, s2)"
    unfolding orphan_block_def by (rule txn_no_faults [OF assms(1)]) (simp add: f s2_def)
  then show ?thesis by (simp add: s2_def s1_def bl upd_where_def)
qed

definition db_lost :: db where
  "db_lost = run_ops (take 5 ops3 @ [Op_block 101 ''bb'' 500 None 1 None]) (empty_db True 100000 [])"

theorem orphan_without_credits_debits_others_witness:
  "credits_of db_lost 2 = [] \<and> pending_of db_lost 1 = 1000
   \<and> map bl_pending (balances (snd (orphan_block 2 500 db_lost))) = [500]"
proof -
  have f: "db_faults db_lost = []" "credits_of db_lost 2 = []" "0 < positive_pending db_lost"
    by code_simp+
  have v: "pending_of db_lost 1 = 1000" "positive_pending db_lost = 1000"
    "map bl_pending (balances db_lost) = [1000]" by code_simp+
  have c: "proportional_cut 500 1000 1000 = 500"
    using round64_of_int [of 1000] round64_of_int [of 500000] round64_of_int [of 500] as_i64_of_int [of 500]
    by (simp add: proportional_cut_def f64_of_int_exact)
  from orphan_without_credits_debits_others [OF f, of 500] obtain s' where
    "orphan_block 2 500 db_lost = (Inr None, s')"
    "balances s' = map (\<lambda>r. if 0 < bl_pending r
          then r\<lparr>bl_pending := max 0 (bl_pending r - proportional_cut
                 (min 500 (positive_pending db_lost)) (positive_pending db_lost) (bl_pending r))\<rparr> else r)
       (balances db_lost)" by blast
  moreover from v(3) obtain r where "balances db_lost = [r]" "bl_pending r = 1000" by auto
  ultimately show ?thesis using f(2) v c by simp
qed

section \<open>Pipeline costs\<close>

lemma mark_fold:
  assumes "dfor ids mark_recovered s = (Inr u, s')"
  shows "tx_costs s' = map (\<lambda>r. if tc_id r \<in> set ids then r\<lparr>tc_recovered := True\<rparr> else r) (tx_costs s)
    \<and> blocks s' = blocks s"
  using assms
proof (induction ids arbitrary: s)
  case (Cons i ids)
  from Cons.prems obtain u1 s1 where 1: "mark_recovered i s = (Inr u1, s1)"
    and 2: "dfor ids mark_recovered s1 = (Inr u, s')"
    by (auto simp: dfor_def dbind_Inr)
  have "tx_costs s1 = upd_where (\<lambda>r. tc_id r = i) (\<lambda>r. r\<lparr>tc_recovered := True\<rparr>) (tx_costs s)
      \<and> blocks s1 = blocks s"
    using 1 unfolding mark_recovered_def by (rule modify_Inr) simp
  then show ?case using Cons.IH [OF 2] by (simp add: upd_where_def)
qed (simp add: dfor_def)

lemma take_within_prefix:
  "take_within cap t rows = (taken, ids) \<Longrightarrow>
   \<exists>k \<le> length rows. ids = map fst (take k rows) \<and> taken = t + sum_list (map snd (take k rows))
     \<and> (0 < k \<longrightarrow> taken \<le> cap) \<and> (k < length rows \<longrightarrow> cap < taken + snd (rows ! k))"
proof (induction cap t rows arbitrary: taken ids rule: take_within.induct)
  case (1 cap t)
  then show ?case by simp
next
  case (2 cap t i fee rows)
  show ?case
  proof (cases "cap < t + fee")
    case True
    then show ?thesis using 2(2) by (intro exI [of _ 0]) auto
  next
    case False
    then obtain t' ids' where r: "take_within cap (t + fee) rows = (t', ids')"
      and e: "taken = t'" "ids = i # ids'" using 2(2) by (auto simp: Let_def split: prod.splits)
    from 2(1) [OF False r] obtain k where k: "k \<le> length rows" "ids' = map fst (take k rows)"
      "t' = t + fee + sum_list (map snd (take k rows))" "0 < k \<longrightarrow> t' \<le> cap"
      "k < length rows \<longrightarrow> cap < t' + snd (rows ! k)" by blast
    show ?thesis
      using k e False by (intro exI [of _ "Suc k"]) (cases "k = 0", auto)
  qed
qed

lemma filter_fst_drop:
  assumes "distinct (map fst xs)"
  shows "filter (\<lambda>p. fst p \<notin> set (map fst (take k xs))) xs = drop k xs"
proof -
  have a: "filter (\<lambda>p. fst p \<notin> set (map fst (take k xs))) (take k xs) = []"
    by (auto simp: filter_empty_conv)
  have b: "filter (\<lambda>p. fst p \<notin> set (map fst (take k xs))) (drop k xs) = drop k xs"
  proof (rule filter_True, rule ballI)
    fix p assume p: "p \<in> set (drop k xs)"
    have "distinct (map fst (take k xs) @ map fst (drop k xs))"
      using assms by (metis append_take_drop_id map_append)
    then show "fst p \<notin> set (map fst (take k xs))" using p by auto
  qed
  have "filter (\<lambda>p. fst p \<notin> set (map fst (take k xs))) (take k xs @ drop k xs) = drop k xs"
    by (simp only: filter_append a b append_Nil)
  then show ?thesis by (simp only: append_take_drop_id)
qed

lemma filter_marked:
  "filter (\<lambda>r. \<not> tc_recovered r)
     (map (\<lambda>r. if tc_id r \<in> set ids then r\<lparr>tc_recovered := True\<rparr> else r) xs)
   = filter (\<lambda>r. tc_id r \<notin> set ids) (filter (\<lambda>r. \<not> tc_recovered r) xs)"
  by (induction xs) auto

lemma unrecovered_marked:
  assumes "tx_costs s' = map (\<lambda>r. if tc_id r \<in> set ids then r\<lparr>tc_recovered := True\<rparr> else r) (tx_costs s)"
  shows "unrecovered s' = filter (\<lambda>p. fst p \<notin> set ids) (unrecovered s)"
  unfolding unrecovered_def assms filter_marked filter_sort [symmetric] by (simp add: filter_map o_def)

lemma unrecovered_distinct:
  "distinct (map tc_id (tx_costs s)) \<Longrightarrow> distinct (map fst (unrecovered s))"
  by (simp add: unrecovered_def o_def distinct_map) (auto simp: inj_on_def)

text \<open>
  Recovering pipeline costs consumes the oldest unrecovered rows, whole rows only, as long
  as their sum stays within the cap; exactly those rows become recovered and, when the amount
  is positive, it is stamped on the block in place of whatever was there.
\<close>

theorem costs_taken_oldest_first:
  assumes "take_costs_for_block b cap s = (Inr taken, s')" and "distinct (map tc_id (tx_costs s))"
  shows "\<exists>k \<le> length (unrecovered s).
      taken = sum_list (map snd (take k (unrecovered s)))
    \<and> (0 < k \<longrightarrow> taken \<le> cap)
    \<and> (k < length (unrecovered s) \<longrightarrow> cap < taken + snd (unrecovered s ! k))
    \<and> unrecovered s' = drop k (unrecovered s)
    \<and> blocks s' = (if 0 < taken
        then map (\<lambda>r. if bk_id r = b then r\<lparr>bk_costs := taken\<rparr> else r) (blocks s) else blocks s)"
proof -
  from assms(1) have "txn (take_costs_for_block_txn b cap) s = (Inr taken, s')"
    by (simp add: take_costs_for_block_def)
  then obtain fs fs' s1 where 1: "take_costs_for_block_txn b cap (s\<lparr>db_faults := fs\<rparr>) = (Inr taken, s1)"
    and s': "s' = s1\<lparr>db_faults := fs'\<rparr>" by (rule txn_Inr)
  from 1 [unfolded take_costs_for_block_txn_def] obtain rows s0 where
    sel: "select unrecovered (s\<lparr>db_faults := fs\<rparr>) = (Inr rows, s0)"
    and k: "(let (taken, ids) = take_within cap 0 rows in
       dseq (dfor ids mark_recovered)
      (dseq (dwhen (0 < taken) (set_block_costs b taken)) (dret taken))) s0 = (Inr taken, s1)"
    by (rule dbind_InrE)
  have "rows = unrecovered s \<and> tx_costs s0 = tx_costs s \<and> blocks s0 = blocks s"
    using sel by (rule select_Inr) (auto simp: unrecovered_def)
  then have rows: "rows = unrecovered s" "tx_costs s0 = tx_costs s" "blocks s0 = blocks s" by auto
  obtain t ids where tw: "take_within cap 0 rows = (t, ids)" by fastforce
  from k obtain u s2 u2 s3 where m: "dfor ids mark_recovered s0 = (Inr u, s2)"
    and c: "dwhen (0 < t) (set_block_costs b t) s2 = (Inr u2, s3)" and e: "taken = t" "s1 = s3"
    by (auto simp: tw dseq_Inr)
  note M = mark_fold [OF m]
  from take_within_prefix [OF tw] obtain n where n: "n \<le> length rows" "ids = map fst (take n rows)"
    "t = sum_list (map snd (take n rows))" "0 < n \<longrightarrow> t \<le> cap"
    "n < length rows \<longrightarrow> cap < t + snd (rows ! n)" by auto
  have "unrecovered s2 = filter (\<lambda>p. fst p \<notin> set ids) (unrecovered s0)"
    using M by (intro unrecovered_marked) simp
  moreover have "unrecovered s0 = unrecovered s" using rows(2) by (simp add: unrecovered_def)
  moreover have "distinct (map fst (unrecovered s))"
    using assms(2) by (rule unrecovered_distinct)
  ultimately have un: "unrecovered s2 = drop n (unrecovered s)"
    using n(2) rows(1) filter_fst_drop by metis
  have "tx_costs s3 = tx_costs s2 \<and> blocks s3 = (if 0 < t
      then upd_where (\<lambda>r. bk_id r = b) (\<lambda>r. r\<lparr>bk_costs := t\<rparr>) (blocks s2) else blocks s2)"
  proof (cases "0 < t")
    case True
    then have "set_block_costs b t s2 = (Inr u2, s3)" using c by (simp add: dwhen_def)
    then show ?thesis unfolding set_block_costs_def by (rule modify_Inr) (simp add: True)
  next
    case False
    then show ?thesis using c by (simp add: dwhen_def)
  qed
  then show ?thesis
    using n un M rows e s' by (intro exI [of _ n]) (simp add: unrecovered_def upd_where_def)
qed

definition db_costs :: db where
  "db_costs = run_ops [Op_miner ''t1a'', Op_worker 1 ''r'', Op_block 5 ''h'' 100 None 1 None,
     Op_tx_cost ''shield'' ''op'' 30, Op_tx_cost ''payout'' ''tx'' 20, Op_tx_cost ''payout'' ''ty'' 60]
     (empty_db True 100000 [])"

theorem costs_taken_oldest_first_witness:
  "fst (take_costs_for_block 1 100 db_costs) = Inr 50
   \<and> (\<exists>k \<le> 3. 50 = sum_list (map snd (take k (unrecovered db_costs)))
      \<and> unrecovered (snd (take_costs_for_block 1 100 db_costs)) = drop k (unrecovered db_costs))"
proof -
  have 1: "fst (take_costs_for_block 1 100 db_costs) = Inr 50" by code_simp
  then have r: "take_costs_for_block 1 100 db_costs = (Inr 50, snd (take_costs_for_block 1 100 db_costs))"
    by (metis prod.collapse)
  have d: "distinct (map tc_id (tx_costs db_costs))" by code_simp
  have l: "length (unrecovered db_costs) = 3" by code_simp
  from costs_taken_oldest_first [OF r d] 1 show ?thesis unfolding l by blast
qed

section \<open>Share retention\<close>

text \<open>
  Pruning old shares never changes the all-time share count: however many hours are rolled
  up and wherever a statement fails, the rolled-up counts plus the remaining rows stay the same.
\<close>

theorem rollup_keeps_total:
  assumes "distinct (map ru_bucket (rollups s))"
  shows "total_shares (snd (rollup_and_prune_shares A days max_hours s)) = total_shares s
    \<and> distinct (map ru_bucket (rollups (snd (rollup_and_prune_shares A days max_hours s))))"
proof -
  have "share_total_is (total_shares s) s" using assms by (simp add: share_total_is_def)
  then have "share_total_is (total_shares s) (snd (rollup_and_prune_shares A days max_hours s))"
    using keeps_rollup unfolding rollup_and_prune_shares_def keeps_def by blast
  then show ?thesis by (simp add: share_total_is_def)
qed

definition agg0 :: sql_agg where
  "agg0 = \<lparr>ag_sum = f64_sum, ag_avg = (\<lambda>_. Fin 0)\<rparr>"

definition db_shares :: db where
  "db_shares = run_ops [Op_miner ''t1a'', Op_worker 1 ''r'', Op_share 1 ''j'' (Fin 1) False ''s'',
     Op_env 3700 [], Op_share 1 ''j'' (Fin 1) False ''s'', Op_env 864000 []] (empty_db True 0 [])"

theorem rollup_keeps_total_witness:
  "length (shares db_shares) = 2
   \<and> length (shares (snd (rollup_and_prune_shares agg0 1 1 db_shares))) = 1
   \<and> total_shares (snd (rollup_and_prune_shares agg0 1 1 db_shares)) = 2"
proof -
  have 0: "rollups db_shares = []" "total_shares db_shares = 2" "length (shares db_shares) = 2"
    by code_simp+
  have 1: "length (shares (snd (rollup_and_prune_shares agg0 1 1 db_shares))) = 1" by code_simp
  show ?thesis using rollup_keeps_total [of db_shares agg0 1 1] 0 1 by simp
qed

end
