(* ===== verification/Rewards.thy ===== *)
theory Rewards
  imports Db_Ledger "HOL-Library.Signed_Division"
begin

text \<open>
  Block reward distribution: \<open>rewards/src/pplns.rs\<close>.  \<open>distribute\<close> is
  \<open>PplnsCalculator::distribute\<close>; the loop that splits the distributable amount is
  \<open>split_rewards\<close>.  All the arithmetic is the code's \<open>f64\<close> arithmetic.  The lemmas bound
  its rounding error: as long as \<open>(2 n + 3) D\<close> fits in 53 bits, for \<open>n\<close> miners and \<open>D\<close>
  zatoshis, no miner loses two zatoshis and the remainder given to the last one is not negative.
\<close>

section \<open>The calculator\<close>

datatype reward_mode = Pplns | Solo

record pplns_calculator =
  pc_window_size :: int
  pc_pool_fee :: f64
  pc_mode :: reward_mode

definition pplns_new :: "int \<Rightarrow> f64 \<Rightarrow> reward_mode \<Rightarrow> pplns_calculator" where
  "pplns_new window_size pool_fee mode =
     \<lparr>pc_window_size = window_size, pc_pool_fee = fclamp pool_fee (Fin 0) (Fin 1), pc_mode = mode\<rparr>"

record pplns_reward =
  pr_miner_id :: int
  pr_share_fraction :: f64
  pr_amount_zatoshis :: int

definition distributable :: "f64 \<Rightarrow> int \<Rightarrow> int" where
  "distributable fee net_reward = as_i64 (fmul (f64_of_int net_reward) (fsub (Fin 1) fee))"

definition pplns_fraction :: "f64 \<Rightarrow> pplns_entry \<Rightarrow> f64" where
  "pplns_fraction tot e = fdiv (pe_difficulty e) tot"

definition pplns_floor :: "int \<Rightarrow> f64 \<Rightarrow> int" where
  "pplns_floor D fraction = as_i64 (ffloor (fmul (f64_of_int D) fraction))"

text \<open>The loop over the entries, with \<open>distributed_total\<close> as accumulator.\<close>

fun split_rewards :: "int \<Rightarrow> f64 \<Rightarrow> int \<Rightarrow> pplns_entry list \<Rightarrow> pplns_reward list" where
  "split_rewards D tot distributed [] = []"
| "split_rewards D tot distributed (e # es) =
     (let fraction = pplns_fraction tot e;
          amount = (if es = [] then D - distributed else pplns_floor D fraction)
      in \<lparr>pr_miner_id = pe_miner e, pr_share_fraction = fraction, pr_amount_zatoshis = amount\<rparr>
         # split_rewards D tot (distributed + amount) es)"

definition positive_credits :: "pplns_reward list \<Rightarrow> (int \<times> int) list" where
  "positive_credits rewards =
     map (\<lambda>r. (pr_miner_id r, pr_amount_zatoshis r))
       (filter (\<lambda>r. 0 < pr_amount_zatoshis r) rewards)"

definition distribute_solo :: "int \<Rightarrow> int \<Rightarrow> int \<Rightarrow> pplns_reward list dbm" where
  "distribute_solo D block_id found_by =
     dbind (get_miner_id_for_worker found_by) (\<lambda>miner.
     dseq (dwhen (0 < D) (distribute_block_credits block_id [(miner, D)]))
          (dret [\<lparr>pr_miner_id = miner, pr_share_fraction = Fin 1, pr_amount_zatoshis = D\<rparr>]))"

definition distribute_pplns :: "sql_agg \<Rightarrow> int \<Rightarrow> int \<Rightarrow> int \<Rightarrow> pplns_reward list dbm" where
  "distribute_pplns A window_size D block_id =
     dbind (get_pplns_shares A window_size) (\<lambda>shares.
       if shares = [] then dret []
       else let tot = f64_sum (map pe_difficulty shares) in
         if fle tot (Fin 0) then dret []
         else let rewards = split_rewards D tot 0 shares;
                  credits = positive_credits rewards
              in dseq (dwhen (credits \<noteq> []) (distribute_block_credits block_id credits))
                      (dret rewards))"

definition distribute ::
  "sql_agg \<Rightarrow> pplns_calculator \<Rightarrow> int \<Rightarrow> int \<Rightarrow> int \<Rightarrow> pplns_reward list dbm" where
  "distribute A pc block_reward block_id found_by =
     dbind (take_costs_for_block block_id (block_reward sdiv 50)) (\<lambda>costs.
       let D = distributable (pc_pool_fee pc) (block_reward - costs) in
       if pc_mode pc = Solo then distribute_solo D block_id found_by
       else distribute_pplns A (pc_window_size pc) D block_id)"

section \<open>The split loses nothing\<close>

definition amounts :: "pplns_reward list \<Rightarrow> int list" where
  "amounts rs = map pr_amount_zatoshis rs"

lemma split_miners: "map pr_miner_id (split_rewards D tot t es) = map pe_miner es"
  by (induction D tot t es rule: split_rewards.induct) (simp_all add: Let_def)

lemma length_split [simp]: "length (split_rewards D tot t es) = length es"
  by (metis length_map split_miners)

lemma split_sum: "es \<noteq> [] \<Longrightarrow> sum_list (amounts (split_rewards D tot t es)) = D - t"
  by (induction D tot t es rule: split_rewards.induct) (auto simp: amounts_def Let_def)

lemma split_snoc:
  "amounts (split_rewards D tot t (es @ [e])) =
     map (\<lambda>e. pplns_floor D (pplns_fraction tot e)) es
     @ [D - t - (\<Sum>e\<leftarrow>es. pplns_floor D (pplns_fraction tot e))]"
  by (induction es arbitrary: t) (auto simp: amounts_def Let_def)

lemma positive_credits_sum:
  "\<forall>a \<in> set (amounts rs). 0 \<le> a \<Longrightarrow> sum_list (map snd (positive_credits rs)) = sum_list (amounts rs)"
  by (induction rs) (auto simp: positive_credits_def amounts_def)

section \<open>Relative error of the floating point sum\<close>

definition diff_ok :: "rat \<Rightarrow> bool" where
  "diff_ok x \<longleftrightarrow> pow2 (- 100) \<le> x \<and> x \<le> pow2 100"

lemma diff_okD: "diff_ok x \<Longrightarrow> pow2 (- 100) \<le> x" "diff_ok x \<Longrightarrow> x \<le> pow2 100" "diff_ok x \<Longrightarrow> 0 < x"
  using order_less_le_trans [OF pow2_pos [of "- 100"]] by (auto simp: diff_ok_def)

definition rat_sum :: "rat \<Rightarrow> rat list \<Rightarrow> rat" where
  "rat_sum a xs = foldl (\<lambda>a x. rnd (a + x)) a xs"

lemma rat_sum_simps [simp]:
  "rat_sum a [] = a" "rat_sum a (x # xs) = rat_sum (rnd (a + x)) xs"
  by (simp_all add: rat_sum_def)

lemma normal_ge: "pow2 (- 100) \<le> x \<Longrightarrow> pow2 (- 1022) \<le> x"
  using pow2_mono [of "- 1022" "- 100"] by linarith

lemma fsum_rat:
  assumes "0 \<le> a" "a \<le> of_nat k * pow2 100" "k + length xs \<le> 2 ^ 53" "\<forall>x \<in> set xs. diff_ok x"
  shows "foldl fadd (Fin a) (map Fin xs) = Fin (rat_sum a xs)"
  using assms
proof (induction xs arbitrary: a k)
  case (Cons x xs)
  have x: "0 < x" "x \<le> pow2 100" using Cons.prems(4) diff_okD by auto
  have le: "a + x \<le> of_int (int (Suc k)) * pow2 100"
    using Cons.prems(2) x(2) by (simp add: algebra_simps)
  have r: "rnd (of_int (int (Suc k)) * pow2 100) = of_int (int (Suc k)) * pow2 100"
    using Cons.prems(3) by (intro rnd_exact) auto
  have b: "rnd (a + x) \<le> of_nat (Suc k) * pow2 100" using rnd_mono [OF le] r by simp
  have nn: "0 \<le> rnd (a + x)" using Cons.prems(1) x(1) by (intro rnd_nonneg) auto
  have "of_nat (Suc k) * pow2 100 \<le> (2 ^ 53 :: rat) * pow2 100"
  proof (rule mult_right_mono)
    have "Suc k \<le> 2 ^ 53" using Cons.prems(3) by simp
    then show "of_nat (Suc k) \<le> (2 ^ 53 :: rat)" by (metis of_nat_le_iff of_nat_numeral of_nat_power)
  qed simp
  also have "\<dots> < 2 ^ 1024" by (simp add: pow2_nat')
  finally have "\<bar>rnd (a + x)\<bar> < 2 ^ 1024" using b nn by simp
  then have "fadd (Fin a) (Fin x) = Fin (rnd (a + x))" by (simp add: round64_fin)
  then show ?case using Cons.IH [OF nn b] Cons.prems(3,4) by simp
qed simp

lemma rat_sum_lower:
  assumes "0 \<le> a" "\<forall>x \<in> set xs. diff_ok x"
  shows "(1 - u64eps) ^ length xs * (a + sum_list xs) \<le> rat_sum a xs"
  using assms
proof (induction xs arbitrary: a)
  case (Cons x xs)
  have x: "pow2 (- 1022) \<le> a + x" using Cons.prems diff_okD [of x] normal_ge [of x] by auto
  have nn: "0 \<le> rnd (a + x)" using Cons.prems diff_okD [of x] by (intro rnd_nonneg) auto
  have s: "0 \<le> sum_list xs" using Cons.prems diff_okD(3) by (intro sum_list_nonneg) force
  have "(1 - u64eps) * (a + x + sum_list xs) \<le> (1 - u64eps) * (a + x) + sum_list xs"
    using s mult_left_le_one_le [of "sum_list xs" "1 - u64eps"] by (simp add: distrib_left)
  also have "\<dots> \<le> rnd (a + x) + sum_list xs" using rnd_lower [OF x] by simp
  finally have "(1 - u64eps) ^ length xs * ((1 - u64eps) * (a + x + sum_list xs))
      \<le> (1 - u64eps) ^ length xs * (rnd (a + x) + sum_list xs)"
    by (intro mult_left_mono) simp_all
  also have "\<dots> \<le> rat_sum (rnd (a + x)) xs" using Cons.IH [OF nn] Cons.prems by simp
  finally show ?case by (simp add: ac_simps)
qed simp

lemma rat_sum_upper:
  assumes "0 \<le> a" "\<forall>x \<in> set xs. diff_ok x"
  shows "rat_sum a xs \<le> (1 + u64eps) ^ length xs * (a + sum_list xs)"
  using assms
proof (induction xs arbitrary: a)
  case (Cons x xs)
  have x: "pow2 (- 1022) \<le> a + x" using Cons.prems diff_okD [of x] normal_ge [of x] by auto
  have nn: "0 \<le> rnd (a + x)" using Cons.prems diff_okD [of x] by (intro rnd_nonneg) auto
  have s: "0 \<le> sum_list xs" using Cons.prems diff_okD(3) by (intro sum_list_nonneg) force
  have "rat_sum (rnd (a + x)) xs \<le> (1 + u64eps) ^ length xs * (rnd (a + x) + sum_list xs)"
    using Cons.IH [OF nn] Cons.prems by simp
  also have "\<dots> \<le> (1 + u64eps) ^ length xs * ((1 + u64eps) * (a + x + sum_list xs))"
  proof (rule mult_left_mono)
    have "0 \<le> u64eps * sum_list xs" using s by simp
    then show "rnd (a + x) + sum_list xs \<le> (1 + u64eps) * (a + x + sum_list xs)"
      using rnd_upper [OF x] by (simp add: algebra_simps)
  qed simp
  finally show ?case by (simp add: ac_simps)
qed simp

lemma bernoulli: "0 \<le> v \<Longrightarrow> v \<le> 1 \<Longrightarrow> 1 - of_nat n * v \<le> (1 - v) ^ n" for v :: rat
proof (induction n)
  case (Suc n)
  have "(1 - of_nat n * v) * (1 - v) \<le> (1 - v) ^ n * (1 - v)"
    using Suc by (intro mult_right_mono) auto
  moreover have "0 \<le> of_nat n * v * v" using Suc by simp
  ultimately show ?case by (simp add: algebra_simps)
qed simp

lemma bernoulli_up: "0 \<le> v \<Longrightarrow> v \<le> 1 \<Longrightarrow> (1 + v) ^ n * (1 - of_nat n * v) \<le> 1" for v :: rat
proof -
  assume v: "0 \<le> v" "v \<le> 1"
  have "(1 + v) ^ n * (1 - of_nat n * v) \<le> (1 + v) ^ n * (1 - v) ^ n"
    using v bernoulli [of v n] by (intro mult_left_mono) auto
  also have "\<dots> = (1 - v * v) ^ n" by (simp add: power_mult_distrib [symmetric] algebra_simps)
  also have "\<dots> \<le> 1" using v by (intro power_le_one) (auto simp: mult_le_one)
  finally show ?thesis .
qed

section \<open>One entry\<close>

text \<open>
  \<open>exact_share D S d\<close> is the proportional share in exact arithmetic.  The premise of the
  bounds is \<open>(2 n + 3) D \<le> 2 ^ 53\<close>, with \<open>n\<close> entries.
\<close>

definition exact_share :: "int \<Rightarrow> rat \<Rightarrow> rat \<Rightarrow> rat" where
  "exact_share D S d = of_int D * d / S"

lemma small_budget:
  assumes "0 < D" "(2 * int n + 3) * D \<le> 2 ^ 53"
  shows "of_nat n * u64eps \<le> 1 / 2" "of_int D * (of_nat n + 3) * u64eps \<le> 1"
    "of_int D * ((1 + u64eps) ^ 2) \<le> (of_int D + 1) * (1 - of_nat n * u64eps)" "D \<le> 2 ^ 53"
    "int n \<le> 2 ^ 52"
proof -
  have "2 * int n + 3 \<le> (2 * int n + 3) * D" using assms(1) by simp
  with assms(2) have n: "2 * int n + 3 \<le> 2 ^ 53" by linarith
  then show "int n \<le> 2 ^ 52" by simp
  have "2 * of_nat n \<le> (2 ^ 53 :: rat)"
  proof -
    have "of_int (2 * int n) \<le> (of_int (2 ^ 53) :: rat)" using n by (intro of_int_le_iff [THEN iffD2]) simp
    then show ?thesis by simp
  qed
  then show "of_nat n * u64eps \<le> 1 / 2" by (simp add: u64eps_def)
  have "of_int ((2 * int n + 3) * D) \<le> (of_int (2 ^ 53) :: rat)"
    using assms(2) by (simp only: of_int_le_iff)
  then have b: "of_int D * (2 * of_nat n + 3) * u64eps \<le> 1" by (simp add: u64eps_def mult.commute)
  have D1: "1 \<le> (of_int D :: rat)" using assms(1) by simp
  have "of_int D * (of_nat n + 3) * u64eps \<le> of_int D * (2 * of_nat n + 3) * u64eps"
    using D1 by (intro mult_right_mono mult_left_mono) auto
  then show "of_int D * (of_nat n + 3) * u64eps \<le> 1" using b by linarith
  have "of_nat n * u64eps \<le> of_int D * (of_nat n * u64eps)"
    using D1 mult_right_mono [of 1 "of_int D" "of_nat n * u64eps"] by simp
  moreover have "of_int D * (u64eps * u64eps) \<le> of_int D * u64eps"
    using D1 mult_left_mono [of "u64eps * u64eps" "u64eps * 1" "of_int D"] by (auto intro: mult_left_mono)
  moreover have "2 * (of_int D * (of_nat n * u64eps)) + 3 * (of_int D * u64eps) \<le> 1"
    using b by (simp add: algebra_simps)
  moreover have "of_int D * ((1 + u64eps) ^ 2) = of_int D + 2 * (of_int D * u64eps) + of_int D * (u64eps * u64eps)"
    "(of_int D + 1) * (1 - of_nat n * u64eps)
      = of_int D + 1 - of_int D * (of_nat n * u64eps) - of_nat n * u64eps"
    by (simp_all add: power2_eq_square algebra_simps)
  ultimately show "of_int D * ((1 + u64eps) ^ 2) \<le> (of_int D + 1) * (1 - of_nat n * u64eps)"
    by linarith
  have "D \<le> (2 * int n + 3) * D" using assms(1) by (simp add: mult_le_cancel_right1)
  then show "D \<le> 2 ^ 53" using assms(2) by linarith
qed

lemma entry_bounds:
  assumes D: "0 < D" "(2 * int n + 3) * D \<le> 2 ^ 53"
    and d: "diff_ok d" "d \<le> S" and S: "S \<le> of_nat n * pow2 100"
    and T: "(1 - of_nat n * u64eps) * S \<le> T" "T * (1 - of_nat n * u64eps) \<le> S"
    and e: "pe_difficulty e = Fin d"
  shows "\<exists>g. pplns_floor D (pplns_fraction (Fin T) e) = \<lfloor>g\<rfloor> \<and> 0 \<le> g
    \<and> g \<le> (1 + u64eps) ^ 2 / (1 - of_nat n * u64eps) * exact_share D S d
    \<and> exact_share D S d - 1 \<le> g"
proof -
  note B = small_budget [OF D]
  let ?c = "1 - of_nat n * u64eps"
  have c: "1 / 2 \<le> ?c" "0 < ?c" "?c \<le> 1" using B(1) by auto
  have d0: "0 < d" and dl: "pow2 (- 100) \<le> d" using d(1) diff_okD by auto
  have S0: "0 < S" using d0 d(2) by linarith
  have T0: "0 < T" using T(1) c S0 by (meson mult_pos_pos order_less_le_trans)
  have "T / 2 \<le> T * ?c" using mult_left_mono [OF c(1), of T] T0 by simp
  then have T2: "T \<le> 2 * S" using T(2) by linarith
  have nb: "of_nat n \<le> (2 ^ 52 :: rat)"
  proof -
    have "of_int (int n) \<le> (of_int (2 ^ 52) :: rat)" using B(5) by (simp only: of_int_le_iff)
    then show ?thesis by simp
  qed
  have "S \<le> 2 ^ 52 * pow2 100" 
    using S mult_right_mono [OF nb pow2_nonneg, of 100] by (rule order_trans)
  then have T3: "T \<le> pow2 153" using T2 by (simp add: pow2_nat')
  have "pow2 (- 253) * T \<le> pow2 (- 253) * pow2 153" using T3 by (intro mult_left_mono) auto
  then have "pow2 (- 253) * T \<le> d" using dl by (simp add: pow2_add [symmetric])
  then have q: "pow2 (- 253) \<le> d / T" using T0 by (simp add: pos_le_divide_eq)
  then have qn: "pow2 (- 1022) \<le> d / T" using pow2_mono [of "- 1022" "- 253"] by linarith
  have q2: "d / T \<le> 2"
  proof -
    have "1 / 2 * S \<le> ?c * S" using S0 by (intro mult_right_mono [OF c(1)]) simp
    then have "d \<le> 2 * T" using T(1) d(2) by linarith
    then show ?thesis using T0 by (simp add: pos_divide_le_eq mult.commute)
  qed
  define f where "f = rnd (d / T)"
  have f: "(1 - u64eps) * (d / T) \<le> f" "f \<le> (1 + u64eps) * (d / T)"
    using rnd_lower [OF qn] rnd_upper [OF qn] by (simp_all add: f_def)
  have f2: "f \<le> 2" using rnd_le_int [of 2 "d / T"] q2 by (simp add: f_def)
  have fl: "pow2 (- 253) \<le> f" using rnd_mono [OF q] by (simp add: f_def rnd_pow2)
  have f0: "0 < f" using fl pow2_pos [of "- 253"] by linarith
  have q0: "0 < d / T" using d0 T0 by simp
  then have "\<bar>d / T\<bar> \<le> 2 ^ 53" using q2 by (simp only: abs_of_pos) simp
  then have fr: "pplns_fraction (Fin T) e = Fin f"
    using T0 by (simp add: pplns_fraction_def e f_def round64_small)
  have D1: "1 \<le> (of_int D :: rat)" using D(1) by simp
  have DB: "of_int D \<le> (2 ^ 53 :: rat)"
  proof -
    have "(of_int D :: rat) \<le> of_int (2 ^ 53)" using B(4) by (simp only: of_int_le_iff)
    then show ?thesis by simp
  qed
  have Df: "pow2 (- 1022) \<le> of_int D * f"
  proof -
    have "1 * f \<le> of_int D * f" using D1 f0 by (intro mult_right_mono) auto
    then show ?thesis using fl pow2_mono [of "- 1022" "- 253"] by linarith
  qed
  define g where "g = rnd (of_int D * f)"
  have g: "(1 - u64eps) * (of_int D * f) \<le> g" "g \<le> (1 + u64eps) * (of_int D * f)"
    using rnd_lower [OF Df] rnd_upper [OF Df] by (simp_all add: g_def)
  have "of_int D * f \<le> 2 ^ 53 * 2" using DB f2 f0 D1 by (intro mult_mono) auto
  then have "of_int D * f \<le> pow2 54" by (simp add: pow2_nat')
  then have g54: "g \<le> 2 ^ 54" using rnd_mono [of "of_int D * f" "pow2 54"]
    by (simp add: g_def rnd_pow2) (simp add: pow2_nat')
  have g0: "0 \<le> g" using D1 f0 by (auto simp: g_def intro!: rnd_nonneg)
  have "(2 :: rat) ^ 54 < 2 ^ 1024" by (rule power_strict_increasing) simp_all
  then have gr: "fmul (Fin (of_int D)) (Fin f) = Fin g" using g54 g0
    by (simp add: round64_fin g_def)
  have fg: "\<lfloor>g\<rfloor> \<le> 2 ^ 54" using g54 by (metis floor_mono floor_of_int of_int_numeral of_int_power)
  have fl2: "0 \<le> \<lfloor>g\<rfloor>" using g0 by simp
  have "pplns_floor D (pplns_fraction (Fin T) e) = as_i64 (Fin (of_int \<lfloor>g\<rfloor>))"
    using B(4) D(1) by (simp add: pplns_floor_def fr f64_of_int_exact gr del: fmul.simps)
  also have "\<dots> = \<lfloor>g\<rfloor>" using fg fl2 by (intro as_i64_of_int) simp_all
  finally have 1: "pplns_floor D (pplns_fraction (Fin T) e) = \<lfloor>g\<rfloor>" .
  have TS: "d / T \<le> d / (?c * S)" using T(1) c S0 d0 T0 by (intro divide_left_mono) auto
  have "g \<le> (1 + u64eps) * (of_int D * ((1 + u64eps) * (d / (?c * S))))"
  proof -
    have "of_int D * f \<le> of_int D * ((1 + u64eps) * (d / (?c * S)))"
      using f(2) TS D1 mult_left_mono [OF TS, of "1 + u64eps"] by (intro mult_left_mono) (auto simp: add_nonneg_nonneg)
    then show ?thesis using g(2) mult_left_mono [of _ _ "1 + u64eps"]
      by (meson add_nonneg_nonneg order_trans u64eps_bounds(2) zero_le_one)
  qed
  also have "\<dots> = (1 + u64eps) ^ 2 / ?c * exact_share D S d"
    using c S0 by (simp add: exact_share_def power2_eq_square field_simps)
  finally have 2: "g \<le> (1 + u64eps) ^ 2 / ?c * exact_share D S d" .
  have x0: "0 \<le> exact_share D S d" "exact_share D S d \<le> of_int D"
    using D1 d0 S0 d(2) by (simp_all add: exact_share_def pos_divide_le_eq)
  have Tl: "d * ?c / S \<le> d / T"
  proof -
    have "d * (T * ?c) / (S * T) \<le> d * S / (S * T)"
      using T(2) d0 S0 T0 by (intro divide_right_mono mult_left_mono) auto
    then show ?thesis using T0 S0 by simp
  qed
  have "(1 - u64eps) * (of_int D * ((1 - u64eps) * (d * ?c / S))) \<le> g"
  proof -
    have "(1 - u64eps) * (d * ?c / S) \<le> (1 - u64eps) * (d / T)"
      by (intro mult_left_mono [OF Tl]) simp
    then have F: "(1 - u64eps) * (d * ?c / S) \<le> f" using f(1) by linarith
    have "of_int D * ((1 - u64eps) * (d * ?c / S)) \<le> of_int D * f"
      by (rule mult_left_mono [OF F]) (use D1 in linarith)
    then have "(1 - u64eps) * (of_int D * ((1 - u64eps) * (d * ?c / S))) \<le> (1 - u64eps) * (of_int D * f)"
      by (rule mult_left_mono) simp
    then show ?thesis using g(1) by linarith
  qed
  then have "(1 - u64eps) ^ 2 * ?c * exact_share D S d \<le> g"
    by (simp add: exact_share_def power2_eq_square ac_simps)
  moreover have "exact_share D S d - 1 \<le> (1 - u64eps) ^ 2 * ?c * exact_share D S d"
  proof -
    have "1 - (of_nat n + 2) * u64eps \<le> (1 - u64eps) ^ 2 * ?c"
    proof -
      have "0 \<le> u64eps * u64eps * ?c" "0 \<le> 2 * u64eps * (of_nat n * u64eps)" using c by auto
      moreover have "(1 - u64eps) ^ 2 * ?c
          = 1 - (of_nat n + 2) * u64eps + 2 * u64eps * (of_nat n * u64eps) + u64eps * u64eps * ?c"
        by (simp add: power2_eq_square algebra_simps)
      ultimately show ?thesis by linarith
    qed
    then have "(1 - (of_nat n + 2) * u64eps) * exact_share D S d \<le> (1 - u64eps) ^ 2 * ?c * exact_share D S d"
      using x0 by (intro mult_right_mono) auto
    moreover have "(of_nat n + 2) * u64eps * exact_share D S d \<le> (of_nat n + 3) * u64eps * of_int D"
      using x0 by (intro mult_mono) auto
    ultimately show ?thesis using B(2) by (simp add: algebra_simps)
  qed
  ultimately show ?thesis using 1 2 g0 by (intro exI [of _ g]) linarith
qed

definition entry_ok :: "pplns_entry \<Rightarrow> bool" where
  "entry_ok e \<longleftrightarrow> (case pe_difficulty e of Fin d \<Rightarrow> diff_ok d | _ \<Rightarrow> False)"

lemma entry_okD: "entry_ok e \<Longrightarrow> pe_difficulty e = Fin (fval (pe_difficulty e)) \<and> diff_ok (fval (pe_difficulty e))"
  by (auto simp: entry_ok_def split: f64.splits)

definition exact_total :: "pplns_entry list \<Rightarrow> rat" where
  "exact_total es = sum_list (map (\<lambda>e. fval (pe_difficulty e)) es)"

definition entry_share :: "int \<Rightarrow> pplns_entry list \<Rightarrow> pplns_entry \<Rightarrow> rat" where
  "entry_share D es e = exact_share D (exact_total es) (fval (pe_difficulty e))"

lemma float_total:
  assumes "\<forall>e \<in> set es. entry_ok e" "int (length es) \<le> 2 ^ 52"
  defines "c \<equiv> 1 - of_nat (length es) * u64eps"
  shows "\<exists>T. f64_sum (map pe_difficulty es) = Fin T \<and> c * exact_total es \<le> T \<and> T * c \<le> exact_total es"
proof -
  let ?d = "\<lambda>e. fval (pe_difficulty e)"
  have m: "map pe_difficulty es = map Fin (map ?d es)" using assms(1) entry_okD by auto
  have ok: "\<forall>x \<in> set (map ?d es). diff_ok x" using assms(1) entry_okD by auto
  have S: "0 \<le> exact_total es"
    unfolding exact_total_def using ok diff_okD(3) by (intro sum_list_nonneg) force
  have f: "f64_sum (map pe_difficulty es) = Fin (rat_sum 0 (map ?d es))"
    unfolding f64_sum_def m using assms(2) ok by (intro fsum_rat [where k = 0]) auto
  have "c \<le> (1 - u64eps) ^ length es" unfolding c_def by (rule bernoulli) simp_all
  then have "c * exact_total es \<le> (1 - u64eps) ^ length es * exact_total es"
    using S by (rule mult_right_mono)
  also have "\<dots> \<le> rat_sum 0 (map ?d es)"
    using rat_sum_lower [OF _ ok, of 0] by (simp add: exact_total_def)
  finally have lo: "c * exact_total es \<le> rat_sum 0 (map ?d es)" .
  have "of_nat (length es) \<le> (2 ^ 52 :: rat)"
  proof -
    have "of_int (int (length es)) \<le> (of_int (2 ^ 52) :: rat)" using assms(2) by (simp only: of_int_le_iff)
    then show ?thesis by simp
  qed
  then have c0: "0 \<le> c" by (simp add: c_def u64eps_def)
  have "rat_sum 0 (map ?d es) * c \<le> (1 + u64eps) ^ length es * exact_total es * c"
    using rat_sum_upper [OF _ ok, of 0] c0 by (intro mult_right_mono) (simp_all add: exact_total_def)
  also have "\<dots> = (1 + u64eps) ^ length es * c * exact_total es" by (simp add: ac_simps)
  also have "\<dots> \<le> 1 * exact_total es"
    using bernoulli_up [of u64eps "length es"] S by (intro mult_right_mono) (simp_all add: c_def)
  finally show ?thesis using f lo by auto
qed

lemma exact_total_member: "\<forall>e \<in> set es. entry_ok e \<Longrightarrow> e \<in> set es \<Longrightarrow> fval (pe_difficulty e) \<le> exact_total es"
  unfolding exact_total_def
  by (rule member_le_sum_list) (use diff_okD(3) entry_okD in \<open>force+\<close>)

lemma exact_total_le: "\<forall>e \<in> set es. entry_ok e \<Longrightarrow> exact_total es \<le> of_nat (length es) * pow2 100"
proof (induction es)
  case (Cons e es)
  then have "fval (pe_difficulty e) \<le> pow2 100" using entry_okD diff_okD(2) by auto
  with Cons show ?case by (simp add: exact_total_def algebra_simps)
qed (simp add: exact_total_def)

lemma shares_sum: "es \<noteq> [] \<Longrightarrow> \<forall>e \<in> set es. entry_ok e \<Longrightarrow> sum_list (map (entry_share D es) es) = of_int D"
proof -
  assume es: "es \<noteq> []" "\<forall>e \<in> set es. entry_ok e"
  then have "0 < exact_total es"
    using exact_total_member [OF es(2), of "hd es"] entry_okD [of "hd es"] diff_okD(3) by fastforce
  then have nz: "exact_total es \<noteq> 0" by simp
  have "sum_list (map (\<lambda>e. of_int D * fval (pe_difficulty e) / S) xs)
      = of_int D * exact_total xs / S" for S xs
    by (induction xs) (simp_all add: exact_total_def distrib_left add_divide_distrib)
  from this [of "exact_total es" es] show ?thesis
    using nz by (simp add: entry_share_def [abs_def] exact_share_def)
qed

lemma pplns_entry_amount:
  assumes D: "0 < D" "(2 * int (length es) + 3) * D \<le> 2 ^ 53"
    and ok: "\<forall>e \<in> set es. entry_ok e" and e: "e \<in> set es"
  defines "C \<equiv> (1 + u64eps) ^ 2 / (1 - of_nat (length es) * u64eps)"
    and "A \<equiv> pplns_floor D (pplns_fraction (f64_sum (map pe_difficulty es)) e)"
  shows "0 \<le> A \<and> of_int A \<le> C * entry_share D es e \<and> entry_share D es e - 2 < of_int A
     \<and> of_int A \<le> entry_share D es e + 1 \<and> C * of_int D \<le> of_int D + 1 \<and> 1 \<le> C
     \<and> 0 < entry_share D es e"
proof -
  note B = small_budget [OF D]
  let ?c = "1 - of_nat (length es) * u64eps" and ?x = "entry_share D es e"
  have c: "0 < ?c" "?c \<le> 1" using B(1) by auto
  from float_total [OF ok B(5)] obtain T where T: "f64_sum (map pe_difficulty es) = Fin T"
    "?c * exact_total es \<le> T" "T * ?c \<le> exact_total es" by blast
  note m = exact_total_member [OF ok e] and o = entry_okD [of e]
  have o': "diff_ok (fval (pe_difficulty e))" "pe_difficulty e = Fin (fval (pe_difficulty e))"
    using entry_okD ok e by auto
  from entry_bounds [OF D o'(1) m exact_total_le [OF ok] T(2,3) o'(2)] obtain g where
    g: "A = \<lfloor>g\<rfloor>" "0 \<le> g" "g \<le> C * ?x" "?x - 1 \<le> g"
    unfolding A_def T(1) C_def entry_share_def by blast
  have d0: "0 < fval (pe_difficulty e)" using o'(1) diff_okD(3) by blast
  have x: "0 < ?x" "?x \<le> of_int D"
    using d0 m D(1) by (simp_all add: entry_share_def exact_share_def pos_divide_le_eq)
  have CD: "C * of_int D \<le> of_int D + 1"
    using B(3) c by (simp add: C_def pos_divide_le_eq mult.commute)
  have "1 \<le> (1 + u64eps) ^ 2" by (rule one_le_power) simp
  then have "?c \<le> (1 + u64eps) ^ 2" using c(2) by linarith
  then have C1: "1 \<le> C" using c by (simp add: C_def pos_le_divide_eq)
  have "(C - 1) * ?x \<le> (C - 1) * of_int D" using C1 x(2) by (intro mult_left_mono) auto
  then have "C * ?x \<le> ?x + 1" using CD by (simp add: algebra_simps)
  then show ?thesis using g CD C1 x(1) by (auto; linarith)
qed

section \<open>The fee\<close>

lemma distributable_Fin:
  assumes "0 \<le> net" "net \<le> 2 ^ 53" "0 \<le> f" "f \<le> 1"
  shows "distributable (Fin f) net = \<lfloor>rnd (of_int net * rnd (1 - f))\<rfloor>
    \<and> 0 \<le> rnd (of_int net * rnd (1 - f)) \<and> rnd (of_int net * rnd (1 - f)) \<le> of_int net"
proof -
  let ?y = "rnd (1 - f)"
  have y: "0 \<le> ?y" "?y \<le> 1" using assms(3,4) rnd_le_int [of 1 "1 - f"] by (simp_all add: rnd_nonneg)
  have sub: "fsub (Fin 1) (Fin f) = Fin ?y"
    using assms(3,4) by (simp add: round64_small)
  have n: "(of_int net :: rat) \<le> 2 ^ 53"
  proof -
    have "(of_int net :: rat) \<le> of_int (2 ^ 53)" using assms(2) by (simp only: of_int_le_iff)
    then show ?thesis by simp
  qed
  have "of_int net * ?y \<le> of_int net * 1" using y assms(1) by (intro mult_left_mono) auto
  then have p: "0 \<le> of_int net * ?y" "of_int net * ?y \<le> of_int net" using y assms(1) by auto
  then have "\<bar>of_int net * ?y\<bar> \<le> 2 ^ 53" using n by linarith
  then have mul: "fmul (Fin (of_int net)) (Fin ?y) = Fin (rnd (of_int net * ?y))"
    by (simp add: round64_small)
  have r: "0 \<le> rnd (of_int net * ?y)" "rnd (of_int net * ?y) \<le> of_int net"
    using p assms(1,2) rnd_le_int [of net] by (simp_all add: rnd_nonneg)
  have fl: "0 \<le> \<lfloor>rnd (of_int net * ?y)\<rfloor>" "\<lfloor>rnd (of_int net * ?y)\<rfloor> \<le> net"
    using r by (simp, metis floor_mono floor_of_int)
  have "distributable (Fin f) net = as_i64 (Fin (rnd (of_int net * ?y)))"
    using assms(1,2) by (simp add: distributable_def f64_of_int_exact sub mul del: fmul.simps fsub_Fin)
  also have "\<dots> = rtrunc (rnd (of_int net * ?y))"
    using fl assms(2) r by (intro as_i64_Fin) (simp_all add: rtrunc_nonneg)
  also have "\<dots> = \<lfloor>rnd (of_int net * ?y)\<rfloor>" using r by (simp add: rtrunc_nonneg)
  finally show ?thesis using r by simp
qed

lemma distributable_bounds:
  assumes "0 \<le> net" "net \<le> 2 ^ 53" "0 \<le> f" "f \<le> 1"
  shows "0 \<le> distributable (Fin f) net" "distributable (Fin f) net \<le> net"
proof -
  note d = distributable_Fin [OF assms]
  then show "0 \<le> distributable (Fin f) net" by simp
  show "distributable (Fin f) net \<le> net" using d by (metis floor_mono floor_of_int)
qed

end
