(* ===== verification/Vardiff.thy ===== *)
theory Vardiff
  imports Json
begin

text \<open>
  The variable difficulty tracker of a session: \<open>VardiffTracker\<close> in
  \<open>pool-core/src/difficulty.rs\<close>.  Every operation takes the clock reading \<open>now\<close>.  The facts
  at the end are the tracker's invariant (the difficulty stays a representable number between
  its two bounds) and the size and spacing of its steps.
\<close>

section \<open>Library functions of Rust\<close>

text \<open>A decimal literal, \<open>Duration::as_secs_f64\<close>, and \<open>Instant::elapsed\<close>.\<close>

definition flit :: "rat \<Rightarrow> f64" where
  "flit q = round64 q"

definition as_secs_f64 :: "nanos \<Rightarrow> f64" where
  "as_secs_f64 d = fadd (f64_of_int (int (d div 10 ^ 9)))
                        (fdiv (f64_of_int (int (d mod 10 ^ 9))) (f64_of_int (10 ^ 9)))"

definition elapsed :: "nanos \<Rightarrow> nanos \<Rightarrow> nanos" where
  "elapsed now t = now - t"

text \<open>\<open>{:.p}\<close> of a float: the exact value rounded to \<open>p\<close> decimals, ties to even.\<close>

definition pad_zeros :: "nat \<Rightarrow> string \<Rightarrow> string" where
  "pad_zeros n s = replicate (n - length s) (CHR ''0'') @ s"

definition fmt_fixed :: "nat \<Rightarrow> f64 \<Rightarrow> string" where
  "fmt_fixed p x = (case x of
     FNaN \<Rightarrow> ''NaN'' | FPosInf \<Rightarrow> ''inf'' | FNegInf \<Rightarrow> ''-inf''
   | Fin q \<Rightarrow> (let n = nat \<bar>rne (q * 10 ^ p)\<bar> in
       (if q < 0 then ''-'' else '''') @ show_nat (n div 10 ^ p)
       @ (if p = 0 then '''' else ''.'' @ pad_zeros p (show_nat (n mod 10 ^ p)))))"

section \<open>State\<close>

record vardiff_tracker =
  vd_shares_in_window :: nat
  vd_window_start :: nanos
  vd_target_shares_per_minute :: f64
  vd_retarget_interval_secs :: f64
  vd_current_difficulty :: f64
  vd_min_difficulty :: f64
  vd_max_difficulty :: f64
  vd_smoothed_ratio :: f64
  vd_last_went_up :: "bool option"
  vd_last_retarget_at :: nanos
  vd_last_early_retarget_at :: "nanos option"

definition MIN_RETARGET_INTERVAL :: nanos where
  "MIN_RETARGET_INTERVAL = 500 * 10 ^ 6"

definition EARLY_TRIGGER_COOLDOWN :: nanos where
  "EARLY_TRIGGER_COOLDOWN = 12 * 10 ^ 9"

definition MAX_DIFFICULTY :: rat where
  "MAX_DIFFICULTY = 10000000000"

definition vardiff_new :: "f64 \<Rightarrow> f64 \<Rightarrow> f64 \<Rightarrow> nanos \<Rightarrow> vardiff_tracker" where
  "vardiff_new target_spm interval initial now =
     \<lparr>vd_shares_in_window = 0, vd_window_start = now,
      vd_target_shares_per_minute = target_spm, vd_retarget_interval_secs = interval,
      vd_current_difficulty = initial, vd_min_difficulty = fmin initial (Fin 1),
      vd_max_difficulty = Fin MAX_DIFFICULTY, vd_smoothed_ratio = Fin 1,
      vd_last_went_up = None, vd_last_retarget_at = now, vd_last_early_retarget_at = None\<rparr>"

section \<open>Retargeting\<close>

definition reset_window :: "nanos \<Rightarrow> vardiff_tracker \<Rightarrow> vardiff_tracker" where
  "reset_window now v = v\<lparr>vd_shares_in_window := 0, vd_window_start := now\<rparr>"

definition shares_per_minute :: "nanos \<Rightarrow> vardiff_tracker \<Rightarrow> f64" where
  "shares_per_minute now v =
     fmul (fdiv (f64_of_int (int (vd_shares_in_window v)))
                (fmax (as_secs_f64 (elapsed now (vd_window_start v))) (flit (1 / 100))))
          (Fin 60)"

text \<open>The ramp-up and the steady-state proposal; \<open>None\<close> is the dead zone.\<close>

definition ramp_proposal :: "f64 \<Rightarrow> vardiff_tracker \<Rightarrow> f64 \<times> vardiff_tracker" where
  "ramp_proposal ratio v =
     (fclamp (fmul (vd_current_difficulty v) (fclamp ratio (flit (1 / 2)) (Fin 2)))
             (vd_min_difficulty v) (vd_max_difficulty v),
      v\<lparr>vd_smoothed_ratio := Fin 1\<rparr>)"

definition ema_update :: "f64 \<Rightarrow> vardiff_tracker \<Rightarrow> vardiff_tracker" where
  "ema_update ratio v = (let alpha = flit (3 / 20) in
     v\<lparr>vd_smoothed_ratio :=
         fadd (fmul alpha ratio) (fmul (fsub (Fin 1) alpha) (vd_smoothed_ratio v))\<rparr>)"

definition ema_proposal :: "f64 \<Rightarrow> vardiff_tracker \<Rightarrow> f64 option \<times> vardiff_tracker" where
  "ema_proposal ratio v = (let v = ema_update ratio v; sm = vd_smoothed_ratio v in
     if flt (flit (3 / 5)) sm \<and> flt sm (flit (3 / 2)) then (None, v)
     else (Some (fclamp (fmul (vd_current_difficulty v)
                              (fclamp sm (flit (4 / 5)) (flit (5 / 4))))
                        (vd_min_difficulty v) (vd_max_difficulty v)), v))"

text \<open>Oscillation: a reversal of direction takes the midpoint.\<close>

definition arrow_mid :: string where
  "arrow_mid = [char_of (226 :: nat), char_of (134 :: nat), char_of (146 :: nat)] @ ''mid''"

definition damp :: "vardiff_tracker \<Rightarrow> f64 \<Rightarrow> string \<Rightarrow> f64 \<times> string" where
  "damp v new_difficulty phase =
     (let going_up = flt (vd_current_difficulty v) new_difficulty in
      case vd_last_went_up v of
        Some last_up \<Rightarrow>
          if last_up \<noteq> going_up
          then (fdiv (fadd (vd_current_difficulty v) new_difficulty) (Fin 2), phase @ arrow_mid)
          else (new_difficulty, phase)
      | None \<Rightarrow> (new_difficulty, phase))"

definition reason_text :: "string \<Rightarrow> string \<Rightarrow> f64 \<Rightarrow> f64 \<Rightarrow> string" where
  "reason_text trigger phase spm ratio =
     trigger @ '' '' @ phase @ '' ('' @ fmt_fixed 1 spm @ '' spm, ratio '' @ fmt_fixed 2 ratio @ '')''"

definition apply_difficulty ::
  "string \<Rightarrow> nanos \<Rightarrow> f64 \<Rightarrow> string \<Rightarrow> vardiff_tracker \<Rightarrow> (f64 \<times> string) option \<times> vardiff_tracker" where
  "apply_difficulty trigger now final reason v =
     (let up = flt (vd_current_difficulty v) final in
      (Some (final, (if up then ''up'' else ''down'') @ '': '' @ reason),
       (reset_window now v)\<lparr>vd_last_went_up := Some up, vd_current_difficulty := final,
          vd_last_retarget_at := now,
          vd_last_early_retarget_at :=
            (if trigger = ''early-trigger'' then Some now else vd_last_early_retarget_at v)\<rparr>))"

definition compute_retarget ::
  "string \<Rightarrow> nanos \<Rightarrow> vardiff_tracker \<Rightarrow> (f64 \<times> string) option \<times> vardiff_tracker" where
  "compute_retarget trigger now v =
     (if elapsed now (vd_last_retarget_at v) < MIN_RETARGET_INTERVAL then (None, v)
      else let spm = shares_per_minute now v in
        if fle (Fin 10) spm \<and> fle spm (Fin 50) then (None, reset_window now v)
        else let ratio = fdiv spm (vd_target_shares_per_minute v) in
          if flt (Fin 4) ratio \<or> flt ratio (flit (1 / 4))
          then let (new, v1) = ramp_proposal ratio v;
                   (final, phase) = damp v1 new ''ramp''
               in apply_difficulty trigger now final (reason_text trigger phase spm ratio) v1
          else (case ema_proposal ratio v of
                  (None, v1) \<Rightarrow> (None, reset_window now v1)
                | (Some new, v1) \<Rightarrow>
                    let (final, phase) = damp v1 new ''ema''
                    in apply_difficulty trigger now final (reason_text trigger phase spm ratio) v1))"

definition count_share :: "vardiff_tracker \<Rightarrow> vardiff_tracker" where
  "count_share v = v\<lparr>vd_shares_in_window := vd_shares_in_window v + 1\<rparr>"

definition in_early_cooldown :: "nanos \<Rightarrow> vardiff_tracker \<Rightarrow> bool" where
  "in_early_cooldown now v = (case vd_last_early_retarget_at v of
     None \<Rightarrow> False | Some t \<Rightarrow> elapsed now t < EARLY_TRIGGER_COOLDOWN)"

definition record_share_vd ::
  "nanos \<Rightarrow> vardiff_tracker \<Rightarrow> (f64 \<times> string) option \<times> vardiff_tracker" where
  "record_share_vd now v0 =
     (let v = count_share v0;
          secs = as_secs_f64 (elapsed now (vd_window_start v));
          expected = fdiv (fmul (vd_target_shares_per_minute v) secs) (Fin 60);
          early = flt (fmul expected (Fin 4)) (f64_of_int (int (vd_shares_in_window v)))
                  \<and> fle (Fin 3) secs \<and> \<not> in_early_cooldown now v
      in if \<not> early \<and> flt secs (vd_retarget_interval_secs v) then (None, v)
         else compute_retarget (if early then ''early-trigger'' else ''interval'') now v)"

definition force_retarget :: "nanos \<Rightarrow> vardiff_tracker \<Rightarrow> (f64 \<times> string) option \<times> vardiff_tracker" where
  "force_retarget now v = compute_retarget ''rate-limit'' now (count_share v)"

definition window_elapsed_secs :: "nanos \<Rightarrow> vardiff_tracker \<Rightarrow> f64" where
  "window_elapsed_secs now v = as_secs_f64 (elapsed now (vd_window_start v))"

section \<open>Facts\<close>

lemma as_secs_range:
  assumes "d < 2 ^ 64 * 10 ^ 9"
  shows "\<exists>q. as_secs_f64 d = Fin q \<and> 0 \<le> q"
proof -
  have a: "int (d div 10 ^ 9) \<le> 2 ^ 64" using assms by (simp add: less_mult_imp_div_less)
  have b: "int (d mod 10 ^ 9) \<le> 10 ^ 9" by simp
  have r: "(of_int (2 ^ 64) :: rat) \<le> 2 ^ 1000" by simp
  have a1: "(of_int (int (d div 10 ^ 9)) :: rat) \<le> of_int (2 ^ 64)" using a by (simp only: of_int_le_iff)
  have a0: "(0 :: rat) \<le> of_int (int (d div 10 ^ 9))" by simp
  note a' = a0 a1
  have A: "f64_of_int (int (d div 10 ^ 9)) = Fin (rnd (of_int (int (d div 10 ^ 9))))"
    unfolding f64_of_int_def using a' r by (intro round64_rep_bounded) linarith+
  have "rep64 (of_int (2 ^ 64))" using rep64_pow2 [of 64] by (simp add: pow2_nat')
  then have A2: "rnd (of_int (int (d div 10 ^ 9))) \<le> of_int (2 ^ 64)" using a'(2) by (rule rep64_le)
  have A3: "0 \<le> rnd (of_int (int (d div 10 ^ 9)))" using a'(1) by (rule rnd_nonneg)
  let ?y = "of_int (int (d mod 10 ^ 9)) / 10 ^ 9 :: rat"
  have y: "0 \<le> ?y" "?y \<le> 1" using b by (simp_all add: pos_divide_le_eq)
  have y2: "0 \<le> rnd ?y" "rnd ?y \<le> 1" using y rnd_le_int [of 1 ?y] by (simp_all add: rnd_nonneg)
  have B: "fdiv (f64_of_int (int (d mod 10 ^ 9))) (f64_of_int (10 ^ 9)) = Fin (rnd ?y)"
    using b y by (simp add: f64_of_int_exact round64_small)
  let ?z = "rnd (of_int (int (d div 10 ^ 9))) + rnd ?y"
  have "0 \<le> ?z" "?z \<le> 2 ^ 1000" using A2 A3 y2 r by auto
  then have "as_secs_f64 d = Fin (rnd ?z)"
    unfolding as_secs_f64_def A B by (simp add: round64_rep_bounded)
  then show ?thesis using \<open>0 \<le> ?z\<close> rnd_nonneg by blast
qed

definition vd_ok :: "vardiff_tracker \<Rightarrow> bool" where
  "vd_ok v \<longleftrightarrow> (\<exists>c lo t sm. vd_current_difficulty v = Fin c \<and> vd_min_difficulty v = Fin lo
     \<and> vd_max_difficulty v = Fin MAX_DIFFICULTY \<and> vd_target_shares_per_minute v = Fin t
     \<and> vd_smoothed_ratio v = Fin sm \<and> 0 < t \<and> 0 \<le> sm \<and> sm \<le> 6
     \<and> pow2 (- 999) \<le> lo \<and> lo \<le> c \<and> c \<le> MAX_DIFFICULTY \<and> rep64 lo \<and> rep64 c)"

lemma spm_fpos:
  assumes "now < 2 ^ 64 * 10 ^ 9"
  shows "fpos (shares_per_minute now v)"
proof -
  have "elapsed now (vd_window_start v) < 2 ^ 64 * 10 ^ 9" using assms by (simp add: elapsed_def)
  from as_secs_range [OF this] obtain q where
    q: "as_secs_f64 (elapsed now (vd_window_start v)) = Fin q" "0 \<le> q" by blast
  have fl: "flit (1 / 100) = Fin (rnd (1 / 100))" by (simp add: flit_def round64_small)
  have "0 < rnd (1 / 100 :: rat)" by code_simp
  then have m: "\<exists>y. fmax (Fin q) (flit (1 / 100)) = Fin y \<and> 0 < y"
    by (auto simp: fl fmax_def)
  have "fpos (f64_of_int (int (vd_shares_in_window v)))"
    unfolding f64_of_int_def by (rule fpos_round64) simp
  with m q show ?thesis unfolding shares_per_minute_def
    by (auto intro!: fpos_mul fpos_div)
qed

lemma step_bounds:
  assumes "rep64 c" "pow2 (- 999) \<le> c" "c \<le> MAX_DIFFICULTY" "1 / 2 \<le> k" "k \<le> 2"
    "rep64 lo" "pow2 (- 999) \<le> lo" "lo \<le> c"
  shows "\<exists>d. fclamp (fmul (Fin c) (Fin k)) (Fin lo) (Fin MAX_DIFFICULTY) = Fin d
    \<and> rep64 d \<and> lo \<le> d \<and> d \<le> MAX_DIFFICULTY \<and> c / 2 \<le> d \<and> d \<le> 2 * c"
proof -
  have c0: "0 < c" using assms(2) pow2_pos [of "- 999"] by linarith
  have hk: "c / 2 \<le> c * k" using mult_left_mono [OF assms(4), of c] c0 by simp
  have dk: "c * k \<le> 2 * c" using mult_left_mono [OF assms(5), of c] c0 by simp
  have c999: "pow2 (- 1000) \<le> c" using assms(2) pow2_mono [of "- 1000" "- 999"] by linarith
  have r1: "c / 2 \<le> rnd (c * k)" using rep64_half [OF assms(1) c999] hk by (rule rep64_ge)
  have r2: "rnd (c * k) \<le> 2 * c" using rep64_double [OF assms(1)] dk by (rule rep64_le)
  have "(2 * MAX_DIFFICULTY :: rat) \<le> 2 ^ 1000" by (simp add: MAX_DIFFICULTY_def)
  then have "c * k \<le> 2 ^ 1000" "0 \<le> c * k" using dk assms(3) hk c0 by linarith+
  then have m: "fmul (Fin c) (Fin k) = Fin (rnd (c * k))"
    by (simp add: round64_rep_bounded)
  have lm: "lo \<le> MAX_DIFFICULTY" using assms by linarith
  have rm: "rep64 MAX_DIFFICULTY" using rep64_int [of 10000000000] by (simp add: MAX_DIFFICULTY_def)
  let ?d = "max lo (min MAX_DIFFICULTY (rnd (c * k)))"
  have "fclamp (fmul (Fin c) (Fin k)) (Fin lo) (Fin MAX_DIFFICULTY) = Fin ?d"
    unfolding m by (rule fclamp_Fin [OF lm])
  moreover have "rep64 ?d" using assms(6) rm by (simp add: max_def min_def)
  moreover have "c / 2 \<le> ?d" "?d \<le> 2 * c" "lo \<le> ?d" "?d \<le> MAX_DIFFICULTY"
    using r1 r2 assms(3,8) lm c0 by auto
  ultimately show ?thesis by blast
qed

lemma midpoint_bounds:
  assumes "rep64 c" "rep64 d" "pow2 (- 999) \<le> c" "pow2 (- 999) \<le> d" "c \<le> MAX_DIFFICULTY" "d \<le> MAX_DIFFICULTY"
  shows "\<exists>m. fdiv (fadd (Fin c) (Fin d)) (Fin 2) = Fin m \<and> rep64 m \<and> min c d \<le> m \<and> m \<le> max c d"
proof -
  have p: "0 < c" "0 < d" using assms(3,4) pow2_pos [of "- 999"] by linarith+
  have "rep64 (2 * max c d)" "rep64 (2 * min c d)"
    using assms(1,2) rep64_double [of c] rep64_double [of d] by (auto simp: max_def min_def)
  then have s: "2 * min c d \<le> rnd (c + d)" "rnd (c + d) \<le> 2 * max c d"
    by (auto intro!: rep64_ge rep64_le)
  have b: "c + d \<le> 2 ^ 53" "0 \<le> c + d" using assms(5,6) p by (auto simp: MAX_DIFFICULTY_def)
  have h: "rnd (c + d) / 2 \<le> 2 ^ 53" "0 \<le> rnd (c + d) / 2" using s(2) assms(5,6) b(2) rnd_nonneg
    by (auto simp: MAX_DIFFICULTY_def)
  have f: "fdiv (fadd (Fin c) (Fin d)) (Fin 2) = Fin (rnd (rnd (c + d) / 2))"
    using b h by (simp add: round64_small)
  have "rep64 (min c d)" "rep64 (max c d)" using assms(1,2) by (auto simp: max_def min_def)
  moreover have "min c d \<le> rnd (c + d) / 2" "rnd (c + d) / 2 \<le> max c d" using s by auto
  ultimately have "min c d \<le> rnd (rnd (c + d) / 2)" "rnd (rnd (c + d) / 2) \<le> max c d"
    by (auto intro: rep64_ge rep64_le)
  then show ?thesis using f by auto
qed

text \<open>A proposal that keeps the bounds and moves by at most a factor of two.\<close>

definition good_step :: "vardiff_tracker \<Rightarrow> f64 \<Rightarrow> bool" where
  "good_step v f \<longleftrightarrow> (\<exists>c lo d. vd_current_difficulty v = Fin c \<and> vd_min_difficulty v = Fin lo
     \<and> f = Fin d \<and> rep64 d \<and> lo \<le> d \<and> d \<le> MAX_DIFFICULTY \<and> c / 2 \<le> d \<and> d \<le> 2 * c)"

lemma proposal_good:
  assumes "vd_ok v" "1 / 2 \<le> k" "k \<le> 2"
  shows "good_step v (fclamp (fmul (vd_current_difficulty v) (Fin k))
    (vd_min_difficulty v) (vd_max_difficulty v))"
proof -
  from assms(1) obtain c lo where v: "vd_current_difficulty v = Fin c" "vd_min_difficulty v = Fin lo"
    "vd_max_difficulty v = Fin MAX_DIFFICULTY" "pow2 (- 999) \<le> lo" "lo \<le> c" "c \<le> MAX_DIFFICULTY"
    "rep64 lo" "rep64 c" by (auto simp: vd_ok_def)
  have "pow2 (- 999) \<le> c" using v(4,5) by linarith
  from step_bounds [OF v(8) this v(6) assms(2,3) v(7,4,5)] show ?thesis
    unfolding good_step_def v by blast
qed

lemma damp_good:
  assumes "vd_ok v" "good_step v d"
  shows "good_step v (fst (damp v d phase))"
proof -
  from assms obtain c lo x where v: "vd_current_difficulty v = Fin c" "vd_min_difficulty v = Fin lo"
    "pow2 (- 999) \<le> lo" "lo \<le> c" "c \<le> MAX_DIFFICULTY" "rep64 c" and x: "d = Fin x" "rep64 x" "lo \<le> x"
    "x \<le> MAX_DIFFICULTY" "c / 2 \<le> x" "x \<le> 2 * c"
    by (auto simp: vd_ok_def good_step_def)
  have p: "pow2 (- 999) \<le> c" "pow2 (- 999) \<le> x" using v(3,4) x(3) by linarith+
  have c0: "0 < c" using p(1) pow2_pos [of "- 999"] by linarith
  from midpoint_bounds [OF v(6) x(2) p v(5) x(4)] obtain m where
    m: "fdiv (fadd (Fin c) (Fin x)) (Fin 2) = Fin m" "rep64 m" "min c x \<le> m" "m \<le> max c x" by blast
  have "good_step v (Fin m)"
    unfolding good_step_def v using m(2-4) v(4,5) x(3-6) c0 by auto
  then show ?thesis using assms(2) m(1) by (simp add: damp_def v(1) x(1) Let_def split: option.splits)
qed

lemma reset_window_fields [simp]:
  "vd_current_difficulty (reset_window now v) = vd_current_difficulty v"
  "vd_min_difficulty (reset_window now v) = vd_min_difficulty v"
  "vd_last_retarget_at (reset_window now v) = vd_last_retarget_at v"
  "vd_last_early_retarget_at (reset_window now v) = vd_last_early_retarget_at v"
  "vd_ok (reset_window now v) = vd_ok v"
  by (simp_all add: reset_window_def vd_ok_def)

lemma good_step_cong:
  "vd_current_difficulty v' = vd_current_difficulty v \<Longrightarrow> vd_min_difficulty v' = vd_min_difficulty v \<Longrightarrow>
   good_step v' d = good_step v d"
  by (simp add: good_step_def)

lemma apply_ok:
  assumes "vd_ok v" "good_step v d"
  shows "vd_ok (snd (apply_difficulty trig now d why v))"
  using assms by (auto simp: vd_ok_def good_step_def apply_difficulty_def Let_def reset_window_def)

lemma ratio_cases:
  assumes "vd_ok v" "now < 2 ^ 64 * 10 ^ 9"
  shows "fpos (fdiv (shares_per_minute now v) (vd_target_shares_per_minute v))"
  using assms fpos_div [OF spm_fpos [OF assms(2)]] by (auto simp: vd_ok_def)

lemma ramp_factor: "fpos r \<Longrightarrow> \<exists>k. fclamp r (flit (1 / 2)) (Fin 2) = Fin k \<and> 1 / 2 \<le> k \<and> k \<le> 2"
proof -
  assume r: "fpos r"
  have "rnd (1 / 2 :: rat) = 1 / 2" using rnd_pow2 [of "- 1"] by (simp add: pow2_minus pow2_nat')
  then have h: "flit (1 / 2) = Fin (1 / 2)" by (simp add: flit_def round64_small)
  show ?thesis
  proof (cases r)
    case (Fin q)
    then show ?thesis unfolding h using fclamp_Fin [of "1 / 2" 2 q] by auto
  qed (use r in \<open>auto simp: fpos_def h fclamp_def\<close>)
qed

lemma alpha_bounds: "\<exists>a. flit (3 / 20) = Fin a \<and> 0 \<le> a \<and> a \<le> 3 / 16
  \<and> (\<exists>b. fsub (Fin 1) (Fin a) = Fin b \<and> 0 \<le> b \<and> b \<le> 7 / 8)"
proof -
  have a: "flit (3 / 20) = Fin (5404319552844595 / 36028797018963968)" by code_simp
  have b: "fsub (Fin 1) (Fin (5404319552844595 / 36028797018963968)) = Fin (7656119366529843 / 9007199254740992)"
    by code_simp
  show ?thesis using a b by (intro exI conjI) (assumption | simp)+
qed

lemma ema_smoothed:
  assumes "0 \<le> r" "r \<le> 4" "vd_ok v"
  shows "\<exists>s. vd_smoothed_ratio (ema_update (Fin r) v) = Fin s \<and> 0 \<le> s \<and> s \<le> 6"
proof -
  from alpha_bounds obtain a b where a: "flit (3 / 20) = Fin a" "0 \<le> a" "a \<le> 3 / 16"
    "fsub (Fin 1) (Fin a) = Fin b" "0 \<le> b" "b \<le> 7 / 8" by blast
  from assms(3) obtain s where s: "vd_smoothed_ratio v = Fin s" "0 \<le> s" "s \<le> 6"
    by (auto simp: vd_ok_def)
  have "a * r \<le> 3 / 16 * 4" "b * s \<le> 7 / 8 * 6" using a assms(1,2) s by (intro mult_mono; simp)+
  then have b1: "a * r \<le> 3 / 4" "b * s \<le> 21 / 4" "0 \<le> a * r" "0 \<le> b * s" using a s assms(1) by auto
  have rp: "rep64 (3 / 4)" "rep64 (21 / 4)"
    using rep64_dyadic [of 3 "- 2"] rep64_dyadic [of 21 "- 2"] by (simp_all add: pow2_minus pow2_nat')
  have x: "rnd (a * r) \<le> 3 / 4" "rnd (b * s) \<le> 21 / 4" "0 \<le> rnd (a * r)" "0 \<le> rnd (b * s)"
    using rep64_le [OF rp(1) b1(1)] rep64_le [OF rp(2) b1(2)] b1(3,4) rnd_nonneg by blast+
  have y: "rnd (rnd (a * r) + rnd (b * s)) \<le> 6" "0 \<le> rnd (rnd (a * r) + rnd (b * s))"
    using x rnd_le_int [of 6 "rnd (a * r) + rnd (b * s)"] by (auto intro: rnd_nonneg)
  have m: "fmul (Fin a) (Fin r) = Fin (rnd (a * r))" "fmul (Fin b) (Fin s) = Fin (rnd (b * s))"
    using b1 by (simp_all add: round64_small)
  have "fadd (Fin (rnd (a * r))) (Fin (rnd (b * s))) = Fin (rnd (rnd (a * r) + rnd (b * s)))"
    using x by (simp add: round64_small)
  then show ?thesis using y by (simp add: ema_update_def Let_def a s m del: fadd.simps fmul.simps fsub_Fin)
qed

lemma ema_factor: "\<exists>k. fclamp (Fin s) (flit (4 / 5)) (flit (5 / 4)) = Fin k \<and> 1 / 2 \<le> k \<and> k \<le> 2"
proof -
  have "rnd (4 / 5 :: rat) = 3602879701896397 / 4503599627370496" "rnd (5 / 4 :: rat) = 5 / 4" by code_simp+
  then have f: "flit (4 / 5) = Fin (3602879701896397 / 4503599627370496)" "flit (5 / 4) = Fin (5 / 4)"
    by (simp_all add: flit_def round64_small)
  show ?thesis unfolding f
    using fclamp_Fin [of "3602879701896397 / 4503599627370496" "5 / 4" s] by (auto simp: max_def min_def)
qed

lemma ramp_ok:
  assumes "vd_ok v" "fpos r"
  shows "vd_ok (snd (ramp_proposal r v))" "good_step (snd (ramp_proposal r v)) (fst (ramp_proposal r v))"
proof -
  show "vd_ok (snd (ramp_proposal r v))" using assms(1) by (auto simp: ramp_proposal_def vd_ok_def)
  from ramp_factor [OF assms(2)] obtain k where k: "fclamp r (flit (1 / 2)) (Fin 2) = Fin k" "1 / 2 \<le> k" "k \<le> 2" by blast
  from proposal_good [OF assms(1) k(2,3)]
  show "good_step (snd (ramp_proposal r v)) (fst (ramp_proposal r v))"
    by (simp add: ramp_proposal_def k(1) good_step_def)
qed

lemma ema_ok:
  assumes "vd_ok v" "0 \<le> r" "r \<le> 4"
  shows "vd_ok (snd (ema_proposal (Fin r) v))"
    and "fst (ema_proposal (Fin r) v) = Some d \<Longrightarrow> good_step (snd (ema_proposal (Fin r) v)) d"
proof -
  from ema_smoothed [OF assms(2,3,1)] obtain s where
    s: "vd_smoothed_ratio (ema_update (Fin r) v) = Fin s" "0 \<le> s" "s \<le> 6" by blast
  have u: "vd_ok (ema_update (Fin r) v)"
    using assms(1) s by (auto simp: vd_ok_def ema_update_def Let_def)
  then show "vd_ok (snd (ema_proposal (Fin r) v))" by (simp add: ema_proposal_def Let_def)
  assume d: "fst (ema_proposal (Fin r) v) = Some d"
  from ema_factor [of s] obtain k where
    k: "fclamp (Fin s) (flit (4 / 5)) (flit (5 / 4)) = Fin k" "1 / 2 \<le> k" "k \<le> 2" by blast
  from proposal_good [OF u k(2,3)] d
  show "good_step (snd (ema_proposal (Fin r) v)) d"
    by (auto simp: ema_proposal_def Let_def s(1) k(1) split: if_splits)
qed

text \<open>One retarget, accepted or not.\<close>

definition retarget_post ::
  "string \<Rightarrow> nanos \<Rightarrow> vardiff_tracker \<Rightarrow> (f64 \<times> string) option \<times> vardiff_tracker \<Rightarrow> bool" where
  "retarget_post trig now v out \<longleftrightarrow> (case out of
     (None, v') \<Rightarrow> vd_ok v' \<and> vd_current_difficulty v' = vd_current_difficulty v
       \<and> vd_min_difficulty v' = vd_min_difficulty v
       \<and> vd_last_retarget_at v' = vd_last_retarget_at v
       \<and> vd_last_early_retarget_at v' = vd_last_early_retarget_at v
   | (Some (d, why), v') \<Rightarrow> vd_ok v' \<and> vd_current_difficulty v' = d \<and> good_step v d
       \<and> vd_min_difficulty v' = vd_min_difficulty v
       \<and> MIN_RETARGET_INTERVAL \<le> elapsed now (vd_last_retarget_at v)
       \<and> vd_last_retarget_at v' = now
       \<and> vd_last_early_retarget_at v'
           = (if trig = ''early-trigger'' then Some now else vd_last_early_retarget_at v))"

lemma apply_post:
  assumes "vd_ok v1" "good_step v1 d" "\<not> elapsed now (vd_last_retarget_at v) < MIN_RETARGET_INTERVAL"
    "vd_current_difficulty v1 = vd_current_difficulty v" "vd_min_difficulty v1 = vd_min_difficulty v"
    "vd_last_early_retarget_at v1 = vd_last_early_retarget_at v"
  shows "retarget_post trig now v (apply_difficulty trig now d why v1)"
  using apply_ok [OF assms(1,2)] assms(2-) good_step_cong [OF assms(4,5)]
  by (auto simp: retarget_post_def apply_difficulty_def Let_def reset_window_def)

lemma proposal_fields [simp]:
  "vd_current_difficulty (snd (ramp_proposal r v)) = vd_current_difficulty v"
  "vd_min_difficulty (snd (ramp_proposal r v)) = vd_min_difficulty v"
  "vd_last_retarget_at (snd (ramp_proposal r v)) = vd_last_retarget_at v"
  "vd_last_early_retarget_at (snd (ramp_proposal r v)) = vd_last_early_retarget_at v"
  "vd_current_difficulty (snd (ema_proposal r v)) = vd_current_difficulty v"
  "vd_min_difficulty (snd (ema_proposal r v)) = vd_min_difficulty v"
  "vd_last_retarget_at (snd (ema_proposal r v)) = vd_last_retarget_at v"
  "vd_last_early_retarget_at (snd (ema_proposal r v)) = vd_last_early_retarget_at v"
  by (simp_all add: ramp_proposal_def ema_proposal_def ema_update_def Let_def)

lemma compute_retarget_post:
  assumes v: "vd_ok v" and now: "now < 2 ^ 64 * 10 ^ 9"
  shows "retarget_post trig now v (compute_retarget trig now v)"
proof (cases "elapsed now (vd_last_retarget_at v) < MIN_RETARGET_INTERVAL")
  case True
  then show ?thesis using v by (simp add: compute_retarget_def retarget_post_def)
next
  case el: False
  let ?spm = "shares_per_minute now v"
  let ?r = "fdiv ?spm (vd_target_shares_per_minute v)"
  show ?thesis
  proof (cases "fle (Fin 10) ?spm \<and> fle ?spm (Fin 50)")
    case True
    then show ?thesis using el v by (simp add: compute_retarget_def Let_def retarget_post_def)
  next
    case far: False
    have fp: "fpos ?r" by (rule ratio_cases [OF v now])
    show ?thesis
    proof (cases "flt (Fin 4) ?r \<or> flt ?r (flit (1 / 4))")
      case True
      obtain d v1 where p: "ramp_proposal ?r v = (d, v1)" by fastforce
      obtain f ph where q: "damp v1 d ''ramp'' = (f, ph)" by fastforce
      have o: "vd_ok v1" "good_step v1 d" using ramp_ok [OF v fp] by (simp_all add: p)
      have g: "good_step v1 f" using damp_good [OF o, of "''ramp''"] by (simp add: q)
      have eq: "compute_retarget trig now v
          = apply_difficulty trig now f (reason_text trig ph ?spm ?r) v1"
        using el far True unfolding compute_retarget_def Let_def by (auto simp: p q)
      show ?thesis unfolding eq using proposal_fields [of ?r v]
        by (intro apply_post [OF o(1) g el]) (simp_all add: p)
    next
      case False
      from False fp obtain q where q: "?r = Fin q" "0 \<le> q" "q \<le> 4" by (auto simp: fpos_def)
      obtain x v1 where p: "ema_proposal ?r v = (x, v1)" by fastforce
      note E = ema_ok [OF v q(2,3), folded q(1)]
      show ?thesis
      proof (cases x)
        case None
        then have eq: "compute_retarget trig now v = (None, reset_window now v1)"
          using el far False unfolding compute_retarget_def Let_def by (auto simp: p)
        show ?thesis unfolding eq using E(1) proposal_fields [of ?r v]
          by (simp add: p retarget_post_def)
      next
        case (Some d)
        obtain f ph where s: "damp v1 d ''ema'' = (f, ph)" by fastforce
        have o: "vd_ok v1" "good_step v1 d" using E(1) E(2) [of d] Some by (simp_all add: p)
        have g: "good_step v1 f" using damp_good [OF o, of "''ema''"] by (simp add: s)
        have eq: "compute_retarget trig now v
            = apply_difficulty trig now f (reason_text trig ph ?spm ?r) v1"
          using el far False Some unfolding compute_retarget_def Let_def by (auto simp: p s)
        show ?thesis unfolding eq using proposal_fields [of ?r v]
          by (intro apply_post [OF o(1) g el]) (simp_all add: p)
      qed
    qed
  qed
qed

lemma count_share_fields [simp]:
  "vd_ok (count_share v) = vd_ok v"
  "vd_current_difficulty (count_share v) = vd_current_difficulty v"
  "vd_min_difficulty (count_share v) = vd_min_difficulty v"
  "vd_last_retarget_at (count_share v) = vd_last_retarget_at v"
  "vd_last_early_retarget_at (count_share v) = vd_last_early_retarget_at v"
  "good_step (count_share v) d = good_step v d"
  by (simp_all add: count_share_def vd_ok_def good_step_def)

lemma count_share_post: "retarget_post trig now (count_share v) out = retarget_post trig now v out"
  unfolding retarget_post_def count_share_fields by (rule refl)

section \<open>Runs\<close>

text \<open>A run logs every retarget: the time, whether it was an early trigger, old and new difficulty.\<close>

datatype vd_op = Record_share (vd_time: nanos) | Force_retarget (vd_time: nanos)

fun vd_step :: "vd_op \<Rightarrow> vardiff_tracker \<Rightarrow> (f64 \<times> string) option \<times> vardiff_tracker" where
  "vd_step (Record_share now) v = record_share_vd now v"
| "vd_step (Force_retarget now) v = force_retarget now v"

record vd_event =
  ve_time :: nanos
  ve_early :: bool
  ve_old :: f64
  ve_new :: f64

fun vd_run :: "vd_op list \<Rightarrow> vardiff_tracker \<Rightarrow> vd_event list \<times> vardiff_tracker" where
  "vd_run [] v = ([], v)"
| "vd_run (op # ops) v =
     (let (out, v1) = vd_step op v; (es, v2) = vd_run ops v1 in
      case out of
        None \<Rightarrow> (es, v2)
      | Some (d, _) \<Rightarrow> (\<lparr>ve_time = vd_time op,
             ve_early = (vd_last_early_retarget_at v1 \<noteq> vd_last_early_retarget_at v),
             ve_old = vd_current_difficulty v, ve_new = d\<rparr> # es, v2))"

lemma record_share_post:
  assumes "vd_ok v" "now < 2 ^ 64 * 10 ^ 9"
  shows "\<exists>trig. retarget_post trig now v (record_share_vd now v)
    \<and> (trig = ''early-trigger'' \<longrightarrow> \<not> in_early_cooldown now v)"
proof -
  have ok: "vd_ok (count_share v)" using assms(1) by simp
  have cd: "in_early_cooldown now (count_share v) = in_early_cooldown now v"
    by (simp add: in_early_cooldown_def)
  note P = compute_retarget_post [OF ok assms(2), unfolded count_share_post]
  have none: "retarget_post ''interval'' now v (None, count_share v)"
    using ok by (simp add: retarget_post_def)
  show ?thesis
    unfolding record_share_vd_def Let_def cd
    using P none by (auto intro: exI [of _ "''interval''"] exI [of _ "''early-trigger''"])
qed

lemma vd_step_post:
  assumes "vd_ok v" "vd_time op < 2 ^ 64 * 10 ^ 9"
  shows "\<exists>trig. retarget_post trig (vd_time op) v (vd_step op v)
    \<and> (trig = ''early-trigger'' \<longrightarrow> \<not> in_early_cooldown (vd_time op) v)"
proof (cases op)
  case (Record_share now)
  then show ?thesis using record_share_post assms by simp
next
  case (Force_retarget now)
  have "vd_ok (count_share v)" using assms(1) by simp
  from compute_retarget_post [OF this assms(2), of "''rate-limit''", unfolded count_share_post]
  show ?thesis using Force_retarget by (intro exI [of _ "''rate-limit''"]) (simp add: force_retarget_def)
qed

text \<open>What one step of a run guarantees, and the run by induction.\<close>

definition halves_or_doubles :: "vd_event \<Rightarrow> bool" where
  "halves_or_doubles e \<longleftrightarrow> fval (ve_old e) / 2 \<le> fval (ve_new e) \<and> fval (ve_new e) \<le> 2 * fval (ve_old e)
     \<and> is_fin (ve_old e) \<and> is_fin (ve_new e)"

lemma vd_run_ok:
  assumes "vd_ok v" "\<forall>op \<in> set ops. vd_time op < 2 ^ 64 * 10 ^ 9" "vd_run ops v = (es, v')"
  shows "vd_ok v' \<and> vd_min_difficulty v' = vd_min_difficulty v \<and> (\<forall>e \<in> set es. halves_or_doubles e)"
  using assms
proof (induction ops arbitrary: v es)
  case (Cons op ops)
  obtain out v1 where s: "vd_step op v = (out, v1)" by fastforce
  obtain es1 v2 where r: "vd_run ops v1 = (es1, v2)" by fastforce
  from vd_step_post [of v op] Cons.prems(1,2) s obtain trig where
    p: "retarget_post trig (vd_time op) v (out, v1)" by auto
  have v2: "v2 = v'" using Cons.prems(3) by (auto simp: s r split: option.splits)
  have ok1: "vd_ok v1" "vd_min_difficulty v1 = vd_min_difficulty v"
    using p by (auto simp: retarget_post_def split: option.splits)
  have IH: "vd_ok v2 \<and> vd_min_difficulty v2 = vd_min_difficulty v1 \<and> (\<forall>e \<in> set es1. halves_or_doubles e)"
    using Cons.IH [OF ok1(1) _ r [unfolded v2]] Cons.prems(2) v2 by simp
  show ?case
  proof (cases out)
    case None
    then show ?thesis using Cons.prems(3) IH ok1 by (auto simp: s r)
  next
    case (Some dw)
    obtain d w where dw: "dw = (d, w)" by fastforce
    have "good_step v d" using p Some dw by (simp add: retarget_post_def)
    then have "halves_or_doubles \<lparr>ve_time = vd_time op,
        ve_early = (vd_last_early_retarget_at v1 \<noteq> vd_last_early_retarget_at v),
        ve_old = vd_current_difficulty v, ve_new = d\<rparr>"
      by (auto simp: good_step_def halves_or_doubles_def is_fin_def)
    then show ?thesis using Cons.prems(3) IH ok1 Some dw by (auto simp: s r)
  qed
qed simp

definition spaced :: "nanos \<Rightarrow> vd_event \<Rightarrow> vd_event \<Rightarrow> bool" where
  "spaced gap e f \<longleftrightarrow> ve_time e + gap \<le> ve_time f"

lemma vd_run_spaced:
  assumes "vd_ok v" "\<forall>op \<in> set ops. vd_time op < 2 ^ 64 * 10 ^ 9" "sorted (map vd_time ops)"
    "vd_run ops v = (es, v')"
    "\<forall>op \<in> set ops. vd_last_retarget_at v \<le> vd_time op"
    "\<forall>t. vd_last_early_retarget_at v = Some t \<longrightarrow> (\<forall>op \<in> set ops. t \<le> vd_time op)"
  shows "sorted_wrt (spaced MIN_RETARGET_INTERVAL) es
    \<and> (\<forall>e \<in> set es. vd_last_retarget_at v + MIN_RETARGET_INTERVAL \<le> ve_time e)
    \<and> sorted_wrt (spaced EARLY_TRIGGER_COOLDOWN) (filter ve_early es)
    \<and> (\<forall>t. vd_last_early_retarget_at v = Some t \<longrightarrow>
         (\<forall>e \<in> set (filter ve_early es). t + EARLY_TRIGGER_COOLDOWN \<le> ve_time e))"
  using assms
proof (induction ops arbitrary: v es)
  case (Cons op ops)
  obtain out v1 where s: "vd_step op v = (out, v1)" by fastforce
  obtain es1 v2 where r: "vd_run ops v1 = (es1, v2)" by fastforce
  from vd_step_post [of v op] Cons.prems(1,2) s obtain trig where
    p: "retarget_post trig (vd_time op) v (out, v1)"
    and cd: "trig = ''early-trigger'' \<longrightarrow> \<not> in_early_cooldown (vd_time op) v" by auto
  have ok1: "vd_ok v1" using p by (auto simp: retarget_post_def split: option.splits)
  have v2: "v2 = v'" using Cons.prems(4) by (auto simp: s r split: option.splits)
  have le: "\<forall>o' \<in> set ops. vd_time op \<le> vd_time o'" using Cons.prems(3) by auto
  note IH = Cons.IH [OF ok1 _ _ r [unfolded v2]]
  show ?case
  proof (cases out)
    case None
    then have k: "vd_last_retarget_at v1 = vd_last_retarget_at v"
      "vd_last_early_retarget_at v1 = vd_last_early_retarget_at v" "es = es1"
      using p Cons.prems(4) by (simp_all add: retarget_post_def s r)
    show ?thesis using IH Cons.prems(2,3,5,6) unfolding k by simp
  next
    case (Some dw)
    obtain d w where dw: "dw = (d, w)" by fastforce
    let ?e = "\<lparr>ve_time = vd_time op,
        ve_early = (vd_last_early_retarget_at v1 \<noteq> vd_last_early_retarget_at v),
        ve_old = vd_current_difficulty v, ve_new = d\<rparr>"
    have k: "es = ?e # es1" "vd_last_retarget_at v1 = vd_time op"
      "vd_last_retarget_at v + MIN_RETARGET_INTERVAL \<le> vd_time op"
      "vd_last_early_retarget_at v1 = (if trig = ''early-trigger'' then Some (vd_time op)
          else vd_last_early_retarget_at v)"
      using p Cons.prems(4,5) Some dw by (auto simp: retarget_post_def s r elapsed_def)
    have early: "t + EARLY_TRIGGER_COOLDOWN \<le> vd_time op"
      if "vd_last_early_retarget_at v = Some t" "ve_early ?e" for t
      using that cd k(4) Cons.prems(6) by (auto simp: in_early_cooldown_def elapsed_def split: if_splits)
    have IH': "sorted_wrt (spaced MIN_RETARGET_INTERVAL) es1"
      "\<forall>e \<in> set es1. vd_time op + MIN_RETARGET_INTERVAL \<le> ve_time e"
      "sorted_wrt (spaced EARLY_TRIGGER_COOLDOWN) (filter ve_early es1)"
      "\<forall>t. vd_last_early_retarget_at v1 = Some t \<longrightarrow>
         (\<forall>e \<in> set (filter ve_early es1). t + EARLY_TRIGGER_COOLDOWN \<le> ve_time e)"
      using IH Cons.prems(2,3,6) le unfolding k(2,4) by (auto split: if_splits)
    have "\<forall>e \<in> set (filter ve_early es1). ve_early ?e \<longrightarrow> spaced EARLY_TRIGGER_COOLDOWN ?e e"
      using IH'(4) k(4) by (auto simp: spaced_def split: if_splits)
    moreover have "\<forall>t. vd_last_early_retarget_at v = Some t \<longrightarrow>
         (\<forall>e \<in> set (filter ve_early (?e # es1)). t + EARLY_TRIGGER_COOLDOWN \<le> ve_time e)"
      using early IH'(4) k(4) by (fastforce split: if_splits)
    moreover have "\<forall>e \<in> set es1. spaced MIN_RETARGET_INTERVAL ?e e"
      using IH'(2) by (simp add: spaced_def)
    moreover have "\<forall>e \<in> set (?e # es1). vd_last_retarget_at v + MIN_RETARGET_INTERVAL \<le> ve_time e"
      using IH'(2) k(3) by auto
    ultimately show ?thesis using IH'(1,3) unfolding k(1) by auto
  qed
qed simp

end
