(* ===== verification/Targets.thy ===== *)
theory Targets
  imports Json Bytes_Hex Stratum_Messages
begin

text \<open>
  Proof-of-work targets and the byte-level helpers of share validation:
  \<open>difficulty_to_target_hex\<close> (\<open>pool-core/src/difficulty.rs\<close>), and \<open>meets_target\<close>,
  \<open>target_to_difficulty\<close>, \<open>parse_target\<close>, \<open>compact_size\<close>, \<open>strip_compact_size\<close>,
  \<open>compute_block_reward\<close> and \<open>parse_difficulty_from_password\<close> (\<open>pool-core/src/share.rs\<close>).
  A target is 32 bytes, most significant first; a hash is 32 bytes, least significant first.
\<close>

section \<open>Targets\<close>

definition pow_limit_f64 :: f64 where
  "pow_limit_f64 = fsub (fpow2 251) (Fin 1)"

fun target_loop :: "nat \<Rightarrow> f64 \<Rightarrow> bytes" where
  "target_loop 0 remaining = []"
| "target_loop (Suc k) remaining =
     (let divisor = fpow2 (8 * int k) in
      if flt (Fin 0) divisor
      then let b = as_u8 (fmin (fdiv remaining divisor) (Fin 255))
           in b # target_loop k (fsub remaining (fmul (f64_of_int (uint b)) divisor))
      else 0 # target_loop k remaining)"

definition difficulty_to_target :: "f64 \<Rightarrow> bytes" where
  "difficulty_to_target difficulty =
     (if fle difficulty (Fin 0) then replicate 32 255
      else target_loop 32 (fdiv pow_limit_f64 difficulty))"

definition difficulty_to_target_hex :: "hexlib \<Rightarrow> f64 \<Rightarrow> string" where
  "difficulty_to_target_hex H difficulty = hx_encode H (difficulty_to_target difficulty)"

text \<open>The loop of \<open>meets_target\<close> over the reversed hash and the target.\<close>

fun meets_loop :: "bytes \<Rightarrow> bytes \<Rightarrow> bool" where
  "meets_loop (h # hs) (t # ts) = (if h < t then True else if t < h then False else meets_loop hs ts)"
| "meets_loop _ _ = True"

definition meets_target :: "bytes \<Rightarrow> bytes \<Rightarrow> bool" where
  "meets_target hash target = meets_loop (rev hash) target"

definition F64_MAX :: f64 where
  "F64_MAX = Fin ((2 ^ 53 - 1) * 2 ^ 971)"

fun target_value :: "bytes \<Rightarrow> f64 \<Rightarrow> f64" where
  "target_value [] val = val"
| "target_value (b # bs) val =
     target_value bs (fadd val (fmul (f64_of_int (uint b)) (fpow2 (8 * int (length bs)))))"

definition target_to_difficulty :: "bytes \<Rightarrow> f64" where
  "target_to_difficulty target =
     (let val = target_value target (Fin 0) in
      if feq val (Fin 0) then F64_MAX else fdiv pow_limit_f64 val)"

datatype target_error = Invalid_target_hex | Target_too_long nat

definition parse_target :: "hexlib \<Rightarrow> string \<Rightarrow> target_error + bytes" where
  "parse_target H target_hex =
     (case hx_decode H target_hex of
        None \<Rightarrow> Inl Invalid_target_hex
      | Some bytes \<Rightarrow>
          if 32 < length bytes then Inl (Target_too_long (length bytes))
          else Inr (replicate (32 - length bytes) 0 @ bytes))"

section \<open>Compact sizes\<close>

definition compact_size :: "nat \<Rightarrow> bytes" where
  "compact_size n =
     (if n < 253 then [of_nat n]
      else if n \<le> 0xFFFF then 0xFD # le_bytes 2 n
      else if n \<le> 0xFFFFFFFF then 0xFE # le_bytes 4 n
      else 0xFF # le_bytes 8 n)"

text \<open>The prefix length and the declared size; \<open>None\<close> is a truncated prefix.\<close>

definition compact_prefix :: "bytes \<Rightarrow> (nat \<times> nat) option" where
  "compact_prefix data =
     (case data of
        [] \<Rightarrow> None
      | b # rest \<Rightarrow>
          if b \<le> 252 then Some (1, unat b)
          else let k = (if b = 0xFD then 2 else if b = 0xFE then 4 else 8) in
            if length rest < k then None else Some (1 + k, le_value (take k rest)))"

definition strip_compact_size :: "bytes \<Rightarrow> stratum_error + bytes" where
  "strip_compact_size data =
     (if data = [] then Inl (err_other ''Empty solution'')
      else case compact_prefix data of
        None \<Rightarrow> Inl (err_other ''Truncated compactSize'')
      | Some (prefix_len, n) \<Rightarrow>
          let stop = prefix_len + n in
          if stop < 2 ^ 64 \<and> stop \<le> length data
          then Inr (take (stop - prefix_len) (drop prefix_len data))
          else Inl (err_other ''Solution shorter than declared size''))"

section \<open>Block reward\<close>

definition halvings :: "int \<Rightarrow> int" where
  "halvings height =
     (if height < 1046400 then 1
      else if height < 2726400 then 2
      else 3 + (height - 2726400) div 1680000)"

definition compute_block_reward :: "int \<Rightarrow> int" where
  "compute_block_reward height =
     (if height < 0 then 0
      else let h = halvings height in
        if 64 \<le> h then 0
        else (1250000000 div 2 ^ nat h) * 80 div 100)"

section \<open>Requested difficulty\<close>

text \<open>\<open>str::trim\<close>: the UTF-8 encodings of the characters with the \<open>White_Space\<close> property.\<close>

definition whitespace_codes :: "nat list list" where
  "whitespace_codes =
     [[9], [10], [11], [12], [13], [32], [194, 133], [194, 160], [225, 154, 128],
      [226, 128, 128], [226, 128, 129], [226, 128, 130], [226, 128, 131], [226, 128, 132],
      [226, 128, 133], [226, 128, 134], [226, 128, 135], [226, 128, 136], [226, 128, 137],
      [226, 128, 138], [226, 128, 168], [226, 128, 169], [226, 128, 175], [226, 129, 159],
      [227, 128, 128]]"

definition strip_code :: "(nat list \<Rightarrow> nat list) \<Rightarrow> string \<Rightarrow> string option" where
  "strip_code f s =
     map_option (\<lambda>c. drop (length c) s)
       (find (\<lambda>c. take (length c) (map of_char s) = f c) whitespace_codes)"

fun trim_front :: "nat \<Rightarrow> (nat list \<Rightarrow> nat list) \<Rightarrow> string \<Rightarrow> string" where
  "trim_front 0 f s = s"
| "trim_front (Suc k) f s = (case strip_code f s of None \<Rightarrow> s | Some t \<Rightarrow> trim_front k f t)"

definition trim :: "string \<Rightarrow> string" where
  "trim s = (let t = trim_front (length s) (\<lambda>c. c) s in rev (trim_front (length t) rev (rev t)))"

fun split_on :: "char \<Rightarrow> string \<Rightarrow> string list" where
  "split_on c [] = [[]]"
| "split_on c (x # xs) =
     (if x = c then [] # split_on c xs
      else case split_on c xs of [] \<Rightarrow> [[x]] | w # ws \<Rightarrow> (x # w) # ws)"

definition strip_prefix :: "string \<Rightarrow> string \<Rightarrow> string option" where
  "strip_prefix p s = (if take (length p) s = p then Some (drop (length p) s) else None)"

text \<open>\<open>str::parse::<f64>\<close>: sign, \<open>inf\<close>, \<open>infinity\<close>, \<open>nan\<close>, or decimal digits with a point and
  an exponent, rounded to the nearest float.\<close>

definition is_digit :: "char \<Rightarrow> bool" where
  "is_digit c = (dec_value c \<noteq> None)"

definition digits_value :: "string \<Rightarrow> nat" where
  "digits_value s = (case parse_dec 0 s of None \<Rightarrow> 0 | Some n \<Rightarrow> n)"

definition split_sign :: "string \<Rightarrow> bool \<times> string" where
  "split_sign s = (case s of
     c # cs \<Rightarrow> if c = CHR ''-'' then (True, cs) else if c = CHR ''+'' then (False, cs) else (False, s)
   | [] \<Rightarrow> (False, []))"

definition parse_exponent :: "string \<Rightarrow> int option" where
  "parse_exponent s = (case s of
     [] \<Rightarrow> Some 0
   | c # cs \<Rightarrow>
       if to_lower c = CHR ''e'' then
         (let (neg, ds) = split_sign cs in
          if ds = [] \<or> \<not> list_all is_digit ds then None
          else Some (if neg then - int (digits_value ds) else int (digits_value ds)))
       else None)"

definition parse_number :: "string \<Rightarrow> rat option" where
  "parse_number s =
     (let whole = takeWhile is_digit s; rest = dropWhile is_digit s;
          (frac, tl) = (case rest of
             c # cs \<Rightarrow> if c = CHR ''.'' then (takeWhile is_digit cs, dropWhile is_digit cs) else ([], rest)
           | [] \<Rightarrow> ([], []))
      in if whole @ frac = [] then None
         else map_option (\<lambda>e. of_nat (digits_value (whole @ frac)) *
                (let x = e - int (length frac) in
                 if 0 \<le> x then 10 ^ nat x else 1 / 10 ^ nat (- x))) (parse_exponent tl))"

definition parse_f64 :: "string \<Rightarrow> f64 option" where
  "parse_f64 s =
     (let (neg, t) = split_sign s; l = map to_lower t;
          sign = (\<lambda>x. if neg then fneg x else x) in
      if l = ''inf'' \<or> l = ''infinity'' then Some (sign FPosInf)
      else if l = ''nan'' then Some FNaN
      else map_option (\<lambda>q. sign (round64 q)) (parse_number t))"

fun first_difficulty :: "string list \<Rightarrow> f64 option" where
  "first_difficulty [] = None"
| "first_difficulty (part # parts) =
     (let part = trim part in
      case (case strip_prefix ''d='' part of Some v \<Rightarrow> Some v | None \<Rightarrow> strip_prefix ''sd='' part) of
        None \<Rightarrow> first_difficulty parts
      | Some val \<Rightarrow> (case parse_f64 val of
            None \<Rightarrow> first_difficulty parts
          | Some d \<Rightarrow> if flt (Fin 0) d then Some d else first_difficulty parts))"

definition parse_difficulty_from_password :: "string \<Rightarrow> f64 option" where
  "parse_difficulty_from_password password = first_difficulty (split_on (CHR '','') password)"

section \<open>Facts on targets\<close>

lemma meets_loop_compares:
  "length hs = length ts \<Longrightarrow> meets_loop hs ts \<longleftrightarrow> be_value hs \<le> be_value ts"
proof (induction hs ts rule: meets_loop.induct)
  case (1 h hs t ts)
  have len: "length hs = length ts" using 1 by simp
  note b = be_value_bound [of hs] be_value_bound [of ts]
  let ?P = "256 ^ length ts :: nat"
  show ?case
  proof (cases "h < t")
    case True
    then have "unat h + 1 \<le> unat t" by (simp add: word_less_nat_alt)
    then have "(unat h + 1) * ?P \<le> unat t * ?P" by (rule mult_le_mono1)
    then have "unat h * ?P + be_value hs \<le> unat t * ?P + be_value ts" using b(1) len by simp
    then show ?thesis using True len by simp
  next
    case h: False
    show ?thesis
    proof (cases "t < h")
      case True
      then have "unat t + 1 \<le> unat h" by (simp add: word_less_nat_alt)
      then have "(unat t + 1) * ?P \<le> unat h * ?P" by (rule mult_le_mono1)
      then have "\<not> unat h * ?P + be_value hs \<le> unat t * ?P + be_value ts" using b(2) by simp
      then show ?thesis using True h len by simp
    next
      case False
      then have "h = t" using h by simp
      then show ?thesis using 1(1) len by simp
    qed
  qed
qed auto

text \<open>Nonnegative numbers with at most 53 significant bits, far from underflow.\<close>

definition dyadic :: "rat \<Rightarrow> bool" where
  "dyadic x \<longleftrightarrow> (\<exists>m e. x = of_int m * pow2 e \<and> 0 \<le> m \<and> m \<le> 2 ^ 53 \<and> - 700 \<le> e)"

lemma dyadic_scale: "dyadic x \<Longrightarrow> k \<le> 300 \<Longrightarrow> rep64 (x / pow2 k)"
  unfolding dyadic_def
  by (auto simp: pow2_diff [symmetric] times_divide_eq_right [symmetric] simp del: times_divide_eq_right
      intro!: rep64_dyadic)

lemma dyadic_rep: "dyadic x \<Longrightarrow> rep64 x"
  using dyadic_scale [of x 0] by simp

lemma dyadic_rest:
  assumes "dyadic x" "0 \<le> k"
  shows "dyadic (x - of_int \<lfloor>x / pow2 k\<rfloor> * pow2 k)"
proof -
  obtain m e where x: "x = of_int m * pow2 e" "0 \<le> m" "m \<le> 2 ^ 53" "- 700 \<le> e"
    using assms(1) by (auto simp: dyadic_def)
  show ?thesis
  proof (cases "e \<le> k")
    case True
    have p: "pow2 k = of_int (2 ^ nat (k - e)) * pow2 e"
      using pow2_add [of "k - e" e] True by (simp add: pow2_nat')
    define q where "q = \<lfloor>x / pow2 k\<rfloor>"
    have q: "0 \<le> q" using x(1,2) by (simp add: q_def)
    have "of_int q * pow2 k \<le> x"
      unfolding q_def using of_int_floor_le [of "x / pow2 k"] by (simp only: pos_le_divide_eq [OF pow2_pos])
    then have "of_int (q * 2 ^ nat (k - e)) * pow2 e \<le> of_int m * pow2 e"
      unfolding x(1) p by (simp add: ac_simps)
    then have "q * 2 ^ nat (k - e) \<le> m" by (simp only: mult_le_cancel_right_pos [OF pow2_pos] of_int_le_iff)
    moreover have "x - of_int q * pow2 k = of_int (m - q * 2 ^ nat (k - e)) * pow2 e"
      by (simp add: x(1) p algebra_simps)
    moreover have "0 \<le> q * 2 ^ nat (k - e)" using q by simp
    ultimately show ?thesis using x(3,4) unfolding dyadic_def q_def [symmetric]
      by (intro exI [of _ "m - q * 2 ^ nat (k - e)"] exI [of _ e] conjI) linarith+
  next
    case False
    then have "x / pow2 k = of_int (m * 2 ^ nat (e - k))"
      using pow2_diff [of e k] by (simp add: x(1) pow2_nat' flip: times_divide_eq_right)
    then have "of_int \<lfloor>x / pow2 k\<rfloor> = x / pow2 k" by (simp only: floor_of_int)
    then have "x - of_int \<lfloor>x / pow2 k\<rfloor> * pow2 k = 0"
      by (metis diff_self nonzero_divide_eq_eq pow2_neq_0)
    then show ?thesis unfolding dyadic_def
      by (intro exI [of _ 0] exI [of _ 0]) simp
  qed
qed

lemma pow2_8: "pow2 (8 * int k) = 256 ^ k"
proof -
  have "pow2 (8 * int k) = 2 ^ (8 * k)" by (metis of_nat_mult of_nat_numeral pow2_nat)
  then show ?thesis by (simp add: power_mult)
qed

lemma round64_rep: "rep64 x \<Longrightarrow> 0 \<le> x \<Longrightarrow> x \<le> 2 ^ 1000 \<Longrightarrow> round64 x = Fin x"
  using round64_rep_bounded [of x] by (simp add: rep64_def)

lemma target_loop_exact:
  assumes "dyadic r" "0 \<le> r" "r < 256 ^ k" "k \<le> 32"
  shows "length (target_loop k (Fin r)) = k \<and> int (be_value (target_loop k (Fin r))) = \<lfloor>r\<rfloor>"
  using assms
proof (induction k arbitrary: r)
  case 0
  then show ?case by (simp add: floor_eq_iff)
next
  case (Suc k)
  let ?D = "256 ^ k :: rat" and ?k = "8 * int k"
  have D: "pow2 ?k = ?D" by (rule pow2_8)
  have D0: "0 < ?D" by simp
  define q where "q = \<lfloor>r / ?D\<rfloor>"
  have q0: "0 \<le> r / ?D" "r / ?D < 256" using Suc.prems(2,3) by (simp_all add: pos_divide_less_eq)
  have big: "(256 ^ 32 :: rat) \<le> 2 ^ 1000" by simp
  have Db: "?D \<le> 256 ^ 32" using Suc.prems(4) by (intro power_increasing) auto
  have "rep64 (r / pow2 ?k)" by (rule dyadic_scale [OF Suc.prems(1)]) (use Suc.prems(4) in simp)
  then have "round64 (r / ?D) = Fin (r / ?D)"
    unfolding D using q0 by (intro round64_rep) auto
  then have div: "fdiv (Fin r) (fpow2 ?k) = Fin (r / ?D)" by (simp add: fpow2_def D)
  have fl: "0 \<le> q" "q \<le> 255" using q0 by (simp_all add: q_def floor_le_iff)
  have "as_u8 (Fin (min (r / ?D) 255)) = word_of_int \<lfloor>min (r / ?D) 255\<rfloor>"
    using q0 by (intro as_u8_Fin) auto
  moreover have "\<lfloor>min (r / ?D) 255\<rfloor> = q"
    using q0 fl unfolding q_def by (cases "r / ?D \<le> 255") (auto simp: min_def floor_eq_iff)
  ultimately have b: "as_u8 (fmin (Fin (r / ?D)) (Fin 255)) = word_of_int q" by simp
  have u: "uint (word_of_int q :: u8) = q" using fl by (simp add: unsigned_of_int take_bit_int_eq_self)
  have qb: "of_int q \<le> (255 :: rat)" using fl(2) of_int_le_iff [of q 255, where 'a = rat] by simp
  have qD: "of_int q * ?D \<le> r" unfolding q_def using of_int_floor_le [of "r / ?D"] by (simp only: pos_le_divide_eq [OF D0])
  have qDb: "of_int q * ?D \<le> 2 ^ 1000" "0 \<le> of_int q * ?D"
    using qD Suc.prems(3) Suc.prems(4) big power_increasing [of "Suc k" 32 "256 :: rat"] fl
    by (auto simp del: power_Suc)
  have "rep64 (of_int q * ?D)" using rep64_dyadic [of q ?k] fl D by simp
  then have mul: "fmul (f64_of_int q) (fpow2 ?k) = Fin (of_int q * ?D)"
    using fl qDb by (simp add: f64_of_int_exact fpow2_def D round64_rep)
  let ?r = "r - of_int q * ?D"
  have dr: "dyadic ?r" using dyadic_rest [OF Suc.prems(1), of ?k] by (simp add: D q_def)
  have r0: "0 \<le> ?r" using qD by simp
  have "r / ?D < of_int q + 1" unfolding q_def by linarith
  then have r1: "?r < ?D" using D0 by (simp add: pos_divide_less_eq algebra_simps)
  have "?r \<le> 2 ^ 1000" using r1 Db big by linarith
  then have sub: "fsub (Fin r) (Fin (of_int q * ?D)) = Fin ?r"
    unfolding fsub_Fin using dr r0 dyadic_rep by (intro round64_rep) auto
  have "k \<le> 32" using Suc.prems(4) by simp
  note IH = Suc.IH [OF dr r0 r1 this]
  have d': "fpow2 ?k = Fin ?D" by (simp add: fpow2_def D)
  have step: "target_loop (Suc k) (Fin r) = word_of_int q # target_loop k (Fin ?r)"
    unfolding target_loop.simps Let_def d'
      div [unfolded d'] b u mul [unfolded d'] sub using D0 by simp
  have un: "int (unat (word_of_int q :: u8)) = q" using u by simp
  have "\<lfloor>r\<rfloor> = \<lfloor>?r + of_int (q * 256 ^ k)\<rfloor>" by simp
  also have "\<dots> = q * 256 ^ k + \<lfloor>?r\<rfloor>" by (simp only: floor_add_int [symmetric])
  finally show ?case unfolding step using IH un by simp
qed

lemma rnd_dyadic: "1 \<le> x \<Longrightarrow> dyadic (rnd x)"
proof -
  assume x1: "1 \<le> x"
  then have x0: "0 < x" by linarith
  have "0 \<le> ilog2 x" using ilog2_mono [of 1 x] ilog2_unique [of 0 1] x1 by (simp add: pow2_nat')
  then have ue: "- 700 \<le> uexp x" by (simp add: uexp_def)
  let ?m = "rne (x / pow2 (uexp x))"
  have t: "rnd x = of_int ?m * pow2 (uexp x)" using x0 by (simp add: rnd_def)
  have m0: "0 \<le> ?m" using x0 by (intro rne_ge_int) simp
  have "x < pow2 (ilog2 x + 1)" using ilog2_bounds [OF x0] by blast
  also have "\<dots> \<le> pow2 (53 + uexp x)" by (simp add: uexp_def)
  finally have "x / pow2 (uexp x) \<le> of_int (2 ^ 53)"
    by (simp add: pow2_add pow2_nat' pos_divide_le_eq)
  then have "?m \<le> 2 ^ 53" by (rule rne_le_int)
  then show ?thesis unfolding dyadic_def using t m0 ue
    by (intro exI [of _ ?m] exI [of _ "uexp x"]) simp
qed

lemma pow_limit_value: "pow_limit_f64 = Fin (2 ^ 251)"
proof -
  let ?x = "2 ^ 251 - 1 :: rat"
  have b: "pow2 250 \<le> ?x" "?x < pow2 251" by (simp_all add: pow2_nat')
  have il: "ilog2 ?x = 250" using b by (intro ilog2_unique) simp_all
  have ue: "uexp \<bar>?x\<bar> = 198" using il by (simp add: uexp_def)
  let ?y = "?x / pow2 198"
  have y: "?y = 2 ^ 53 - 1 / 2 ^ 198" by (simp add: pow2_nat')
  have f: "\<lfloor>?y\<rfloor> = 2 ^ 53 - 1" unfolding y by (simp add: floor_eq_iff)
  have "rne ?y = 2 ^ 53" unfolding rne_def Let_def f unfolding y by simp
  then have "rnd ?x = 2 ^ 251" unfolding rnd_def ue by (simp add: pow2_nat')
  moreover have "?x \<le> 2 ^ 1000" "- (2 ^ 1000) \<le> ?x" by simp_all
  ultimately have "round64 ?x = Fin (2 ^ 251)" using round64_rep_bounded [of ?x] by simp
  then show ?thesis by (simp add: pow_limit_f64_def fpow2_def pow2_nat')
qed

definition diff_range :: "rat \<Rightarrow> bool" where
  "diff_range q \<longleftrightarrow> 1 / 16 \<le> q \<and> q \<le> 2 ^ 100"

definition target_num :: "rat \<Rightarrow> rat" where
  "target_num q = rnd (2 ^ 251 / q)"

lemma target_num_facts:
  assumes "diff_range q"
  shows "fdiv pow_limit_f64 (Fin q) = Fin (target_num q)" "dyadic (target_num q)"
    "(1 - u64eps) * (2 ^ 251 / q) \<le> target_num q" "target_num q \<le> (1 + u64eps) * (2 ^ 251 / q)"
    "2 ^ 151 \<le> target_num q" "target_num q \<le> 2 ^ 255"
proof -
  let ?x = "2 ^ 251 / q"
  have q: "1 / 16 \<le> q" "q \<le> 2 ^ 100" "0 < q" using assms by (auto simp: diff_range_def)
  have x: "2 ^ 151 \<le> ?x" "?x \<le> 2 ^ 255" using q by (simp_all add: pos_le_divide_eq pos_divide_le_eq)
  have rep: "rep64 (2 ^ 151)" "rep64 (2 ^ 255)"
    using rep64_pow2 [of 151] rep64_pow2 [of 255] by (simp_all add: pow2_nat')
  show b: "2 ^ 151 \<le> target_num q" "target_num q \<le> 2 ^ 255"
    unfolding target_num_def using rep64_ge [OF rep(1) x(1)] rep64_le [OF rep(2) x(2)] by auto
  have "?x \<le> 2 ^ 1000" using x(2) power_increasing [of 255 1000 "2 :: rat"] by linarith
  moreover have "- (2 ^ 1000) \<le> ?x" using x(1) by simp
  ultimately have "round64 ?x = Fin (rnd ?x)" by (intro round64_rep_bounded)
  then show "fdiv pow_limit_f64 (Fin q) = Fin (target_num q)"
    using q(3) by (simp add: pow_limit_value target_num_def)
  have "pow2 (- 1022) \<le> pow2 151" by simp
  then have n: "pow2 (- 1022) \<le> ?x" using x(1) by (simp only: pow2_nat' [of 151]) simp
  show "(1 - u64eps) * ?x \<le> target_num q" "target_num q \<le> (1 + u64eps) * ?x"
    unfolding target_num_def by (rule rnd_lower [OF n], rule rnd_upper [OF n])
  have "1 \<le> ?x" using x(1) by (rule order_trans [rotated]) simp
  then show "dyadic (target_num q)" unfolding target_num_def by (rule rnd_dyadic)
qed

lemma target_exact:
  assumes "diff_range q"
  shows "length (difficulty_to_target (Fin q)) = 32"
    "int (be_value (difficulty_to_target (Fin q))) = \<lfloor>target_num q\<rfloor>"
proof -
  note t = target_num_facts [OF assms]
  have q: "0 < q" using assms by (auto simp: diff_range_def)
  have "target_num q < 256 ^ 32" using t(6) by simp
  moreover have "0 \<le> target_num q" using t(5) by (rule order_trans [rotated]) simp
  ultimately show "length (difficulty_to_target (Fin q)) = 32"
    "int (be_value (difficulty_to_target (Fin q))) = \<lfloor>target_num q\<rfloor>"
    using target_loop_exact [OF t(2), of 32] q by (simp_all add: difficulty_to_target_def t(1))
qed

lemma be_value_append: "be_value (xs @ ys) = be_value xs * 256 ^ length ys + be_value ys"
  by (induction xs) (simp_all add: power_add algebra_simps)

lemma be_value_take: "be_value (take j bs) = be_value bs div 256 ^ (length bs - j)"
proof -
  have "be_value bs = be_value (take j bs) * 256 ^ (length bs - j) + be_value (drop j bs)"
    using be_value_append [of "take j bs" "drop j bs"] by simp
  moreover have "be_value (drop j bs) < 256 ^ (length bs - j)" using be_value_bound [of "drop j bs"] by simp
  ultimately show ?thesis by simp
qed

lemma target_value_exact:
  assumes "0 \<le> v" "\<forall>j \<le> length bs. rep64 (v + of_nat (be_value (take j bs) * 256 ^ (length bs - j)))"
    "v + of_nat (be_value bs) \<le> B" "length bs \<le> 32" "B \<le> 2 ^ 1000"
  shows "target_value bs (Fin v) = Fin (v + of_nat (be_value bs))"
  using assms
proof (induction bs arbitrary: v)
  case (Cons b bs)
  let ?w = "of_nat (unat b * 256 ^ length bs) :: rat"
  have "v + ?w + of_nat (be_value bs) \<le> B" using Cons.prems(3) by (simp add: add.assoc)
  moreover have "0 \<le> (of_nat (be_value bs) :: rat)" by simp
  ultimately have wB: "v + ?w \<le> B" by linarith
  then have wb: "v + ?w \<le> 2 ^ 1000" using Cons.prems(5) by linarith
  have r1: "rep64 (v + ?w)" using Cons.prems(2) [rule_format, of 1] by simp
  have bb: "uint b \<le> 255" "0 \<le> uint b" using uint_lt2p [of b] by simp_all
  have "(of_nat (unat b) :: rat) = of_int (int (unat b))" by (simp only: of_int_of_nat_eq)
  also have "int (unat b) = uint b" by simp
  finally have w: "?w = of_int (uint b) * pow2 (8 * int (length bs))" by (simp add: pow2_8)
  have rw: "rep64 ?w" unfolding w using bb by (intro rep64_dyadic) simp_all
  have w0: "0 \<le> ?w" by (rule of_nat_0_le_iff)
  have w1: "?w \<le> 2 ^ 1000" using wb Cons.prems(1) by linarith
  have rd: "round64 ?w = Fin ?w" by (rule round64_rep [OF rw w0 w1])
  have fb: "f64_of_int (uint b) = Fin (of_int (uint b))" by (rule f64_of_int_exact) (use bb in simp)
  have "fmul (f64_of_int (uint b)) (fpow2 (8 * int (length bs))) = Fin ?w"
    unfolding fb fpow2_def fmul.simps w [symmetric] by (rule rd)
  moreover have "fadd (Fin v) (Fin ?w) = Fin (v + ?w)"
    unfolding fadd.simps using Cons.prems(1) w0 by (intro round64_rep [OF r1 _ wb]) linarith
  ultimately have step: "target_value (b # bs) (Fin v) = target_value bs (Fin (v + ?w))" by simp
  have "\<forall>j \<le> length bs. rep64 (v + ?w + of_nat (be_value (take j bs) * 256 ^ (length bs - j)))"
  proof (intro allI impI)
    fix j assume j: "j \<le> length bs"
    have "(256 :: nat) ^ length bs = 256 ^ j * 256 ^ (length bs - j)" using j by (simp flip: power_add)
    then have "be_value (take (Suc j) (b # bs)) * 256 ^ (length (b # bs) - Suc j)
        = unat b * 256 ^ length bs + be_value (take j bs) * 256 ^ (length bs - j)"
      using j by (simp add: algebra_simps)
    then show "rep64 (v + ?w + of_nat (be_value (take j bs) * 256 ^ (length bs - j)))"
      using Cons.prems(2) [rule_format, of "Suc j"] j by (simp add: add.assoc)
  qed
  moreover have "0 \<le> v + ?w" using Cons.prems(1) w0 by linarith
  ultimately show ?case using Cons.IH [of "v + ?w"]
    unfolding step using Cons.prems(1,3-5) by (simp add: add.assoc)
qed simp

lemma floor_div_int: "0 < b \<Longrightarrow> \<lfloor>x / of_int b\<rfloor> = \<lfloor>x\<rfloor> div b" for x :: rat
proof (rule floor_unique)
  assume b: "0 < b"
  then have b': "(0 :: rat) < of_int b" by simp
  have "\<lfloor>x\<rfloor> div b * b \<le> \<lfloor>x\<rfloor>" using pos_mod_sign [OF b, of "\<lfloor>x\<rfloor>"] div_mult_mod_eq [of "\<lfloor>x\<rfloor>" b] by linarith
  then have "of_int (\<lfloor>x\<rfloor> div b * b) \<le> x" by (simp only: le_floor_iff)
  then show "of_int (\<lfloor>x\<rfloor> div b) \<le> x / of_int b" using b' by (simp add: pos_le_divide_eq)
  have "\<lfloor>x\<rfloor> < (\<lfloor>x\<rfloor> div b + 1) * b"
    using b pos_mod_bound [OF b, of "\<lfloor>x\<rfloor>"] div_mult_mod_eq [of "\<lfloor>x\<rfloor>" b] by (simp only: distrib_right)
  then have "x < of_int ((\<lfloor>x\<rfloor> div b + 1) * b)" by (simp only: floor_less_iff)
  then show "x / of_int b < of_int (\<lfloor>x\<rfloor> div b) + 1" using b' by (simp add: pos_divide_less_eq)
qed

lemma dyadic_floor_scaled:
  assumes "dyadic x" "0 \<le> x" "0 \<le> k"
  shows "rep64 (of_int \<lfloor>x / pow2 k\<rfloor> * pow2 k)"
proof -
  obtain m e where x: "x = of_int m * pow2 e" "0 \<le> m" "m \<le> 2 ^ 53" "- 700 \<le> e"
    using assms(1) by (auto simp: dyadic_def)
  show ?thesis
  proof (cases "e \<le> k")
    case True
    have "x / pow2 k = of_int m / pow2 (k - e)" using x(1) by (simp add: pow2_diff)
    moreover have "1 \<le> pow2 (k - e)" using True pow2_mono [of 0 "k - e"] by simp
    ultimately have "x / pow2 k \<le> of_int m" using x(2) by (simp add: pos_divide_le_eq mult_le_cancel_left1)
    then have "\<lfloor>x / pow2 k\<rfloor> \<le> m" by (metis floor_mono floor_of_int)
    moreover have "0 \<le> \<lfloor>x / pow2 k\<rfloor>" using assms(2) by simp
    ultimately have "\<bar>\<lfloor>x / pow2 k\<rfloor>\<bar> \<le> 2 ^ 53" using x(3) by linarith
    then show ?thesis using assms(3) by (intro rep64_dyadic) simp_all
  next
    case False
    then have "x / pow2 k = of_int (m * 2 ^ nat (e - k))"
      using pow2_diff [of e k] by (simp add: x(1) pow2_nat' flip: times_divide_eq_right)
    then have "of_int \<lfloor>x / pow2 k\<rfloor> = x / pow2 k" by (simp only: floor_of_int)
    then have "of_int \<lfloor>x / pow2 k\<rfloor> * pow2 k = x" by (metis nonzero_divide_eq_eq pow2_neq_0)
    then show ?thesis using dyadic_rep [OF assms(1)] by simp
  qed
qed

lemma target_to_difficulty_exact:
  assumes "diff_range q"
  shows "target_value (difficulty_to_target (Fin q)) (Fin 0) = Fin (of_int \<lfloor>target_num q\<rfloor>)"
proof -
  let ?bs = "difficulty_to_target (Fin q)" and ?x = "target_num q"
  note t = target_num_facts [OF assms] and e = target_exact [OF assms]
  have x0: "0 \<le> ?x" using t(5) by (rule order_trans [rotated]) simp
  have bn: "of_nat (be_value ?bs) = (of_int \<lfloor>?x\<rfloor> :: rat)"
    using e(2) by (metis of_int_of_nat_eq)
  have p: "rep64 (0 + of_nat (be_value (take j ?bs) * 256 ^ (length ?bs - j)))" if "j \<le> length ?bs" for j
  proof -
    let ?i = "length ?bs - j"
    have "int (be_value (take j ?bs)) = \<lfloor>?x\<rfloor> div 256 ^ ?i"
      unfolding be_value_take using e(2) by (simp add: zdiv_int)
    also have "\<dots> = \<lfloor>?x / of_int (256 ^ ?i)\<rfloor>" using floor_div_int [of "256 ^ ?i" ?x] by simp
    finally show ?thesis
      using dyadic_floor_scaled [OF t(2) x0, of "8 * int ?i"] by (simp add: pow2_8) (metis of_int_of_nat_eq)
  qed
  have "(of_int \<lfloor>?x\<rfloor> :: rat) \<le> 2 ^ 255" using t(6) of_int_floor_le [of ?x] by linarith
  then have b: "0 + of_nat (be_value ?bs) \<le> (2 ^ 1000 :: rat)"
    unfolding bn using power_increasing [of 255 1000 "2 :: rat"] by linarith
  show ?thesis using target_value_exact [of 0 ?bs "2 ^ 1000"] p b e(1) by (simp add: bn del: of_nat_mult)
qed

end
