(* ===== verification/Difficulty_Properties.thy ===== *)
theory Difficulty_Properties
  imports Vardiff Targets "HOL-Library.Code_Target_Nat"
begin

text \<open>
  The properties of difficulties and targets: the tracker moves in bounded, spaced steps, the
  byte-wise target comparison is the comparison of 256-bit numbers, the target of a difficulty
  is exact to one rounding, and its difficulty comes back.
\<close>

section \<open>The tracker\<close>

lemma vardiff_new_ok:
  assumes "pow2 (- 999) \<le> d" "d \<le> MAX_DIFFICULTY" "rep64 d" "0 < t"
  shows "vd_ok (vardiff_new (Fin t) iv (Fin d) now)"
    and "vd_min_difficulty (vardiff_new (Fin t) iv (Fin d) now) = Fin (min d 1)"
proof -
  show m: "vd_min_difficulty (vardiff_new (Fin t) iv (Fin d) now) = Fin (min d 1)"
    by (simp add: vardiff_new_def)
  have "pow2 (- 999) \<le> 1" using pow2_mono [of "- 999" 0] by simp
  then have "pow2 (- 999) \<le> min d 1" using assms(1) by (simp add: min_def)
  moreover have "rep64 (min d 1)" using assms(3) rep64_int [of 1] by (simp add: min_def)
  ultimately show "vd_ok (vardiff_new (Fin t) iv (Fin d) now)"
    using assms by (simp add: vd_ok_def m) (simp add: vardiff_new_def)
qed

text \<open>
  C29: Whatever shares arrive and whenever, a session's difficulty stays between its floor (the
  smaller of the initial difficulty and 1) and ten billion, and no retarget more than doubles
  or halves it.
\<close>

theorem vardiff_bounded_steps:
  assumes "pow2 (- 999) \<le> d" and "d \<le> 10000000000" and "rep64 d" and "0 < t"
    and "\<forall>op \<in> set ops. vd_time op < 2 ^ 64 * 10 ^ 9"
    and "vd_run ops (vardiff_new (Fin t) iv (Fin d) now) = (es, v)"
  shows "(\<exists>c. vd_current_difficulty v = Fin c \<and> min d 1 \<le> c \<and> c \<le> 10000000000)
    \<and> (\<forall>e \<in> set es. \<exists>a b. ve_old e = Fin a \<and> ve_new e = Fin b \<and> a / 2 \<le> b \<and> b \<le> 2 * a)"
proof -
  note n = vardiff_new_ok [OF assms(1) assms(2) [folded MAX_DIFFICULTY_def] assms(3,4), of iv now]
  from vd_run_ok [OF n(1) assms(5,6)]
  have v: "vd_ok v" "vd_min_difficulty v = Fin (min d 1)" "\<forall>e \<in> set es. halves_or_doubles e"
    using n(2) by auto
  have "\<exists>c. vd_current_difficulty v = Fin c \<and> min d 1 \<le> c \<and> c \<le> 10000000000"
    using v(1,2) by (auto simp: vd_ok_def MAX_DIFFICULTY_def)
  moreover have "\<forall>e \<in> set es. \<exists>a b. ve_old e = Fin a \<and> ve_new e = Fin b \<and> a / 2 \<le> b \<and> b \<le> 2 * a"
  proof
    fix e assume "e \<in> set es"
    then have "halves_or_doubles e" using v(3) by blast
    then show "\<exists>a b. ve_old e = Fin a \<and> ve_new e = Fin b \<and> a / 2 \<le> b \<and> b \<le> 2 * a"
      by (auto simp: halves_or_doubles_def is_fin_iff)
  qed
  ultimately show ?thesis by blast
qed

definition flood :: "vd_op list" where
  "flood = [Force_retarget (10 ^ 9), Force_retarget (2 * 10 ^ 9)]"

definition flooded :: vardiff_tracker where
  "flooded = vardiff_new (Fin 10) (Fin 30) (Fin 1000) 0"

lemma flooded_run:
  "vd_current_difficulty (snd (vd_run flood flooded)) = Fin 4000"
  "map ve_time (fst (vd_run flood flooded)) = [10 ^ 9, 2 * 10 ^ 9]"
proof -
  have "(case vd_run flood flooded of (es, v) \<Rightarrow> (vd_current_difficulty v, map ve_time es))
      = (Fin 4000, [10 ^ 9, 2 * 10 ^ 9])" by code_simp
  then show "vd_current_difficulty (snd (vd_run flood flooded)) = Fin 4000"
    "map ve_time (fst (vd_run flood flooded)) = [10 ^ 9, 2 * 10 ^ 9]"
    by (simp_all add: case_prod_beta)
qed

theorem vardiff_bounded_steps_witness:
  "vd_current_difficulty (snd (vd_run flood flooded)) = Fin 4000
   \<and> (\<exists>c. vd_current_difficulty (snd (vd_run flood flooded)) = Fin c \<and> 1 \<le> c \<and> c \<le> 10000000000)"
proof -
  have r: "vd_run flood flooded = (fst (vd_run flood flooded), snd (vd_run flood flooded))" by simp
  have "pow2 (- 999) \<le> 1" using pow2_mono [of "- 999" 0] by simp
  then have d: "pow2 (- 999) \<le> 1000" by simp
  have rp: "rep64 1000" using rep64_int [of 1000] by simp
  have t: "\<forall>op \<in> set flood. vd_time op < 2 ^ 64 * 10 ^ 9" by (auto simp: flood_def)
  from vardiff_bounded_steps [OF d _ rp _ t r [unfolded flooded_def]] show ?thesis
    unfolding flooded_def [symmetric] using flooded_run by simp
qed

text \<open>
  Retargets of a session are at least half a second apart, the first one comes at least
  half a second after the session's tracker was made, and early-trigger retargets are at least
  twelve seconds apart.
\<close>

theorem retargets_spaced:
  assumes "vd_ok (vardiff_new t iv d now)"
    and "\<forall>op \<in> set ops. now \<le> vd_time op \<and> vd_time op < 2 ^ 64 * 10 ^ 9"
    and "sorted (map vd_time ops)" and "vd_run ops (vardiff_new t iv d now) = (es, v)"
  shows "sorted_wrt (\<lambda>e f. ve_time e + 500 * 10 ^ 6 \<le> ve_time f) es
    \<and> (\<forall>e \<in> set es. now + 500 * 10 ^ 6 \<le> ve_time e)
    \<and> sorted_wrt (\<lambda>e f. ve_time e + 12 * 10 ^ 9 \<le> ve_time f) (filter ve_early es)"
proof -
  have i: "vd_last_retarget_at (vardiff_new t iv d now) = now"
    "vd_last_early_retarget_at (vardiff_new t iv d now) = None" by (simp_all add: vardiff_new_def)
  have s: "spaced g = (\<lambda>e f. ve_time e + g \<le> ve_time f)" for g by (simp add: fun_eq_iff spaced_def)
  from vd_run_spaced [OF assms(1) _ assms(3,4)] assms(2) show ?thesis
    unfolding i s MIN_RETARGET_INTERVAL_def EARLY_TRIGGER_COOLDOWN_def by simp
qed

theorem retargets_spaced_witness:
  "map ve_time (fst (vd_run flood flooded)) = [10 ^ 9, 2 * 10 ^ 9]
   \<and> sorted_wrt (\<lambda>e f. ve_time e + 500 * 10 ^ 6 \<le> ve_time f) (fst (vd_run flood flooded))"
proof -
  have r: "vd_run flood flooded = (fst (vd_run flood flooded), snd (vd_run flood flooded))" by simp
  have "pow2 (- 999) \<le> 1" using pow2_mono [of "- 999" 0] by simp
  then have d: "pow2 (- 999) \<le> 1000" by simp
  have rp: "rep64 1000" using rep64_int [of 1000] by simp
  have ok: "vd_ok flooded" unfolding flooded_def
    using vardiff_new_ok(1) [OF d _ rp] by (simp add: MAX_DIFFICULTY_def)
  have t: "\<forall>op \<in> set flood. 0 \<le> vd_time op \<and> vd_time op < 2 ^ 64 * 10 ^ 9" by (auto simp: flood_def)
  have s: "sorted (map vd_time flood)" by (simp add: flood_def sorted_append)
  from retargets_spaced [OF ok [unfolded flooded_def] t s r [unfolded flooded_def]] flooded_run(2) show ?thesis
    unfolding flooded_def [symmetric] by blast
qed

section \<open>Targets\<close>

text \<open>
  The byte loop of \<open>meets_target\<close> decides whether the hash, read as a little-endian 256-bit
  number, is at most the target, read as a big-endian one.
\<close>

theorem meets_target_compares:
  assumes "length h = 32" and "length t = 32"
  shows "meets_target h t \<longleftrightarrow> le_value h \<le> be_value t"
  using meets_loop_compares [of "rev h" t] assms by (simp add: meets_target_def be_value_def)

theorem meets_target_compares_witness:
  "meets_target (replicate 31 0 @ [7]) (7 # replicate 31 0)
   \<and> le_value (replicate 31 0 @ [7 :: u8]) \<le> be_value (7 # replicate 31 (0 :: u8))"
proof -
  have "meets_target (replicate 31 0 @ [7]) (7 # replicate 31 0)" by code_simp
  then show ?thesis using meets_target_compares [of "replicate 31 0 @ [7]" "7 # replicate 31 0"] by simp
qed

text \<open>
  C30: The target sent for a difficulty \<open>q\<close> is a 32-byte number that the validator parses back
  unchanged; a hash \<open>h\<close> that meets it satisfies \<open>h q \<le> 2 ^ 251 (1 + 2 ^ (-53))\<close>, and every hash
  with \<open>h q \<le> 2 ^ 251 (1 - 2 ^ (-53))\<close> meets it.
\<close>

theorem target_is_exact:
  assumes "1 / 16 \<le> q" and "q \<le> 2 ^ 100" and "length h = 32" and "hex_ok H"
  shows "parse_target H (difficulty_to_target_hex H (Fin q)) = Inr (difficulty_to_target (Fin q))
    \<and> (meets_target h (difficulty_to_target (Fin q))
         \<longrightarrow> of_nat (le_value h) * q \<le> (1 + 1 / 2 ^ 53) * 2 ^ 251)
    \<and> (of_nat (le_value h) * q \<le> (1 - 1 / 2 ^ 53) * 2 ^ 251
         \<longrightarrow> meets_target h (difficulty_to_target (Fin q)))"
proof -
  have q: "diff_range q" "0 < q" using assms(1,2) by (auto simp: diff_range_def)
  note e = target_exact [OF q(1)] and n = target_num_facts [OF q(1)]
  have "meets_target h (difficulty_to_target (Fin q)) \<longleftrightarrow> le_value h \<le> be_value (difficulty_to_target (Fin q))"
    using meets_loop_compares [of "rev h" "difficulty_to_target (Fin q)"] assms(3) e(1)
    by (simp add: meets_target_def be_value_def)
  also have "\<dots> \<longleftrightarrow> int (le_value h) \<le> \<lfloor>target_num q\<rfloor>" by (simp flip: e(2))
  also have "\<dots> \<longleftrightarrow> of_nat (le_value h) \<le> target_num q" by (simp add: le_floor_iff)
  finally have m: "meets_target h (difficulty_to_target (Fin q)) \<longleftrightarrow> of_nat (le_value h) \<le> target_num q" .
  have "parse_target H (difficulty_to_target_hex H (Fin q)) = Inr (difficulty_to_target (Fin q))"
    by (simp add: parse_target_def difficulty_to_target_hex_def hex_okD(1) [OF assms(4)] e(1))
  moreover have "of_nat (le_value h) * q \<le> (1 + u64eps) * 2 ^ 251" if "of_nat (le_value h) \<le> target_num q"
  proof -
    have "of_nat (le_value h) \<le> (1 + u64eps) * 2 ^ 251 / q" using that n(4) by simp
    then show ?thesis by (simp only: pos_le_divide_eq [OF q(2)])
  qed
  moreover have "of_nat (le_value h) \<le> target_num q" if "of_nat (le_value h) * q \<le> (1 - u64eps) * 2 ^ 251"
  proof -
    have "of_nat (le_value h) \<le> (1 - u64eps) * 2 ^ 251 / q" using that by (simp only: pos_le_divide_eq [OF q(2)])
    then show ?thesis using n(3) by simp
  qed
  ultimately show ?thesis unfolding m u64eps_def by blast
qed

theorem target_is_exact_witness:
  "parse_target hex_ref (difficulty_to_target_hex hex_ref (Fin 8192)) = Inr (difficulty_to_target (Fin 8192))
   \<and> meets_target (replicate 29 0 @ [60, 0, 0]) (difficulty_to_target (Fin 8192))"
proof -
  let ?h = "replicate 29 0 @ [60, 0, 0] :: bytes"
  have "le_value (replicate n (0 :: u8) @ xs) = 256 ^ n * le_value xs" for n xs
    by (induction n) simp_all
  moreover have "le_value [60, 0, 0 :: u8] = 60" by code_simp
  ultimately have "le_value ?h \<le> 256 ^ 29 * 61" by simp
  then have "(of_nat (le_value ?h) :: rat) \<le> of_nat (256 ^ 29 * 61)" by (simp only: of_nat_le_iff)
  then have "of_nat (le_value ?h) * 8192 \<le> (1 - 1 / 2 ^ 53) * (2 ^ 251 :: rat)" by simp
  with target_is_exact [of 8192 ?h hex_ref] show ?thesis by (simp add: hex_ok_ref)
qed

text \<open>
  The difficulty read back from a session's target, at which grace-window shares are
  credited, is the difficulty the target was made for, to within a relative error of \<open>2 ^ (-51)\<close>.
\<close>

theorem grace_difficulty_roundtrip:
  assumes "1 / 16 \<le> q" and "q \<le> 2 ^ 100"
  shows "\<exists>r. target_to_difficulty (difficulty_to_target (Fin q)) = Fin r \<and> \<bar>r - q\<bar> \<le> q / 2 ^ 51"
proof -
  have q: "diff_range q" "0 < q" using assms by (auto simp: diff_range_def)
  note n = target_num_facts [OF q(1)] and val = target_to_difficulty_exact [OF q(1)]
  let ?x = "target_num q"
  define N where "N = (of_int \<lfloor>?x\<rfloor> :: rat)"
  let ?y = "2 ^ 251 / N" and ?u = "u64eps"
  have u: "?u = 1 / 2 ^ 53" by (simp add: u64eps_def)
  have Nx: "N \<le> ?x" "?x < N + 1" unfolding N_def by linarith+
  have x: "(1 - ?u) * 2 ^ 251 \<le> ?x * q" "?x * q \<le> (1 + ?u) * 2 ^ 251"
    using n(3,4) q(2) by (simp_all add: pos_divide_le_eq pos_le_divide_eq)
  have N0: "2 ^ 150 \<le> N" using Nx(2) n(5) by simp
  then have Np: "0 < N" by simp
  have wN: "1 \<le> N * ?u" using N0 by (simp add: u)
  have Nu: "N * q \<le> (1 + ?u) * 2 ^ 251"
    using mult_right_mono [OF Nx(1), of q] x(2) q(2) by linarith
  have "(1 - ?u) * 2 ^ 251 \<le> (N + N * ?u) * q"
    using mult_right_mono [of ?x "N + N * ?u" q] x(1) Nx(2) wN q(2) by linarith
  then have Nl: "(1 - ?u) * 2 ^ 251 \<le> (1 + ?u) * (N * q)" by (simp add: algebra_simps)
  have yq1: "?y \<le> (1 + ?u) / (1 - ?u) * q"
  proof -
    have "2 ^ 251 \<le> (1 + ?u) / (1 - ?u) * q * N"
      using Nl by (simp add: pos_le_divide_eq ac_simps)
    then show ?thesis using Np by (simp only: pos_divide_le_eq)
  qed
  have yq2: "q / (1 + ?u) \<le> ?y"
  proof -
    have "q / (1 + ?u) * N \<le> 2 ^ 251" using Nu by (simp add: pos_divide_le_eq ac_simps add_pos_nonneg)
    then show ?thesis using Np by (simp only: pos_le_divide_eq)
  qed
  have ylow: "pow2 (- 1022) \<le> ?y"
  proof -
    have "pow2 (- 1022) \<le> pow2 (- 5)" by simp
    also have "\<dots> \<le> q / (1 + ?u)" using assms(1) by (simp add: u pow2_minus pow2_nat')
    finally show ?thesis using yq2 by linarith
  qed
  have yup: "?y \<le> 2 ^ 101"
  proof -
    have "(1 + ?u) / (1 - ?u) * q \<le> 2 * q" using q(2) by (intro mult_right_mono) (simp_all add: u)
    then show ?thesis using yq1 assms(2) by simp
  qed
  have k: "(1 + ?u) * ((1 + ?u) / (1 - ?u)) \<le> 1 + 1 / 2 ^ 51" "1 - 1 / 2 ^ 51 \<le> (1 - ?u) / (1 + ?u)"
    by (simp_all add: u)
  have r1: "rnd ?y \<le> (1 + 1 / 2 ^ 51) * q"
  proof -
    have "rnd ?y \<le> (1 + ?u) * ?y" by (rule rnd_upper [OF ylow])
    also have "\<dots> \<le> (1 + ?u) * ((1 + ?u) / (1 - ?u) * q)" using yq1 by (intro mult_left_mono) (simp_all add: add_nonneg_nonneg)
    also have "\<dots> = (1 + ?u) * ((1 + ?u) / (1 - ?u)) * q" by simp
    also have "\<dots> \<le> (1 + 1 / 2 ^ 51) * q" using k(1) q(2) by (intro mult_right_mono) simp_all
    finally show ?thesis .
  qed
  have r2: "(1 - 1 / 2 ^ 51) * q \<le> rnd ?y"
  proof -
    have "(1 - 1 / 2 ^ 51) * q \<le> (1 - ?u) / (1 + ?u) * q" using k(2) q(2) by (intro mult_right_mono) simp_all
    also have "\<dots> = (1 - ?u) * (q / (1 + ?u))" by simp
    also have "\<dots> \<le> (1 - ?u) * ?y" using yq2 by (intro mult_left_mono) simp_all
    also have "\<dots> \<le> rnd ?y" by (rule rnd_lower [OF ylow])
    finally show ?thesis .
  qed
  have yb: "- (2 ^ 1000) \<le> ?y" "?y \<le> 2 ^ 1000"
    using yup Np power_increasing [of 101 1000 "2 :: rat"] order_trans [of "- (2 ^ 1000)" 0 ?y] by simp_all
  have "target_to_difficulty (difficulty_to_target (Fin q)) = fdiv pow_limit_f64 (Fin N)"
    using Np by (simp add: target_to_difficulty_def val N_def [symmetric] del: fdiv.simps)
  also have "\<dots> = Fin (rnd ?y)" using Np round64_rep_bounded [OF yb] by (simp add: pow_limit_value)
  finally have 1: "target_to_difficulty (difficulty_to_target (Fin q)) = Fin (rnd ?y)" .
  have "rnd ?y - q \<le> q / 2 ^ 51" using r1 by (simp only: distrib_right) simp
  moreover have "- (rnd ?y - q) \<le> q / 2 ^ 51" using r2 by (simp only: left_diff_distrib) simp
  ultimately have "\<bar>rnd ?y - q\<bar> \<le> q / 2 ^ 51" by (rule abs_leI)
  then show ?thesis using 1 by blast
qed

theorem grace_difficulty_roundtrip_witness:
  "\<exists>r. target_to_difficulty (difficulty_to_target (Fin 3)) = Fin r \<and> \<bar>r - 3\<bar> \<le> 3 / 2 ^ 51"
  using grace_difficulty_roundtrip [of 3] by simp

end
