(* ===== verification/Histories.thy ===== *)
theory Histories
  imports Pool_Prelude
begin

text \<open>
  The interface of the bounded buffers of the code (lag samples, difficulty adjustments, grace
  targets, share fingerprints): one operation pushes an item at the back and the oldest items
  fall off the front.  Each buffer of the code is shown to meet it in the theory of the
  component that owns it, and inherits what holds of a whole run of pushes.
\<close>

definition last_n :: "nat \<Rightarrow> 'a list \<Rightarrow> 'a list" where
  "last_n n xs = drop (length xs - n) xs"

lemma length_last_n [simp]: "length (last_n n xs) = min n (length xs)"
  by (simp add: last_n_def)

lemma last_n_all [simp]: "length xs \<le> n \<Longrightarrow> last_n n xs = xs"
  by (simp add: last_n_def)

lemma set_last_n: "set (last_n n xs) \<subseteq> set xs"
  by (simp add: last_n_def set_drop_subset)

lemma last_n_snoc: "last_n n (last_n n xs @ [x]) = last_n n (xs @ [x])"
  by (cases "length xs \<le> n") (simp_all add: last_n_def Suc_diff_le flip: drop_Suc)

lemma last_n_append: "last_n n (last_n n xs @ ys) = last_n n (xs @ ys)"
proof (induction ys rule: rev_induct)
  case Nil
  show ?case by (simp add: last_n_def)
next
  case (snoc y ys)
  show ?case
    using last_n_snoc [of n "last_n n xs @ ys" y] last_n_snoc [of n "xs @ ys" y] snoc by simp
qed

lemma last_n_in: "length ys < n \<Longrightarrow> x \<in> set (last_n n (xs @ x # ys))"
  by (simp add: last_n_def drop_Cons')

lemma last_last_n: "0 < n \<Longrightarrow> xs \<noteq> [] \<Longrightarrow> last (last_n n xs) = last xs"
  by (simp add: last_n_def last_drop)

lemma push_bounded_last_n: "length xs \<le> n \<Longrightarrow> push_bounded n xs x = last_n n (xs @ [x])"
  by (simp add: push_bounded_eq_drop last_n_def)

locale bounded_history =
  fixes push :: "'a \<Rightarrow> 's \<Rightarrow> 's"
    and items :: "'s \<Rightarrow> 'b list"
    and item_of :: "'a \<Rightarrow> 's \<Rightarrow> 'b"
    and cap :: nat
  assumes cap_pos: "0 < cap"
    and items_push: "length (items s) \<le> cap \<Longrightarrow> items (push x s) = last_n cap (items s @ [item_of x s])"
begin

primrec pushes :: "'a list \<Rightarrow> 's \<Rightarrow> 's" where
  "pushes [] s = s"
| "pushes (x # xs) s = pushes xs (push x s)"

primrec pushed :: "'a list \<Rightarrow> 's \<Rightarrow> 'b list" where
  "pushed [] s = []"
| "pushed (x # xs) s = item_of x s # pushed xs (push x s)"

lemma length_push: "length (items s) \<le> cap \<Longrightarrow> length (items (push x s)) \<le> cap"
  by (simp add: items_push)

lemma items_pushes:
  assumes "length (items s) \<le> cap"
  shows "items (pushes xs s) = last_n cap (items s @ pushed xs s)"
  using assms
proof (induction xs arbitrary: s)
  case (Cons x xs)
  show ?case
    using Cons.IH [OF length_push [OF Cons.prems, of x]] Cons.prems
    by (simp add: items_push last_n_append)
qed simp

lemma length_pushes: "length (items s) \<le> cap \<Longrightarrow> length (items (pushes xs s)) \<le> cap"
  by (simp add: items_pushes)

lemma newest_kept:
  "length (items s) \<le> cap \<Longrightarrow> last (items (push x s)) = item_of x s"
  by (simp add: items_push last_last_n cap_pos)

lemma recent_kept:
  assumes "length (items s) \<le> cap" "length xs < cap"
  shows "item_of x s \<in> set (items (pushes (x # xs) s))"
proof -
  have "length (pushed xs t) = length xs" for t by (induction xs arbitrary: t) simp_all
  then show ?thesis
    using last_n_in [of "pushed xs (push x s)" cap] items_pushes [OF assms(1), of "x # xs"] assms(2) by simp
qed

end

end
