(* ===== verification/Lag.thy ===== *)
theory Lag
  imports Histories Vardiff "HOL-Library.Multiset" "HOL-Library.Code_Target_Nat"
begin

text \<open>
  The template lag tracker, \<open>pool-core/src/lag.rs\<close>: a window of the latest samples, a total
  that is never reset, and the snapshot with its nearest-rank percentiles.  \<open>now\<close> is the clock
  reading of \<open>Instant::now()\<close>.
\<close>

section \<open>The order of the floats\<close>

text \<open>
  \<open>partial_cmp\<close> orders all values but \<open>NaN\<close>; the library's sorting needs a total order, so
  \<open>NaN\<close> is put last.  No lag is a \<open>NaN\<close>.
\<close>

fun f64_rank :: "f64 \<Rightarrow> nat \<times> rat" where
  "f64_rank FNegInf = (0, 0)"
| "f64_rank (Fin q) = (1, q)"
| "f64_rank FPosInf = (2, 0)"
| "f64_rank FNaN = (3, 0)"

instantiation f64 :: linorder
begin

definition less_eq_f64 :: "f64 \<Rightarrow> f64 \<Rightarrow> bool" where
  "less_eq_f64 x y \<longleftrightarrow> (let (a, p) = f64_rank x; (b, q) = f64_rank y in a < b \<or> a = b \<and> p \<le> q)"

definition less_f64 :: "f64 \<Rightarrow> f64 \<Rightarrow> bool" where
  "less_f64 x y \<longleftrightarrow> x \<le> y \<and> \<not> y \<le> (x :: f64)"

instance
proof
  fix x y z :: f64
  show "x < y \<longleftrightarrow> x \<le> y \<and> \<not> y \<le> x" by (rule less_f64_def)
  show "x \<le> x" by (simp add: less_eq_f64_def split: prod.split)
  show "x \<le> y \<Longrightarrow> y \<le> z \<Longrightarrow> x \<le> z" by (auto simp: less_eq_f64_def split: prod.splits)
  show "x \<le> y \<Longrightarrow> y \<le> x \<Longrightarrow> x = y" by (cases x; cases y) (auto simp: less_eq_f64_def)
  show "x \<le> y \<or> y \<le> x" by (auto simp: less_eq_f64_def split: prod.splits)
qed

end

lemma Fin_le_Fin [simp]: "Fin p \<le> Fin q \<longleftrightarrow> p \<le> q"
  by (simp add: less_eq_f64_def)

lemma Fin_less_Fin [simp]: "Fin p < Fin q \<longleftrightarrow> p < q"
  by (auto simp: less_f64_def)

lemma fle_less_eq: "x \<noteq> FNaN \<Longrightarrow> y \<noteq> FNaN \<Longrightarrow> fle x y \<longleftrightarrow> x \<le> y"
  by (cases x; cases y) (auto simp: less_eq_f64_def fle_def feq_def)

section \<open>The tracker\<close>

datatype lag_kind = EmptyBlock | FullTemplate

record lag_sample =
  ls_recorded_at :: nanos
  ls_lag :: nanos
  ls_height :: u64
  ls_kind :: lag_kind

record lag_tracker =
  lt_samples :: "lag_sample list"
  lt_samples_total :: u64

definition MAX_SAMPLES :: nat where
  "MAX_SAMPLES = 200"

definition lag_new :: lag_tracker where
  "lag_new = \<lparr>lt_samples = [], lt_samples_total = 0\<rparr>"

text \<open>\<open>while samples.len() > MAX_SAMPLES { samples.pop_front(); }\<close>\<close>

fun pop_excess :: "nat \<Rightarrow> 'a list \<Rightarrow> 'a list" where
  "pop_excess n [] = []"
| "pop_excess n (x # xs) = (if n < length (x # xs) then pop_excess n xs else x # xs)"

definition record_lag :: "nanos \<Rightarrow> nanos \<Rightarrow> u64 \<Rightarrow> lag_kind \<Rightarrow> lag_tracker \<Rightarrow> lag_tracker" where
  "record_lag now lag height kind t =
     t\<lparr>lt_samples := pop_excess MAX_SAMPLES (lt_samples t
         @ [\<lparr>ls_recorded_at = now, ls_lag = lag, ls_height = height, ls_kind = kind\<rparr>]),
       lt_samples_total := lt_samples_total t + 1\<rparr>"

section \<open>Snapshots\<close>

definition percentile_index :: "nat \<Rightarrow> f64 \<Rightarrow> nat" where
  "percentile_index n pct =
     as_usize (fround (fmul (fsub (f64_of_int (int n)) (Fin 1)) (fclamp pct (Fin 0) (Fin 1))))"

definition percentile :: "f64 list \<Rightarrow> f64 \<Rightarrow> f64 option" where
  "percentile values pct = (if values = [] then None
     else nth_opt (sort values) (percentile_index (length values) pct))"

definition lag_ms :: "lag_sample \<Rightarrow> f64" where
  "lag_ms s = fmul (as_secs_f64 (ls_lag s)) (Fin 1000)"

definition lags_of :: "lag_kind \<Rightarrow> lag_sample list \<Rightarrow> f64 list" where
  "lags_of k ss = map lag_ms (filter (\<lambda>s. ls_kind s = k) ss)"

definition last_opt :: "'a list \<Rightarrow> 'a option" where
  "last_opt xs = (if xs = [] then None else Some (last xs))"

record lag_snapshot =
  sn_samples_total :: u64
  sn_samples_window :: nat
  sn_last_sample_age_secs :: "nat option"
  sn_last_height :: "u64 option"
  sn_last_empty_ms :: "f64 option"
  sn_p50_empty_ms :: "f64 option"
  sn_p95_empty_ms :: "f64 option"
  sn_last_full_ms :: "f64 option"
  sn_p50_full_ms :: "f64 option"
  sn_p95_full_ms :: "f64 option"

definition lag_snapshot_of :: "nanos \<Rightarrow> lag_tracker \<Rightarrow> lag_snapshot" where
  "lag_snapshot_of now t = (let ss = lt_samples t;
       empty_lags = lags_of EmptyBlock ss; full_lags = lags_of FullTemplate ss in
     \<lparr>sn_samples_total = lt_samples_total t,
      sn_samples_window = length ss,
      sn_last_sample_age_secs = map_option (\<lambda>s. (now - ls_recorded_at s) div 10 ^ 9) (last_opt ss),
      sn_last_height = map_option ls_height (last_opt ss),
      sn_last_empty_ms = last_opt empty_lags,
      sn_p50_empty_ms = percentile empty_lags (flit (1 / 2)),
      sn_p95_empty_ms = percentile empty_lags (flit (19 / 20)),
      sn_last_full_ms = last_opt full_lags,
      sn_p50_full_ms = percentile full_lags (flit (1 / 2)),
      sn_p95_full_ms = percentile full_lags (flit (19 / 20))\<rparr>)"

section \<open>The window is a bounded history\<close>

lemma pop_excess_last_n: "pop_excess n xs = last_n n xs"
  by (induction xs) (auto simp: last_n_def Suc_diff_le)

datatype lag_record = Lag_record (lr_now: nanos) (lr_lag: nanos) (lr_height: u64) (lr_kind: lag_kind)

fun do_record :: "lag_record \<Rightarrow> lag_tracker \<Rightarrow> lag_tracker" where
  "do_record (Lag_record now lag height kind) t = record_lag now lag height kind t"

definition sample_of :: "lag_record \<Rightarrow> lag_sample" where
  "sample_of r = \<lparr>ls_recorded_at = lr_now r, ls_lag = lr_lag r, ls_height = lr_height r,
     ls_kind = lr_kind r\<rparr>"

interpretation lag: bounded_history do_record lt_samples "\<lambda>r t. sample_of r" MAX_SAMPLES
proof
  show "0 < MAX_SAMPLES" by (simp add: MAX_SAMPLES_def)
  show "lt_samples (do_record r t) = last_n MAX_SAMPLES (lt_samples t @ [sample_of r])" for r t
    by (cases r) (simp add: record_lag_def pop_excess_last_n sample_of_def)
qed

primrec lag_run :: "lag_record list \<Rightarrow> lag_tracker \<Rightarrow> lag_tracker" where
  "lag_run [] t = t"
| "lag_run (r # rs) t = lag_run rs (do_record r t)"

lemma lag_run_pushes: "lag_run rs t = lag.pushes rs t"
  by (induction rs arbitrary: t) simp_all

lemma lag_pushed: "lag.pushed rs t = map sample_of rs"
  by (induction rs arbitrary: t) simp_all

lemma lag_run_samples: "lt_samples (lag_run rs lag_new) = last_n MAX_SAMPLES (map sample_of rs)"
  using lag.items_pushes [of lag_new rs] by (simp add: lag_run_pushes lag_pushed lag_new_def)

lemma lag_run_total: "lt_samples_total (lag_run rs t) = lt_samples_total t + of_nat (length rs)"
proof (induction rs arbitrary: t)
  case (Cons r rs)
  then show ?case by (cases r) (simp add: record_lag_def)
qed simp

section \<open>Nearest-rank percentiles\<close>

lemma rnd_abs_error:
  assumes "0 \<le> x" "1 \<le> b" "x \<le> b"
  shows "\<bar>rnd x - x\<bar> \<le> b * u64eps"
proof (cases "x = 0")
  case True
  then show ?thesis using assms by (simp add: u64eps_def)
next
  case False
  then have x: "0 < x" using assms by simp
  have "pow2 (uexp x) \<le> b * 2 * u64eps"
  proof (cases "- 1074 \<le> ilog2 x - 52")
    case True
    have "pow2 (ilog2 x) \<le> b" using ilog2_bounds [OF x] assms(3) by linarith
    moreover have "uexp x = ilog2 x - 52" using True by (simp add: uexp_def)
    then have "pow2 (uexp x) = pow2 (ilog2 x) / 2 ^ 52"
      using pow2_diff [of "ilog2 x" 52] pow2_nat [of 52] by simp
    ultimately show ?thesis by (simp add: u64eps_def field_simps)
  next
    case False
    have "pow2 (- 1074) \<le> pow2 (- 52)" by simp
    also have "\<dots> \<le> b * 2 * u64eps" using assms(2) by (simp add: u64eps_def pow2_def field_simps)
    finally show ?thesis using False by (simp add: uexp_def max_def)
  qed
  then show ?thesis using rnd_error_ulp [of x] x by simp
qed

lemma percentile_index_near:
  assumes n: "1 \<le> n" "n \<le> 2 ^ 52" and p: "0 \<le> p" "p \<le> 1"
  shows "percentile_index n (Fin p) < n"
    and "\<bar>of_nat (percentile_index n (Fin p)) - (of_nat n - 1) * p\<bar> \<le> 1 / 2 + of_nat n * u64eps"
proof -
  let ?x = "(of_nat n - 1) * p" and ?m = "int n - 1"
  have N: "(of_nat n :: rat) \<le> 2 ^ 52" using n(2) by (metis of_nat_le_iff of_nat_numeral of_nat_power)
  have m: "(of_nat n :: rat) - 1 = of_int ?m" "\<bar>?m\<bar> \<le> 2 ^ 53" using n by auto
  have x: "0 \<le> ?x" "?x \<le> of_nat n - 1"
    using n p by (auto intro: mult_nonneg_nonneg mult_left_le)
  define r where "r = rnd ?x"
  have r: "0 \<le> r" "r \<le> of_nat n - 1" "\<bar>r - ?x\<bar> \<le> of_nat n * u64eps"
  proof -
    show "0 \<le> r" unfolding r_def using x(1) by (rule rnd_nonneg)
    show "r \<le> of_nat n - 1" unfolding r_def m(1) using x(2) by (intro rnd_le_int [OF m(2)]) (simp only: m(1))
    show "\<bar>r - ?x\<bar> \<le> of_nat n * u64eps"
      unfolding r_def using x n(1) by (intro rnd_abs_error) auto
  qed
  have "\<bar>?x\<bar> \<le> 2 ^ 53" using x N by simp
  then have "round64 ?x = Fin r" unfolding r_def by (rule round64_small)
  moreover have "round64 (of_nat n - 1) = Fin (of_nat n - 1)"
    unfolding m(1) by (rule round64_of_int [OF m(2)])
  then have "fsub (f64_of_int (int n)) (Fin 1) = Fin (of_nat n - 1)"
    using f64_of_int_exact [of "int n"] n(2) by simp
  moreover have "fclamp (Fin p) (Fin 0) (Fin 1) = Fin p" using p by (simp add: fclamp_Fin)
  ultimately have "fround (fmul (fsub (f64_of_int (int n)) (Fin 1)) (fclamp (Fin p) (Fin 0) (Fin 1)))
      = Fin (of_int \<lfloor>r + 1 / 2\<rfloor>)"
    using r(1) by (simp only: fmul.simps fround.simps if_True)
  then have idx: "percentile_index n (Fin p) = as_usize (Fin (of_int \<lfloor>r + 1 / 2\<rfloor>))"
    by (simp only: percentile_index_def)
  have f: "0 \<le> \<lfloor>r + 1 / 2\<rfloor>" using r(1) by linarith
  have "r + 1 / 2 < of_int ?m + 1" unfolding m(1) [symmetric] using r(2) by linarith
  then have f: "0 \<le> \<lfloor>r + 1 / 2\<rfloor>" "\<lfloor>r + 1 / 2\<rfloor> \<le> ?m" using f by (simp_all only: floor_le_iff)
  then have "int (percentile_index n (Fin p)) = \<lfloor>r + 1 / 2\<rfloor>"
    using n(2) by (simp add: idx as_usize_def)
  then have i: "int (percentile_index n (Fin p)) = \<lfloor>r + 1 / 2\<rfloor>"
    "(of_nat (percentile_index n (Fin p)) :: rat) = of_int \<lfloor>r + 1 / 2\<rfloor>"
    by (simp, metis of_int_of_nat_eq)
  show "percentile_index n (Fin p) < n" using f(2) i(1) by linarith
  have "\<bar>of_int \<lfloor>r + 1 / 2\<rfloor> - r\<bar> \<le> 1 / 2" by linarith
  then show "\<bar>of_nat (percentile_index n (Fin p)) - ?x\<bar> \<le> 1 / 2 + of_nat n * u64eps"
    using r(3) i(2) by linarith
qed

lemma sort_rank:
  fixes vs :: "'a::linorder list"
  assumes "i < length vs"
  shows "sort vs ! i \<in> set vs"
    and "i < length (filter (\<lambda>x. x \<le> sort vs ! i) vs)"
    and "length (filter (\<lambda>x. x < sort vs ! i) vs) \<le> i"
proof -
  let ?s = "sort vs"
  have len: "length ?s = length vs" by simp
  show "?s ! i \<in> set vs" using assms nth_mem [of i ?s] by simp
  have flt: "length (filter P vs) = card {j. j < length vs \<and> P (?s ! j)}" for P
  proof -
    have "length (filter P vs) = length (filter P ?s)" by (metis mset_filter mset_sort size_mset)
    then show ?thesis by (simp add: length_filter_conv_card)
  qed
  have "{..i} \<subseteq> {j. j < length vs \<and> ?s ! j \<le> ?s ! i}"
    using assms by (auto intro: sorted_nth_mono)
  from card_mono [OF _ this] show "i < length (filter (\<lambda>x. x \<le> ?s ! i) vs)" by (simp add: flt)
  have "{j. j < length vs \<and> ?s ! j < ?s ! i} \<subseteq> {..<i}"
    by (auto simp: not_le [symmetric] intro: sorted_nth_mono)
  from card_mono [OF _ this] show "length (filter (\<lambda>x. x < ?s ! i) vs) \<le> i" by (simp add: flt)
qed

lemma percentile_rank:
  assumes "vs \<noteq> []" "length vs \<le> 2 ^ 52" "0 \<le> p" "p \<le> 1"
  shows "\<exists>i v. percentile vs (Fin p) = Some v \<and> v \<in> set vs
    \<and> \<bar>of_nat i - (of_nat (length vs) - 1) * p\<bar> \<le> 1 / 2 + of_nat (length vs) * u64eps
    \<and> i < length (filter (\<lambda>x. x \<le> v) vs) \<and> length (filter (\<lambda>x. x < v) vs) \<le> i"
proof -
  let ?i = "percentile_index (length vs) (Fin p)"
  have "1 \<le> length vs" using assms(1) by (cases vs) auto
  note i = percentile_index_near [OF this assms(2-4)]
  have "percentile vs (Fin p) = Some (sort vs ! ?i)"
    using assms(1) i(1) by (simp add: percentile_def nth_opt_def)
  then show ?thesis using i(2) sort_rank [OF i(1)] by blast
qed

text \<open>
  \<open>quantile q vs out\<close>: \<open>out\<close> is the \<open>q\<close>-quantile of \<open>vs\<close>, to within one rank; nothing when
  there are no values.
\<close>

definition quantile :: "rat \<Rightarrow> f64 list \<Rightarrow> f64 option \<Rightarrow> bool" where
  "quantile q vs out = (case out of None \<Rightarrow> vs = []
     | Some v \<Rightarrow> v \<in> set vs
        \<and> (of_nat (length vs) - 1) * q \<le> of_nat (length (filter (\<lambda>x. x \<le> v) vs))
        \<and> of_nat (length (filter (\<lambda>x. x < v) vs)) \<le> (of_nat (length vs) - 1) * q + 1)"

lemma percentile_quantile:
  assumes len: "length vs \<le> 200" and q: "0 \<le> q" "q \<le> 1"
  shows "quantile q vs (percentile vs (flit q))"
proof (cases "vs = []")
  case True
  then show ?thesis by (simp add: quantile_def percentile_def)
next
  case False
  define p where "p = rnd q"
  have p: "0 \<le> p" "p \<le> 1" "\<bar>p - q\<bar> \<le> u64eps"
    unfolding p_def using q rnd_nonneg rnd_le_int [of 1 q] rnd_abs_error [of q 1] by auto
  have fl: "flit q = Fin p" unfolding flit_def p_def using q by (intro round64_small) auto
  let ?m = "(of_nat (length vs) :: rat) - 1"
  have m: "0 \<le> ?m" "?m \<le> 199" using False len by (cases vs; simp)+
  from percentile_rank [OF False _ p(1,2)] len obtain i v where
    v: "percentile vs (Fin p) = Some v" "v \<in> set vs"
      "\<bar>of_nat i - ?m * p\<bar> \<le> 1 / 2 + of_nat (length vs) * u64eps"
      "i < length (filter (\<lambda>x. x \<le> v) vs)" "length (filter (\<lambda>x. x < v) vs) \<le> i" by auto
  have "\<bar>?m * p - ?m * q\<bar> \<le> ?m * u64eps"
    using mult_left_mono [OF p(3) m(1)] m(1) by (simp add: abs_mult flip: right_diff_distrib)
  moreover have "?m * u64eps \<le> 1 / 8" "of_nat (length vs) * u64eps \<le> 1 / 8"
    using m by (simp_all add: u64eps_def field_simps)
  ultimately have i: "\<bar>of_nat i - ?m * q\<bar> \<le> 3 / 4" using v(3) by linarith
  have "of_nat i + 1 \<le> (of_nat (length (filter (\<lambda>x. x \<le> v) vs)) :: rat)"
    using v(4) by (metis Suc_leI of_nat_Suc of_nat_le_iff add.commute)
  moreover have "of_nat (length (filter (\<lambda>x. x < v) vs)) \<le> (of_nat i :: rat)"
    using v(5) by (simp only: of_nat_le_iff)
  ultimately have "?m * q \<le> of_nat (length (filter (\<lambda>x. x \<le> v) vs))"
    "of_nat (length (filter (\<lambda>x. x < v) vs)) \<le> ?m * q + 1" using i by linarith+
  then show ?thesis using v(1,2) by (simp only: quantile_def fl option.case simp_thms)
qed

lemma lags_of_length: "length (lags_of k ss) \<le> length ss"
  by (simp add: lags_of_def)

text \<open>
  After any sequence of records the tracker holds the latest 200 samples in order, the total
  counts every record, and the snapshot's p50 and p95 are the nearest-rank quantiles of the
  retained lags of their kind, absent only when there is none.
\<close>

theorem lag_snapshot_sound:
  assumes "length rs < 2 ^ 64"
  shows "let W = drop (length rs - 200) (map sample_of rs); t = lag_run rs lag_new;
        s = lag_snapshot_of now t in
      lt_samples t = W \<and> unat (sn_samples_total s) = length rs
      \<and> sn_samples_window s = min 200 (length rs)
      \<and> quantile (1 / 2) (lags_of EmptyBlock W) (sn_p50_empty_ms s)
      \<and> quantile (19 / 20) (lags_of EmptyBlock W) (sn_p95_empty_ms s)
      \<and> quantile (1 / 2) (lags_of FullTemplate W) (sn_p50_full_ms s)
      \<and> quantile (19 / 20) (lags_of FullTemplate W) (sn_p95_full_ms s)"
proof -
  let ?W = "drop (length rs - 200) (map sample_of rs)"
  have W: "lt_samples (lag_run rs lag_new) = ?W"
    by (simp add: lag_run_samples last_n_def MAX_SAMPLES_def)
  have tot: "unat (lt_samples_total (lag_run rs lag_new)) = length rs"
    using assms by (simp add: lag_run_total lag_new_def unat_of_nat take_bit_nat_eq_self)
  have len: "length (lags_of k ?W) \<le> 200" for k
    using lags_of_length [of k ?W] by simp
  show ?thesis
    using tot by (simp add: Let_def W lag_snapshot_of_def percentile_quantile [OF len])
qed

definition lag_demo :: "lag_record list" where
  "lag_demo = [Lag_record 10 1000000000 7 EmptyBlock, Lag_record 20 500000000 7 FullTemplate,
     Lag_record 30 3000000000 8 EmptyBlock]"

theorem lag_snapshot_sound_witness:
  "sn_samples_total (lag_snapshot_of 40 (lag_run lag_demo lag_new)) = 3
   \<and> sn_p95_empty_ms (lag_snapshot_of 40 (lag_run lag_demo lag_new)) = Some (Fin 3000)
   \<and> quantile (19 / 20) [Fin 1000, Fin 3000] (Some (Fin 3000))"
proof -
  have "length lag_demo < 2 ^ 64" by (simp add: lag_demo_def)
  note s = lag_snapshot_sound [OF this, of 40, unfolded Let_def]
  have "lt_samples_total (lag_run lag_demo lag_new) = 3" by code_simp
  then have "sn_samples_total (lag_snapshot_of 40 (lag_run lag_demo lag_new)) = 3"
    by (simp add: lag_snapshot_of_def Let_def)
  moreover have "percentile (lags_of EmptyBlock (lt_samples (lag_run lag_demo lag_new))) (flit (19 / 20))
      = Some (Fin 3000)" by code_simp
  then have "sn_p95_empty_ms (lag_snapshot_of 40 (lag_run lag_demo lag_new)) = Some (Fin 3000)"
    by (simp add: lag_snapshot_of_def Let_def)
  moreover have "lags_of EmptyBlock (drop (length lag_demo - 200) (map sample_of lag_demo))
      = [Fin 1000, Fin 3000]" by code_simp
  ultimately show ?thesis using s by simp
qed

end
