(* ===== verification/Node_Rpc.thy ===== *)
theory Node_Rpc
  imports Targets
begin

text \<open>
  The JSON-RPC client of the node and the wallet: \<open>node-rpc/src/types.rs\<close> and
  \<open>node-rpc/src/client.rs\<close>.  The HTTP transport (\<open>reqwest\<close>) and the text of JSON (\<open>serde_json\<close>)
  are third-party: a transport is a record of two functions over the state \<open>'w\<close> of the outside
  world, and the derived decoders are a record of functions from a response body.
\<close>

section \<open>Types\<close>

record template_tx =
  tt_data :: string
  tt_hash :: string
  tt_fee :: int
  tt_sigops :: nat
  tt_required :: bool
  tt_authdigest :: "string option"

record default_roots =
  dr_merkleroot :: "string option"
  dr_chainhistoryroot :: "string option"
  dr_authdataroot :: "string option"
  dr_blockcommitmentshash :: "string option"

record coinbase_txn =
  ct_data :: string
  ct_hash :: string
  ct_fee :: "int option"
  ct_sigops :: "nat option"
  ct_required :: "bool option"

record block_template =
  bt_version :: u32
  bt_previousblockhash :: string
  bt_lightclientroothash :: "string option"
  bt_blockcommitmentshash :: "string option"
  bt_finalsaplingroothash :: "string option"
  bt_defaultroots :: "default_roots option"
  bt_transactions :: "template_tx list"
  bt_coinbasetxn :: "coinbase_txn option"
  bt_target :: string
  bt_mintime :: u64
  bt_curtime :: u64
  bt_bits :: string
  bt_height :: u64
  bt_capabilities :: "string list"
  bt_mutable :: "string list"
  bt_noncerange :: "string option"
  bt_sigoplimit :: "nat option"
  bt_sizelimit :: "nat option"
  bt_longpollid :: "string option"

record node_info =
  ni_version :: "nat option"
  ni_subversion :: "string option"
  ni_blocks :: "nat option"
  ni_connections :: "nat option"
  ni_testnet :: "bool option"

record rpc_request =
  rq_jsonrpc :: string
  rq_id :: u64
  rq_method :: string
  rq_params :: json

record json_rpc_error =
  je_code :: int
  je_message :: string
  je_data :: "json option"

record 'a rpc_response =
  rs_id :: "nat option"
  rs_result :: "'a option"
  rs_error :: "json_rpc_error option"

definition json_rpc_error_text :: "json_rpc_error \<Rightarrow> string" where
  "json_rpc_error_text e = ''RPC error '' @ show_int (je_code e) @ '': '' @ je_message e"

datatype rpc_error =
    Http string
  | JsonRpc json_rpc_error
  | NullResult
  | Parse (pe_message: string) (pe_body_snippet: string)

fun rpc_error_text :: "rpc_error \<Rightarrow> string" where
  "rpc_error_text (Http e) = ''HTTP error: '' @ e"
| "rpc_error_text (JsonRpc e) = ''JSON-RPC error: '' @ json_rpc_error_text e"
| "rpc_error_text NullResult = ''Null result from RPC''"
| "rpc_error_text (Parse m b) = ''RPC response parse error: '' @ m @ ''; body: '' @ b"

fun is_definitely_not_found :: "rpc_error \<Rightarrow> bool" where
  "is_definitely_not_found (JsonRpc e) = (je_code e = - 5)"
| "is_definitely_not_found _ = False"

section \<open>The outside world\<close>

record 'w transport =
  tr_post :: "string \<Rightarrow> (string \<times> string) option \<Rightarrow> rpc_request \<Rightarrow> nanos \<Rightarrow> 'w \<Rightarrow> (string + string) \<times> 'w"
  tr_sleep :: "nanos \<Rightarrow> 'w \<Rightarrow> 'w"

type_synonym 'a decoder = "string \<Rightarrow> string + 'a"

record serde =
  sd_value :: "json decoder"
  sd_render :: "json \<Rightarrow> string"
  sd_template :: "block_template rpc_response decoder"
  sd_u64 :: "u64 rpc_response decoder"
  sd_string :: "string rpc_response decoder"
  sd_opt_string :: "string option rpc_response decoder"
  sd_info :: "node_info rpc_response decoder"
  sd_f64 :: "f64 rpc_response decoder"
  sd_json :: "json rpc_response decoder"
  sd_jsons :: "json list rpc_response decoder"

section \<open>The client\<close>

definition RPC_TIMEOUT :: nanos where
  "RPC_TIMEOUT = 15 * 10 ^ 9"

record rpc_client =
  rc_url :: string
  rc_auth :: "(string \<times> string) option"
  rc_next_id :: u64

definition client_new :: "string \<Rightarrow> rpc_client" where
  "client_new url = \<lparr>rc_url = url, rc_auth = None, rc_next_id = 1\<rparr>"

definition client_with_auth :: "string \<Rightarrow> string \<Rightarrow> string \<Rightarrow> rpc_client" where
  "client_with_auth url user password =
     \<lparr>rc_url = url, rc_auth = Some (user, password), rc_next_id = 1\<rparr>"

text \<open>\<open>body.chars().take(n)\<close>: the first \<open>n\<close> code points, a code point being a byte and the
  continuation bytes behind it.\<close>

definition is_continuation :: "char \<Rightarrow> bool" where
  "is_continuation c = (let n = of_char c :: nat in 128 \<le> n \<and> n < 192)"

fun take_chars :: "nat \<Rightarrow> string \<Rightarrow> string" where
  "take_chars n [] = []"
| "take_chars n (c # cs) = (if is_continuation c then c # take_chars n cs
     else case n of 0 \<Rightarrow> [] | Suc m \<Rightarrow> c # take_chars m cs)"

definition parse_failure :: "string \<Rightarrow> string \<Rightarrow> rpc_error" where
  "parse_failure e body = Parse e (take_chars 300 body)"

text \<open>The \<open>Ok\<close> value of a call, from the body of the HTTP response.\<close>

definition response_result :: "'a rpc_response decoder \<Rightarrow> string \<Rightarrow> rpc_error + 'a" where
  "response_result dec body = (case dec body of
     Inl e \<Rightarrow> Inl (parse_failure e body)
   | Inr resp \<Rightarrow> (case rs_error resp of
       Some err \<Rightarrow> Inl (JsonRpc err)
     | None \<Rightarrow> ok_or (rs_result resp) NullResult))"

definition post_request ::
  "'w transport \<Rightarrow> string \<Rightarrow> string \<Rightarrow> json \<Rightarrow> nanos \<Rightarrow> rpc_client \<times> 'w
     \<Rightarrow> (string + string) \<times> rpc_client \<times> 'w" where
  "post_request T version method params timeout cw = (let (c, w) = cw;
       request = \<lparr>rq_jsonrpc = version, rq_id = rc_next_id c, rq_method = method, rq_params = params\<rparr>;
       (reply, w') = tr_post T (rc_url c) (rc_auth c) request timeout w in
     (reply, c\<lparr>rc_next_id := rc_next_id c + 1\<rparr>, w'))"

definition call_with_timeout ::
  "'w transport \<Rightarrow> 'a rpc_response decoder \<Rightarrow> string \<Rightarrow> json \<Rightarrow> nanos \<Rightarrow> rpc_client \<times> 'w
     \<Rightarrow> (rpc_error + 'a) \<times> rpc_client \<times> 'w" where
  "call_with_timeout T dec method params timeout cw =
     (let (reply, cw') = post_request T ''2.0'' method params timeout cw in
      (case reply of Inl e \<Rightarrow> Inl (Http e) | Inr body \<Rightarrow> response_result dec body, cw'))"

definition call ::
  "'w transport \<Rightarrow> 'a rpc_response decoder \<Rightarrow> string \<Rightarrow> json \<Rightarrow> rpc_client \<times> 'w
     \<Rightarrow> (rpc_error + 'a) \<times> rpc_client \<times> 'w" where
  "call T dec method params cw = call_with_timeout T dec method params RPC_TIMEOUT cw"

section \<open>Methods of the node\<close>

definition template_params :: "string option \<Rightarrow> json" where
  "template_params longpollid = JArr [JObj ([
     (''capabilities'', JArr [JStr ''coinbasetxn'', JStr ''workid'', JStr ''longpoll'']),
     (''mode'', JStr ''template'')]
     @ (case longpollid of None \<Rightarrow> [] | Some l \<Rightarrow> [(''longpollid'', JStr l)]))]"

definition get_block_template where
  "get_block_template T S cw = call T (sd_template S) ''getblocktemplate'' (template_params None) cw"

definition get_block_template_longpoll where
  "get_block_template_longpoll T S longpollid timeout cw =
     call_with_timeout T (sd_template S) ''getblocktemplate'' (template_params (Some longpollid)) timeout cw"

text \<open>\<open>submitblock\<close> answers \<open>null\<close> for success and a string for a rejection.\<close>

definition submit_error :: "json \<Rightarrow> json_rpc_error" where
  "submit_error err =
     \<lparr>je_code = (case Option.bind (jget ''code'' err) as_int64 of Some c \<Rightarrow> c | None \<Rightarrow> - 1),
      je_message = (case Option.bind (jget ''message'' err) as_str of Some m \<Rightarrow> m | None \<Rightarrow> ''''),
      je_data = None\<rparr>"

definition submit_result :: "serde \<Rightarrow> json \<Rightarrow> rpc_error + string option" where
  "submit_result S parsed =
     (case (case jget ''error'' parsed of Some JNull \<Rightarrow> None | e \<Rightarrow> e) of
        Some err \<Rightarrow> Inl (JsonRpc (submit_error err))
      | None \<Rightarrow> Inr (case jget ''result'' parsed of
          None \<Rightarrow> None
        | Some JNull \<Rightarrow> None
        | Some (JStr s) \<Rightarrow> (if s = [] then None else Some s)
        | Some other \<Rightarrow> Some (sd_render S other)))"

definition submit_block_rpc ::
  "'w transport \<Rightarrow> serde \<Rightarrow> string \<Rightarrow> rpc_client \<times> 'w \<Rightarrow> (rpc_error + string option) \<times> rpc_client \<times> 'w" where
  "submit_block_rpc T S block_hex cw =
     (let (reply, cw') = post_request T ''1.0'' ''submitblock'' (JArr [JStr block_hex]) RPC_TIMEOUT cw in
      (case reply of
         Inl e \<Rightarrow> Inl (Http e)
       | Inr body \<Rightarrow> (case sd_value S body of
           Inl e \<Rightarrow> Inl (parse_failure e body)
         | Inr parsed \<Rightarrow> submit_result S parsed), cw'))"

definition validate_block_proposal where
  "validate_block_proposal T S block_hex cw =
     call T (sd_opt_string S) ''getblocktemplate''
       (JArr [JObj [(''mode'', JStr ''proposal''), (''data'', JStr block_hex)]]) cw"

definition get_block_count where
  "get_block_count T S cw = call T (sd_u64 S) ''getblockcount'' (JArr []) cw"

definition get_best_block_hash where
  "get_best_block_hash T S cw = call T (sd_string S) ''getbestblockhash'' (JArr []) cw"

definition get_info where
  "get_info T S cw = call T (sd_info S) ''getinfo'' (JArr []) cw"

definition jnat :: "nat \<Rightarrow> json" where
  "jnat n = JNum (PosInt n)"

definition get_block_hash ::
  "'w transport \<Rightarrow> serde \<Rightarrow> u64 \<Rightarrow> rpc_client \<times> 'w \<Rightarrow> (rpc_error + string) \<times> rpc_client \<times> 'w" where
  "get_block_hash T S height cw = call T (sd_string S) ''getblockhash'' (JArr [jnat (unat height)]) cw"

definition get_block where
  "get_block T S hash_or_height verbosity cw =
     call T (sd_json S) ''getblock'' (JArr [JStr hash_or_height, jnat verbosity]) cw"

definition get_raw_transaction where
  "get_raw_transaction T S txid verbose cw =
     call T (sd_json S) ''getrawtransaction'' (JArr [JStr txid, jnat verbose]) cw"

definition get_mining_info where
  "get_mining_info T S cw = call T (sd_json S) ''getmininginfo'' (JArr []) cw"

definition get_network_sol_ps :: "'w transport \<Rightarrow> serde \<Rightarrow> nat option \<Rightarrow> rpc_client \<times> 'w
     \<Rightarrow> (rpc_error + f64) \<times> rpc_client \<times> 'w" where
  "get_network_sol_ps T S blocks cw =
     call T (sd_f64 S) ''getnetworksolps''
       (JArr [jnat (case blocks of None \<Rightarrow> 120 | Some b \<Rightarrow> b)]) cw"

section \<open>Methods of the wallet\<close>

definition z_shield_coinbase where
  "z_shield_coinbase T S from_address to_address limit cw =
     (let lim = (case limit of None \<Rightarrow> 0 | Some l \<Rightarrow> l);
          (r, cw') = call T (sd_json S) ''z_shieldcoinbase''
            (JArr [JStr from_address, JStr to_address, JNull, jnat lim, JNull,
                   JStr ''AllowRevealedSenders'']) cw in
      case r of
        Inl (JsonRpc _) \<Rightarrow> call T (sd_json S) ''z_shieldcoinbase''
            (JArr [JStr from_address, JStr to_address]) cw'
      | _ \<Rightarrow> (r, cw'))"

text \<open>\<open>json!\<close> of a float that is not finite is \<open>null\<close>.\<close>

definition jfloat :: "f64 \<Rightarrow> json" where
  "jfloat x = (if is_fin x then JNum (Float x) else JNull)"

definition z_sendmany where
  "z_sendmany T S from_address amounts cw =
     call T (sd_string S) ''z_sendmany'' (JArr [JStr from_address,
       JArr (map (\<lambda>(addr, amount). JObj [(''address'', JStr addr), (''amount'', jfloat amount)]) amounts),
       jnat 1, JNull, JStr ''AllowRevealedRecipients'']) cw"

definition z_get_operation_status where
  "z_get_operation_status T S opids cw =
     call T (sd_jsons S) ''z_getoperationstatus'' (JArr [JArr (map JStr opids)]) cw"

definition z_get_total_balance where
  "z_get_total_balance T S cw =
     call T (sd_json S) ''z_gettotalbalance'' (JArr [jnat 0, JBool True]) cw"

record wallet_balances_rec =
  wb_spendable :: f64
  wb_transparent :: f64
  wb_pending :: f64
  wb_immature :: f64

definition text_amount :: "json \<Rightarrow> string \<Rightarrow> f64" where
  "text_amount v k = (case Option.bind (Option.bind (jget k v) as_str) parse_f64 of
     Some x \<Rightarrow> x | None \<Rightarrow> Fin 0)"

definition num_amount :: "json \<Rightarrow> string \<Rightarrow> f64" where
  "num_amount v k = (case Option.bind (jget k v) as_f64 of Some x \<Rightarrow> x | None \<Rightarrow> Fin 0)"

definition wallet_balances ::
  "'w transport \<Rightarrow> serde \<Rightarrow> nat \<Rightarrow> rpc_client \<times> 'w
     \<Rightarrow> (rpc_error + wallet_balances_rec) \<times> rpc_client \<times> 'w" where
  "wallet_balances T S minconf cw =
     (let (r, cw') = call T (sd_json S) ''z_gettotalbalance'' (JArr [jnat minconf, JBool True]) cw in
      case r of
        Inr v \<Rightarrow> (Inr \<lparr>wb_spendable = text_amount v ''private'',
             wb_transparent = text_amount v ''transparent'', wb_pending = Fin 0,
             wb_immature = Fin 0\<rparr>, cw')
      | Inl (JsonRpc _) \<Rightarrow>
          (let (r2, cw'') = call T (sd_json S) ''getbalances'' (JArr []) cw' in
           (case r2 of Inl e \<Rightarrow> Inl e
             | Inr v \<Rightarrow> (let mine = (case jget ''mine'' v of Some m \<Rightarrow> m | None \<Rightarrow> JNull) in
                 Inr \<lparr>wb_spendable = num_amount mine ''trusted'',
                   wb_transparent = num_amount mine ''coinbase'',
                   wb_pending = num_amount mine ''untrusted_pending'',
                   wb_immature = num_amount mine ''immature''\<rparr>), cw''))
      | Inl e \<Rightarrow> (Inl e, cw'))"

end
