(* ===== verification/Block_Assembler.thy ===== *)
theory Block_Assembler
  imports Node_Rpc "HOL-Library.Code_Target_Nat"
begin

text \<open>
  Submitting a solved block and checking that it is on the best chain:
  \<open>pool-core/src/block.rs\<close>.  Hashes are ASCII text, so \<open>to_lowercase\<close> works on bytes.
\<close>

section \<open>Operations\<close>

datatype block_submit_error = Rejected string | Rpc_failed rpc_error

definition submit_verdict :: "rpc_error + string option \<Rightarrow> block_submit_error + unit" where
  "submit_verdict r = (case r of
     Inr (Some reject_reason) \<Rightarrow>
       (if reject_reason = [] \<or> reject_reason = ''null'' then Inr () else Inl (Rejected reject_reason))
   | Inr None \<Rightarrow> Inr ()
   | Inl e \<Rightarrow> Inl (Rpc_failed e))"

definition submit_block ::
  "'w transport \<Rightarrow> serde \<Rightarrow> string \<Rightarrow> rpc_client \<times> 'w \<Rightarrow> (block_submit_error + unit) \<times> rpc_client \<times> 'w" where
  "submit_block T S block_hex cw =
     (let (r, cw') = submit_block_rpc T S block_hex cw in (submit_verdict r, cw'))"

datatype inclusion_check = Verified | Mismatch | Unknown

definition compare_chain_hash :: "hexlib \<Rightarrow> string \<Rightarrow> string \<Rightarrow> inclusion_check" where
  "compare_chain_hash H our_hash_hex chain_hash =
     (let our_le = map to_lower our_hash_hex; our_be = reverse_hex H our_le;
          chain = map to_lower chain_hash in
      if chain = our_le \<or> chain = our_be then Verified else Mismatch)"

text \<open>\<open>for attempt in 0..3u8\<close>, with \<open>n\<close> attempts left; every attempt but the first waits.\<close>

fun verify_loop ::
  "'w transport \<Rightarrow> serde \<Rightarrow> hexlib \<Rightarrow> u64 \<Rightarrow> string \<Rightarrow> nat \<Rightarrow> rpc_client \<times> 'w
     \<Rightarrow> inclusion_check \<times> rpc_client \<times> 'w" where
  "verify_loop T S H height our_hash_hex 0 cw = (Unknown, cw)"
| "verify_loop T S H height our_hash_hex (Suc n) cw =
     (let cw = (if n < 2 then (fst cw, tr_sleep T (500 * 10 ^ 6) (snd cw)) else cw);
          (r, cw') = get_block_hash T S height cw in
      case r of
        Inr chain_hash \<Rightarrow> (compare_chain_hash H our_hash_hex chain_hash, cw')
      | Inl e \<Rightarrow> verify_loop T S H height our_hash_hex n cw')"

definition verify_block_inclusion ::
  "'w transport \<Rightarrow> serde \<Rightarrow> hexlib \<Rightarrow> u64 \<Rightarrow> string \<Rightarrow> rpc_client \<times> 'w
     \<Rightarrow> inclusion_check \<times> rpc_client \<times> 'w" where
  "verify_block_inclusion T S H height our_hash_hex cw = verify_loop T S H height our_hash_hex 3 cw"

section \<open>A scripted world\<close>

text \<open>
  A world that answers the next requests from a list and records what it was asked: enough to
  run the client on concrete replies.
\<close>

record script =
  sc_replies :: "(string + string) list"
  sc_requests :: "rpc_request list"
  sc_slept :: nanos

fun next_reply :: "(string + string) list \<Rightarrow> (string + string) \<times> (string + string) list" where
  "next_reply [] = (Inl ''connection refused'', [])"
| "next_reply (r # rs) = (r, rs)"

definition scripted :: "script transport" where
  "scripted = \<lparr>tr_post = (\<lambda>url auth rq t w. let (r, rs) = next_reply (sc_replies w) in
        (r, w\<lparr>sc_replies := rs, sc_requests := sc_requests w @ [rq]\<rparr>)),
     tr_sleep = (\<lambda>d w. w\<lparr>sc_slept := sc_slept w + d\<rparr>)\<rparr>"

text \<open>What each attempt of \<open>verify_block_inclusion\<close> got.\<close>

definition hash_reply :: "serde \<Rightarrow> string + string \<Rightarrow> rpc_error + string" where
  "hash_reply S reply = (case reply of Inl e \<Rightarrow> Inl (Http e) | Inr body \<Rightarrow> response_result (sd_string S) body)"

definition first_answer :: "serde \<Rightarrow> (string + string) list \<Rightarrow> string option" where
  "first_answer S replies = (case List.find (\<lambda>r. \<exists>h. hash_reply S r = Inr h) replies of
     None \<Rightarrow> None
   | Some r \<Rightarrow> (case hash_reply S r of Inr h \<Rightarrow> Some h | Inl e \<Rightarrow> None))"

lemma first_answer_simps:
  "first_answer S [] = None"
  "first_answer S (r # rs) = (case hash_reply S r of Inr h \<Rightarrow> Some h | Inl e \<Rightarrow> first_answer S rs)"
  by (auto simp: first_answer_def split: sum.splits)

lemma get_block_hash_scripted:
  "get_block_hash scripted S height (c, w) = (case next_reply (sc_replies w) of (r, rs) \<Rightarrow>
     (hash_reply S r, c\<lparr>rc_next_id := rc_next_id c + 1\<rparr>,
      w\<lparr>sc_replies := rs, sc_requests := sc_requests w
          @ [\<lparr>rq_jsonrpc = ''2.0'', rq_id = rc_next_id c, rq_method = ''getblockhash'',
              rq_params = JArr [jnat (unat height)]\<rparr>]\<rparr>))"
  by (simp add: get_block_hash_def call_def call_with_timeout_def post_request_def scripted_def
      hash_reply_def Let_def split: prod.split)

lemma verify_loop_scripted:
  assumes "n \<le> length (sc_replies w)"
  shows "fst (verify_loop scripted S H height our n (c, w)) =
     (case first_answer S (take n (sc_replies w)) of
        None \<Rightarrow> Unknown | Some h \<Rightarrow> compare_chain_hash H our h)"
  using assms
proof (induction n arbitrary: c w)
  case (Suc n)
  then obtain r rs where rs: "sc_replies w = r # rs" by (cases "sc_replies w") auto
  let ?w = "if n < 2 then tr_sleep scripted (500 * 10 ^ 6) w else w"
  have w: "sc_replies ?w = r # rs" using rs by (simp add: scripted_def)
  have cw: "(if n < 2 then (fst (c, w), tr_sleep scripted (500 * 10 ^ 6) (snd (c, w))) else (c, w)) = (c, ?w)"
    by simp
  show ?case
    using Suc.IH Suc.prems rs
    by (simp only: verify_loop.simps Let_def cw get_block_hash_scripted w next_reply.simps)
       (simp add: first_answer_simps split: sum.splits)
qed (simp add: first_answer_simps)

section \<open>Hashes in either byte order\<close>

text \<open>What the node returns for a hash: lower-case hexadecimal of its bytes.\<close>

definition hex_lower :: "hexlib \<Rightarrow> bool" where
  "hex_lower H \<longleftrightarrow> hex_ok H \<and> (\<forall>bs. map to_lower (hx_encode H bs) = hx_encode H bs)"

lemma to_lower_digit: "n < 16 \<Longrightarrow> to_lower (hex_digit n) = hex_digit n"
  by (auto simp: to_lower_def hex_digit_def Let_def)

lemma hex_lower_ref: "hex_lower hex_ref"
proof -
  have "map to_lower (ref_encode bs) = ref_encode bs" for bs
  proof (induction bs)
    case (Cons b bs)
    have "unat b < 256" using unsigned_less [of b] by simp
    then have "unat b div 16 < 16" by (simp add: less_mult_imp_div_less)
    then show ?case using Cons by (simp add: to_lower_digit)
  qed simp
  then show ?thesis using hex_ok_ref by (simp add: hex_lower_def hex_ref_def)
qed

lemma compare_chain_hash_iff:
  assumes "hex_lower H"
  shows "compare_chain_hash H (hx_encode H ours) (hx_encode H chain)
     = (if chain = ours \<or> chain = rev ours then Verified else Mismatch)"
  using assms hex_encode_inj [of H]
  by (simp add: hex_lower_def compare_chain_hash_def Let_def reverse_hex_encode)

section \<open>Properties\<close>

text \<open>
  The inclusion check asks at most three times and lets the first answer decide: the block
  is verified exactly when the hash the node has at that height is the pool's hash in either
  byte order, it is a mismatch when the node has another one, and nothing is concluded when no
  attempt is answered.
\<close>

theorem inclusion_decided_by_first_answer:
  assumes "hex_lower H" and "3 \<le> length (sc_replies w)"
    and "\<forall>r \<in> set (take 3 (sc_replies w)). \<forall>h. hash_reply S r = Inr h \<longrightarrow> (\<exists>bs. h = hx_encode H bs)"
  shows "case fst (verify_block_inclusion scripted S H height (hx_encode H ours) (c, w)) of
      Verified \<Rightarrow> first_answer S (take 3 (sc_replies w)) \<in> {Some (hx_encode H ours), Some (hx_encode H (rev ours))}
    | Mismatch \<Rightarrow> (\<exists>bs. first_answer S (take 3 (sc_replies w)) = Some (hx_encode H bs) \<and> bs \<noteq> ours \<and> bs \<noteq> rev ours)
    | Unknown \<Rightarrow> (\<forall>r \<in> set (take 3 (sc_replies w)). \<exists>e. hash_reply S r = Inl e)"
proof -
  let ?rs = "take 3 (sc_replies w)"
  have eq: "fst (verify_block_inclusion scripted S H height (hx_encode H ours) (c, w)) =
      (case first_answer S ?rs of None \<Rightarrow> Unknown
       | Some h \<Rightarrow> compare_chain_hash H (hx_encode H ours) h)"
    unfolding verify_block_inclusion_def using verify_loop_scripted [OF assms(2)] .
  have none: "first_answer S rs = None \<Longrightarrow> \<forall>r \<in> set rs. \<exists>e. hash_reply S r = Inl e" for rs
    by (induction rs) (auto simp: first_answer_simps split: sum.splits)
  have some: "first_answer S rs = Some h \<Longrightarrow> \<exists>r \<in> set rs. hash_reply S r = Inr h" for rs h
    by (induction rs) (auto simp: first_answer_simps split: sum.splits)
  show ?thesis
  proof (cases "first_answer S ?rs")
    case None
    then show ?thesis unfolding eq using none [OF None] by simp
  next
    case (Some h)
    then obtain bs where "h = hx_encode H bs" using some [OF Some] assms(3) by blast
    then show ?thesis unfolding eq Some
      using compare_chain_hash_iff [OF assms(1), of ours bs] by auto
  qed
qed

text \<open>A decoder whose strings are the bodies themselves, for the concrete run.\<close>

definition body_serde :: serde where
  "body_serde = \<lparr>sd_value = (\<lambda>b. if b = [] then Inl ''EOF'' else Inr (JStr b)), sd_render = (\<lambda>j. ''value''),
     sd_template = (\<lambda>b. Inl ''unsupported''), sd_u64 = (\<lambda>b. Inl ''unsupported''),
     sd_string = (\<lambda>b. if b = [] then Inl ''EOF''
        else Inr \<lparr>rs_id = Some 1, rs_result = Some b, rs_error = None\<rparr>),
     sd_opt_string = (\<lambda>b. Inl ''unsupported''), sd_info = (\<lambda>b. Inl ''unsupported''),
     sd_f64 = (\<lambda>b. Inl ''unsupported''), sd_json = (\<lambda>b. Inl ''unsupported''),
     sd_jsons = (\<lambda>b. Inl ''unsupported'')\<rparr>"

definition flaky_node :: script where
  "flaky_node = \<lparr>sc_replies = [Inl ''timeout'', Inr [], Inr ''0bff''], sc_requests = [], sc_slept = 0\<rparr>"

theorem inclusion_decided_by_first_answer_witness:
  "fst (verify_block_inclusion scripted body_serde hex_ref 7 (hx_encode hex_ref [255, 11]) (client_new ''u'', flaky_node))
     = Verified
   \<and> first_answer body_serde (take 3 (sc_replies flaky_node))
     \<in> {Some (hx_encode hex_ref [255, 11]), Some (hx_encode hex_ref (rev [255, 11]))}"
proof -
  let ?w = flaky_node and ?S = body_serde
  have v: "fst (verify_block_inclusion scripted ?S hex_ref 7 (hx_encode hex_ref [255, 11]) (client_new ''u'', ?w))
      = Verified" by code_simp
  have len: "3 \<le> length (sc_replies ?w)" by (simp add: flaky_node_def)
  have enc: "hx_encode hex_ref [11, 255] = ''0bff''" by code_simp
  have "\<forall>r \<in> set (take 3 (sc_replies ?w)). \<forall>h. hash_reply ?S r = Inr h \<longrightarrow> (\<exists>bs. h = hx_encode hex_ref bs)"
    using enc by (auto simp: flaky_node_def hash_reply_def response_result_def body_serde_def parse_failure_def
        intro: exI [of _ "[11, 255]"])
  from inclusion_decided_by_first_answer [OF hex_lower_ref len this, of "[255, 11]" 7 "client_new ''u''"]
  show ?thesis using v by simp
qed

end
