(* ===== verification/Coinbase.thy ===== *)
theory Coinbase
  imports Bytes_Hex
begin

text \<open>
  Injecting the pool's tag into the coinbase transaction: \<open>pool-core/src/coinbase.rs\<close>.  The
  hash functions (\<open>sha2\<close>, \<open>blake2b_simd\<close>) and, for v6 transactions, the \<open>zebra_chain\<close>
  transaction type are third-party: records of functions.  A panic of the code is an outcome of
  its own.
\<close>

section \<open>Parameters\<close>

record hashes =
  hs_sha256 :: "bytes \<Rightarrow> bytes"
  hs_blake2b_256 :: "bytes \<Rightarrow> bytes \<Rightarrow> bytes"

definition hashes_ok :: "hashes \<Rightarrow> bool" where
  "hashes_ok HS \<longleftrightarrow> (\<forall>d. length (hs_sha256 HS d) = 32) \<and> (\<forall>p d. length (hs_blake2b_256 HS p d) = 32)"

datatype first_input = Not_v6 | Not_coinbase | Coinbase_data bytes

record 't zebra =
  zc_deserialize :: "bytes \<Rightarrow> 't option"
  zc_first_input :: "'t \<Rightarrow> first_input"
  zc_set_data :: "bytes \<Rightarrow> 't \<Rightarrow> 't"
  zc_serialize :: "'t \<Rightarrow> bytes option"
  zc_auth_digest :: "'t \<Rightarrow> bytes"

definition sha256d :: "hashes \<Rightarrow> bytes \<Rightarrow> bytes" where
  "sha256d HS d = hs_sha256 HS (hs_sha256 HS d)"

definition ascii :: "string \<Rightarrow> bytes" where
  "ascii s = map of_char s"

section \<open>Compact sizes and byte ranges\<close>

datatype inject_error =
    Invalid_coinbase_hex
  | Coinbase_too_short
  | Unknown_tx_version bytes
  | Too_short_for_header
  | Compact_offset_beyond
  | Compact_truncated u8
  | Compact_too_large nat
  | Expected_one_input nat
  | Too_short_for_prevout
  | Too_short_for_script
  | Script_sig_too_long nat
  | Invalid_authdigest nat
  | Authdigest_length nat nat
  | Invalid_history_root
  | History_root_length nat
  | V6_parse_failed
  | V6_expected
  | V6_data_limit nat nat
  | V6_not_coinbase
  | V6_serialize_failed

definition read_compact_size :: "bytes \<Rightarrow> nat \<Rightarrow> inject_error + nat \<times> nat" where
  "read_compact_size data offset =
     (if length data \<le> offset then Inl Compact_offset_beyond
      else let b = data ! offset; width = (if b = 0xFD then 2 else if b = 0xFE then 4 else 8) in
        if b < 0xFD then Inr (unat b, 1)
        else if length data < offset + 1 + width then Inl (Compact_truncated b)
        else Inr (le_value (take width (drop (offset + 1) data)), 1 + width))"

definition compact_size_byte :: "nat \<Rightarrow> inject_error + u8" where
  "compact_size_byte n = (if 253 \<le> n then Inl (Compact_too_large n) else Inr (of_nat n))"

definition slice :: "nat \<Rightarrow> nat \<Rightarrow> 'a list \<Rightarrow> 'a list" where
  "slice a b xs = take (b - a) (drop a xs)"

text \<open>\<open>xs.windows(tag.len()).any(|w| w == tag)\<close> for a tag that is not empty.\<close>

fun has_window :: "'a list \<Rightarrow> 'a list \<Rightarrow> bool" where
  "has_window tag [] = False"
| "has_window tag (x # xs) = (take (length tag) (x # xs) = tag \<or> has_window tag xs)"

section \<open>Digests\<close>

definition compute_coinbase_auth_digest :: "hashes \<Rightarrow> bytes \<Rightarrow> u8 \<Rightarrow> bytes \<Rightarrow> bytes" where
  "compute_coinbase_auth_digest HS branch_id script_sig_cs new_script_sig =
     (let blake = hs_blake2b_256 HS;
          transparent = blake (ascii ''ZTxAuthTransHash'') (script_sig_cs # new_script_sig);
          sapling = blake (ascii ''ZTxAuthSapliHash'') [];
          orchard = blake (ascii ''ZTxAuthOrchaHash'') [] in
      blake (ascii ''ZTxAuthHash_'' @ branch_id) (transparent @ sapling @ orchard))"

text \<open>\<open>usize::next_power_of_two\<close>.\<close>

function double_until :: "nat \<Rightarrow> nat \<Rightarrow> nat" where
  "double_until p n = (if n \<le> p \<or> p = 0 then p else double_until (2 * p) n)"
  by pat_completeness auto
termination by (relation "measure (\<lambda>(p, n). n - p)") auto

declare double_until.simps [simp del]

definition next_power_of_two :: "nat \<Rightarrow> nat" where
  "next_power_of_two n = double_until 1 n"

text \<open>
  One level of a Merkle tree over \<open>chunks(2)\<close>.  Both callers only pass lists of even length
  (\<open>level_even\<close> below), so the last clause, where \<open>pair[1]\<close> would panic, is never used.
\<close>

fun hash_pairs :: "('a \<Rightarrow> 'a \<Rightarrow> 'a) \<Rightarrow> 'a list \<Rightarrow> 'a list" where
  "hash_pairs f (x # y # xs) = f x y # hash_pairs f xs"
| "hash_pairs f xs = xs"

lemma length_hash_pairs: "length (hash_pairs f xs) = (length xs + 1) div 2"
  by (induction f xs rule: hash_pairs.induct) auto

function tree_loop :: "('a \<Rightarrow> 'a \<Rightarrow> 'a) \<Rightarrow> 'a list \<Rightarrow> 'a list" where
  "tree_loop f xs = (if 1 < length xs then tree_loop f (hash_pairs f xs) else xs)"
  by pat_completeness auto
termination by (relation "measure (\<lambda>(f, xs). length xs)") (auto simp: length_hash_pairs)

declare tree_loop.simps [simp del]

definition zero_leaf :: bytes where
  "zero_leaf = replicate 32 0"

definition auth_node :: "hashes \<Rightarrow> bytes \<Rightarrow> bytes \<Rightarrow> bytes" where
  "auth_node HS x y = hs_blake2b_256 HS (ascii ''ZcashAuthDatHash'') (x @ y)"

definition auth_data_merkle_root :: "hashes \<Rightarrow> bytes list \<Rightarrow> bytes" where
  "auth_data_merkle_root HS leaves =
     (if leaves = [] then zero_leaf
      else let n = next_power_of_two (length leaves) in
        hd (tree_loop (auth_node HS) (leaves @ replicate (n - length leaves) zero_leaf)))"

text \<open>The leaves of the other transactions, from the node's digests in display order.\<close>

fun auth_leaves :: "hexlib \<Rightarrow> nat \<Rightarrow> string list \<Rightarrow> inject_error + bytes list" where
  "auth_leaves H i [] = Inr []"
| "auth_leaves H i (ad_hex # ads) = (case hx_decode H ad_hex of
     None \<Rightarrow> Inl (Invalid_authdigest i)
   | Some ad_bytes \<Rightarrow>
       if length ad_bytes \<noteq> 32 then Inl (Authdigest_length i (length ad_bytes))
       else res_bind (auth_leaves H (i + 1) ads) (\<lambda>ls. Inr (rev ad_bytes # ls)))"

definition block_commitments_from_auth ::
  "hexlib \<Rightarrow> hashes \<Rightarrow> bytes \<Rightarrow> string list \<Rightarrow> string \<Rightarrow> inject_error + string" where
  "block_commitments_from_auth H HS coinbase_auth tx_auth_digests chain_history_root_hex =
     res_bind (auth_leaves H 0 tx_auth_digests) (\<lambda>ls.
       let auth_data_root = auth_data_merkle_root HS (coinbase_auth # ls) in
       case hx_decode H chain_history_root_hex of
         None \<Rightarrow> Inl Invalid_history_root
       | Some root \<Rightarrow>
           if length root \<noteq> 32 then Inl (History_root_length (length root))
           else Inr (hx_encode H (rev (hs_blake2b_256 HS (ascii ''ZcashBlockCommit'')
                  (rev root @ auth_data_root @ replicate 32 0)))))"

section \<open>Injection\<close>

record injection_result =
  ir_new_coinbase_hex :: string
  ir_new_txid :: "string option"
  ir_new_block_commitments :: "string option"

datatype inject_out = Injected injection_result | Inject_error inject_error | Inject_panic

definition MAX_SCRIPT_SIG_LEN :: nat where
  "MAX_SCRIPT_SIG_LEN = 100"

definition V4 :: bytes where "V4 = [0x04, 0x00, 0x00, 0x80]"
definition V5 :: bytes where "V5 = [0x05, 0x00, 0x00, 0x80]"
definition V6 :: bytes where "V6 = [0x06, 0x00, 0x00, 0x80]"

definition inject_v6_via_zebra ::
  "hexlib \<Rightarrow> hashes \<Rightarrow> 't zebra \<Rightarrow> bytes \<Rightarrow> bytes \<Rightarrow> string \<Rightarrow> string list \<Rightarrow> inject_error + injection_result" where
  "inject_v6_via_zebra H HS Z data tag chain_history_root_hex tx_auth_digests =
     (case zc_deserialize Z data of
        None \<Rightarrow> Inl V6_parse_failed
      | Some tx \<Rightarrow> (case zc_first_input Z tx of
          Not_v6 \<Rightarrow> Inl V6_expected
        | Not_coinbase \<Rightarrow> Inl V6_not_coinbase
        | Coinbase_data d \<Rightarrow>
            if MAX_SCRIPT_SIG_LEN - 6 < length d + length tag then Inl (V6_data_limit (length d) (length tag))
            else let tx' = zc_set_data Z (d @ tag) tx in
              case zc_serialize Z tx' of
                None \<Rightarrow> Inl V6_serialize_failed
              | Some new_data \<Rightarrow>
                  res_bind (block_commitments_from_auth H HS (zc_auth_digest Z tx') tx_auth_digests
                      chain_history_root_hex) (\<lambda>bc.
                    Inr \<lparr>ir_new_coinbase_hex = hx_encode H new_data, ir_new_txid = None,
                         ir_new_block_commitments = Some bc\<rparr>)))"

text \<open>Where the scriptSig is: the offset of its length, its own offset, and its length.\<close>

definition locate_script_sig :: "bytes \<Rightarrow> nat \<Rightarrow> inject_error + nat \<times> nat \<times> nat" where
  "locate_script_sig data header_len =
     (if length data < header_len + 1 then Inl Too_short_for_header
      else res_bind (read_compact_size data header_len) (\<lambda>(tx_in_count, cs_len).
        if tx_in_count \<noteq> 1 then Inl (Expected_one_input tx_in_count)
        else let script_sig_len_offset = header_len + cs_len + 36 in
          if length data < script_sig_len_offset + 1 then Inl Too_short_for_prevout
          else res_bind (read_compact_size data script_sig_len_offset) (\<lambda>(len, sig_cs_len).
            Inr (script_sig_len_offset, script_sig_len_offset + sig_cs_len, len))))"

text \<open>The new transaction around a longer scriptSig, and the digest that commits to it.\<close>

definition rebuild ::
  "hexlib \<Rightarrow> hashes \<Rightarrow> bool \<Rightarrow> bytes \<Rightarrow> bytes \<Rightarrow> nat \<Rightarrow> nat \<Rightarrow> nat \<Rightarrow> string \<Rightarrow> string list
     \<Rightarrow> inject_error + injection_result" where
  "rebuild H HS is_v5 data tag len_offset sig_offset len chain_history_root_hex tx_auth_digests =
     res_bind (compact_size_byte (len + length tag)) (\<lambda>new_cs.
       let sig_end = sig_offset + len;
           new_script_sig = slice sig_offset sig_end data @ tag;
           new_data = take len_offset data @ [new_cs] @ new_script_sig @ drop sig_end data in
       if is_v5
       then res_bind (block_commitments_from_auth H HS
             (compute_coinbase_auth_digest HS (slice 8 12 data) new_cs new_script_sig)
             tx_auth_digests chain_history_root_hex) (\<lambda>bc.
           Inr \<lparr>ir_new_coinbase_hex = hx_encode H new_data, ir_new_txid = None,
                ir_new_block_commitments = Some bc\<rparr>)
       else Inr \<lparr>ir_new_coinbase_hex = hx_encode H new_data,
                ir_new_txid = Some (hx_encode H (rev (sha256d HS new_data))),
                ir_new_block_commitments = None\<rparr>)"

definition inject_of :: "inject_error + injection_result \<Rightarrow> inject_out" where
  "inject_of r = (case r of Inl e \<Rightarrow> Inject_error e | Inr x \<Rightarrow> Injected x)"

definition inject_coinbase_tag ::
  "hexlib \<Rightarrow> hashes \<Rightarrow> 't zebra \<Rightarrow> string \<Rightarrow> bytes \<Rightarrow> string \<Rightarrow> string list \<Rightarrow> inject_out" where
  "inject_coinbase_tag H HS Z coinbase_hex tag chain_history_root_hex tx_auth_digests =
     (case hx_decode H coinbase_hex of
        None \<Rightarrow> Inject_error Invalid_coinbase_hex
      | Some data \<Rightarrow>
          if length data < 4 then Inject_error Coinbase_too_short
          else if take 4 data = V6
            then inject_of (inject_v6_via_zebra H HS Z data tag chain_history_root_hex tx_auth_digests)
          else if take 4 data \<noteq> V5 \<and> take 4 data \<noteq> V4 then Inject_error (Unknown_tx_version (take 4 data))
          else let is_v5 = (take 4 data = V5) in
            case locate_script_sig data (if is_v5 then 20 else 8) of
              Inl e \<Rightarrow> Inject_error e
            | Inr (len_offset, sig_offset, len) \<Rightarrow>
                if 2 ^ 64 \<le> sig_offset + len then Inject_panic
                else if length data < sig_offset + len then Inject_error Too_short_for_script
                else if tag = [] then Inject_panic
                else if has_window tag (slice sig_offset (sig_offset + len) data)
                  then Injected \<lparr>ir_new_coinbase_hex = coinbase_hex, ir_new_txid = None,
                                 ir_new_block_commitments = None\<rparr>
                else if MAX_SCRIPT_SIG_LEN < len + length tag
                  then Inject_error (Script_sig_too_long (len + length tag))
                else inject_of (rebuild H HS is_v5 data tag len_offset sig_offset len
                       chain_history_root_hex tx_auth_digests))"

end
