(* ===== verification/Coinbase_Properties.thy ===== *)
theory Coinbase_Properties
  imports Coinbase "HOL-Library.Code_Target_Nat"
begin

text \<open>
  The properties of the coinbase injection: the level-by-level loop computes the root of a
  perfect binary tree, and an injection only lengthens the scriptSig by the tag and is
  idempotent.
\<close>

section \<open>Merkle trees\<close>

text \<open>The root of a perfect tree of depth \<open>d\<close>, by recursion from the top.\<close>

fun perfect_root :: "('a \<Rightarrow> 'a \<Rightarrow> 'a) \<Rightarrow> nat \<Rightarrow> 'a list \<Rightarrow> 'a" where
  "perfect_root f 0 xs = hd xs"
| "perfect_root f (Suc d) xs = f (perfect_root f d (take (2 ^ d) xs)) (perfect_root f d (drop (2 ^ d) xs))"

lemma hash_pairs_append:
  "even (length xs) \<Longrightarrow> hash_pairs f (xs @ ys) = hash_pairs f xs @ hash_pairs f ys"
  by (induction f xs rule: hash_pairs.induct) auto

lemma perfect_hash_pairs:
  "length xs = 2 ^ Suc d \<Longrightarrow> perfect_root f d (hash_pairs f xs) = perfect_root f (Suc d) xs"
proof (induction d arbitrary: xs)
  case 0
  then obtain a b where "xs = [a, b]" by (auto simp: length_Suc_conv eval_nat_numeral)
  then show ?case by simp
next
  case (Suc d)
  let ?n = "2 ^ Suc d :: nat"
  define ys zs where y: "ys = take ?n xs" and z: "zs = drop ?n xs"
  have len: "length ys = ?n" "length zs = ?n" and xs: "xs = ys @ zs"
    using Suc.prems by (simp_all add: y z)
  have h: "hash_pairs f xs = hash_pairs f ys @ hash_pairs f zs"
    unfolding xs using len(1) by (intro hash_pairs_append) simp
  have l: "length (hash_pairs f ys) = 2 ^ d" using len(1) by (simp add: length_hash_pairs)
  show ?case
    unfolding h by (simp add: l Suc.IH [OF len(1)] Suc.IH [OF len(2)] xs len del: power_Suc)
qed

lemma tree_loop_perfect: "length xs = 2 ^ d \<Longrightarrow> tree_loop f xs = [perfect_root f d xs]"
proof (induction d arbitrary: xs)
  case 0
  then obtain a where "xs = [a]" by (auto simp: length_Suc_conv)
  then show ?case by (simp add: tree_loop.simps)
next
  case (Suc d)
  have "length (hash_pairs f xs) = 2 ^ d" using Suc.prems by (simp add: length_hash_pairs)
  moreover have "1 < length xs" using Suc.prems by (metis one_less_power lessI one_less_numeral_iff semiring_norm(76) zero_less_Suc)
  ultimately show ?case
    using Suc.IH perfect_hash_pairs [OF Suc.prems]
    by (subst tree_loop.simps) (simp del: perfect_root.simps)
qed

lemma double_until_power:
  "0 < n \<Longrightarrow> 2 ^ k < 2 * n \<Longrightarrow> \<exists>d. double_until (2 ^ k) n = 2 ^ d \<and> n \<le> 2 ^ d \<and> 2 ^ d < 2 * n"
proof (induction "n - 2 ^ k" arbitrary: k rule: less_induct)
  case less
  show ?case
  proof (cases "n \<le> 2 ^ k")
    case True
    then show ?thesis using less.prems by (auto simp: double_until.simps)
  next
    case False
    moreover have "(0 :: nat) < 2 ^ k" by simp
    ultimately have "n - 2 ^ Suc k < n - 2 ^ k" unfolding power_Suc by linarith
    from less.hyps [OF this] False less.prems show ?thesis
      by (subst double_until.simps) simp
  qed
qed

lemma next_power_of_two_power:
  "0 < n \<Longrightarrow> \<exists>d. next_power_of_two n = 2 ^ d \<and> n \<le> 2 ^ d \<and> 2 ^ d < 2 * n"
  using double_until_power [of n 0] by (simp add: next_power_of_two_def)

text \<open>
  C25: The auth data root of a non-empty list of leaves is the root of the smallest perfect
  binary tree that holds them, the missing leaves being zero.
\<close>

theorem auth_root_is_perfect_tree:
  assumes "leaves \<noteq> []"
  shows "\<exists>d. length leaves \<le> 2 ^ d \<and> 2 ^ d < 2 * length leaves
    \<and> auth_data_merkle_root HS leaves
      = perfect_root (auth_node HS) d (leaves @ replicate (2 ^ d - length leaves) zero_leaf)"
proof -
  obtain d where d: "next_power_of_two (length leaves) = 2 ^ d" "length leaves \<le> 2 ^ d"
    "2 ^ d < 2 * length leaves" using next_power_of_two_power [of "length leaves"] assms by auto
  then have "tree_loop (auth_node HS) (leaves @ replicate (2 ^ d - length leaves) zero_leaf)
      = [perfect_root (auth_node HS) d (leaves @ replicate (2 ^ d - length leaves) zero_leaf)]"
    by (intro tree_loop_perfect) simp
  then show ?thesis using assms d by (auto simp: auth_data_merkle_root_def Let_def)
qed

text \<open>A hash that can be evaluated: enough to run the code on concrete input.\<close>

definition toy_hashes :: hashes where
  "toy_hashes = \<lparr>hs_sha256 = (\<lambda>d. take 32 (foldl (\<lambda>a b. 3 * a + b) 7 d # d @ replicate 32 0)),
     hs_blake2b_256 = (\<lambda>p d. take 32 (foldl (\<lambda>a b. 3 * a + b) 7 (p @ d) # d @ replicate 32 0))\<rparr>"

lemma toy_hashes_ok: "hashes_ok toy_hashes"
  by (auto simp: hashes_ok_def toy_hashes_def)

theorem auth_root_is_perfect_tree_witness:
  "\<exists>d. (3 :: nat) \<le> 2 ^ d \<and> 2 ^ d < (6 :: nat)
    \<and> auth_data_merkle_root toy_hashes [zero_leaf, zero_leaf, zero_leaf]
      = perfect_root (auth_node toy_hashes) d (replicate 3 zero_leaf @ replicate (2 ^ d - 3) zero_leaf)"
  using auth_root_is_perfect_tree [of "[zero_leaf, zero_leaf, zero_leaf]" toy_hashes]
  by (simp add: eval_nat_numeral)

section \<open>Injection\<close>

lemma read_compact_size_prefix:
  assumes "read_compact_size data off = Inr (n, w)"
  shows "0 < w" and "off + w \<le> length data"
    and "take (off + w) data' = take (off + w) data \<Longrightarrow> read_compact_size data' off = Inr (n, w)"
proof -
  define wd where "wd = (if data ! off = 0xFD then 2 else if data ! off = 0xFE then 4 else (8 :: nat))"
  have off: "off < length data"
  proof (rule ccontr)
    assume "\<not> off < length data"
    then have "read_compact_size data off = Inl Compact_offset_beyond" by (simp add: read_compact_size_def)
    then show False using assms by simp
  qed
  have n: "\<not> length data \<le> off" using off by simp
  have eq: "read_compact_size data off = (if data ! off < 0xFD then Inr (unat (data ! off), 1)
      else if length data < off + 1 + wd then Inl (Compact_truncated (data ! off))
      else Inr (le_value (take wd (drop (off + 1) data)), 1 + wd))"
    unfolding read_compact_size_def Let_def if_not_P [OF n] wd_def by (rule refl)
  have w: "w = (if data ! off < 0xFD then 1 else 1 + wd)" "0 < w" "off + w \<le> length data"
    using assms off unfolding eq by (auto split: if_splits)
  then show "0 < w" "off + w \<le> length data" by simp_all
  assume t: "take (off + w) data' = take (off + w) data"
  have "length (take (off + w) data') = off + w" unfolding t using w(3) by simp
  then have len: "off + w \<le> length data'" by simp
  have at_off: "data' ! off = data ! off"
    using arg_cong [OF t, of "\<lambda>xs. xs ! off"] w(2) len off by simp
  have n': "\<not> length data' \<le> off" using len w(2) by simp
  have eq': "read_compact_size data' off = (if data ! off < 0xFD then Inr (unat (data ! off), 1)
      else if length data' < off + 1 + wd then Inl (Compact_truncated (data ! off))
      else Inr (le_value (take wd (drop (off + 1) data')), 1 + wd))"
    unfolding read_compact_size_def Let_def if_not_P [OF n'] at_off wd_def by (rule refl)
  have sub: "take wd (drop (off + 1) data') = take wd (drop (off + 1) data)" if "w = 1 + wd"
  proof -
    have "take wd (drop (off + 1) (take (off + w) xs)) = take wd (drop (off + 1) xs)" for xs :: bytes
      using that by (simp add: drop_take)
    then show ?thesis using t by metis
  qed
  show "read_compact_size data' off = Inr (n, w)"
    using assms w(1) len sub unfolding eq eq' by (auto split: if_splits)
qed

lemma has_window_end: "tag \<noteq> [] \<Longrightarrow> has_window tag (xs @ tag)"
proof (induction xs)
  case Nil
  then show ?case by (cases tag) auto
qed auto

lemma slice_mid: "length pre = a \<Longrightarrow> length mid = b - a \<Longrightarrow> slice a b (pre @ mid @ post) = mid"
  by (simp add: slice_def)

definition unchanged :: "string \<Rightarrow> inject_out" where
  "unchanged cb = Injected \<lparr>ir_new_coinbase_hex = cb, ir_new_txid = None, ir_new_block_commitments = None\<rparr>"

lemma locate_script_sigD:
  assumes "locate_script_sig data h = Inr (lo, so, len)" "4 \<le> h"
  shows "4 \<le> lo" "lo < so" "so \<le> length data"
    and "\<lbrakk>take lo data' = take lo data; lo < length data'; read_compact_size data' lo = Inr (len', w')\<rbrakk>
      \<Longrightarrow> locate_script_sig data' h = Inr (lo, lo + w', len')"
proof -
  from assms(1) obtain cs_len scs where
    h: "\<not> length data < h + 1" "read_compact_size data h = Inr (1, cs_len)" "lo = h + cs_len + 36"
      "lo < length data" "read_compact_size data lo = Inr (len, scs)" "so = lo + scs"
    by (auto simp: locate_script_sig_def Let_def res_bind_Inr_iff split: if_splits prod.splits)
  note r1 = read_compact_size_prefix [OF h(2)] and r2 = read_compact_size_prefix [OF h(5)]
  show "4 \<le> lo" "lo < so" "so \<le> length data" using h assms(2) r2 by auto
  assume d': "take lo data' = take lo data" "lo < length data'" "read_compact_size data' lo = Inr (len', w')"
  have "take (h + cs_len) data' = take (h + cs_len) (take lo data')" using h(3) by (simp add: min_def)
  also have "\<dots> = take (h + cs_len) data" using h(3) d'(1) by (simp add: min_def)
  finally have "read_compact_size data' h = Inr (1, cs_len)" by (rule r1(3))
  then show "locate_script_sig data' h = Inr (lo, lo + w', len')"
    using d'(2,3) h(3) by (simp add: locate_script_sig_def Let_def)
qed

text \<open>An injection that changes something, and what the next injection sees.\<close>

lemma inject_again:
  assumes H: "hex_ok H" and tag: "tag \<noteq> []" and h: "4 \<le> h" "h = (if take 4 data = V5 then 20 else 8)"
    and v: "take 4 data = V5 \<or> take 4 data = V4"
    and loc: "locate_script_sig data h = Inr (lo, so, len)" and fits: "so + len \<le> length data"
    and small: "len + length tag \<le> 100" and big: "length data < 2 ^ 63"
  defines "nd \<equiv> take lo data @ [of_nat (len + length tag)] @ (slice so (so + len) data @ tag) @ drop (so + len) data"
  shows "inject_coinbase_tag H HS Z (hx_encode H nd) tag chr ads = unchanged (hx_encode H nd)"
proof -
  note L = locate_script_sigD [OF loc h(1)]
  have lo: "length (take lo data) = lo" using L by simp
  have t: "take lo nd = take lo data" "nd ! lo = of_nat (len + length tag)" "lo < length nd"
    unfolding nd_def using lo by (simp_all add: nth_append)
  have u: "unat (of_nat (len + length tag) :: u8) = len + length tag" 
    using small by (subst unat_of_nat) simp
  have "(of_nat (len + length tag) :: u8) < 0xFD" unfolding word_less_nat_alt u using small by simp
  then have r: "read_compact_size nd lo = Inr (len + length tag, 1)"
    using t(2,3) u by (simp add: read_compact_size_def)
  have l2: "locate_script_sig nd h = Inr (lo, lo + 1, len + length tag)" by (rule L(4) [OF t(1,3) r])
  let ?s = "slice so (so + len) data @ tag"
  have sl: "length ?s = len + length tag" using fits by (simp add: slice_def)
  have ln: "length nd = lo + 1 + (len + length tag) + (length data - (so + len))"
    unfolding nd_def using sl lo by simp
  have sub: "slice (lo + 1) (lo + 1 + (len + length tag)) nd = ?s"
    unfolding nd_def using slice_mid [of "take lo data @ [of_nat (len + length tag)]" "lo + 1" ?s] sl lo by simp
  have t4: "take 4 nd = take 4 data" unfolding nd_def using L(1) lo by simp
  have l4: "\<not> length nd < 4" using L(1) ln by simp
  have ne: "take 4 data \<noteq> V6" "h = (if take 4 nd = V5 then 20 else 8)"
    using v h(2) t4 by (auto simp: V4_def V5_def V6_def)
  have so: "so \<le> length data" using L(3) .
  have "\<not> 2 ^ 64 \<le> lo + 1 + (len + length tag)" using fits L(2) small big by simp
  then show ?thesis
    using l4 t4 v ne(1) l2 [unfolded ne(2)] sub has_window_end [OF tag, of "slice so (so + len) data"] tag ln
    by (simp add: inject_coinbase_tag_def unchanged_def hex_okD(1) [OF H] Let_def)
qed

lemma inject_Injected_cases:
  assumes "inject_coinbase_tag H HS Z cb tag chr ads = Injected r" "hx_decode H cb = Some data" "take 4 data \<noteq> V6"
  obtains h lo so len where "4 \<le> h" "h = (if take 4 data = V5 then 20 else 8)"
    "take 4 data = V5 \<or> take 4 data = V4" "locate_script_sig data h = Inr (lo, so, len)"
    "so + len \<le> length data"
    "has_window tag (slice so (so + len) data) \<and> ir_new_coinbase_hex r = cb
     \<or> len + length tag \<le> 100 \<and> rebuild H HS (take 4 data = V5) data tag lo so len chr ads = Inr r"
proof -
  let ?h = "if take 4 data = V5 then 20 else (8 :: nat)"
  from assms obtain lo so len where
    l: "take 4 data = V5 \<or> take 4 data = V4" "locate_script_sig data ?h = Inr (lo, so, len)"
      "so + len \<le> length data"
    and c: "has_window tag (slice so (so + len) data) \<and> ir_new_coinbase_hex r = cb
     \<or> len + length tag \<le> 100
       \<and> inject_of (rebuild H HS (take 4 data = V5) data tag lo so len chr ads) = Injected r"
    by (auto simp: inject_coinbase_tag_def MAX_SCRIPT_SIG_LEN_def Let_def split: if_splits sum.splits)
  have "inject_of x = Injected r \<Longrightarrow> x = Inr r" for x by (simp add: inject_of_def split: sum.splits)
  with l c show ?thesis by (intro that [of ?h lo so len]) auto
qed

lemma rebuild_result:
  assumes "rebuild H HS v5 data tag lo so len chr ads = Inr r"
  shows "ir_new_coinbase_hex r = hx_encode H (take lo data @ [of_nat (len + length tag)]
    @ (slice so (so + len) data @ tag) @ drop (so + len) data)"
  using assms by (auto simp: rebuild_def compact_size_byte_def res_bind_Inr_iff Let_def split: if_splits)

lemma split_at_script:
  assumes loc: "locate_script_sig data h = Inr (lo, so, len)" and fits: "so + len \<le> length data"
  shows "read_compact_size data lo = Inr (len, so - lo)"
    and "lo \<le> so" and "data = take lo data @ slice lo so data @ slice so (so + len) data @ drop (so + len) data"
proof -
  from loc show r: "read_compact_size data lo = Inr (len, so - lo)"
    by (auto simp: locate_script_sig_def Let_def res_bind_Inr_iff split: if_splits prod.splits)
  from loc show lo: "lo \<le> so"
    by (auto simp: locate_script_sig_def Let_def res_bind_Inr_iff split: if_splits prod.splits)
  have "slice lo so data @ drop so data = drop lo data"
    using lo append_take_drop_id [of "so - lo" "drop lo data"] by (simp add: slice_def)
  moreover have "slice so (so + len) data @ drop (so + len) data = drop so data"
    using append_take_drop_id [of len "drop so data"] by (simp add: slice_def add.commute)
  ultimately show "data = take lo data @ slice lo so data @ slice so (so + len) data @ drop (so + len) data"
    by simp
qed


text \<open>A v4 coinbase with a three-byte script, and the tag \<open>ab\<close>.\<close>

definition demo_coinbase :: bytes where
  "demo_coinbase = V4 @ [1, 2, 3, 4, 1] @ replicate 36 255 @ [3, 9, 8, 7] @ [1, 0, 0]"

definition no_zebra :: "unit zebra" where
  "no_zebra = \<lparr>zc_deserialize = (\<lambda>d. None), zc_first_input = (\<lambda>t. Not_v6), zc_set_data = (\<lambda>d t. t),
     zc_serialize = (\<lambda>t. None), zc_auth_digest = (\<lambda>t. [])\<rparr>"

definition injection_of :: "inject_out \<Rightarrow> injection_result" where
  "injection_of out = (case out of Injected r \<Rightarrow> r
     | _ \<Rightarrow> \<lparr>ir_new_coinbase_hex = '''', ir_new_txid = None, ir_new_block_commitments = None\<rparr>)"

definition demo_out :: inject_out where
  "demo_out = inject_coinbase_tag hex_ref toy_hashes no_zebra
       (hx_encode hex_ref demo_coinbase) (ascii ''ab'') '''' []"


end
