(* ===== verification/Jobs.thy ===== *)
theory Jobs
  imports Node_Rpc Coinbase Lag "HOL-Library.AList"
begin

text \<open>
  Mining jobs and the job manager: \<open>pool-core/src/job.rs\<close>.  The job table is an association
  list (a \<open>HashMap\<close> whose order the code only uses after sorting).  Clock readings are read
  from the outside world, once per call of \<open>Instant::now\<close>, \<open>elapsed\<close> or \<open>SystemTime::now\<close>.
  What is handed to \<open>stratum.broadcast_notify\<close> is appended to \<open>jm_broadcasts\<close>.
\<close>

section \<open>Jobs from templates\<close>

record mining_job =
  mj_job_id :: string
  mj_template :: block_template
  mj_version_hex :: string
  mj_prev_hash_hex :: string
  mj_merkle_root_hex :: string
  mj_reserved_hex :: string
  mj_time_hex :: string
  mj_bits_hex :: string

definition hash32 :: "hexlib \<Rightarrow> string \<Rightarrow> bytes list" where
  "hash32 H s = (case hx_decode H s of
     Some bs \<Rightarrow> (if length bs = 32 then [bs] else []) | None \<Rightarrow> [])"

definition merkle_leaves :: "hexlib \<Rightarrow> block_template \<Rightarrow> bytes list" where
  "merkle_leaves H t =
     (case bt_coinbasetxn t of Some cb \<Rightarrow> hash32 H (ct_hash cb) | None \<Rightarrow> [])
     @ concat (map (\<lambda>tx. hash32 H (tt_hash tx)) (bt_transactions t))"

definition merkle_node :: "hashes \<Rightarrow> bytes \<Rightarrow> bytes \<Rightarrow> bytes" where
  "merkle_node HS x y = sha256d HS (x @ y)"

definition even_up :: "'a list \<Rightarrow> 'a list" where
  "even_up xs = (if length xs mod 2 \<noteq> 0 then xs @ [last xs] else xs)"

function merkle_loop :: "hashes \<Rightarrow> bytes list \<Rightarrow> bytes list" where
  "merkle_loop HS xs =
     (if 1 < length xs then merkle_loop HS (hash_pairs (merkle_node HS) (even_up xs)) else xs)"
  by pat_completeness auto
termination
proof (relation "measure (\<lambda>(HS, xs). length xs)")
  fix HS :: hashes and xs :: "bytes list"
  assume "1 < length xs"
  then have "(length (even_up xs) + 1) div 2 < length xs" by (auto simp: even_up_def) presburger
  then show "((HS, hash_pairs (merkle_node HS) (even_up xs)), (HS, xs)) \<in> measure (\<lambda>(HS, xs). length xs)"
    by (simp add: length_hash_pairs)
qed simp

declare merkle_loop.simps [simp del]

definition zeros_hex :: string where
  "zeros_hex = concat (replicate 32 ''00'')"

definition compute_merkle_root :: "hexlib \<Rightarrow> hashes \<Rightarrow> block_template \<Rightarrow> string" where
  "compute_merkle_root H HS t = (let leaves = merkle_leaves H t in
     if leaves = [] then zeros_hex else hx_encode H (hd (merkle_loop HS leaves)))"

definition or_else :: "'a option \<Rightarrow> 'a option \<Rightarrow> 'a option" where
  "or_else a b = (case a of None \<Rightarrow> b | Some x \<Rightarrow> Some x)"

definition unwrap_or :: "'a option \<Rightarrow> 'a \<Rightarrow> 'a" where
  "unwrap_or a d = (case a of None \<Rightarrow> d | Some x \<Rightarrow> x)"

definition from_template :: "hexlib \<Rightarrow> hashes \<Rightarrow> block_template \<Rightarrow> string \<Rightarrow> mining_job" where
  "from_template H HS t jid =
     (let merkle_root_rpc = unwrap_or (Option.bind (bt_defaultroots t) dr_merkleroot)
            (compute_merkle_root H HS t);
          reserved_rpc = unwrap_or (or_else (or_else (or_else
              (Option.bind (bt_defaultroots t) dr_blockcommitmentshash)
              (bt_blockcommitmentshash t)) (bt_lightclientroothash t)) (bt_finalsaplingroothash t))
            zeros_hex in
      \<lparr>mj_job_id = jid, mj_template = t,
       mj_version_hex = fmt_08x (swap_bytes32 (bt_version t)),
       mj_prev_hash_hex = reverse_hex H (bt_previousblockhash t),
       mj_merkle_root_hex = reverse_hex H merkle_root_rpc,
       mj_reserved_hex = reverse_hex H reserved_rpc,
       mj_time_hex = fmt_08x (swap_bytes32 (ucast (bt_curtime t))),
       mj_bits_hex = reverse_hex H (bt_bits t)\<rparr>)"

definition to_notify :: "mining_job \<Rightarrow> bool \<Rightarrow> server_message" where
  "to_notify j clean = Notify (mj_job_id j) (mj_version_hex j) (mj_prev_hash_hex j)
     (mj_merkle_root_hex j) (mj_reserved_hex j) (mj_time_hex j) (mj_bits_hex j) clean"

section \<open>The state of the manager\<close>

definition NON_CLEAN_JOB_INTERVAL_SECS :: nat where
  "NON_CLEAN_JOB_INTERVAL_SECS = 5"

record longpoll_config =
  lp_enabled :: bool
  lp_timeout :: nanos

definition longpoll_default :: longpoll_config where
  "longpoll_default = \<lparr>lp_enabled = False, lp_timeout = 60 * 10 ^ 9\<rparr>"

record job_manager =
  jm_jobs :: "(string \<times> mining_job) list"
  jm_job_counter :: u64
  jm_last_prev_hash :: string
  jm_last_non_clean_broadcast :: nanos
  jm_last_template_at_ms :: "int option"
  jm_latest_notify :: "server_message option"
  jm_coinbase_tag :: "bytes option"
  jm_longpoll :: longpoll_config
  jm_last_longpollid :: "string option"
  jm_longpoll_wake_count :: u64
  jm_longpoll_fail_count :: u64
  jm_last_longpoll_fail_at_ms :: int
  jm_lag_tracker :: lag_tracker
  jm_last_broadcast_tx_count :: nat
  jm_broadcasts :: "server_message list"

definition EMPTY_TEMPLATE_REPOLL_DELAYS_MS :: "nat list" where
  "EMPTY_TEMPLATE_REPOLL_DELAYS_MS = [100, 200, 400, 800]"

definition new_with_stall_tracking_and_notify ::
  "nanos \<Rightarrow> int option \<Rightarrow> server_message option \<Rightarrow> job_manager" where
  "new_with_stall_tracking_and_notify now last_template_at_ms latest_notify =
     \<lparr>jm_jobs = [], jm_job_counter = 1, jm_last_prev_hash = '''', jm_last_non_clean_broadcast = now,
      jm_last_template_at_ms = last_template_at_ms, jm_latest_notify = latest_notify,
      jm_coinbase_tag = None, jm_longpoll = longpoll_default, jm_last_longpollid = None,
      jm_longpoll_wake_count = 0, jm_longpoll_fail_count = 0, jm_last_longpoll_fail_at_ms = 0,
      jm_lag_tracker = lag_new, jm_last_broadcast_tx_count = 0, jm_broadcasts = []\<rparr>"

definition new_with_stall_tracking :: "nanos \<Rightarrow> int option \<Rightarrow> job_manager" where
  "new_with_stall_tracking now last_at = new_with_stall_tracking_and_notify now last_at None"

definition job_manager_new :: "nanos \<Rightarrow> job_manager" where
  "job_manager_new now = new_with_stall_tracking now None"

definition set_coinbase_tag :: "bytes \<Rightarrow> job_manager \<Rightarrow> job_manager" where
  "set_coinbase_tag tag jm = jm\<lparr>jm_coinbase_tag := Some tag\<rparr>"

definition set_longpoll_config :: "longpoll_config \<Rightarrow> job_manager \<Rightarrow> job_manager" where
  "set_longpoll_config cfg jm = jm\<lparr>jm_longpoll := cfg\<rparr>"

section \<open>Tag injection\<close>

text \<open>The third-party functions, as one argument.\<close>

record 't libs =
  lib_hex :: hexlib
  lib_hashes :: hashes
  lib_zebra :: "'t zebra"

definition inject_tag ::
  "'t libs \<Rightarrow> bytes \<Rightarrow> block_template \<Rightarrow> coinbase_txn \<Rightarrow> string list \<Rightarrow> inject_out" where
  "inject_tag L tag t cb digests =
     inject_coinbase_tag (lib_hex L) (lib_hashes L) (lib_zebra L) (ct_data cb) tag
       (unwrap_or (Option.bind (bt_defaultroots t) dr_chainhistoryroot) '''') digests"

text \<open>The updates of the template that both callers make with the result.\<close>

definition apply_injection :: "injection_result \<Rightarrow> coinbase_txn \<Rightarrow> block_template \<Rightarrow> block_template" where
  "apply_injection r cb t =
     (let cb = cb\<lparr>ct_data := ir_new_coinbase_hex r, ct_hash := unwrap_or (ir_new_txid r) (ct_hash cb)\<rparr>;
          t = t\<lparr>bt_coinbasetxn := Some cb\<rparr> in
      case ir_new_block_commitments r of
        None \<Rightarrow> t
      | Some bc \<Rightarrow> t\<lparr>bt_defaultroots :=
              map_option (\<lambda>dr. dr\<lparr>dr_blockcommitmentshash := Some bc\<rparr>) (bt_defaultroots t),
            bt_blockcommitmentshash := Some bc\<rparr>)"

definition clear_merkleroot :: "block_template \<Rightarrow> block_template" where
  "clear_merkleroot t = t\<lparr>bt_defaultroots :=
     map_option (\<lambda>dr. dr\<lparr>dr_merkleroot := None\<rparr>) (bt_defaultroots t)\<rparr>"

datatype 'a outcome = Done 'a | Panicked

datatype tagged = Tagged block_template | Tag_failed inject_error | Tag_panicked

text \<open>The stripped template of the race-to-tip job, and the full template.\<close>

definition empty_template :: "'t libs \<Rightarrow> bytes option \<Rightarrow> block_template \<Rightarrow> tagged" where
  "empty_template L tag t =
     (let bare = clear_merkleroot (t\<lparr>bt_transactions := []\<rparr>) in
      case (tag, bt_coinbasetxn bare) of
        (Some tg, Some cb) \<Rightarrow> (case inject_tag L tg bare cb [] of
            Injected r \<Rightarrow> Tagged (apply_injection r cb bare)
          | Inject_error e \<Rightarrow> Tag_failed e
          | Inject_panic \<Rightarrow> Tag_panicked)
      | _ \<Rightarrow> Tagged bare)"

definition full_template :: "'t libs \<Rightarrow> bytes option \<Rightarrow> block_template \<Rightarrow> block_template outcome" where
  "full_template L tag t =
     (case (tag, bt_coinbasetxn t) of
        (Some tg, Some cb) \<Rightarrow>
          (case inject_tag L tg t cb (List.map_filter tt_authdigest (bt_transactions t)) of
            Injected r \<Rightarrow> Done (let t' = apply_injection r cb t in
              if ir_new_txid r = None then t' else clear_merkleroot t')
          | Inject_error e \<Rightarrow> Done t
          | Inject_panic \<Rightarrow> Panicked)
      | _ \<Rightarrow> Done t)"

section \<open>The job table\<close>

definition insert_job :: "string \<Rightarrow> mining_job \<Rightarrow> (string \<times> mining_job) list \<Rightarrow> (string \<times> mining_job) list" where
  "insert_job k j jobs = AList.update k j jobs"

definition parse_u64 :: "string \<Rightarrow> nat option" where
  "parse_u64 s = (let t = (case s of c # cs \<Rightarrow> if c = CHR ''+'' then cs else s | [] \<Rightarrow> []) in
     if t = [] then None
     else case parse_dec 0 t of Some n \<Rightarrow> if n < 2 ^ 64 then Some n else None | None \<Rightarrow> None)"

definition evict_jobs :: "(string \<times> mining_job) list \<Rightarrow> (string \<times> mining_job) list" where
  "evict_jobs jobs =
     (if 10 < length jobs
      then let ids = sort_key (\<lambda>s. unwrap_or (parse_u64 s) 0) (map fst jobs);
               gone = take (length ids - 3) ids in
        filter (\<lambda>(k, _). k \<notin> set gone) jobs
      else jobs)"

section \<open>Processing a template\<close>

text \<open>The clock readings of one call of \<open>process_template\<close>.\<close>

record readings =
  rd_empty_sent :: nanos
  rd_unix_ms :: "int option"
  rd_check :: nanos
  rd_stamp :: nanos
  rd_full_sent :: nanos

definition announce :: "mining_job \<Rightarrow> bool \<Rightarrow> nat \<Rightarrow> job_manager \<Rightarrow> job_manager" where
  "announce job clean tx_count jm = (let notify = to_notify job clean in
     jm\<lparr>jm_latest_notify := Some notify, jm_broadcasts := jm_broadcasts jm @ [notify],
        jm_last_broadcast_tx_count := tx_count\<rparr>)"

definition next_job_id :: "job_manager \<Rightarrow> string" where
  "next_job_id jm = show_nat (unat (jm_job_counter jm))"

definition record_lag_since ::
  "nanos option \<Rightarrow> nanos \<Rightarrow> u64 \<Rightarrow> lag_kind \<Rightarrow> job_manager \<Rightarrow> job_manager" where
  "record_lag_since t0 now height kind jm = (case t0 of
     None \<Rightarrow> jm
   | Some start \<Rightarrow> jm\<lparr>jm_lag_tracker :=
        record_lag now (elapsed now start) height kind (jm_lag_tracker jm)\<rparr>)"

definition broadcast_empty_block ::
  "'t libs \<Rightarrow> readings \<Rightarrow> block_template \<Rightarrow> nanos option \<Rightarrow> job_manager \<Rightarrow> unit outcome \<times> job_manager" where
  "broadcast_empty_block L rd t t0 jm =
     (case empty_template L (jm_coinbase_tag jm) t of
        Tag_panicked \<Rightarrow> (Panicked, jm)
      | Tag_failed e \<Rightarrow> (Done (), jm)
      | Tagged bare \<Rightarrow>
          (let jid = next_job_id jm;
               job = from_template (lib_hex L) (lib_hashes L) bare jid;
               jm = jm\<lparr>jm_job_counter := jm_job_counter jm + 1, jm_jobs := insert_job jid job (jm_jobs jm)\<rparr>;
               jm = announce job True 0 jm in
           (Done (), record_lag_since t0 (rd_empty_sent rd) (bt_height t) EmptyBlock jm)))"

definition publish_full ::
  "'t libs \<Rightarrow> readings \<Rightarrow> block_template \<Rightarrow> nanos option \<Rightarrow> bool \<Rightarrow> bool \<Rightarrow> job_manager
     \<Rightarrow> bool outcome \<times> job_manager" where
  "publish_full L rd t t0 is_new_block clean jm =
     (case full_template L (jm_coinbase_tag jm) t of
        Panicked \<Rightarrow> (Panicked, jm)
      | Done full \<Rightarrow>
          (let jid = next_job_id jm;
               job = from_template (lib_hex L) (lib_hashes L) full jid;
               kept = (if is_new_block then evict_jobs (jm_jobs jm) else jm_jobs jm);
               jm = jm\<lparr>jm_job_counter := jm_job_counter jm + 1, jm_jobs := insert_job jid job kept\<rparr>;
               jm = (if is_new_block then jm\<lparr>jm_last_prev_hash := bt_previousblockhash t\<rparr>
                     else jm\<lparr>jm_last_non_clean_broadcast := rd_stamp rd\<rparr>);
               jm = announce job clean (length (bt_transactions t)) jm;
               jm = (if is_new_block
                     then record_lag_since t0 (rd_full_sent rd) (bt_height t) FullTemplate jm else jm) in
           (Done is_new_block, jm)))"

definition process_template ::
  "'t libs \<Rightarrow> readings \<Rightarrow> block_template \<Rightarrow> nanos option \<Rightarrow> job_manager \<Rightarrow> bool outcome \<times> job_manager" where
  "process_template L rd t t0 jm =
     (let jm = jm\<lparr>jm_last_longpollid := bt_longpollid t\<rparr>;
          is_new_block = (jm_last_prev_hash jm \<noteq> bt_previousblockhash t);
          sent_empty_block = (is_new_block \<and> bt_transactions t = []);
          (sent, jm) = (if sent_empty_block then broadcast_empty_block L rd t t0 jm else (Done (), jm)) in
      case sent of Panicked \<Rightarrow> (Panicked, jm) | Done _ \<Rightarrow>
     (let jm = jm\<lparr>jm_last_template_at_ms :=
            map_option (\<lambda>_. unwrap_or (rd_unix_ms rd) 0) (jm_last_template_at_ms jm)\<rparr>;
          tx_count = length (bt_transactions t);
          upgrade_empty = (\<not> is_new_block \<and> 0 < tx_count \<and> jm_last_broadcast_tx_count jm = 0);
          should_broadcast = (is_new_block \<or> upgrade_empty
            \<or> NON_CLEAN_JOB_INTERVAL_SECS
                \<le> elapsed (rd_check rd) (jm_last_non_clean_broadcast jm) div 10 ^ 9);
          clean = (is_new_block \<and> \<not> sent_empty_block \<or> upgrade_empty) in
      if \<not> should_broadcast then (Done False, jm)
      else publish_full L rd t t0 is_new_block clean jm))"

section \<open>Polling\<close>

text \<open>The clock of the outside world.\<close>

record 'w clock =
  ck_now :: "'w \<Rightarrow> nanos \<times> 'w"
  ck_unix_ms :: "'w \<Rightarrow> int option \<times> 'w"
  ck_readings :: "'w \<Rightarrow> readings \<times> 'w"

record ('w, 't) jobs_env =
  jv_transport :: "'w transport"
  jv_serde :: serde
  jv_libs :: "'t libs"
  jv_clock :: "'w clock"

type_synonym 'w jobs_world = "job_manager \<times> rpc_client \<times> 'w"

datatype poll_out = Polled bool | Poll_failed rpc_error | Poll_panicked

definition process_world ::
  "('w, 't) jobs_env \<Rightarrow> block_template \<Rightarrow> nanos option \<Rightarrow> 'w jobs_world \<Rightarrow> poll_out \<times> 'w jobs_world" where
  "process_world E t t0 s = (let (jm, c, w) = s;
       (rd, w) = ck_readings (jv_clock E) w;
       (out, jm) = process_template (jv_libs E) rd t t0 jm in
     (case out of Done b \<Rightarrow> Polled b | Panicked \<Rightarrow> Poll_panicked, jm, c, w))"

definition poll_template :: "('w, 't) jobs_env \<Rightarrow> 'w jobs_world \<Rightarrow> poll_out \<times> 'w jobs_world" where
  "poll_template E s = (let (jm, cw) = s;
       (r, c, w) = get_block_template (jv_transport E) (jv_serde E) cw in
     case r of
       Inl e \<Rightarrow> (Poll_failed e, jm, c, w)
     | Inr t \<Rightarrow> process_world E t None (jm, c, w))"

text \<open>A longpoll that held for nearly its whole timeout is not counted as a failure.\<close>

definition expired_quietly :: "nanos \<Rightarrow> nanos \<Rightarrow> bool" where
  "expired_quietly held timeout \<longleftrightarrow> timeout - 2 * 10 ^ 9 \<le> held"

definition longpoll_failed :: "int option \<Rightarrow> job_manager \<Rightarrow> job_manager" where
  "longpoll_failed unix_ms jm =
     jm\<lparr>jm_longpoll_fail_count := jm_longpoll_fail_count jm + 1,
        jm_last_longpoll_fail_at_ms := unwrap_or unix_ms 0\<rparr>"

definition poll_template_with_longpoll ::
  "('w, 't) jobs_env \<Rightarrow> string \<Rightarrow> 'w jobs_world \<Rightarrow> poll_out \<times> 'w jobs_world" where
  "poll_template_with_longpoll E longpollid s = (let (jm, c, w) = s; ck = jv_clock E;
       timeout = lp_timeout (jm_longpoll jm);
       (started, w) = ck_now ck w;
       (r, c, w) = get_block_template_longpoll (jv_transport E) (jv_serde E) longpollid timeout (c, w) in
     case r of
       Inr t \<Rightarrow> (let (t0, w) = ck_now ck w;
           jm = jm\<lparr>jm_longpoll_wake_count := jm_longpoll_wake_count jm + 1\<rparr> in
         process_world E t (Some t0) (jm, c, w))
     | Inl e \<Rightarrow> (let (now, w) = ck_now ck w in
         if expired_quietly (elapsed now started) timeout then poll_template E (jm, c, w)
         else let (ms, w) = ck_unix_ms ck w in poll_template E (longpoll_failed ms jm, c, w)))"

definition sleep_world :: "('w, 't) jobs_env \<Rightarrow> nanos \<Rightarrow> 'w jobs_world \<Rightarrow> 'w jobs_world" where
  "sleep_world E d s = (let (jm, c, w) = s in (jm, c, tr_sleep (jv_transport E) d w))"

text \<open>The re-polls after an empty new-tip template; \<open>False\<close> is a panic.\<close>

fun repoll_loop :: "('w, 't) jobs_env \<Rightarrow> nat list \<Rightarrow> 'w jobs_world \<Rightarrow> bool \<times> 'w jobs_world" where
  "repoll_loop E [] s = (True, s)"
| "repoll_loop E (delay_ms # delays) s =
     (let (out, s) = poll_template E (sleep_world E (delay_ms * 10 ^ 6) s) in
      case out of
        Poll_panicked \<Rightarrow> (False, s)
      | Poll_failed e \<Rightarrow> repoll_loop E delays s
      | Polled new_block \<Rightarrow>
          if new_block \<or> 0 < jm_last_broadcast_tx_count (fst s) then (True, s)
          else repoll_loop E delays s)"

definition repoll_until_template_fills :: "('w, 't) jobs_env \<Rightarrow> 'w jobs_world \<Rightarrow> bool \<times> 'w jobs_world" where
  "repoll_until_template_fills E s = repoll_loop E EMPTY_TEMPLATE_REPOLL_DELAYS_MS s"

text \<open>One iteration of \<open>run\<close>, and \<open>n\<close> of them; the loop never ends by itself.\<close>

definition run_once :: "('w, 't) jobs_env \<Rightarrow> nanos \<Rightarrow> 'w jobs_world \<Rightarrow> bool \<times> 'w jobs_world" where
  "run_once E poll_interval s =
     (let jm = fst s;
          lpid = (if lp_enabled (jm_longpoll jm) then jm_last_longpollid jm else None);
          (result, s) = (case lpid of
             Some i \<Rightarrow> poll_template_with_longpoll E i s | None \<Rightarrow> poll_template E s) in
      case result of
        Poll_panicked \<Rightarrow> (False, s)
      | Poll_failed e \<Rightarrow> (True, sleep_world E poll_interval s)
      | Polled new_block \<Rightarrow>
          (let (alive, s) = (if new_block \<and> jm_last_broadcast_tx_count (fst s) = 0
               then repoll_until_template_fills E s else (True, s)) in
           if \<not> alive then (False, s)
           else if \<not> lp_enabled (jm_longpoll (fst s)) \<or> jm_last_longpollid (fst s) = None
             then (True, sleep_world E poll_interval s)
           else (True, s)))"

fun run_jobs :: "('w, 't) jobs_env \<Rightarrow> nanos \<Rightarrow> nat \<Rightarrow> 'w jobs_world \<Rightarrow> bool \<times> 'w jobs_world" where
  "run_jobs E poll_interval 0 s = (True, s)"
| "run_jobs E poll_interval (Suc n) s =
     (let (alive, s) = run_once E poll_interval s in
      if alive then run_jobs E poll_interval n s else (False, s))"

end
