(* ===== verification/Jobs_Properties.thy ===== *)
theory Jobs_Properties
  imports Jobs Coinbase_Properties Block_Assembler
begin

text \<open>
  The properties of the job manager: in every run the job that was announced last is in the
  job table, a new block is announced with \<open>clean_jobs\<close>, and what the code does when the tag
  cannot be injected.
\<close>

section \<open>The job table\<close>

definition table_ok :: "nat \<Rightarrow> (string \<times> mining_job) list \<Rightarrow> bool" where
  "table_ok c jobs \<longleftrightarrow> distinct (map fst jobs)
     \<and> (\<forall>(k, j) \<in> set jobs. mj_job_id j = k \<and> (\<exists>m < c. k = show_nat m))"

lemma update_fresh: "k \<notin> fst ` set xs \<Longrightarrow> AList.update k v xs = xs @ [(k, v)]"
  by (induction xs) auto

lemma table_ok_fresh: "table_ok c jobs \<Longrightarrow> show_nat c \<notin> fst ` set jobs"
proof
  assume ok: "table_ok c jobs" and "show_nat c \<in> fst ` set jobs"
  then obtain j where "(show_nat c, j) \<in> set jobs" by auto
  with ok obtain m where "m < c" "show_nat c = show_nat m" unfolding table_ok_def by blast
  then show False by (simp add: show_nat_inj)
qed

lemma table_ok_Suc: "table_ok c jobs \<Longrightarrow> table_ok (Suc c) jobs"
proof -
  assume "table_ok c jobs"
  then have "mj_job_id j = k \<and> (\<exists>m < Suc c. k = show_nat m)" if "(k, j) \<in> set jobs" for k j
    using that less_SucI unfolding table_ok_def by blast
  with \<open>table_ok c jobs\<close> show ?thesis unfolding table_ok_def by blast
qed

lemma table_ok_insert:
  assumes "table_ok c jobs" "mj_job_id j = show_nat c"
  shows "insert_job (show_nat c) j jobs = jobs @ [(show_nat c, j)]"
    and "table_ok (Suc c) (insert_job (show_nat c) j jobs)"
proof -
  note f = table_ok_fresh [OF assms(1)]
  show eq: "insert_job (show_nat c) j jobs = jobs @ [(show_nat c, j)]"
    unfolding insert_job_def by (rule update_fresh [OF f])
  show "table_ok (Suc c) (insert_job (show_nat c) j jobs)"
    using table_ok_Suc [OF assms(1)] assms(2) f unfolding eq by (auto simp: table_ok_def)
qed

lemma table_ok_filter: "table_ok c jobs \<Longrightarrow> table_ok c (filter P jobs)"
  by (auto simp: table_ok_def distinct_map_filter)

lemma table_ok_evict: "table_ok c jobs \<Longrightarrow> table_ok c (evict_jobs jobs)"
  by (simp add: evict_jobs_def Let_def table_ok_filter)

definition latest_known :: "job_manager \<Rightarrow> bool" where
  "latest_known jm \<longleftrightarrow> (\<forall>msg. jm_latest_notify jm = Some msg \<longrightarrow>
     (\<exists>j clean. map_of (jm_jobs jm) (mj_job_id j) = Some j \<and> msg = to_notify j clean))"

definition jobs_wf :: "job_manager \<Rightarrow> bool" where
  "jobs_wf jm \<longleftrightarrow> table_ok (unat (jm_job_counter jm)) (jm_jobs jm) \<and> latest_known jm"

lemma jobs_wf_cong:
  "\<lbrakk>jm_jobs jm' = jm_jobs jm; jm_job_counter jm' = jm_job_counter jm;
    jm_latest_notify jm' = jm_latest_notify jm\<rbrakk> \<Longrightarrow> jobs_wf jm' \<longleftrightarrow> jobs_wf jm"
  by (simp add: jobs_wf_def latest_known_def)

lemma from_template_id [simp]: "mj_job_id (from_template H HS t jid) = jid"
  by (simp add: from_template_def Let_def)

lemma record_lag_since_fields [simp]:
  "jm_jobs (record_lag_since t0 now h k jm) = jm_jobs jm"
  "jm_job_counter (record_lag_since t0 now h k jm) = jm_job_counter jm"
  "jm_latest_notify (record_lag_since t0 now h k jm) = jm_latest_notify jm"
  "jm_broadcasts (record_lag_since t0 now h k jm) = jm_broadcasts jm"
  "jm_last_prev_hash (record_lag_since t0 now h k jm) = jm_last_prev_hash jm"
  "jm_last_broadcast_tx_count (record_lag_since t0 now h k jm) = jm_last_broadcast_tx_count jm"
  "jm_coinbase_tag (record_lag_since t0 now h k jm) = jm_coinbase_tag jm"
  "jm_last_non_clean_broadcast (record_lag_since t0 now h k jm) = jm_last_non_clean_broadcast jm"
  by (simp_all add: record_lag_since_def split: option.splits)

lemma unat_Suc: "unat (c :: u64) + 1 < 2 ^ 64 \<Longrightarrow> unat (c + 1) = Suc (unat c)"
  by (simp add: unat_word_ariths)

text \<open>Adding a job under the next id and announcing it.\<close>

lemma announced_wf:
  assumes tab: "table_ok (unat c) jobs" and c: "unat c + 1 < 2 ^ 64" "jm_job_counter jm' = c + 1"
    and j: "mj_job_id j = show_nat (unat c)" "jm_jobs jm' = insert_job (show_nat (unat c)) j jobs"
      "jm_latest_notify jm' = Some (to_notify j clean)"
  shows "jobs_wf jm'"
proof -
  note t = table_ok_insert [OF tab j(1)]
  have "map_of (jm_jobs jm') (mj_job_id j) = Some j"
    using table_ok_fresh [OF tab] by (simp add: j t(1) map_add_def dom_map_of_conv_image_fst [symmetric] domIff)
  then show ?thesis
    using t(2) unfolding jobs_wf_def latest_known_def by (auto simp: j(2,3) c(2) unat_Suc [OF c(1)])
qed

lemma broadcast_empty_wf:
  assumes "jobs_wf jm" "unat (jm_job_counter jm) + 1 < 2 ^ 64"
    and "broadcast_empty_block L rd t t0 jm = (out, jm')"
  shows "jobs_wf jm' \<and> unat (jm_job_counter jm') \<le> unat (jm_job_counter jm) + 1"
proof (cases "empty_template L (jm_coinbase_tag jm) t")
  case (Tagged bare)
  have tab: "table_ok (unat (jm_job_counter jm)) (jm_jobs jm)" using assms(1) by (simp add: jobs_wf_def)
  have f: "jm_job_counter jm' = jm_job_counter jm + 1"
    "jm_jobs jm' = insert_job (show_nat (unat (jm_job_counter jm)))
       (from_template (lib_hex L) (lib_hashes L) bare (next_job_id jm)) (jm_jobs jm)"
    "jm_latest_notify jm' = Some (to_notify (from_template (lib_hex L) (lib_hashes L) bare (next_job_id jm)) True)"
    using assms(3) by (auto simp: broadcast_empty_block_def Tagged Let_def announce_def next_job_id_def)
  have "jobs_wf jm'" by (rule announced_wf [OF tab assms(2) f(1) _ f(2,3)]) (simp add: next_job_id_def)
  then show ?thesis using f(1) unat_Suc [OF assms(2)] by simp
qed (use assms in \<open>auto simp: broadcast_empty_block_def\<close>)

lemma publish_full_wf:
  assumes "jobs_wf jm" "unat (jm_job_counter jm) + 1 < 2 ^ 64"
    and "publish_full L rd t t0 nb clean jm = (out, jm')"
  shows "jobs_wf jm' \<and> unat (jm_job_counter jm') \<le> unat (jm_job_counter jm) + 1"
proof (cases "full_template L (jm_coinbase_tag jm) t")
  case (Done full)
  let ?kept = "if nb then evict_jobs (jm_jobs jm) else jm_jobs jm"
  have tab: "table_ok (unat (jm_job_counter jm)) ?kept"
    using assms(1) by (simp add: jobs_wf_def table_ok_evict)
  have f: "jm_job_counter jm' = jm_job_counter jm + 1"
    "jm_jobs jm' = insert_job (show_nat (unat (jm_job_counter jm)))
       (from_template (lib_hex L) (lib_hashes L) full (next_job_id jm)) ?kept"
    "jm_latest_notify jm' = Some (to_notify (from_template (lib_hex L) (lib_hashes L) full (next_job_id jm)) clean)"
    using assms(3) by (auto simp: publish_full_def Done Let_def announce_def next_job_id_def)
  have "jobs_wf jm'" by (rule announced_wf [OF tab assms(2) f(1) _ f(2,3)]) (simp add: next_job_id_def)
  then show ?thesis using f(1) unat_Suc [OF assms(2)] by simp
qed (use assms in \<open>auto simp: publish_full_def\<close>)

text \<open>A budget of templates that can still be processed before the counter would wrap.\<close>

definition jobs_ok :: "nat \<Rightarrow> job_manager \<Rightarrow> bool" where
  "jobs_ok n jm \<longleftrightarrow> jobs_wf jm \<and> unat (jm_job_counter jm) + 2 * n < 2 ^ 64"

text \<open>The intermediate states of \<open>process_template\<close>.\<close>

definition pt_new :: "block_template \<Rightarrow> job_manager \<Rightarrow> bool" where
  "pt_new t jm \<longleftrightarrow> jm_last_prev_hash jm \<noteq> bt_previousblockhash t"

lemma pt_new_longpollid [simp]: "pt_new t (jm\<lparr>jm_last_longpollid := x\<rparr>) = pt_new t jm"
  by (simp add: pt_new_def)

definition pt_start :: "'t libs \<Rightarrow> readings \<Rightarrow> block_template \<Rightarrow> nanos option \<Rightarrow> job_manager \<Rightarrow> unit outcome \<times> job_manager" where
  "pt_start L rd t t0 jm = (let jm = jm\<lparr>jm_last_longpollid := bt_longpollid t\<rparr> in
     if pt_new t jm \<and> bt_transactions t = [] then broadcast_empty_block L rd t t0 jm else (Done (), jm))"

definition pt_stamped :: "readings \<Rightarrow> job_manager \<Rightarrow> job_manager" where
  "pt_stamped rd jm = jm\<lparr>jm_last_template_at_ms :=
     map_option (\<lambda>_. unwrap_or (rd_unix_ms rd) 0) (jm_last_template_at_ms jm)\<rparr>"

lemma process_template_alt:
  "process_template L rd t t0 jm = (case pt_start L rd t t0 jm of
     (Panicked, jm1) \<Rightarrow> (Panicked, jm1)
   | (Done _, jm1) \<Rightarrow> (let jm2 = pt_stamped rd jm1; new = pt_new t jm;
        upgrade = (\<not> new \<and> bt_transactions t \<noteq> [] \<and> jm_last_broadcast_tx_count jm1 = 0) in
      if new \<or> upgrade \<or> NON_CLEAN_JOB_INTERVAL_SECS
           \<le> elapsed (rd_check rd) (jm_last_non_clean_broadcast jm1) div 10 ^ 9
      then publish_full L rd t t0 new (new \<and> bt_transactions t \<noteq> [] \<or> upgrade) jm2
      else (Done False, jm2)))"
proof -
  show ?thesis
    unfolding process_template_def pt_start_def Let_def pt_new_longpollid pt_stamped_def
    by (cases "pt_new t jm"; cases "bt_transactions t = []")
       (auto simp: pt_new_def split: prod.splits outcome.splits)
qed

lemma jobs_ok_process: "jobs_ok (Suc n) jm \<Longrightarrow> jobs_ok n (snd (process_template L rd t t0 jm))"
proof -
  assume ok: "jobs_ok (Suc n) jm"
  obtain out1 jm1 where s: "pt_start L rd t t0 jm = (out1, jm1)" by fastforce
  have "jobs_wf (jm\<lparr>jm_last_longpollid := bt_longpollid t\<rparr>)" and c: "unat (jm_job_counter jm) + 2 + 2 * n < 2 ^ 64"
    using ok jobs_wf_cong [of "jm\<lparr>jm_last_longpollid := bt_longpollid t\<rparr>" jm] by (simp_all add: jobs_ok_def)
  with s broadcast_empty_wf [of "jm\<lparr>jm_last_longpollid := bt_longpollid t\<rparr>" L rd t t0 out1 jm1]
  have wf1: "jobs_wf jm1" "unat (jm_job_counter jm1) \<le> unat (jm_job_counter jm) + 1"
    by (auto simp: pt_start_def Let_def split: if_splits)
  have wf2: "jobs_wf (pt_stamped rd jm1)" using wf1(1) jobs_wf_cong [of "pt_stamped rd jm1" jm1]
    by (simp add: pt_stamped_def)
  have c2: "jm_job_counter (pt_stamped rd jm1) = jm_job_counter jm1" by (simp add: pt_stamped_def)
  have "jobs_ok n (snd (publish_full L rd t t0 nb cl (pt_stamped rd jm1)))" for nb cl
    using publish_full_wf [OF wf2, of L rd t t0 nb cl] wf1(2) c unfolding c2
    by (cases "publish_full L rd t t0 nb cl (pt_stamped rd jm1)") (simp add: jobs_ok_def)
  moreover have "jobs_ok n (pt_stamped rd jm1)" "jobs_ok n jm1"
    using wf1 wf2 c c2 by (simp_all add: jobs_ok_def)
  ultimately show ?thesis
    by (simp add: process_template_alt s Let_def split: outcome.split)
qed

section \<open>What polling keeps\<close>

text \<open>
  The contract of a predicate on the job manager that the job loop keeps: it survives the
  processing of a template, whatever the template and the clock, at the cost of one unit of its
  budget, and does not depend on the longpoll counters.
\<close>

locale template_invariant =
  fixes L :: "'t libs" and ok :: "nat \<Rightarrow> job_manager \<Rightarrow> bool"
  assumes process: "ok (Suc n) jm \<Longrightarrow> ok n (snd (process_template L rd t t0 jm))"
    and wake: "ok n jm \<Longrightarrow> ok n (jm\<lparr>jm_longpoll_wake_count := x\<rparr>)"
    and failed: "ok n jm \<Longrightarrow> ok n (longpoll_failed ms jm)"
    and spend: "ok (Suc n) jm \<Longrightarrow> ok n jm"
begin

lemma spend_le: "ok m jm \<Longrightarrow> n \<le> m \<Longrightarrow> ok n jm"
  by (induction m) (auto simp: le_Suc_eq intro: spend)

lemma world:
  assumes E: "jv_libs E = L" and ok: "ok (Suc n) (fst s)"
  shows "ok n (fst (snd (process_world E t t0 s)))"
proof -
  obtain jm c w where s: "s = (jm, c, w)" by (rule prod_cases3)
  obtain rd w1 where rd: "ck_readings (jv_clock E) w = (rd, w1)" by (rule prod.exhaust)
  obtain out jm' where p: "process_template L rd t t0 jm = (out, jm')" by (rule prod.exhaust)
  have "ok n jm'" using process [of n jm rd t t0] ok by (simp add: s p)
  then show ?thesis by (simp add: process_world_def s rd E p Let_def)
qed

lemma poll:
  assumes E: "jv_libs E = L" and ok: "ok (Suc n) (fst s)"
  shows "ok n (fst (snd (poll_template E s)))"
proof -
  obtain jm c w where s: "s = (jm, c, w)" by (rule prod_cases3)
  obtain r c1 w1 where r: "get_block_template (jv_transport E) (jv_serde E) (c, w) = (r, c1, w1)"
    by (rule prod_cases3)
  have "ok n jm" "ok (Suc n) jm" using ok spend s by simp_all
  then show ?thesis by (simp add: poll_template_def s r Let_def world [OF E] split: sum.split)
qed

lemma longpoll:
  assumes E: "jv_libs E = L" and ok: "ok (Suc n) (fst s)"
  shows "ok n (fst (snd (poll_template_with_longpoll E i s)))"
proof -
  obtain jm c w where s: "s = (jm, c, w)" by (rule prod_cases3)
  obtain started w1 where w1: "ck_now (jv_clock E) w = (started, w1)" by (rule prod.exhaust)
  obtain r c2 w2 where r: "get_block_template_longpoll (jv_transport E) (jv_serde E) i
      (lp_timeout (jm_longpoll jm)) (c, w1) = (r, c2, w2)" by (rule prod_cases3)
  obtain now w3 where w3: "ck_now (jv_clock E) w2 = (now, w3)" by (rule prod.exhaust)
  obtain ms w4 where w4: "ck_unix_ms (jv_clock E) w3 = (ms, w4)" by (rule prod.exhaust)
  have jm: "ok (Suc n) jm" using ok s by simp
  show ?thesis
    unfolding poll_template_with_longpoll_def s Let_def
    using jm wake [OF jm] failed [OF jm]
    by (simp add: w1 r w3 w4 poll [OF E] world [OF E] split: sum.split)
qed

lemma sleep [simp]: "fst (sleep_world E d s) = fst s"
  by (simp add: sleep_world_def split: prod.splits)

lemma repoll:
  "\<lbrakk>jv_libs E = L; ok (length ds + n) (fst s)\<rbrakk> \<Longrightarrow> ok n (fst (snd (repoll_loop E ds s)))"
proof (induction ds arbitrary: s)
  case (Cons d ds)
  obtain out s1 where p: "poll_template E (sleep_world E (d * 10 ^ 6) s) = (out, s1)"
    using prod.exhaust by blast
  have ok1: "ok (length ds + n) (fst s1)"
    using poll [OF Cons.prems(1), of "length ds + n" "sleep_world E (d * 10 ^ 6) s"] Cons.prems(2) p by simp
  then have "ok n (fst s1)" by (rule spend_le) simp
  with Cons.IH [OF Cons.prems(1) ok1] show ?case
    by (simp only: repoll_loop.simps p Let_def prod.case) (simp split: poll_out.split)
qed simp

lemma once:
  assumes "jv_libs E = L" "ok (5 + n) (fst s)"
  shows "ok n (fst (snd (run_once E i s)))"
proof -
  obtain r s1 where p: "(case if lp_enabled (jm_longpoll (fst s)) then jm_last_longpollid (fst s) else None of
      Some i \<Rightarrow> poll_template_with_longpoll E i s | None \<Rightarrow> poll_template E s) = (r, s1)"
    using prod.exhaust by blast
  have "ok (Suc (4 + n)) (fst s)" using assms(2) by (simp add: eval_nat_numeral)
  then have ok1: "ok (4 + n) (fst s1)"
    using poll [OF assms(1), of "4 + n" s] longpoll [OF assms(1), of "4 + n" s] arg_cong [OF p, of snd]
    by (auto split: option.splits if_splits)
  then have okn: "ok n (fst s1)" by (rule spend_le) simp
  have len: "length EMPTY_TEMPLATE_REPOLL_DELAYS_MS = 4" by (simp add: EMPTY_TEMPLATE_REPOLL_DELAYS_MS_def)
  have ok2: "ok n (fst (snd (repoll_until_template_fills E s1)))"
    unfolding repoll_until_template_fills_def
    using repoll [OF assms(1), of EMPTY_TEMPLATE_REPOLL_DELAYS_MS n s1] ok1 by (simp add: len)
  show ?thesis
    using okn ok2
    by (simp only: run_once_def Let_def p prod.case)
       (simp split: poll_out.split prod.split, auto simp: prod_eq_iff)
qed

lemma run:
  "\<lbrakk>jv_libs E = L; ok (5 * k + n) (fst s)\<rbrakk> \<Longrightarrow> ok n (fst (snd (run_jobs E i k s)))"
proof (induction k arbitrary: s)
  case (Suc k)
  obtain alive s1 where p: "run_once E i s = (alive, s1)" using prod.exhaust by blast
  have "ok (5 + (5 * k + n)) (fst s)" using Suc.prems(2) by (simp add: algebra_simps)
  from once [OF Suc.prems(1) this, of i] have ok1: "ok (5 * k + n) (fst s1)" by (simp add: p)
  then have "ok n (fst s1)" by (rule spend_le) simp
  with Suc.IH [OF Suc.prems(1) ok1] show ?case by (simp add: p)
qed simp

end

interpretation jobs: template_invariant L jobs_ok for L :: "'t libs"
proof
  show "jobs_ok n (jm\<lparr>jm_longpoll_wake_count := x\<rparr>)" if "jobs_ok n jm" for n jm x
    using that jobs_wf_cong [of "jm\<lparr>jm_longpoll_wake_count := x\<rparr>" jm] by (simp add: jobs_ok_def)
  show "jobs_ok n (longpoll_failed ms jm)" if "jobs_ok n jm" for n jm ms
    using that jobs_wf_cong [of "longpoll_failed ms jm" jm] by (simp add: jobs_ok_def longpoll_failed_def)
  show "jobs_ok n (snd (process_template L rd t t0 jm))" if "jobs_ok (Suc n) jm" for n jm rd t t0
    using that by (rule jobs_ok_process)
  show "jobs_ok n jm" if "jobs_ok (Suc n) jm" for n jm using that by (simp add: jobs_ok_def)
qed

text \<open>
  C22: However many iterations of the job loop have run, and whatever the node answered and the
  clock showed, the job that was announced last is in the job table under its own id, so that
  its shares find it; the table has one entry per id.
\<close>

theorem announced_job_is_known:
  assumes "10 * n + 2 < 2 ^ 64"
    and "run_jobs E poll_interval n (set_coinbase_tag tag (set_longpoll_config cfg (job_manager_new now)), c, w)
      = (alive, jm, c', w')"
  shows "distinct (map fst (jm_jobs jm))
    \<and> (\<forall>msg. jm_latest_notify jm = Some msg \<longrightarrow>
        (\<exists>j clean. map_of (jm_jobs jm) (sm_job_id msg) = Some j \<and> msg = to_notify j clean))"
proof -
  let ?jm = "set_coinbase_tag tag (set_longpoll_config cfg (job_manager_new now))"
  have "jobs_ok (5 * n + 0) (fst (?jm, c, w))"
    using assms(1) by (simp add: jobs_ok_def jobs_wf_def latest_known_def table_ok_def set_coinbase_tag_def
        set_longpoll_config_def job_manager_new_def new_with_stall_tracking_def
        new_with_stall_tracking_and_notify_def)
  from jobs.run [OF refl this, where E = E and i = poll_interval] have "jobs_wf jm" by (simp add: assms(2) jobs_ok_def)
  then show ?thesis
    by (fastforce simp: jobs_wf_def table_ok_def latest_known_def to_notify_def)
qed

section \<open>Announcing a template\<close>

text \<open>What one call of \<open>process_template\<close> has handed to the stratum server.\<close>

definition sent_since :: "job_manager \<Rightarrow> job_manager \<Rightarrow> server_message list" where
  "sent_since jm jm' = drop (length (jm_broadcasts jm)) (jm_broadcasts jm')"

lemma empty_template_prev:
  "empty_template L tag t = Tagged bare \<Longrightarrow> bt_previousblockhash bare = bt_previousblockhash t"
  by (auto simp: empty_template_def apply_injection_def clear_merkleroot_def Let_def
      split: option.splits inject_out.splits)

lemma full_template_prev:
  "full_template L tag t = Done full \<Longrightarrow> bt_previousblockhash full = bt_previousblockhash t"
  by (auto simp: full_template_def apply_injection_def clear_merkleroot_def Let_def
      split: option.splits inject_out.splits)

lemma to_notify_fields [simp]:
  "clean_jobs (to_notify j c) = c" "sm_prev_hash (to_notify j c) = mj_prev_hash_hex j"
  "sm_job_id (to_notify j c) = mj_job_id j"
  by (simp_all add: to_notify_def)

lemma from_template_prev [simp]:
  "mj_prev_hash_hex (from_template H HS t jid) = reverse_hex H (bt_previousblockhash t)"
  by (simp add: from_template_def Let_def)

lemma pt_start_effect:
  assumes "pt_start L rd t t0 jm = (out, jm1)"
  shows "jm_last_prev_hash jm1 = jm_last_prev_hash jm"
    and "jm_last_non_clean_broadcast jm1 = jm_last_non_clean_broadcast jm"
    and "jm_coinbase_tag jm1 = jm_coinbase_tag jm"
    and "\<not> (pt_new t jm \<and> bt_transactions t = []) \<Longrightarrow> out = Done () \<and> jm_broadcasts jm1 = jm_broadcasts jm
      \<and> jm_last_broadcast_tx_count jm1 = jm_last_broadcast_tx_count jm"
    and "\<lbrakk>pt_new t jm; bt_transactions t = []; empty_template L (jm_coinbase_tag jm) t = Tag_failed e\<rbrakk>
      \<Longrightarrow> out = Done () \<and> jm_broadcasts jm1 = jm_broadcasts jm"
    and "\<lbrakk>pt_new t jm; bt_transactions t = []; empty_template L (jm_coinbase_tag jm) t = Tagged bare\<rbrakk>
      \<Longrightarrow> out = Done () \<and> (\<exists>m. jm_broadcasts jm1 = jm_broadcasts jm @ [m] \<and> clean_jobs m
            \<and> sm_prev_hash m = reverse_hex (lib_hex L) (bt_previousblockhash t))"
  using assms empty_template_prev [of L "jm_coinbase_tag jm" t bare]
  by (auto simp: pt_start_def broadcast_empty_block_def announce_def Let_def split: tagged.splits if_splits)

lemma pt_start_panic:
  "pt_start L rd t t0 jm = (Panicked, jm1) \<Longrightarrow> empty_template L (jm_coinbase_tag jm) t = Tag_panicked"
  by (auto simp: pt_start_def broadcast_empty_block_def Let_def split: tagged.splits if_splits)

lemma publish_full_effect:
  assumes "publish_full L rd t t0 new cl jm = (Done r, jm')"
  shows "r = new"
    and "jm_last_prev_hash jm' = (if new then bt_previousblockhash t else jm_last_prev_hash jm)"
    and "jm_last_non_clean_broadcast jm' = (if new then jm_last_non_clean_broadcast jm else rd_stamp rd)"
    and "\<exists>m. jm_broadcasts jm' = jm_broadcasts jm @ [m] \<and> clean_jobs m = cl
          \<and> sm_prev_hash m = reverse_hex (lib_hex L) (bt_previousblockhash t)"
  using assms full_template_prev [of L "jm_coinbase_tag jm" t]
  by (auto simp: publish_full_def announce_def Let_def split: outcome.splits if_splits)

lemma pt_stamped_fields [simp]:
  "jm_broadcasts (pt_stamped rd jm) = jm_broadcasts jm"
  "jm_last_prev_hash (pt_stamped rd jm) = jm_last_prev_hash jm"
  "jm_last_non_clean_broadcast (pt_stamped rd jm) = jm_last_non_clean_broadcast jm"
  by (simp_all add: pt_stamped_def)


text \<open>
  When the tag cannot be injected into the coinbase of an empty template, the new tip is
  announced once, without \<open>clean_jobs\<close>: the empty announcement was skipped but counted as sent.
  The tip is then the known one, so no later announcement of it is clean either, except for a
  template with transactions that replaces an empty job.
\<close>

theorem failed_injection_leaves_stale_work:
  assumes "jm_last_prev_hash jm \<noteq> bt_previousblockhash t" and "bt_transactions t = []"
    and "empty_template L (jm_coinbase_tag jm) t = Tag_failed e"
    and "process_template L rd t t0 jm = (Done new, jm')"
  shows "new \<and> map clean_jobs (sent_since jm jm') = [False] \<and> jm_last_prev_hash jm' = bt_previousblockhash t"
proof -
  obtain out1 jm1 where s: "pt_start L rd t t0 jm = (out1, jm1)" by (rule prod.exhaust)
  have new: "pt_new t jm" using assms(1) by (simp add: pt_new_def)
  from pt_start_effect(5) [OF s new assms(2,3)] have o: "out1 = Done ()" "jm_broadcasts jm1 = jm_broadcasts jm"
    by auto
  from assms(4) have pub: "publish_full L rd t t0 True False (pt_stamped rd jm1) = (Done new, jm')"
    by (simp add: process_template_alt s o(1) new assms(2) Let_def)
  from publish_full_effect [OF pub] o(2) show ?thesis by (auto simp: sent_since_def)
qed

section \<open>The Merkle root of the header\<close>

lemma merkle_two:
  "merkle_loop HS [a, b] = [merkle_node HS a b]"
  by (simp add: merkle_loop.simps even_up_def)

text \<open>
  For a template without a cached Merkle root and with one transaction besides the
  coinbase, the root in the job's header is the byte-reversed hash of the two ids as the node
  displays them.  The ids are displayed in reversed byte order, so the root that the block's
  transactions have is the hash of the reversed ids: the header has it only when the hash
  happens to commute with reversal.
\<close>

theorem merkle_root_of_displayed_ids:
  assumes "hex_ok H" and "Option.bind (bt_defaultroots t) dr_merkleroot = None"
    and "bt_coinbasetxn t = Some cb" and "ct_hash cb = hx_encode H a" and "length a = 32"
    and "bt_transactions t = [tx]" and "tt_hash tx = hx_encode H b" and "length b = 32"
  shows "mj_merkle_root_hex (from_template H HS t jid) = hx_encode H (rev (sha256d HS (a @ b)))
    \<and> (mj_merkle_root_hex (from_template H HS t jid) = hx_encode H (sha256d HS (rev a @ rev b))
       \<longleftrightarrow> rev (sha256d HS (a @ b)) = sha256d HS (rev a @ rev b))"
proof -
  have "merkle_leaves H t = [a, b]"
    using assms by (simp add: merkle_leaves_def hash32_def hex_okD)
  then have "compute_merkle_root H HS t = hx_encode H (sha256d HS (a @ b))"
    by (simp add: compute_merkle_root_def merkle_two merkle_node_def)
  then have "mj_merkle_root_hex (from_template H HS t jid) = hx_encode H (rev (sha256d HS (a @ b)))"
    using assms(1,2) by (simp add: from_template_def Let_def unwrap_or_def reverse_hex_encode)
  then show ?thesis using hex_encode_inj [OF assms(1)] by simp
qed

section \<open>Concrete runs\<close>

definition demo_libs :: "unit libs" where
  "demo_libs = \<lparr>lib_hex = hex_ref, lib_hashes = toy_hashes, lib_zebra = no_zebra\<rparr>"

definition demo_cb :: "string \<Rightarrow> coinbase_txn" where
  "demo_cb data = \<lparr>ct_data = data, ct_hash = zeros_hex, ct_fee = None, ct_sigops = None,
     ct_required = None\<rparr>"

definition demo_roots :: default_roots where
  "demo_roots = \<lparr>dr_merkleroot = Some ''aa'', dr_chainhistoryroot = None, dr_authdataroot = None,
     dr_blockcommitmentshash = Some ''bb''\<rparr>"

definition demo_template :: "template_tx list \<Rightarrow> default_roots option \<Rightarrow> coinbase_txn option \<Rightarrow> block_template" where
  "demo_template txs roots cb = \<lparr>bt_version = 4, bt_previousblockhash = ''0a0b'', bt_lightclientroothash = None,
     bt_blockcommitmentshash = None, bt_finalsaplingroothash = None, bt_defaultroots = roots,
     bt_transactions = txs, bt_coinbasetxn = cb, bt_target = ''ff'', bt_mintime = 0,
     bt_curtime = 1000, bt_bits = ''1f07ffff'', bt_height = 7, bt_capabilities = [], bt_mutable = [],
     bt_noncerange = None, bt_sigoplimit = None, bt_sizelimit = None, bt_longpollid = None\<rparr>"

definition demo_readings :: readings where
  "demo_readings = \<lparr>rd_empty_sent = 10, rd_unix_ms = Some 5, rd_check = 20, rd_stamp = 30, rd_full_sent = 40\<rparr>"

definition template_serde :: serde where
  "template_serde = body_serde\<lparr>sd_template := (\<lambda>b. if b = ''t''
     then Inr \<lparr>rs_id = None, rs_result = Some (demo_template [] (Some demo_roots) None), rs_error = None\<rparr>
     else Inl ''EOF'')\<rparr>"

definition demo_env :: "(script, unit) jobs_env" where
  "demo_env = \<lparr>jv_transport = scripted, jv_serde = template_serde, jv_libs = demo_libs,
     jv_clock = \<lparr>ck_now = (\<lambda>w. (50, w)), ck_unix_ms = (\<lambda>w. (Some 5, w)),
                 ck_readings = (\<lambda>w. (demo_readings, w))\<rparr>\<rparr>"

definition demo_manager :: job_manager where
  "demo_manager = set_coinbase_tag (ascii ''ab'') (set_longpoll_config longpoll_default (job_manager_new 0))"

definition demo_run :: "bool \<times> script jobs_world" where
  "demo_run = run_jobs demo_env 1000 2 (demo_manager, client_new ''u'',
     \<lparr>sc_replies = [Inr ''t'', Inl ''reset'', Inr ''t''], sc_requests = [], sc_slept = 0\<rparr>)"

theorem announced_job_is_known_witness:
  "map fst (jm_jobs (fst (snd demo_run))) = [''1'', ''2'']
   \<and> (\<exists>msg j clean. jm_latest_notify (fst (snd demo_run)) = Some msg
        \<and> map_of (jm_jobs (fst (snd demo_run))) (sm_job_id msg) = Some j \<and> msg = to_notify j clean)"
proof -
  obtain alive jm c w where r: "demo_run = (alive, jm, c, w)" by (metis prod_cases4)
  have "(case demo_run of (alive, jm, _) \<Rightarrow> (map fst (jm_jobs jm), jm_latest_notify jm \<noteq> None))
      = ([''1'', ''2''], True)" by code_simp
  then have k: "map fst (jm_jobs (fst (snd demo_run))) = [''1'', ''2'']"
    "jm_latest_notify (fst (snd demo_run)) \<noteq> None" by (simp_all add: r)
  have "10 * 2 + 2 < (2 :: nat) ^ 64" by simp
  from announced_job_is_known [OF this r [unfolded demo_run_def demo_manager_def]] k
  show ?thesis unfolding r by fastforce
qed


theorem failed_injection_leaves_stale_work_witness:
  "map clean_jobs (sent_since (set_coinbase_tag (ascii ''ab'') (job_manager_new 0))
      (snd (process_template demo_libs demo_readings (demo_template [] (Some demo_roots) (Some (demo_cb ''zz''))) None
         (set_coinbase_tag (ascii ''ab'') (job_manager_new 0))))) = [False]"
proof -
  let ?t = "demo_template [] (Some demo_roots) (Some (demo_cb ''zz''))" and ?L = demo_libs
  let ?jm = "set_coinbase_tag (ascii ''ab'') (job_manager_new 0)"
  let ?p = "process_template ?L demo_readings ?t None ?jm"
  have "case fst ?p of Done new \<Rightarrow> new | Panicked \<Rightarrow> False" by code_simp
  then have p: "?p = (Done True, snd ?p)" by (cases "fst ?p") (auto simp: prod_eq_iff)
  have n: "jm_last_prev_hash ?jm \<noteq> bt_previousblockhash ?t" by code_simp
  have x: "bt_transactions ?t = []" by code_simp
  have t: "case empty_template ?L (jm_coinbase_tag ?jm) ?t of Tag_failed e \<Rightarrow> True | _ \<Rightarrow> False" by code_simp
  then obtain e where "empty_template ?L (jm_coinbase_tag ?jm) ?t = Tag_failed e"
    by (cases "empty_template ?L (jm_coinbase_tag ?jm) ?t") auto
  from failed_injection_leaves_stale_work [OF n x this p] show ?thesis by simp
qed

definition demo_tx :: template_tx where
  "demo_tx = \<lparr>tt_data = '''', tt_hash = hx_encode hex_ref (replicate 31 0 @ [9]), tt_fee = 0, tt_sigops = 0,
     tt_required = False, tt_authdigest = None\<rparr>"

theorem merkle_root_of_displayed_ids_witness:
  "mj_merkle_root_hex (from_template hex_ref toy_hashes (demo_template [demo_tx] None (Some (demo_cb []))) ''1'')
   \<noteq> hx_encode hex_ref (sha256d toy_hashes (rev (replicate 32 0) @ rev (replicate 31 0 @ [9])))"
proof -
  let ?t = "demo_template [demo_tx] None (Some (demo_cb []))"
  have b: "Option.bind (bt_defaultroots ?t) dr_merkleroot = None" "bt_coinbasetxn ?t = Some (demo_cb [])"
    "bt_transactions ?t = [demo_tx]" by (simp_all add: demo_template_def)
  have h: "ct_hash (demo_cb []) = hx_encode hex_ref (replicate 32 0)" by code_simp
  have d: "tt_hash demo_tx = hx_encode hex_ref (replicate 31 0 @ [9])" by (simp add: demo_tx_def)
  have "rev (sha256d toy_hashes (replicate 32 0 @ replicate 31 0 @ [9]))
      \<noteq> sha256d toy_hashes (rev (replicate 32 0) @ rev (replicate 31 0 @ [9]))" by code_simp
  moreover have "length (replicate 32 (0 :: u8)) = 32" "length (replicate 31 0 @ [9 :: u8]) = 32" by simp_all
  note merkle_root_of_displayed_ids [OF hex_ok_ref b(1,2) h this(1) b(3) d this(2), of toy_hashes "''1''"]
  ultimately show ?thesis by blast
qed

end
