(* ===== verification/Share_Checks.thy ===== *)
theory Share_Checks
  imports Jobs Vardiff
begin

text \<open>
  The stateless checks of a submitted share, \<open>pool-core/src/share.rs\<close>: the form of nonce and
  solution, the time window, the block header, the target and its grace window, and the
  assembly of a full block.  Verification of an Equihash solution (crate \<open>equihash\<close>) and the
  fingerprint hash (\<open>DefaultHasher\<close>, whose algorithm the standard library leaves open) are
  third-party functions.
\<close>

definition BLOCK_TIME_SECS :: f64 where "BLOCK_TIME_SECS = Fin 75"
definition RAW_SOLUTION_SIZE :: nat where "RAW_SOLUTION_SIZE = 1344"
definition VARDIFF_TRIGGER_RATE :: f64 where "VARDIFF_TRIGGER_RATE = Fin 100"
definition MAX_SHARES_PER_SEC :: f64 where "MAX_SHARES_PER_SEC = Fin 500"
definition MAX_DIFF_HISTORY :: nat where "MAX_DIFF_HISTORY = 50"
definition GRACE_TARGET_HISTORY :: nat where "GRACE_TARGET_HISTORY = 8"
definition SHARE_DEDUP_HISTORY :: nat where "SHARE_DEDUP_HISTORY = 1024"
definition GRACE_TARGET_MAX_AGE :: nanos where "GRACE_TARGET_MAX_AGE = 60 * 10 ^ 9"
definition WORKER_TOUCH_INTERVAL :: nanos where "WORKER_TOUCH_INTERVAL = 30 * 10 ^ 9"

record grace_target =
  gt_target :: bytes
  gt_difficulty :: f64
  gt_set_at :: nanos

section \<open>Nonce and solution\<close>

definition decode_nonce :: "hexlib \<Rightarrow> string \<Rightarrow> string \<Rightarrow> stratum_error + bytes" where
  "decode_nonce H n1 n2 = (case hx_decode H (n1 @ n2) of
     None \<Rightarrow> Inl (err_other ''Invalid nonce hex'')
   | Some nonce \<Rightarrow>
       if length nonce \<noteq> 32 then Inl (err_other ''Nonce must be 32 bytes'') else Inr nonce)"

text \<open>The raw solution that Equihash checks and the canonical form that goes into the header.\<close>

definition canonical_solution :: "bytes \<Rightarrow> stratum_error + bytes \<times> bytes" where
  "canonical_solution sol =
     (if length sol = RAW_SOLUTION_SIZE then Inr (sol, compact_size RAW_SOLUTION_SIZE @ sol)
      else if RAW_SOLUTION_SIZE < length sol then
        res_bind (strip_compact_size sol) (\<lambda>raw.
          if length raw \<noteq> RAW_SOLUTION_SIZE
          then Inl (err_other (''Bad solution size: '' @ show_nat (length raw)
                 @ '' (expected '' @ show_nat RAW_SOLUTION_SIZE @ '')''))
          else Inr (raw, compact_size RAW_SOLUTION_SIZE @ raw))
      else Inl (err_other (''Solution too short: '' @ show_nat (length sol) @ '' bytes'')))"

definition decode_solution :: "hexlib \<Rightarrow> string \<Rightarrow> stratum_error + bytes \<times> bytes" where
  "decode_solution H s = (case hx_decode H s of
     None \<Rightarrow> Inl (err_other ''Invalid solution hex'')
   | Some sol \<Rightarrow> canonical_solution sol)"

section \<open>Time\<close>

definition saturating_add32 :: "u32 \<Rightarrow> u32 \<Rightarrow> u32" where
  "saturating_add32 a b = (if 2 ^ 32 \<le> unat a + unat b then - 1 else a + b)"

text \<open>\<open>unix_secs\<close> is \<open>SystemTime::now()\<close> since the epoch, \<open>None\<close> before it.\<close>

definition check_ntime :: "mining_job \<Rightarrow> string \<Rightarrow> u64 option \<Rightarrow> stratum_error + unit" where
  "check_ntime job tm unix_secs = (case u32_from_str_radix16 tm of
     None \<Rightarrow> Inl (err_other ''Invalid ntime hex'')
   | Some n \<Rightarrow>
       (let miner_time = swap_bytes32 n;
            curtime = (ucast (bt_curtime (mj_template job)) :: u32);
            now = (case unix_secs of None \<Rightarrow> curtime | Some s \<Rightarrow> ucast s);
            max_ok = saturating_add32 now 90 in
        if miner_time < curtime \<or> max_ok < miner_time
        then Inl (err_other (''ntime out of range: '' @ show_nat (unat miner_time) @ '' not in [''
               @ show_nat (unat curtime) @ '', '' @ show_nat (unat max_ok) @ '']''))
        else Inr ()))"

section \<open>The header\<close>

definition decode_field :: "hexlib \<Rightarrow> string \<Rightarrow> string \<Rightarrow> stratum_error + bytes" where
  "decode_field H name s = ok_or (hx_decode H s) (err_other (''Invalid '' @ name @ '' hex''))"

definition build_header_input :: "hexlib \<Rightarrow> mining_job \<Rightarrow> string \<Rightarrow> stratum_error + bytes" where
  "build_header_input H job time_hex =
     res_bind (decode_field H ''version'' (mj_version_hex job)) (\<lambda>version.
     res_bind (decode_field H ''prev_hash'' (mj_prev_hash_hex job)) (\<lambda>prev_hash.
     res_bind (decode_field H ''merkle_root'' (mj_merkle_root_hex job)) (\<lambda>merkle_root.
     res_bind (decode_field H ''reserved'' (mj_reserved_hex job)) (\<lambda>reserved.
     res_bind (decode_field H ''time'' time_hex) (\<lambda>tm.
     res_bind (decode_field H ''bits'' (mj_bits_hex job)) (\<lambda>bits.
       Inr (version @ prev_hash @ merkle_root @ reserved @ tm @ bits)))))))"

section \<open>Targets\<close>

text \<open>Walk the grace targets newest first; skip the old ones; take the first that is met.\<close>

fun match_grace :: "nanos \<Rightarrow> bytes \<Rightarrow> grace_target list \<Rightarrow> f64 option" where
  "match_grace now h [] = None"
| "match_grace now h (gt # gts) =
     (if GRACE_TARGET_MAX_AGE < elapsed now (gt_set_at gt) then match_grace now h gts
      else if meets_target h (gt_target gt) then Some (gt_difficulty gt)
      else match_grace now h gts)"

definition credited_difficulty ::
  "nanos \<Rightarrow> bytes \<Rightarrow> bytes \<Rightarrow> f64 \<Rightarrow> grace_target list \<Rightarrow> stratum_error + f64" where
  "credited_difficulty now h pool_target current_difficulty grace_targets =
     (if meets_target h pool_target then Inr current_difficulty
      else ok_or (match_grace now h (rev grace_targets)) low_difficulty)"

fun target_error_text :: "target_error \<Rightarrow> string" where
  "target_error_text Invalid_target_hex = ''Invalid target hex''"
| "target_error_text (Target_too_long n) = ''Target too long: '' @ show_nat n @ '' bytes''"

section \<open>Blocks\<close>

fun decode_transactions :: "hexlib \<Rightarrow> template_tx list \<Rightarrow> stratum_error + bytes" where
  "decode_transactions H [] = Inr []"
| "decode_transactions H (tx # txs) =
     res_bind (ok_or (hx_decode H (tt_data tx)) (err_other ''Invalid transaction hex'')) (\<lambda>b.
     res_bind (decode_transactions H txs) (\<lambda>bs. Inr (b @ bs)))"

definition assemble_full_block :: "hexlib \<Rightarrow> bytes \<Rightarrow> block_template \<Rightarrow> stratum_error + bytes" where
  "assemble_full_block H serialized_header t = (case bt_coinbasetxn t of
     None \<Rightarrow> Inl (err_other ''Block template missing coinbase transaction'')
   | Some coinbase \<Rightarrow>
       res_bind (ok_or (hx_decode H (ct_data coinbase)) (err_other ''Invalid coinbase hex'')) (\<lambda>cb.
       res_bind (decode_transactions H (bt_transactions t)) (\<lambda>txs.
         Inr (serialized_header @ compact_size (1 + length (bt_transactions t)) @ cb @ txs))))"

text \<open>The fees a template collected: minus the coinbase fee of BIP 22, or the sum of the fees.\<close>

definition collected_fees :: "block_template \<Rightarrow> int" where
  "collected_fees t = max 0 (case Option.bind (bt_coinbasetxn t) ct_fee of
     Some f \<Rightarrow> - f | None \<Rightarrow> sum_list (map tt_fee (bt_transactions t)))"

end
