(* ===== verification/Share_Sessions.thy ===== *)
theory Share_Sessions
  imports Share_Checks Stratum_Server Rewards Block_Assembler Histories
begin

text \<open>
  The state of \<open>ShareValidator\<close> in \<open>pool-core/src/share.rs\<close> and what it keeps for each session:
  the variable difficulty, the grace targets, the rate window, the share fingerprints.  The
  \<open>HashMap\<close>s are association lists.  All clock readings of one event are one reading
  (\<open>mo_now\<close>, \<open>mo_unix_secs\<close>, \<open>mo_unix_ms\<close>).  The state also holds what the validator shares
  with other components: the database, the Stratum server, the job table and the RPC client.
\<close>

section \<open>State\<close>

datatype rate_status = Rate_ok | Rate_warn | Rate_reject

record diff_adjustment =
  da_secs_since_connect :: nat
  da_difficulty :: f64
  da_reason :: string

record session_difficulty =
  sx_vardiff :: vardiff_tracker
  sx_target :: bytes
  sx_recent_targets :: "grace_target list"
  sx_rate_window_start :: nanos
  sx_rate_window_shares :: nat
  sx_low_diff_streak :: nat
  sx_worker_name :: string
  sx_peer_addr :: string
  sx_connected_at :: nanos
  sx_local_port :: nat
  sx_diff_history :: "diff_adjustment list"
  sx_shares_accepted :: nat
  sx_rejected_low_diff :: nat
  sx_rejected_job_not_found :: nat
  sx_rejected_other :: nat
  sx_recent_share_fps :: "u64 list"

record session_snapshot =
  ss_session_id :: string
  ss_worker_name :: string
  ss_peer_addr :: string
  ss_local_port :: nat
  ss_difficulty :: f64
  ss_hashrate :: f64
  ss_connected_secs :: nat
  ss_shares_per_min :: f64
  ss_smoothed_ratio :: f64
  ss_retargets :: nat
  ss_last_retarget_secs :: "nat option"
  ss_diff_history :: "diff_adjustment list"
  ss_shares_accepted :: nat
  ss_rejected_low_diff :: nat
  ss_rejected_job_not_found :: nat
  ss_rejected_other :: nat

record vardiff_config =
  vc_initial_difficulty :: f64
  vc_target_shares_per_minute :: f64
  vc_retarget_interval_secs :: f64

text \<open>The work a won block leaves to a spawned task.\<close>

record post_task =
  pt_height :: int
  pt_hash :: string
  pt_block_id :: int
  pt_luck_since :: int
  pt_basis :: int
  pt_worker :: int

record counters =
  ctr_shares_accepted :: nat
  ctr_shares_rejected :: nat
  ctr_rate_warn :: nat
  ctr_rate_reject :: nat
  ctr_rejects_low_diff :: nat
  ctr_rejects_job_not_found :: nat
  ctr_rejects_duplicate :: nat
  ctr_rejects_other :: nat

record validator =
  va_db :: db
  va_stratum :: server
  va_jobs :: "(string \<times> mining_job) list"
  va_rpc :: rpc_client
  va_pplns :: pplns_calculator
  va_difficulty_multiplier :: f64
  va_default_target :: bytes
  va_session_difficulty :: "(string \<times> session_difficulty) list"
  va_worker_cache :: "((string \<times> string) \<times> int \<times> int \<times> nanos) list"
  va_vardiff_config :: vardiff_config
  va_port_difficulty :: "nat \<rightharpoonup> f64"
  va_latest_notify :: "server_message option"
  va_counters :: counters
  va_session_worker_id :: "(string \<times> int) list"
  va_heartbeat :: int
  va_tasks :: "post_task list"

definition no_counts :: counters where
  "no_counts = \<lparr>ctr_shares_accepted = 0, ctr_shares_rejected = 0, ctr_rate_warn = 0, ctr_rate_reject = 0,
     ctr_rejects_low_diff = 0, ctr_rejects_job_not_found = 0, ctr_rejects_duplicate = 0, ctr_rejects_other = 0\<rparr>"

definition validator_new ::
  "int \<Rightarrow> db \<Rightarrow> server \<Rightarrow> (string \<times> mining_job) list \<Rightarrow> pplns_calculator \<Rightarrow> bytes \<Rightarrow> vardiff_config
     \<Rightarrow> (nat \<rightharpoonup> f64) \<Rightarrow> server_message option \<Rightarrow> rpc_client \<Rightarrow> f64 \<Rightarrow> counters \<Rightarrow> validator" where
  "validator_new unix_ms s stratum jobs pplns pool_target cfg ports latest rpc dm counts =
     \<lparr>va_db = s, va_stratum = stratum, va_jobs = jobs, va_rpc = rpc, va_pplns = pplns,
      va_difficulty_multiplier = dm, va_default_target = pool_target, va_session_difficulty = [],
      va_worker_cache = [], va_vardiff_config = cfg, va_port_difficulty = ports,
      va_latest_notify = latest, va_counters = counts, va_session_worker_id = [],
      va_heartbeat = unix_ms, va_tasks = []\<rparr>"

section \<open>The outside\<close>

text \<open>The clock of one event and the third-party functions.\<close>

record moment =
  mo_now :: nanos
  mo_unix_secs :: "u64 option"
  mo_unix_ms :: int

record 'w share_env =
  en_hex :: hexlib
  en_hashes :: hashes
  en_equihash :: "bytes \<Rightarrow> bytes \<Rightarrow> bytes \<Rightarrow> string option"
  en_fingerprint :: "string \<Rightarrow> bytes \<Rightarrow> bytes \<Rightarrow> u64"
  en_transport :: "'w transport"
  en_serde :: serde
  en_agg :: sql_agg
  en_sqlx_text :: "sqlx_error \<Rightarrow> string"
  en_snapshots_json :: "session_snapshot list \<Rightarrow> string + string"

fun db_error_text :: "(sqlx_error \<Rightarrow> string) \<Rightarrow> db_error \<Rightarrow> string" where
  "db_error_text sqlx (Sqlx e) = ''Database error: '' @ sqlx e"
| "db_error_text sqlx (InsufficientPending m a) =
     ''Payout guard: miner '' @ show_int m @ '' pending < '' @ show_int a
     @ '' zat (already settled?), refusing to double-debit''"

text \<open>Running a database operation, a Stratum operation, and an operation of the RPC client.\<close>

definition run_db :: "'a dbm \<Rightarrow> validator \<Rightarrow> (db_error + 'a) \<times> validator" where
  "run_db m v = (case m (va_db v) of (r, s) \<Rightarrow> (r, v\<lparr>va_db := s\<rparr>))"

definition exec_db :: "'a dbm \<Rightarrow> validator \<Rightarrow> validator" where
  "exec_db m v = snd (run_db m v)"

definition send :: "string \<Rightarrow> server_message \<Rightarrow> validator \<Rightarrow> validator" where
  "send sid m v = v\<lparr>va_stratum := send_to_session sid m (va_stratum v)\<rparr>"

definition run_rpc ::
  "(rpc_client \<times> 'w \<Rightarrow> 'a \<times> rpc_client \<times> 'w) \<Rightarrow> validator \<times> 'w \<Rightarrow> 'a \<times> validator \<times> 'w" where
  "run_rpc f vw = (case f (va_rpc (fst vw), snd vw) of (r, c, w) \<Rightarrow> (r, (fst vw)\<lparr>va_rpc := c\<rparr>, w))"

definition session_of :: "validator \<Rightarrow> string \<Rightarrow> session_difficulty option" where
  "session_of v sid = map_of (va_session_difficulty v) sid"

definition set_session :: "string \<Rightarrow> session_difficulty \<Rightarrow> validator \<Rightarrow> validator" where
  "set_session sid sd v =
     v\<lparr>va_session_difficulty := AList.update sid sd (va_session_difficulty v)\<rparr>"

text \<open>\<open>if let Some(sd) = sessions.get_mut(id) { .. }\<close>\<close>

definition alter_session ::
  "string \<Rightarrow> (session_difficulty \<Rightarrow> session_difficulty) \<Rightarrow> validator \<Rightarrow> validator" where
  "alter_session sid f v = (case session_of v sid of
     None \<Rightarrow> v | Some sd \<Rightarrow> set_session sid (f sd) v)"

definition bump :: "(counters \<Rightarrow> counters) \<Rightarrow> validator \<Rightarrow> validator" where
  "bump f v = v\<lparr>va_counters := f (va_counters v)\<rparr>"

section \<open>Targets\<close>

definition target_for :: "hexlib \<Rightarrow> bytes \<Rightarrow> f64 \<Rightarrow> bytes" where
  "target_for H fallback d = (case parse_target H (difficulty_to_target_hex H d) of
     Inl e \<Rightarrow> fallback | Inr t \<Rightarrow> t)"

definition make_target_for_difficulty ::
  "hexlib \<Rightarrow> nanos \<Rightarrow> validator \<Rightarrow> f64 \<Rightarrow> bytes \<times> vardiff_tracker" where
  "make_target_for_difficulty H now v d =
     (target_for H (va_default_target v) d,
      vardiff_new (vc_target_shares_per_minute (va_vardiff_config v))
        (vc_retarget_interval_secs (va_vardiff_config v)) d now)"

definition make_initial_target :: "hexlib \<Rightarrow> nanos \<Rightarrow> validator \<Rightarrow> bytes \<times> vardiff_tracker" where
  "make_initial_target H now v =
     make_target_for_difficulty H now v (vc_initial_difficulty (va_vardiff_config v))"

definition push_grace_target :: "nanos \<Rightarrow> session_difficulty \<Rightarrow> session_difficulty" where
  "push_grace_target now sd = sd\<lparr>sx_recent_targets := push_bounded GRACE_TARGET_HISTORY
     (sx_recent_targets sd)
     \<lparr>gt_target = sx_target sd, gt_difficulty = target_to_difficulty (sx_target sd), gt_set_at = now\<rparr>\<rparr>"

definition connected_secs :: "nanos \<Rightarrow> session_difficulty \<Rightarrow> nat" where
  "connected_secs now sd = elapsed now (sx_connected_at sd) div 10 ^ 9"

definition push_adjustment :: "nanos \<Rightarrow> f64 \<Rightarrow> string \<Rightarrow> session_difficulty \<Rightarrow> session_difficulty" where
  "push_adjustment now d reason sd = sd\<lparr>sx_diff_history := push_bounded MAX_DIFF_HISTORY
     (sx_diff_history sd)
     \<lparr>da_secs_since_connect = connected_secs now sd, da_difficulty = d, da_reason = reason\<rparr>\<rparr>"

section \<open>The share rate\<close>

definition rate_check :: "nanos \<Rightarrow> session_difficulty \<Rightarrow> rate_status \<times> session_difficulty" where
  "rate_check now sd =
     (let secs = as_secs_f64 (elapsed now (sx_rate_window_start sd)) in
      if fle (Fin 1) secs
      then (Rate_ok, sd\<lparr>sx_rate_window_start := now, sx_rate_window_shares := 1\<rparr>)
      else
        (let n = sx_rate_window_shares sd + 1;
             rate = fdiv (f64_of_int (int n)) (fmax secs (flit (1 / 100))) in
         (if flt MAX_SHARES_PER_SEC rate then Rate_reject
          else if flt VARDIFF_TRIGGER_RATE rate then Rate_warn else Rate_ok,
          sd\<lparr>sx_rate_window_shares := n\<rparr>)))"

definition check_rate :: "nanos \<Rightarrow> string \<Rightarrow> validator \<Rightarrow> rate_status \<times> validator" where
  "check_rate now sid v = (case session_of v sid of
     None \<Rightarrow> (Rate_ok, v)
   | Some sd \<Rightarrow> (let (st, sd') = rate_check now sd in (st, set_session sid sd' v)))"

section \<open>Retargeting\<close>

definition send_difficulty :: "string \<Rightarrow> f64 \<Rightarrow> string \<Rightarrow> validator \<Rightarrow> validator" where
  "send_difficulty sid d target_hex v = send sid (SetTarget target_hex) (send sid (SetDifficulty d) v)"

definition apply_retarget ::
  "'w share_env \<Rightarrow> nanos \<Rightarrow> string \<Rightarrow> f64 \<Rightarrow> string \<Rightarrow> validator \<Rightarrow> validator" where
  "apply_retarget E now sid d reason v =
     (let new_target = target_for (en_hex E) (va_default_target v) d;
          v = alter_session sid (\<lambda>sd. push_adjustment now d reason
                ((push_grace_target now sd)\<lparr>sx_target := new_target\<rparr>)) v;
          v = (case map_of (va_session_worker_id v) sid of
                 None \<Rightarrow> v | Some worker \<Rightarrow> exec_db (update_worker_difficulty worker d) v) in
      send_difficulty sid d (difficulty_to_target_hex (en_hex E) d) v)"

definition retarget_with ::
  "(vardiff_tracker \<Rightarrow> (f64 \<times> string) option \<times> vardiff_tracker) \<Rightarrow>
   'w share_env \<Rightarrow> nanos \<Rightarrow> string \<Rightarrow> validator \<Rightarrow> validator" where
  "retarget_with f E now sid v = (case session_of v sid of
     None \<Rightarrow> v
   | Some sd \<Rightarrow>
       (let (r, vd) = f (sx_vardiff sd); v = set_session sid (sd\<lparr>sx_vardiff := vd\<rparr>) v in
        case r of None \<Rightarrow> v | Some (d, reason) \<Rightarrow> apply_retarget E now sid d reason v))"

definition maybe_retarget :: "'w share_env \<Rightarrow> nanos \<Rightarrow> string \<Rightarrow> validator \<Rightarrow> validator" where
  "maybe_retarget E now = retarget_with (record_share_vd now) E now"

definition force_retarget_session :: "'w share_env \<Rightarrow> nanos \<Rightarrow> string \<Rightarrow> validator \<Rightarrow> validator" where
  "force_retarget_session E now = retarget_with (force_retarget now) E now"

section \<open>Snapshots\<close>

text \<open>\<open>as_secs() - last.secs_since_connect\<close> cannot underflow while the clock is monotone.\<close>

definition snapshot_of :: "validator \<Rightarrow> nanos \<Rightarrow> string \<times> session_difficulty \<Rightarrow> session_snapshot" where
  "snapshot_of v now e = (let (sid, sd) = e; vd = sx_vardiff sd;
       secs = fmax (window_elapsed_secs now vd) (flit (1 / 100));
       history = sx_diff_history sd in
     \<lparr>ss_session_id = sid, ss_worker_name = sx_worker_name sd, ss_peer_addr = sx_peer_addr sd,
      ss_local_port = sx_local_port sd, ss_difficulty = vd_current_difficulty vd,
      ss_hashrate = fmul (fmul (vd_current_difficulty vd)
          (fdiv (vc_target_shares_per_minute (va_vardiff_config v)) (Fin 60)))
        (va_difficulty_multiplier v),
      ss_connected_secs = connected_secs now sd,
      ss_shares_per_min = fmul (fdiv (f64_of_int (int (vd_shares_in_window vd))) secs) (Fin 60),
      ss_smoothed_ratio = vd_smoothed_ratio vd, ss_retargets = length history - 1,
      ss_last_retarget_secs = (if 1 < length history
          then Some (connected_secs now sd - da_secs_since_connect (last history)) else None),
      ss_diff_history = history, ss_shares_accepted = sx_shares_accepted sd,
      ss_rejected_low_diff = sx_rejected_low_diff sd,
      ss_rejected_job_not_found = sx_rejected_job_not_found sd,
      ss_rejected_other = sx_rejected_other sd\<rparr>)"

definition build_session_snapshots :: "nanos \<Rightarrow> validator \<Rightarrow> session_snapshot list" where
  "build_session_snapshots now v = map (snapshot_of v now) (va_session_difficulty v)"

definition write_session_snapshots :: "'w share_env \<Rightarrow> nanos \<Rightarrow> validator \<Rightarrow> validator" where
  "write_session_snapshots E now v =
     (case en_snapshots_json E (build_session_snapshots now v) of
        Inl e \<Rightarrow> v
      | Inr json \<Rightarrow> exec_db (set_pool_status ''sessions_snapshot'' json) v)"

section \<open>Sessions come and go\<close>

definition miner_part :: "string \<Rightarrow> string" where
  "miner_part worker = hd (split_on (CHR ''.'') worker)"

definition worker_part :: "string \<Rightarrow> string" where
  "worker_part worker = (case split_on (CHR ''.'') worker of
     _ # w # _ \<Rightarrow> w | _ \<Rightarrow> ''default'')"

definition register_worker_and_get_difficulty :: "string \<Rightarrow> string \<Rightarrow> (int \<times> f64 option) dbm" where
  "register_worker_and_get_difficulty address worker =
     dbind (get_or_create_miner address) (\<lambda>m.
     dbind (get_or_create_worker (mi_id m) worker) (\<lambda>w.
       dret (wk_id w, wk_last_difficulty w)))"

definition fresh_session ::
  "nanos \<Rightarrow> string \<Rightarrow> string \<Rightarrow> nat \<Rightarrow> bytes \<Rightarrow> vardiff_tracker \<Rightarrow> session_difficulty" where
  "fresh_session now worker addr port target tracker =
     \<lparr>sx_vardiff = tracker, sx_target = target, sx_recent_targets = [], sx_rate_window_start = now,
      sx_rate_window_shares = 0, sx_low_diff_streak = 0, sx_worker_name = worker,
      sx_peer_addr = addr, sx_connected_at = now, sx_local_port = port, sx_diff_history = [],
      sx_shares_accepted = 0, sx_rejected_low_diff = 0, sx_rejected_job_not_found = 0,
      sx_rejected_other = 0, sx_recent_share_fps = []\<rparr>"

definition initial_choice :: "validator \<Rightarrow> string \<Rightarrow> nat \<Rightarrow> f64 \<times> string" where
  "initial_choice v password port = (case parse_difficulty_from_password password of
     Some d \<Rightarrow> (d, ''initial: password'')
   | None \<Rightarrow> (case va_port_difficulty v port of Some d \<Rightarrow> d
       | None \<Rightarrow> vc_initial_difficulty (va_vardiff_config v), ''initial: port''))"

definition on_worker_connected ::
  "'w share_env \<Rightarrow> nanos \<Rightarrow> string \<Rightarrow> string \<Rightarrow> string \<Rightarrow> string \<Rightarrow> nat \<Rightarrow> validator \<Rightarrow> validator" where
  "on_worker_connected E now sid worker password addr port v =
     (let (reg, v) = run_db (register_worker_and_get_difficulty (miner_part worker) (worker_part worker)) v;
          v = (case reg of Inl e \<Rightarrow> v
               | Inr (wid, _) \<Rightarrow> v\<lparr>va_session_worker_id := AList.update sid wid (va_session_worker_id v)\<rparr>);
          (d, source) = initial_choice v password port;
          (target, tracker) = make_target_for_difficulty (en_hex E) now v d;
          v = set_session sid (fresh_session now worker addr port target tracker) v;
          v = alter_session sid (\<lambda>sd. sd\<lparr>sx_diff_history := sx_diff_history sd @
                [\<lparr>da_secs_since_connect = 0, da_difficulty = d, da_reason = source\<rparr>]\<rparr>) v;
          v = send_difficulty sid d (hx_encode (en_hex E) target) v in
      case va_latest_notify v of None \<Rightarrow> v | Some notify \<Rightarrow> send sid notify v)"

definition on_session_disconnected :: "string \<Rightarrow> validator \<Rightarrow> validator" where
  "on_session_disconnected sid v =
     v\<lparr>va_session_difficulty := AList.delete sid (va_session_difficulty v),
       va_session_worker_id := AList.delete sid (va_session_worker_id v)\<rparr>"

end
