(* ===== verification/Share_Validator.thy ===== *)
theory Share_Validator
  imports Share_Sessions
begin

text \<open>
  \<open>ShareValidator\<close> in \<open>pool-core/src/share.rs\<close>: the validation of a submitted share
  (\<open>validate_share\<close>), the record of a won block, the task spawned for it, the sweep at start-up
  and the event loop (\<open>run\<close>).  The debugging copy of a block in \<open>last_block.hex\<close> and the log
  lines are left out.
\<close>

section \<open>Judging a share\<close>

text \<open>The job and the decoded nonce, raw solution and canonical solution of a submission.\<close>

definition submitted_form ::
  "hexlib \<Rightarrow> (string \<times> mining_job) list \<Rightarrow> string \<Rightarrow> string \<Rightarrow> string \<Rightarrow> string
     \<Rightarrow> stratum_error + mining_job \<times> bytes \<times> bytes \<times> bytes" where
  "submitted_form H jobs jid n1 n2 sol =
     res_bind (ok_or (map_of jobs jid) job_not_found) (\<lambda>job.
     res_bind (decode_nonce H n1 n2) (\<lambda>nonce.
     res_bind (decode_solution H sol) (\<lambda>(raw, canonical). Inr (job, nonce, raw, canonical))))"

text \<open>Replays of a fingerprint the session remembers are refused; any other is remembered.\<close>

definition remember_fp :: "u64 \<Rightarrow> session_difficulty \<Rightarrow> session_difficulty" where
  "remember_fp fp sd =
     sd\<lparr>sx_recent_share_fps := push_bounded SHARE_DEDUP_HISTORY (sx_recent_share_fps sd) fp\<rparr>"

definition check_replay :: "string \<Rightarrow> u64 \<Rightarrow> validator \<Rightarrow> (stratum_error + unit) \<times> validator" where
  "check_replay sid fp v = (case session_of v sid of
     None \<Rightarrow> (Inr (), v)
   | Some sd \<Rightarrow> if fp \<in> set (sx_recent_share_fps sd) then (Inl duplicate_share, v)
       else (Inr (), set_session sid (remember_fp fp sd) v))"

record judged =
  jd_header :: bytes
  jd_hash :: bytes
  jd_difficulty :: f64
  jd_is_block :: bool

text \<open>The target, difficulty and grace targets a session is held to.\<close>

definition session_view :: "validator \<Rightarrow> string \<Rightarrow> bytes \<times> f64 \<times> grace_target list" where
  "session_view v sid = (case session_of v sid of
     None \<Rightarrow> (va_default_target v, Fin 1, [])
   | Some sd \<Rightarrow> (sx_target sd, vd_current_difficulty (sx_vardiff sd), sx_recent_targets sd))"

definition check_equihash :: "'w share_env \<Rightarrow> bytes \<Rightarrow> bytes \<Rightarrow> bytes \<Rightarrow> stratum_error + unit" where
  "check_equihash E input nonce raw = (case en_equihash E input nonce raw of
     None \<Rightarrow> Inr ()
   | Some e \<Rightarrow> Inl (err_other (''Invalid Equihash solution: '' @ e)))"

definition network_target :: "hexlib \<Rightarrow> mining_job \<Rightarrow> stratum_error + bytes" where
  "network_target H job = (case parse_target H (bt_target (mj_template job)) of
     Inl e \<Rightarrow> Inl (err_other (''Bad network target: '' @ target_error_text e))
   | Inr t \<Rightarrow> Inr t)"

definition judge_share ::
  "'w share_env \<Rightarrow> moment \<Rightarrow> bytes \<times> f64 \<times> grace_target list \<Rightarrow> mining_job \<Rightarrow> string
     \<Rightarrow> bytes \<Rightarrow> bytes \<Rightarrow> bytes \<Rightarrow> stratum_error + judged" where
  "judge_share E m view job tm nonce raw canonical = (let (pool_target, current, graces) = view in
     res_bind (check_ntime job tm (mo_unix_secs m)) (\<lambda>_.
     res_bind (build_header_input (en_hex E) job tm) (\<lambda>input.
       let header = input @ nonce @ canonical; hash = sha256d (en_hashes E) header in
     res_bind (credited_difficulty (mo_now m) hash pool_target current graces) (\<lambda>d.
     res_bind (check_equihash E input nonce raw) (\<lambda>_.
     res_bind (network_target (en_hex E) job) (\<lambda>nt.
       Inr \<lparr>jd_header = header, jd_hash = hash, jd_difficulty = d,
            jd_is_block = meets_target hash nt\<rparr>))))))"

section \<open>The worker of a share\<close>

definition cache_worker ::
  "string \<times> string \<Rightarrow> int \<times> int \<times> nanos \<Rightarrow> validator \<Rightarrow> validator" where
  "cache_worker key e v = v\<lparr>va_worker_cache := AList.update key e (va_worker_cache v)\<rparr>"

definition db_failure :: "'w share_env \<Rightarrow> db_error \<Rightarrow> stratum_error" where
  "db_failure E e = err_other (''DB error: '' @ db_error_text (en_sqlx_text E) e)"

definition look_up_worker :: "string \<Rightarrow> (int \<times> int) dbm" where
  "look_up_worker worker =
     dbind (get_or_create_miner (miner_part worker)) (\<lambda>mi.
     dbind (get_or_create_worker (mi_id mi) (worker_part worker)) (\<lambda>wk.
       dret (mi_id mi, wk_id wk)))"

definition resolve_worker ::
  "'w share_env \<Rightarrow> nanos \<Rightarrow> string \<Rightarrow> string \<Rightarrow> validator \<Rightarrow> (stratum_error + int) \<times> validator" where
  "resolve_worker E now sid worker v = (let key = (sid, worker) in
     case map_of (va_worker_cache v) key of
       Some (m, w, touched) \<Rightarrow>
         if elapsed now touched < WORKER_TOUCH_INTERVAL then (Inr w, v)
         else (Inr w, cache_worker key (m, w, now) (exec_db (touch_worker w) v))
     | None \<Rightarrow>
         (case run_db (look_up_worker worker) v of
            (Inl e, v) \<Rightarrow> (Inl (db_failure E e), v)
          | (Inr (m, w), v) \<Rightarrow>
              (let v = (if 4096 < length (va_worker_cache v) then v\<lparr>va_worker_cache := []\<rparr> else v) in
               (Inr w, cache_worker key (m, w, now) v))))"

section \<open>A won block\<close>

definition latest_block_time :: "validator \<Rightarrow> int \<times> validator" where
  "latest_block_time v = (case run_db (get_recent_blocks 1) v of
     (Inr (b # _), v) \<Rightarrow> (bk_created b, v) | (_, v) \<Rightarrow> (0, v))"

definition block_fate ::
  "'w share_env \<Rightarrow> u64 \<Rightarrow> string \<Rightarrow> string \<Rightarrow> validator \<times> 'w \<Rightarrow> inclusion_check \<times> validator \<times> 'w" where
  "block_fate E height hash_hex block_hex vw =
     (case run_rpc (submit_block (en_transport E) (en_serde E) block_hex) vw of
        (Inr _, vw) \<Rightarrow> (Verified, vw)
      | (Inl e, vw) \<Rightarrow>
          run_rpc (verify_block_inclusion (en_transport E) (en_serde E) (en_hex E) height hash_hex) vw)"

definition resolve_crumb :: "int option \<Rightarrow> string \<Rightarrow> validator \<Rightarrow> validator" where
  "resolve_crumb crumb outcome v = (case crumb of
     None \<Rightarrow> v | Some cid \<Rightarrow> exec_db (resolve_block_submission cid outcome) v)"

definition record_won_block ::
  "int \<Rightarrow> string \<Rightarrow> int \<Rightarrow> int option \<Rightarrow> int \<Rightarrow> int option \<Rightarrow> validator \<Rightarrow> int option \<times> validator" where
  "record_won_block height hash_hex reward actual worker crumb v =
     (let (luck_since, v) = latest_block_time v in
      case run_db (record_block height hash_hex reward actual worker None) v of
        (Inl e, v) \<Rightarrow> (None, v)
      | (Inr block_id, v) \<Rightarrow>
          (let v = resolve_crumb crumb ''recorded'' v in
           (Some height, v\<lparr>va_tasks := va_tasks v @
              [\<lparr>pt_height = height, pt_hash = hash_hex, pt_block_id = block_id,
                pt_luck_since = luck_since, pt_basis = unwrap_or actual reward,
                pt_worker = worker\<rparr>]\<rparr>)))"

definition win_block ::
  "'w share_env \<Rightarrow> mining_job \<Rightarrow> judged \<Rightarrow> int \<Rightarrow> validator \<times> 'w \<Rightarrow> int option \<times> validator \<times> 'w" where
  "win_block E job jd worker vw =
     (case assemble_full_block (en_hex E) (jd_header jd) (mj_template job) of
        Inl e \<Rightarrow> (None, vw)
      | Inr full_block \<Rightarrow>
          (let t = mj_template job; height = sint (bt_height t);
               reward = compute_block_reward height;
               actual = Some (reward + collected_fees t);
               hash_hex = hx_encode (en_hex E) (jd_hash jd);
               (written, v) = run_db (record_block_submission height hash_hex worker reward actual) (fst vw);
               crumb = (case written of Inl e \<Rightarrow> None | Inr cid \<Rightarrow> Some cid);
               (fate, v, w) = block_fate E (bt_height t) hash_hex
                   (hx_encode (en_hex E) full_block) (v, snd vw) in
           case fate of
             Mismatch \<Rightarrow> (None, resolve_crumb crumb ''rejected'' v, w)
           | Block_Assembler.Unknown \<Rightarrow> (None, v, w)
           | Verified \<Rightarrow>
               (let (found, v) = record_won_block height hash_hex reward actual worker crumb v in
                (found, v, w))))"

record share_result =
  sr_is_block :: bool
  sr_block_height :: "int option"

text \<open>A judged share is credited to its worker, then a block is submitted.\<close>

definition credit_share ::
  "'w share_env \<Rightarrow> moment \<Rightarrow> string \<Rightarrow> string \<Rightarrow> string \<Rightarrow> mining_job \<Rightarrow> judged
     \<Rightarrow> validator \<times> 'w \<Rightarrow> (stratum_error + share_result) \<times> validator \<times> 'w" where
  "credit_share E m sid worker jid job jd vw =
     (case resolve_worker E (mo_now m) sid worker (fst vw) of
        (Inl e, v) \<Rightarrow> (Inl e, v, snd vw)
      | (Inr wid, v) \<Rightarrow>
          (case run_db (record_share wid jid (jd_difficulty jd) (jd_is_block jd) sid) v of
             (Inl e, v) \<Rightarrow> (Inl (db_failure E e), v, snd vw)
           | (Inr _, v) \<Rightarrow>
               (let (height, v, w) = (if jd_is_block jd then win_block E job jd wid (v, snd vw)
                      else (None, v, snd vw)) in
                (Inr \<lparr>sr_is_block = jd_is_block jd, sr_block_height = height\<rparr>, v, w))))"

definition validate_share ::
  "'w share_env \<Rightarrow> moment \<Rightarrow> string \<Rightarrow> string \<Rightarrow> string \<Rightarrow> string \<Rightarrow> string \<Rightarrow> string \<Rightarrow> string
     \<Rightarrow> validator \<times> 'w \<Rightarrow> (stratum_error + share_result) \<times> validator \<times> 'w" where
  "validate_share E m sid worker jid tm n1 n2 sol vw = (let (v, w) = vw in
     case submitted_form (en_hex E) (va_jobs v) jid n1 n2 sol of
       Inl e \<Rightarrow> (Inl e, v, w)
     | Inr (job, nonce, raw, canonical) \<Rightarrow>
         (case check_replay sid (en_fingerprint E jid nonce raw) v of
            (Inl e, v) \<Rightarrow> (Inl e, v, w)
          | (Inr _, v) \<Rightarrow>
              (case judge_share E m (session_view v sid) job tm nonce raw canonical of
                 Inl e \<Rightarrow> (Inl e, v, w)
               | Inr jd \<Rightarrow> credit_share E m sid worker jid job jd (v, w))))"

section \<open>The task of a won block\<close>

definition positive_luck :: "f64 \<Rightarrow> f64 \<Rightarrow> f64 \<Rightarrow> f64 option" where
  "positive_luck dm network_hashrate diff_sum = (let work = fmul diff_sum dm in
     if flt (Fin 0) work
     then Some (fmul (fdiv work (fmul network_hashrate BLOCK_TIME_SECS)) (Fin 100)) else None)"

definition update_luck :: "'w share_env \<Rightarrow> post_task \<Rightarrow> validator \<times> 'w \<Rightarrow> validator \<times> 'w" where
  "update_luck E t vw =
     (let (r, v, w) = run_rpc (get_network_sol_ps (en_transport E) (en_serde E) (Some 120)) vw in
      case r of
        Inl e \<Rightarrow> (v, w)
      | Inr nh \<Rightarrow>
          if flt (Fin 0) nh then
            (case run_db (get_difficulty_sum_since (en_agg E) (pt_luck_since t)) v of
               (Inl e, v) \<Rightarrow> (v, w)
             | (Inr ds, v) \<Rightarrow> (case positive_luck (va_difficulty_multiplier v) nh ds of
                   None \<Rightarrow> (v, w)
                 | Some luck \<Rightarrow> (exec_db (update_block_luck (pt_block_id t) luck) v, w)))
          else (v, w))"

definition run_post_task :: "'w share_env \<Rightarrow> post_task \<Rightarrow> validator \<times> 'w \<Rightarrow> validator \<times> 'w" where
  "run_post_task E t vw =
     (let (inclusion, v, w) = run_rpc (verify_block_inclusion (en_transport E) (en_serde E) (en_hex E)
            (of_int (pt_height t)) (pt_hash t)) vw in
      if inclusion = Mismatch then (exec_db (update_block_status (pt_block_id t) ''orphaned'') v, w)
      else
        (let (v, w) = update_luck E t (v, w) in
         (exec_db (distribute (en_agg E) (va_pplns v) (pt_basis t) (pt_block_id t) (pt_worker t)) v, w)))"

text \<open>\<open>compute_block_luck\<close>, which nothing calls; the error text of the source is kept.\<close>

definition compute_block_luck ::
  "'w share_env \<Rightarrow> validator \<times> 'w \<Rightarrow> (string + f64 option) \<times> validator \<times> 'w" where
  "compute_block_luck E vw =
     (let (r, v, w) = run_rpc (get_network_sol_ps (en_transport E) (en_serde E) (Some 120)) vw in
      case r of
        Inl e \<Rightarrow> (Inl (''RPC error: '' @ rpc_error_text e), v, w)
      | Inr nh \<Rightarrow>
          if fle nh (Fin 0) then (Inr None, v, w)
          else (case run_db (get_recent_blocks 1) v of
            (Inl e, v) \<Rightarrow> (Inl (''DB error: '' @ db_error_text (en_sqlx_text E) e), v, w)
          | (Inr bs, v) \<Rightarrow>
              (case run_db (get_difficulty_sum_since (en_agg E)
                     (case bs of [] \<Rightarrow> 0 | b # _ \<Rightarrow> bk_created b)) v of
                 (Inl e, v) \<Rightarrow> (Inl (''DB error: '' @ db_error_text (en_sqlx_text E) e), v, w)
               | (Inr ds, v) \<Rightarrow> (Inr (positive_luck (va_difficulty_multiplier v) nh ds), v, w))))"

section \<open>The sweep at start-up\<close>

text \<open>Whether the block has a row when this returns.\<close>

definition recover_block :: "submission_row \<Rightarrow> validator \<Rightarrow> bool \<times> validator" where
  "recover_block r v = (case run_db (get_block_id_by_hash (su_hash r)) v of
     (Inl e, v) \<Rightarrow> (False, v)
   | (Inr (Some b), v) \<Rightarrow> (True, v)
   | (Inr None, v) \<Rightarrow>
       (case run_db (record_block (su_height r) (su_hash r) (su_reward r) (su_actual r) (su_worker r) None) v of
          (Inl e, v) \<Rightarrow> (False, v) | (Inr b, v) \<Rightarrow> (True, v)))"

definition settle_submission ::
  "'w share_env \<Rightarrow> submission_row \<Rightarrow> validator \<times> 'w \<Rightarrow> validator \<times> 'w" where
  "settle_submission E r vw =
     (let (inclusion, v, w) = run_rpc (verify_block_inclusion (en_transport E) (en_serde E) (en_hex E)
            (of_int (su_height r)) (su_hash r)) vw in
      case inclusion of
        Verified \<Rightarrow> (let (recorded, v) = recover_block r v in
          (if recorded then exec_db (resolve_block_submission (su_id r) ''swept-recorded'') v else v, w))
      | Mismatch \<Rightarrow> (exec_db (resolve_block_submission (su_id r) ''swept-rejected'') v, w)
      | Block_Assembler.Unknown \<Rightarrow> (v, w))"

definition sweep_submissions :: "'w share_env \<Rightarrow> submission_row list \<Rightarrow> validator \<times> 'w \<Rightarrow> validator \<times> 'w" where
  "sweep_submissions E rows vw = fold (settle_submission E) rows vw"

definition redistribute :: "'w share_env \<Rightarrow> int \<times> int \<times> int \<times> int \<Rightarrow> validator \<Rightarrow> validator" where
  "redistribute E row v = (let (block_id, height, basis, worker) = row in
     exec_db (distribute (en_agg E) (va_pplns v) basis block_id worker) v)"

definition startup_block_sweep :: "'w share_env \<Rightarrow> validator \<times> 'w \<Rightarrow> validator \<times> 'w" where
  "startup_block_sweep E vw =
     (let (v, w) = (case run_db get_open_block_submissions (fst vw) of
            (Inl e, v) \<Rightarrow> (v, snd vw)
          | (Inr rows, v) \<Rightarrow> sweep_submissions E rows (v, snd vw)) in
      case run_db (get_recent_blocks_missing_credits 7) v of
        (Inl e, v) \<Rightarrow> (v, w)
      | (Inr rows, v) \<Rightarrow> (fold (redistribute E) rows v, w))"

section \<open>The event loop\<close>

definition reply_submit :: "string \<Rightarrow> json \<Rightarrow> stratum_error option \<Rightarrow> validator \<Rightarrow> validator" where
  "reply_submit sid rid err v = send sid (SubmitResult rid (err = None) err) v"

definition refuse_rate :: "'w share_env \<Rightarrow> nanos \<Rightarrow> string \<Rightarrow> json \<Rightarrow> validator \<Rightarrow> validator" where
  "refuse_rate E now sid rid v =
     (let v = bump (\<lambda>c. c\<lparr>ctr_shares_rejected := ctr_shares_rejected c + 1,
            ctr_rate_reject := ctr_rate_reject c + 1, ctr_rejects_other := ctr_rejects_other c + 1\<rparr>) v;
          v = alter_session sid (\<lambda>sd. sd\<lparr>sx_rejected_other := sx_rejected_other sd + 1\<rparr>) v;
          v = reply_submit sid rid (Some (err_other ''Share rate limit exceeded'')) v in
      force_retarget_session E now sid v)"

definition on_accepted ::
  "'w share_env \<Rightarrow> nanos \<Rightarrow> string \<Rightarrow> json \<Rightarrow> bool \<Rightarrow> validator \<Rightarrow> validator" where
  "on_accepted E now sid rid forced v =
     (let v = bump (\<lambda>c. c\<lparr>ctr_shares_accepted := ctr_shares_accepted c + 1\<rparr>) v;
          v = alter_session sid (\<lambda>sd. sd\<lparr>sx_low_diff_streak := 0,
                sx_shares_accepted := sx_shares_accepted sd + 1\<rparr>) v;
          v = reply_submit sid rid None v in
      if forced then force_retarget_session E now sid v else maybe_retarget E now sid v)"

definition count_reject :: "int \<Rightarrow> counters \<Rightarrow> counters" where
  "count_reject cd c = (let c = c\<lparr>ctr_shares_rejected := ctr_shares_rejected c + 1\<rparr> in
     if cd = 21 then c\<lparr>ctr_rejects_job_not_found := ctr_rejects_job_not_found c + 1\<rparr>
     else if cd = 22 then c\<lparr>ctr_rejects_duplicate := ctr_rejects_duplicate c + 1\<rparr>
     else if cd = 23 then c\<lparr>ctr_rejects_low_diff := ctr_rejects_low_diff c + 1\<rparr>
     else c\<lparr>ctr_rejects_other := ctr_rejects_other c + 1\<rparr>)"

definition count_session_reject :: "int \<Rightarrow> session_difficulty \<Rightarrow> session_difficulty" where
  "count_session_reject cd sd =
     (if cd = 21 then sd\<lparr>sx_rejected_job_not_found := sx_rejected_job_not_found sd + 1\<rparr>
      else if cd = 23 then sd\<lparr>sx_rejected_low_diff := sx_rejected_low_diff sd + 1\<rparr>
      else sd\<lparr>sx_rejected_other := sx_rejected_other sd + 1\<rparr>)"

definition is_flooder :: "nanos \<Rightarrow> session_difficulty \<Rightarrow> bool" where
  "is_flooder now sd \<longleftrightarrow> sx_shares_accepted sd = 0
     \<and> 50 \<le> sx_rejected_low_diff sd + sx_rejected_job_not_found sd + sx_rejected_other sd
     \<and> 5 * 10 ^ 9 \<le> elapsed now (sx_connected_at sd)"

definition reset_reason :: "nat \<Rightarrow> string" where
  "reset_reason streak = ''reset: '' @ show_nat streak @ '' consecutive low-diff rejects''"

definition reset_difficulty :: "'w share_env \<Rightarrow> nanos \<Rightarrow> string \<Rightarrow> nat \<Rightarrow> validator \<Rightarrow> validator" where
  "reset_difficulty E now sid streak v =
     (let d = vc_initial_difficulty (va_vardiff_config v);
          (target, tracker) = make_target_for_difficulty (en_hex E) now v d;
          v = alter_session sid (\<lambda>sd. push_adjustment now d (reset_reason streak)
                ((push_grace_target now sd)\<lparr>sx_vardiff := tracker, sx_target := target\<rparr>)) v in
      send_difficulty sid d (hx_encode (en_hex E) target) v)"

definition note_low_diff :: "'w share_env \<Rightarrow> nanos \<Rightarrow> string \<Rightarrow> validator \<Rightarrow> validator" where
  "note_low_diff E now sid v = (case session_of v sid of
     None \<Rightarrow> v
   | Some sd \<Rightarrow>
       (let streak = sx_low_diff_streak sd + 1 in
        if 10 \<le> streak \<and> sx_shares_accepted sd = 0
        then reset_difficulty E now sid streak (set_session sid (sd\<lparr>sx_low_diff_streak := 0\<rparr>) v)
        else set_session sid (sd\<lparr>sx_low_diff_streak := streak\<rparr>) v))"

definition on_rejected ::
  "'w share_env \<Rightarrow> nanos \<Rightarrow> string \<Rightarrow> json \<Rightarrow> stratum_error \<Rightarrow> validator \<Rightarrow> validator" where
  "on_rejected E now sid rid e v =
     (let v = bump (count_reject (code e)) v;
          v = alter_session sid (count_session_reject (code e)) v in
      if (case session_of v sid of None \<Rightarrow> False | Some sd \<Rightarrow> is_flooder now sd)
      then v\<lparr>va_stratum := disconnect_session sid (va_stratum v)\<rparr>
      else (let v = reply_submit sid rid (Some e) v in
        if is_low_difficulty e then note_low_diff E now sid v else v))"

definition on_share_submitted ::
  "'w share_env \<Rightarrow> moment \<Rightarrow> string \<Rightarrow> json \<Rightarrow> string \<Rightarrow> string \<Rightarrow> string \<Rightarrow> string \<Rightarrow> string \<Rightarrow> string
     \<Rightarrow> validator \<times> 'w \<Rightarrow> validator \<times> 'w" where
  "on_share_submitted E m sid rid worker jid tm n1 n2 sol vw =
     (let now = mo_now m; (rate, v) = check_rate now sid (fst vw) in
      if rate = Rate_reject then (refuse_rate E now sid rid v, snd vw)
      else
        (let v = (if rate = Rate_warn then bump (\<lambda>c. c\<lparr>ctr_rate_warn := ctr_rate_warn c + 1\<rparr>) v else v) in
         case validate_share E m sid worker jid tm n1 n2 sol (v, snd vw) of
           (Inr _, v, w) \<Rightarrow> (on_accepted E now sid rid (rate = Rate_warn) v, w)
         | (Inl e, v, w) \<Rightarrow> (on_rejected E now sid rid e v, w)))"

fun handle_event :: "'w share_env \<Rightarrow> moment \<Rightarrow> stratum_event \<Rightarrow> validator \<times> 'w \<Rightarrow> validator \<times> 'w" where
  "handle_event E m (ShareSubmitted sid rid worker jid tm n1 n2 sol) vw =
     on_share_submitted E m sid rid worker jid tm n1 n2 sol vw"
| "handle_event E m (WorkerConnected sid worker password addr port) vw =
     (on_worker_connected E (mo_now m) sid worker password addr port (fst vw), snd vw)"
| "handle_event E m (SessionDisconnected sid) vw = (on_session_disconnected sid (fst vw), snd vw)"
| "handle_event E m (TargetSuggested sid target) vw = vw"

text \<open>
  What happens to the validator's state: its loop takes an event or writes the snapshots, the
  job manager replaces the table of jobs, one of the spawned tasks runs.
\<close>

datatype validator_step =
    Event stratum_event
  | Snapshot_tick
  | Jobs_change "(string \<times> mining_job) list" "server_message option"
  | Task_runs nat

definition stamp_heartbeat :: "moment \<Rightarrow> validator \<Rightarrow> validator" where
  "stamp_heartbeat m v = v\<lparr>va_heartbeat := mo_unix_ms m\<rparr>"

fun step_validator :: "'w share_env \<Rightarrow> moment \<Rightarrow> validator_step \<Rightarrow> validator \<times> 'w \<Rightarrow> validator \<times> 'w" where
  "step_validator E m (Event e) (v, w) = handle_event E m e (stamp_heartbeat m v, w)"
| "step_validator E m Snapshot_tick (v, w) =
     (write_session_snapshots E (mo_now m) (stamp_heartbeat m v), w)"
| "step_validator E m (Jobs_change jobs latest) (v, w) =
     (v\<lparr>va_jobs := jobs, va_latest_notify := latest\<rparr>, w)"
| "step_validator E m (Task_runs n) (v, w) =
     (if n < length (va_tasks v)
      then run_post_task E (va_tasks v ! n)
             (v\<lparr>va_tasks := take n (va_tasks v) @ drop (Suc n) (va_tasks v)\<rparr>, w)
      else (v, w))"

fun run_validator :: "'w share_env \<Rightarrow> (moment \<times> validator_step) list \<Rightarrow> validator \<times> 'w \<Rightarrow> validator \<times> 'w" where
  "run_validator E [] vw = vw"
| "run_validator E ((m, s) # steps) vw = run_validator E steps (step_validator E m s vw)"

end
