(* ===== verification/Share_Memory.thy ===== *)
theory Share_Memory
  imports Share_Validator
begin

text \<open>
  What the validator remembers of its sessions: each history is a bounded buffer, the whole
  memory stays bounded over any run, and a share that was seen is refused while it is among
  the last 1024 of its session.
\<close>

section \<open>Frames\<close>

text \<open>Database, Stratum and RPC operations leave the sessions and the worker cache alone.\<close>

lemma run_db_frame:
  assumes "run_db m v = (r, v')"
  shows "v' = v\<lparr>va_db := va_db v'\<rparr>"
  using assms by (auto simp: run_db_def split: prod.splits)

lemma exec_db_def': "exec_db m v = v\<lparr>va_db := snd (m (va_db v))\<rparr>"
  by (simp add: exec_db_def run_db_def split: prod.split)

lemma run_rpc_frame:
  assumes "run_rpc f vw = (r, v', w')"
  shows "v' = (fst vw)\<lparr>va_rpc := va_rpc v'\<rparr>"
  using assms by (auto simp: run_rpc_def split: prod.splits)

text \<open>The two tables in memory.\<close>

definition memory :: "validator \<Rightarrow> (string \<times> session_difficulty) list \<times> ((string \<times> string) \<times> int \<times> int \<times> nanos) list" where
  "memory v = (va_session_difficulty v, va_worker_cache v)"

lemma memory_frame [simp]:
  "memory (exec_db m v) = memory v"
  "memory (send sid msg v) = memory v"
  "memory (bump f v) = memory v"
  "memory (send_difficulty sid d t v) = memory v"
  "memory (reply_submit sid rid e v) = memory v"
  "memory (stamp_heartbeat m' v) = memory v"
  "memory (v\<lparr>va_stratum := st\<rparr>) = memory v"
  "memory (v\<lparr>va_db := s\<rparr>) = memory v"
  "memory (v\<lparr>va_rpc := c\<rparr>) = memory v"
  "memory (v\<lparr>va_tasks := ts\<rparr>) = memory v"
  "memory (v\<lparr>va_jobs := js\<rparr>) = memory v"
  "memory (v\<lparr>va_latest_notify := n\<rparr>) = memory v"
  "memory (v\<lparr>va_session_worker_id := ws\<rparr>) = memory v"
  "memory (resolve_crumb crumb out v) = memory v"
  by (simp_all add: memory_def exec_db_def' send_def bump_def send_difficulty_def reply_submit_def
      stamp_heartbeat_def resolve_crumb_def split: option.split)

lemma memory_run_db: "run_db m v = (r, v') \<Longrightarrow> memory v' = memory v"
  using run_db_frame [of m v r v'] by (metis memory_frame(8))

lemma memory_run_rpc: "run_rpc f vw = (r, v', w') \<Longrightarrow> memory v' = memory (fst vw)"
  using run_rpc_frame [of f vw r v' w'] by (metis memory_frame(9))

lemma session_of_memory: "memory v = memory v' \<Longrightarrow> session_of v sid = session_of v' sid"
  by (simp add: memory_def session_of_def)

lemma session_of_set [simp]:
  "session_of (set_session sid sd v) sid' = (if sid' = sid then Some sd else session_of v sid')"
  by (simp add: session_of_def set_session_def update_conv')

lemma session_of_alter:
  "session_of (alter_session sid f v) sid' =
     (if sid' = sid then map_option f (session_of v sid) else session_of v sid')"
  by (simp add: alter_session_def split: option.split)

lemma update_twice: "AList.update k y (AList.update k x xs) = AList.update k y xs"
  by (induction xs) auto

lemma alter_set: "alter_session sid f (set_session sid sd v) = set_session sid (f sd) v"
  by (simp add: alter_session_def) (simp add: set_session_def update_twice)

text \<open>The four ways a submission can go.\<close>

lemma validate_share_cases [consumes 1, case_names malformed replayed refused credited]:
  assumes "validate_share E m sid wn jid tm n1 n2 sol (v, w) = (r, v', w')"
  obtains (malformed) e where "submitted_form (en_hex E) (va_jobs v) jid n1 n2 sol = Inl e"
      "r = Inl e" "v' = v" "w' = w"
  | (replayed) job nonce raw canonical e where
      "submitted_form (en_hex E) (va_jobs v) jid n1 n2 sol = Inr (job, nonce, raw, canonical)"
      "check_replay sid (en_fingerprint E jid nonce raw) v = (Inl e, v')" "r = Inl e" "w' = w"
  | (refused) job nonce raw canonical e where
      "submitted_form (en_hex E) (va_jobs v) jid n1 n2 sol = Inr (job, nonce, raw, canonical)"
      "check_replay sid (en_fingerprint E jid nonce raw) v = (Inr (), v')"
      "judge_share E m (session_view v' sid) job tm nonce raw canonical = Inl e" "r = Inl e" "w' = w"
  | (credited) job nonce raw canonical v1 jd where
      "submitted_form (en_hex E) (va_jobs v) jid n1 n2 sol = Inr (job, nonce, raw, canonical)"
      "check_replay sid (en_fingerprint E jid nonce raw) v = (Inr (), v1)"
      "judge_share E m (session_view v1 sid) job tm nonce raw canonical = Inr jd"
      "credit_share E m sid wn jid job jd (v1, w) = (r, v', w')"
  using assms by (auto simp: validate_share_def split: sum.splits prod.splits)

lemma credit_share_cases [consumes 1, case_names no_worker not_recorded recorded]:
  assumes "credit_share E m sid wn jid job jd (v, w) = (r, v', w')"
  obtains (no_worker) e where "resolve_worker E (mo_now m) sid wn v = (Inl e, v')" "r = Inl e" "w' = w"
  | (not_recorded) wid v1 e where "resolve_worker E (mo_now m) sid wn v = (Inr wid, v1)"
      "run_db (record_share wid jid (jd_difficulty jd) (jd_is_block jd) sid) v1 = (Inl e, v')"
      "r = Inl (db_failure E e)" "w' = w"
  | (recorded) wid v1 i v2 height where "resolve_worker E (mo_now m) sid wn v = (Inr wid, v1)"
      "run_db (record_share wid jid (jd_difficulty jd) (jd_is_block jd) sid) v1 = (Inr i, v2)"
      "r = Inr \<lparr>sr_is_block = jd_is_block jd, sr_block_height = height\<rparr>"
      "(if jd_is_block jd then win_block E job jd wid (v2, w) else (None, v2, w)) = (height, v', w')"
  using assms unfolding credit_share_def fst_conv snd_conv by (auto split: sum.splits prod.splits)

section \<open>The histories\<close>

text \<open>Each history of a session meets the interface of bounded buffers.\<close>

interpretation grace: bounded_history push_grace_target sx_recent_targets
  "\<lambda>now sd. \<lparr>gt_target = sx_target sd, gt_difficulty = target_to_difficulty (sx_target sd), gt_set_at = now\<rparr>"
  GRACE_TARGET_HISTORY
  by unfold_locales (simp_all add: GRACE_TARGET_HISTORY_def push_grace_target_def push_bounded_last_n)

interpretation adjustments: bounded_history "\<lambda>(now, d, reason). push_adjustment now d reason" sx_diff_history
  "\<lambda>(now, d, reason) sd. \<lparr>da_secs_since_connect = connected_secs now sd, da_difficulty = d, da_reason = reason\<rparr>"
  MAX_DIFF_HISTORY
  by unfold_locales (auto simp: MAX_DIFF_HISTORY_def push_adjustment_def push_bounded_last_n)

definition push_fp :: "u64 \<Rightarrow> u64 list \<Rightarrow> u64 list" where
  "push_fp fp fps = push_bounded SHARE_DEDUP_HISTORY fps fp"

interpretation replays: bounded_history push_fp "\<lambda>fps. fps" "\<lambda>fp fps. fp" SHARE_DEDUP_HISTORY
  by unfold_locales (simp_all add: SHARE_DEDUP_HISTORY_def push_fp_def push_bounded_last_n)

definition histories_bounded :: "session_difficulty \<Rightarrow> bool" where
  "histories_bounded sd \<longleftrightarrow> length (sx_recent_targets sd) \<le> GRACE_TARGET_HISTORY
     \<and> length (sx_diff_history sd) \<le> MAX_DIFF_HISTORY
     \<and> length (sx_recent_share_fps sd) \<le> SHARE_DEDUP_HISTORY"

lemma push_fields [simp]:
  "sx_recent_targets (push_adjustment now d r sd) = sx_recent_targets sd"
  "sx_recent_share_fps (push_adjustment now d r sd) = sx_recent_share_fps sd"
  "sx_diff_history (push_grace_target now sd) = sx_diff_history sd"
  "sx_recent_share_fps (push_grace_target now sd) = sx_recent_share_fps sd"
  "sx_recent_targets (remember_fp fp sd) = sx_recent_targets sd"
  "sx_diff_history (remember_fp fp sd) = sx_diff_history sd"
  by (simp_all add: push_adjustment_def push_grace_target_def remember_fp_def)

lemma bounded_push:
  assumes "histories_bounded sd"
  shows "histories_bounded (push_grace_target now sd)"
    and "histories_bounded (push_adjustment now d r sd)"
    and "histories_bounded (remember_fp fp sd)"
  using assms grace.length_push [of sd now] adjustments.length_push [of sd "(now, d, r)"]
    replays.length_push [of "sx_recent_share_fps sd" fp]
  by (simp_all add: histories_bounded_def remember_fp_def push_fp_def)

lemma bounded_fields [simp]:
  "histories_bounded (sd\<lparr>sx_vardiff := x1\<rparr>) = histories_bounded sd"
  "histories_bounded (sd\<lparr>sx_target := x2\<rparr>) = histories_bounded sd"
  "histories_bounded (sd\<lparr>sx_rate_window_start := x3\<rparr>) = histories_bounded sd"
  "histories_bounded (sd\<lparr>sx_rate_window_shares := x4\<rparr>) = histories_bounded sd"
  "histories_bounded (sd\<lparr>sx_low_diff_streak := x5\<rparr>) = histories_bounded sd"
  "histories_bounded (sd\<lparr>sx_shares_accepted := x6\<rparr>) = histories_bounded sd"
  "histories_bounded (sd\<lparr>sx_rejected_low_diff := x7\<rparr>) = histories_bounded sd"
  "histories_bounded (sd\<lparr>sx_rejected_job_not_found := x8\<rparr>) = histories_bounded sd"
  "histories_bounded (sd\<lparr>sx_rejected_other := x9\<rparr>) = histories_bounded sd"
  by (simp_all add: histories_bounded_def)

lemma bounded_rate: "histories_bounded sd \<Longrightarrow> histories_bounded (snd (rate_check now sd))"
  by (simp add: rate_check_def Let_def)

lemma bounded_count: "histories_bounded sd \<Longrightarrow> histories_bounded (count_session_reject cd sd)"
  by (simp add: count_session_reject_def)

lemma bounded_fresh:
  "histories_bounded ((fresh_session now wn addr port t vd)\<lparr>sx_diff_history := [a]\<rparr>)"
  by (simp add: histories_bounded_def fresh_session_def MAX_DIFF_HISTORY_def)

section \<open>The memory stays bounded\<close>

definition MAX_WORKER_CACHE :: nat where "MAX_WORKER_CACHE = 4097"

definition memory_bounded :: "validator \<Rightarrow> bool" where
  "memory_bounded v \<longleftrightarrow> list_all (\<lambda>(sid, sd). histories_bounded sd) (va_session_difficulty v)
     \<and> length (va_worker_cache v) \<le> MAX_WORKER_CACHE"

lemma memory_bounded_cong: "memory v' = memory v \<Longrightarrow> memory_bounded v' = memory_bounded v"
  by (simp add: memory_def memory_bounded_def)

lemma memory_bounded_frame [simp]:
  "memory_bounded (exec_db m v) = memory_bounded v"
  "memory_bounded (send sid msg v) = memory_bounded v"
  "memory_bounded (bump f v) = memory_bounded v"
  "memory_bounded (send_difficulty sid d t v) = memory_bounded v"
  "memory_bounded (reply_submit sid rid e v) = memory_bounded v"
  "memory_bounded (stamp_heartbeat m' v) = memory_bounded v"
  "memory_bounded (resolve_crumb c out v) = memory_bounded v"
  "memory_bounded (v\<lparr>va_stratum := st\<rparr>) = memory_bounded v"
  "memory_bounded (v\<lparr>va_db := s\<rparr>) = memory_bounded v"
  "memory_bounded (v\<lparr>va_tasks := ts\<rparr>) = memory_bounded v"
  "memory_bounded (v\<lparr>va_session_worker_id := ws\<rparr>) = memory_bounded v"
  by (rule memory_bounded_cong; simp)+

lemma memory_bounded_run_db: "run_db m v = (r, v') \<Longrightarrow> memory_bounded v' = memory_bounded v"
  by (rule memory_bounded_cong) (rule memory_run_db)

lemma memory_bounded_run_rpc: "run_rpc f vw = (r, v', w') \<Longrightarrow> memory_bounded v' = memory_bounded (fst vw)"
  by (rule memory_bounded_cong) (rule memory_run_rpc)

lemma list_all_update:
  "list_all (\<lambda>(k, x). P x) xs \<Longrightarrow> P y \<Longrightarrow> list_all (\<lambda>(k, x). P x) (AList.update k y xs)"
  by (induction xs) auto

lemma list_all_delete: "list_all P xs \<Longrightarrow> list_all P (AList.delete k xs)"
  by (simp add: list_all_iff AList.delete_eq)

lemma bounded_set:
  "memory_bounded v \<Longrightarrow> histories_bounded sd \<Longrightarrow> memory_bounded (set_session sid sd v)"
  by (simp add: memory_bounded_def set_session_def list_all_update)

lemma bounded_get: "memory_bounded v \<Longrightarrow> session_of v sid = Some sd \<Longrightarrow> histories_bounded sd"
  by (auto simp: memory_bounded_def session_of_def list_all_iff dest: map_of_SomeD)

lemma bounded_alter:
  "memory_bounded v \<Longrightarrow> (\<And>sd. histories_bounded sd \<Longrightarrow> histories_bounded (f sd)) \<Longrightarrow>
     memory_bounded (alter_session sid f v)"
  by (auto simp: alter_session_def bounded_set bounded_get split: option.split)

lemmas bounded_rules = bounded_set bounded_get bounded_alter bounded_push bounded_rate bounded_count

lemma bounded_apply_retarget: "memory_bounded v \<Longrightarrow> memory_bounded (apply_retarget E now sid d reason v)"
  by (auto simp: apply_retarget_def Let_def intro!: bounded_alter bounded_push split: option.split)

lemma bounded_retarget_with:
  "memory_bounded v \<Longrightarrow> memory_bounded (retarget_with f E now sid v)"
  by (auto simp: retarget_with_def Let_def bounded_get
      intro!: bounded_apply_retarget bounded_set split: option.split prod.split)

lemma bounded_check_rate: "memory_bounded v \<Longrightarrow> memory_bounded (snd (check_rate now sid v))"
  using bounded_rate [of _ now]
  by (auto simp: check_rate_def bounded_get intro!: bounded_set split: option.split prod.split)
     (metis bounded_get snd_conv)

lemma bounded_check_replay: "memory_bounded v \<Longrightarrow> memory_bounded (snd (check_replay sid fp v))"
  by (auto simp: check_replay_def intro: bounded_rules split: option.split)

lemma length_update_le: "length (AList.update k x xs) \<le> Suc (length xs)"
  by (induction xs) auto

lemma length_update_known: "map_of xs k = Some y \<Longrightarrow> length (AList.update k x xs) = length xs"
  by (induction xs) auto

lemma bounded_cache_new:
  "memory_bounded v \<Longrightarrow>
   memory_bounded (cache_worker key e (if 4096 < length (va_worker_cache v) then v\<lparr>va_worker_cache := []\<rparr> else v))"
  using length_update_le [of key e "va_worker_cache v"]
  by (simp add: cache_worker_def memory_bounded_def MAX_WORKER_CACHE_def)

lemma bounded_cache_known:
  "memory_bounded v \<Longrightarrow> map_of (va_worker_cache v) key = Some x \<Longrightarrow> memory_bounded (cache_worker key e v)"
  by (simp add: cache_worker_def memory_bounded_def length_update_known)

lemma bounded_resolve_worker:
  assumes "memory_bounded v"
  shows "memory_bounded (snd (resolve_worker E now sid wn v))"
proof (cases "map_of (va_worker_cache v) (sid, wn)")
  case None
  obtain r v' where run: "run_db (look_up_worker wn) v = (r, v')" by (rule prod.exhaust)
  then have "memory_bounded v'" using assms memory_bounded_run_db by metis
  then show ?thesis
    using bounded_cache_new [of v' "(sid, wn)"] None run
    by (cases r) (auto simp: resolve_worker_def Let_def)
next
  case (Some e)
  then show ?thesis using assms
    by (cases e) (simp add: resolve_worker_def Let_def bounded_cache_known exec_db_def')
qed

section \<open>Operations of the outside leave the memory alone\<close>

lemma memory_latest_block_time: "latest_block_time v = (t, v') \<Longrightarrow> memory v' = memory v"
  by (auto simp: latest_block_time_def dest: memory_run_db split: prod.splits sum.splits list.splits)

lemma memory_block_fate: "block_fate E h hs bx vw = (fate, v', w') \<Longrightarrow> memory v' = memory (fst vw)"
  by (auto simp: block_fate_def dest!: memory_run_rpc split: prod.splits sum.splits)

lemma memory_record_won_block:
  "record_won_block h hs r a wk crumb v = (found, v') \<Longrightarrow> memory v' = memory v"
  by (auto simp: record_won_block_def Let_def dest!: memory_run_db memory_latest_block_time
      split: prod.splits sum.splits)

lemma memory_win_block: "win_block E job jd wk vw = (found, v', w') \<Longrightarrow> memory v' = memory (fst vw)"
  by (auto simp: win_block_def Let_def dest!: memory_run_db memory_block_fate memory_record_won_block
      split: prod.splits sum.splits inclusion_check.splits)

lemma memory_update_luck: "update_luck E t vw = (v', w') \<Longrightarrow> memory v' = memory (fst vw)"
  by (auto simp: update_luck_def dest!: memory_run_db memory_run_rpc
      split: prod.splits sum.splits option.splits if_splits)

lemma memory_run_post_task: "memory (fst (run_post_task E t vw)) = memory (fst vw)"
  by (auto simp: run_post_task_def dest!: memory_run_rpc memory_update_luck split: prod.splits)

section \<open>Every step keeps the bound\<close>

lemma bounded_credit_share:
  assumes "memory_bounded v" and "credit_share E m sid wn jid job jd (v, w) = (r, v', w')"
  shows "memory_bounded v'"
  using assms(2)
proof (cases rule: credit_share_cases)
  case (no_worker e)
  then show ?thesis using bounded_resolve_worker [OF assms(1)] by (metis snd_conv)
next
  case (not_recorded wid v1 e)
  then have "memory_bounded v1" using bounded_resolve_worker [OF assms(1)] by (metis snd_conv)
  then show ?thesis using memory_bounded_run_db [OF not_recorded(2)] by simp
next
  case (recorded wid v1 i v2 height)
  then have "memory_bounded v1" using bounded_resolve_worker [OF assms(1)] by (metis snd_conv)
  then have "memory_bounded v2" using memory_bounded_run_db [OF recorded(2)] by simp
  moreover have "memory v' = memory v2"
    using recorded(4) memory_win_block [of E job jd wid "(v2, w)" height v' w'] by (simp split: if_splits)
  ultimately show ?thesis using memory_bounded_cong by blast
qed

lemma bounded_validate_share:
  assumes "memory_bounded v" and "validate_share E m sid wn jid tm n1 n2 sol (v, w) = (r, v', w')"
  shows "memory_bounded v'"
  using assms(2)
proof (cases rule: validate_share_cases)
  case (replayed job nonce raw canonical e)
  then show ?thesis using bounded_check_replay [OF assms(1)] by (metis snd_conv)
next
  case (refused job nonce raw canonical e)
  then show ?thesis using bounded_check_replay [OF assms(1)] by (metis snd_conv)
next
  case (credited job nonce raw canonical v1 jd)
  then have "memory_bounded v1" using bounded_check_replay [OF assms(1)] by (metis snd_conv)
  then show ?thesis using credited(4) by (rule bounded_credit_share)
qed (simp add: assms(1))

lemma bounded_note_low_diff:
  assumes "memory_bounded v"
  shows "memory_bounded (note_low_diff E now sid v)"
proof (cases "session_of v sid")
  case (Some sd)
  then show ?thesis using assms bounded_get [OF assms Some]
    by (auto simp: note_low_diff_def reset_difficulty_def Let_def
        intro!: bounded_alter bounded_set bounded_push split: prod.split)
qed (simp add: note_low_diff_def assms)

lemma bounded_on_rejected:
  assumes "memory_bounded v"
  shows "memory_bounded (on_rejected E now sid rid e v)"
proof -
  have "memory_bounded (alter_session sid (count_session_reject (code e)) (bump (count_reject (code e)) v))"
    using assms by (intro bounded_alter bounded_count) simp_all
  then show ?thesis by (simp add: on_rejected_def Let_def bounded_note_low_diff)
qed

lemma bounded_on_accepted: "memory_bounded v \<Longrightarrow> memory_bounded (on_accepted E now sid rid forced v)"
  by (auto simp: on_accepted_def maybe_retarget_def force_retarget_session_def Let_def
      intro!: bounded_retarget_with bounded_alter)

lemma bounded_refuse_rate: "memory_bounded v \<Longrightarrow> memory_bounded (refuse_rate E now sid rid v)"
  by (auto simp: refuse_rate_def force_retarget_session_def Let_def intro!: bounded_retarget_with bounded_alter)

lemma bounded_on_share_submitted:
  assumes "memory_bounded (fst vw)"
  shows "memory_bounded (fst (on_share_submitted E m sid rid wn jid tm n1 n2 sol vw))"
proof -
  obtain rate v where cr: "check_rate (mo_now m) sid (fst vw) = (rate, v)" by (rule prod.exhaust)
  then have v: "memory_bounded v" using bounded_check_rate [OF assms] by (metis snd_conv)
  let ?v = "if rate = Rate_warn then bump (\<lambda>c. c\<lparr>ctr_rate_warn := ctr_rate_warn c + 1\<rparr>) v else v"
  obtain r v' w' where va: "validate_share E m sid wn jid tm n1 n2 sol (?v, snd vw) = (r, v', w')"
    by (rule prod_cases3)
  have "memory_bounded ?v" using v by simp
  then have "memory_bounded v'" using va by (rule bounded_validate_share)
  then show ?thesis
    using v va
    by (cases r) (simp_all add: on_share_submitted_def cr Let_def bounded_refuse_rate
        bounded_on_accepted bounded_on_rejected)
qed

lemma bounded_on_worker_connected:
  assumes "memory_bounded v"
  shows "memory_bounded (on_worker_connected E now sid wn pw addr port v)"
proof -
  obtain reg v1 where reg: "run_db (register_worker_and_get_difficulty (miner_part wn) (worker_part wn)) v
      = (reg, v1)" by (rule prod.exhaust)
  define v2 where "v2 = (case reg of Inl e \<Rightarrow> v1
      | Inr (wid, _) \<Rightarrow> v1\<lparr>va_session_worker_id := AList.update sid wid (va_session_worker_id v1)\<rparr>)"
  have v2: "memory_bounded v2"
    using assms memory_bounded_run_db [OF reg] by (simp add: v2_def split: sum.split prod.split)
  have "sx_diff_history (fresh_session now wn addr port t vd) = []" for t vd
    by (simp add: fresh_session_def)
  then show ?thesis
    unfolding on_worker_connected_def reg
    using bounded_set [OF v2] bounded_fresh
    by (auto simp: v2_def [symmetric] Let_def alter_set split: prod.split option.split)
qed

lemma bounded_on_session_disconnected: "memory_bounded v \<Longrightarrow> memory_bounded (on_session_disconnected sid v)"
  by (simp add: on_session_disconnected_def memory_bounded_def list_all_delete)

lemma bounded_step:
  assumes "memory_bounded (fst vw)"
  shows "memory_bounded (fst (step_validator E m st vw))"
proof (cases st)
  case (Event e)
  then show ?thesis using assms
    by (cases vw; cases e) (simp_all add: bounded_on_share_submitted bounded_on_worker_connected
        bounded_on_session_disconnected)
next
  case Snapshot_tick
  then show ?thesis using assms by (cases vw) (simp add: write_session_snapshots_def split: sum.split)
next
  case (Jobs_change jobs latest)
  then show ?thesis using assms by (cases vw) (simp add: memory_bounded_def)
next
  case (Task_runs n)
  then show ?thesis using assms
    by (cases vw) (simp add: memory_bounded_cong [OF memory_run_post_task])
qed

lemma bounded_run:
  "memory_bounded (fst vw) \<Longrightarrow> memory_bounded (fst (run_validator E steps vw))"
  by (induction E steps vw rule: run_validator.induct) (simp_all add: bounded_step)

section \<open>The replay memory over a run\<close>

definition fps_of :: "validator \<Rightarrow> string \<Rightarrow> u64 list option" where
  "fps_of v sid = map_option sx_recent_share_fps (session_of v sid)"

text \<open>Steps that neither register the session anew nor end it, and its submissions.\<close>

fun keeps_session :: "string \<Rightarrow> validator_step \<Rightarrow> bool" where
  "keeps_session sid (Event (WorkerConnected sid' wn pw addr port)) = (sid' \<noteq> sid)"
| "keeps_session sid (Event (SessionDisconnected sid')) = (sid' \<noteq> sid)"
| "keeps_session sid _ = True"

fun submits :: "string \<Rightarrow> validator_step \<Rightarrow> bool" where
  "submits sid (Event (ShareSubmitted sid' rid wn jid tm n1 n2 sol)) = (sid' = sid)"
| "submits sid _ = False"

lemma fps_memory: "memory v = memory v' \<Longrightarrow> fps_of v = fps_of v'"
  using session_of_memory [of v v'] by (simp add: fps_of_def fun_eq_iff)

lemma fps_frame [simp]:
  "fps_of (exec_db m v) = fps_of v"
  "fps_of (send sid msg v) = fps_of v"
  "fps_of (bump f v) = fps_of v"
  "fps_of (send_difficulty sid d t v) = fps_of v"
  "fps_of (reply_submit sid rid e v) = fps_of v"
  "fps_of (stamp_heartbeat m' v) = fps_of v"
  "fps_of (v\<lparr>va_stratum := st\<rparr>) = fps_of v"
  "fps_of (v\<lparr>va_session_worker_id := ws\<rparr>) = fps_of v"
  "fps_of (v\<lparr>va_tasks := ts\<rparr>) = fps_of v"
  by (rule fps_memory; simp)+

lemma fps_run_db: "run_db m v = (r, v') \<Longrightarrow> fps_of v' = fps_of v"
  by (rule fps_memory) (rule memory_run_db)

lemma fps_sessions: "va_session_difficulty v = va_session_difficulty v' \<Longrightarrow> fps_of v = fps_of v'"
  by (simp add: fps_of_def session_of_def fun_eq_iff)

lemma fps_set:
  "session_of v sid = Some sd \<Longrightarrow> sx_recent_share_fps sd' = sx_recent_share_fps sd \<Longrightarrow>
     fps_of (set_session sid sd' v) = fps_of v"
  by (auto simp: fps_of_def fun_eq_iff)

lemma fps_alter:
  "(\<And>sd. sx_recent_share_fps (f sd) = sx_recent_share_fps sd) \<Longrightarrow> fps_of (alter_session sid f v) = fps_of v"
  by (auto simp: alter_session_def fps_set split: option.split)

lemma fps_set_other: "sid' \<noteq> sid \<Longrightarrow> fps_of (set_session sid' sd v) sid = fps_of v sid"
  by (simp add: fps_of_def)

lemma fps_apply_retarget [simp]: "fps_of (apply_retarget E now sid d reason v) = fps_of v"
  by (simp add: apply_retarget_def Let_def fps_alter split: option.split)

lemma fps_retarget_with [simp]: "fps_of (retarget_with f E now sid v) = fps_of v"
  by (auto simp: retarget_with_def Let_def intro: fps_set split: option.split prod.split)

lemma fps_rate: "sx_recent_share_fps (snd (rate_check now sd)) = sx_recent_share_fps sd"
  by (simp add: rate_check_def Let_def)

lemma fps_check_rate: "check_rate now sid v = (st, v') \<Longrightarrow> fps_of v' = fps_of v"
  using fps_rate [of now] by (auto simp: check_rate_def split: option.splits prod.splits) (metis fps_set snd_conv)

lemma fps_note_low_diff [simp]: "fps_of (note_low_diff E now sid v) = fps_of v"
  by (auto simp: note_low_diff_def reset_difficulty_def Let_def alter_set intro!: fps_set
      split: option.split prod.split)

lemma fps_on_rejected [simp]: "fps_of (on_rejected E now sid rid e v) = fps_of v"
  by (simp add: on_rejected_def Let_def fps_alter count_session_reject_def)

lemma fps_on_accepted [simp]: "fps_of (on_accepted E now sid rid forced v) = fps_of v"
  by (simp add: on_accepted_def Let_def fps_alter maybe_retarget_def force_retarget_session_def)

lemma fps_refuse_rate [simp]: "fps_of (refuse_rate E now sid rid v) = fps_of v"
  by (simp add: refuse_rate_def Let_def fps_alter force_retarget_session_def)

lemma fps_credit_share:
  assumes "credit_share E m sid wn jid job jd (v, w) = (r, v', w')"
  shows "fps_of v' = fps_of v"
proof -
  have w: "resolve_worker E (mo_now m) sid wn v = (r', v1) \<Longrightarrow> fps_of v1 = fps_of v" for r' v1
    by (auto simp: resolve_worker_def Let_def cache_worker_def exec_db_def' dest!: fps_run_db
        intro: fps_sessions [THEN trans] split: option.splits prod.splits sum.splits if_splits)
  show ?thesis
    using assms
  proof (cases rule: credit_share_cases)
    case (recorded wid v1 i v2 height)
    have "memory v' = memory v2"
      using recorded(4) memory_win_block [of E job jd wid "(v2, w)" height v' w'] by (simp split: if_splits)
    then show ?thesis using w [OF recorded(1)] fps_run_db [OF recorded(2)] fps_memory by metis
  next
    case (not_recorded wid v1 e)
    then show ?thesis using w [OF not_recorded(1)] fps_run_db [OF not_recorded(2)] by simp
  qed (auto dest: w)
qed

lemma fps_check_replay:
  "check_replay sid fp v = (Inr u, v') \<Longrightarrow> fps_of v' sid = map_option (push_fp fp) (fps_of v sid)"
  "check_replay sid fp v = (Inl e, v') \<Longrightarrow> fps_of v' = fps_of v"
  "sid' \<noteq> sid \<Longrightarrow> check_replay sid fp v = (r, v') \<Longrightarrow> fps_of v' sid' = fps_of v sid'"
  by (auto simp: check_replay_def fps_of_def remember_fp_def push_fp_def split: option.splits if_splits)

text \<open>A submission of the session pushes at most one fingerprint; nothing else changes them.\<close>

definition pushes_le :: "nat \<Rightarrow> u64 list option \<Rightarrow> u64 list option \<Rightarrow> bool" where
  "pushes_le n a b \<longleftrightarrow> (\<exists>fps. length fps \<le> n \<and> b = map_option (replays.pushes fps) a)"

lemma pushes_append: "replays.pushes (xs @ ys) s = replays.pushes ys (replays.pushes xs s)"
  by (induction xs arbitrary: s) simp_all

lemma pushes_le_refl: "pushes_le n a a"
  unfolding pushes_le_def by (rule exI [of _ "[]"]) (cases a; simp)

lemma pushes_le_one: "pushes_le (Suc 0) a (map_option (push_fp fp) a)"
  unfolding pushes_le_def by (rule exI [of _ "[fp]"]) (cases a; simp)

lemma pushes_le_trans: "pushes_le n a b \<Longrightarrow> pushes_le k b c \<Longrightarrow> pushes_le (n + k) a c"
proof (unfold pushes_le_def, elim exE conjE)
  fix xs ys assume "length xs \<le> n" "b = map_option (replays.pushes xs) a" "length ys \<le> k"
    "c = map_option (replays.pushes ys) b"
  then show "\<exists>fps. length fps \<le> n + k \<and> c = map_option (replays.pushes fps) a"
    by (intro exI [of _ "xs @ ys"]) (cases a; simp add: pushes_append)
qed

lemma fps_validate_share:
  assumes "validate_share E m sid wn jid tm n1 n2 sol (v, w) = (r, v', w')"
  shows "pushes_le 1 (fps_of v sid) (fps_of v' sid)" and "sid' \<noteq> sid \<Longrightarrow> fps_of v' sid' = fps_of v sid'"
proof -
  have "pushes_le 1 (fps_of v sid) (fps_of v' sid) \<and> (sid' \<noteq> sid \<longrightarrow> fps_of v' sid' = fps_of v sid')"
    using assms
  proof (cases rule: validate_share_cases)
    case (credited job nonce raw canonical v1 jd)
    have "fps_of v' = fps_of v1" using credited(4) by (rule fps_credit_share)
    then show ?thesis using fps_check_replay(1) [OF credited(2)] fps_check_replay(3) [OF _ credited(2)]
      by (simp add: pushes_le_one)
  next
    case (refused job nonce raw canonical e)
    then show ?thesis using fps_check_replay(1) [OF refused(2)] fps_check_replay(3) [OF _ refused(2)]
      by (simp add: pushes_le_one)
  qed (auto simp: pushes_le_refl dest: fps_check_replay(2))
  then show "pushes_le 1 (fps_of v sid) (fps_of v' sid)"
    and "sid' \<noteq> sid \<Longrightarrow> fps_of v' sid' = fps_of v sid'" by simp_all
qed

lemma fps_on_share_submitted:
  "pushes_le (if sid' = sid then 1 else 0) (fps_of (fst vw) sid')
     (fps_of (fst (on_share_submitted E m sid rid wn jid tm n1 n2 sol vw)) sid')"
proof -
  obtain rate v where cr: "check_rate (mo_now m) sid (fst vw) = (rate, v)" by (rule prod.exhaust)
  let ?v = "if rate = Rate_warn then bump (\<lambda>c. c\<lparr>ctr_rate_warn := ctr_rate_warn c + 1\<rparr>) v else v"
  obtain r v' w' where va: "validate_share E m sid wn jid tm n1 n2 sol (?v, snd vw) = (r, v', w')"
    by (rule prod_cases3)
  have "fps_of ?v = fps_of (fst vw)" using fps_check_rate [OF cr] by simp
  moreover note fps_validate_share(1) [OF va] fps_validate_share(2) [OF va, of sid']
  moreover have "fps_of (fst (on_share_submitted E m sid rid wn jid tm n1 n2 sol vw))
      = (if rate = Rate_reject then fps_of v else fps_of v')"
    using va by (cases r) (simp_all add: on_share_submitted_def cr Let_def)
  ultimately show ?thesis using fps_check_rate [OF cr] by (auto simp: pushes_le_refl)
qed

lemma fps_on_worker_connected:
  assumes "sid' \<noteq> sid"
  shows "fps_of (on_worker_connected E now sid wn pw addr port v) sid' = fps_of v sid'"
proof -
  obtain reg v1 where reg: "run_db (register_worker_and_get_difficulty (miner_part wn) (worker_part wn)) v
      = (reg, v1)" by (rule prod.exhaust)
  define v2 where "v2 = (case reg of Inl e \<Rightarrow> v1
      | Inr (wid, _) \<Rightarrow> v1\<lparr>va_session_worker_id := AList.update sid wid (va_session_worker_id v1)\<rparr>)"
  have v2: "fps_of v2 = fps_of v"
    using fps_run_db [OF reg] by (simp add: v2_def split: sum.split prod.split)
  show ?thesis
    unfolding on_worker_connected_def reg
    using v2 fps_set_other [OF assms [symmetric]]
    by (simp add: v2_def [symmetric] Let_def alter_set split: prod.split option.split)
qed

lemma fps_step:
  assumes "keeps_session sid st"
  shows "pushes_le (if submits sid st then 1 else 0) (fps_of (fst vw) sid) (fps_of (fst (step_validator E m st vw)) sid)"
proof (cases st)
  case (Event e)
  show ?thesis
  proof (cases e)
    case (ShareSubmitted sid' rid wn jid tm n1 n2 sol)
    then show ?thesis
      using Event fps_on_share_submitted [where sid' = sid and sid = sid' and m = m and E = E
          and vw = "(stamp_heartbeat m (fst vw), snd vw)"]
      by (cases vw) (simp add: eq_commute)
  next
    case (WorkerConnected sid' wn pw addr port)
    then show ?thesis using Event assms by (cases vw) (simp add: fps_on_worker_connected pushes_le_refl)
  next
    case (SessionDisconnected sid')
    then show ?thesis using Event assms
      by (cases vw) (simp add: on_session_disconnected_def fps_of_def session_of_def AList.delete_conv'
          pushes_le_refl stamp_heartbeat_def)
  next
    case (TargetSuggested sid' t)
    then show ?thesis using Event by (cases vw) (simp add: pushes_le_refl)
  qed
next
  case Snapshot_tick
  then show ?thesis by (cases vw) (simp add: write_session_snapshots_def pushes_le_refl split: sum.split)
next
  case (Jobs_change jobs latest)
  then show ?thesis by (cases vw) (simp add: fps_of_def session_of_def pushes_le_refl)
next
  case (Task_runs n)
  then show ?thesis
    by (cases vw) (simp add: pushes_le_refl fps_memory [OF memory_run_post_task])
qed

lemma fps_run:
  assumes "list_all (\<lambda>(m, st). keeps_session sid st) steps"
  shows "pushes_le (length (filter (\<lambda>(m, st). submits sid st) steps)) (fps_of (fst vw) sid)
     (fps_of (fst (run_validator E steps vw)) sid)"
  using assms
proof (induction E steps vw rule: run_validator.induct)
  case (2 E m st steps vw)
  show ?case
    using pushes_le_trans [OF fps_step [of sid st vw E m] 2(1)] 2(2) by (simp split: if_splits)
qed (simp add: pushes_le_refl)

end
