(* ===== verification/Share_Effects.thy ===== *)
theory Share_Effects
  imports Share_Memory
begin

text \<open>
  What validating a share does to the database: one share row when it is accepted, no share,
  block or submission row when it is refused; and what an accepted share has proved.
\<close>

section \<open>The work tables\<close>

text \<open>The tables that record work; workers and miners are registered on the side.\<close>

definition work_rows :: "db \<Rightarrow> share_row list \<times> block_row list \<times> submission_row list" where
  "work_rows s = (shares s, blocks s, submissions s)"

lemma work_rows_no_faults: "no_faults_dep (\<lambda>s. work_rows s = X)"
  by (simp add: no_faults_dep_def work_rows_def)

lemma shares_no_faults: "no_faults_dep (\<lambda>s. shares s = X)"
  by (simp add: no_faults_dep_def)

lemma work_look_up: "keeps (\<lambda>s. work_rows s = X) (look_up_worker wn)"
  unfolding look_up_worker_def get_or_create_miner_def get_or_create_worker_def
  by (intro db_inv work_rows_no_faults)
    (auto simp: insert_or_ignore_miner_def insert_or_ignore_worker_def check_fk_def bump_id_def work_rows_def)

lemma work_touch: "keeps (\<lambda>s. work_rows s = X) (touch_worker wk)"
  unfolding touch_worker_def by (intro db_inv work_rows_no_faults) (simp add: work_rows_def)

lemma run_db_keeps: "keeps (\<lambda>s. f s = X) m \<Longrightarrow> run_db m v = (r, v') \<Longrightarrow> f (va_db v) = X \<Longrightarrow> f (va_db v') = X"
  by (cases "m (va_db v)") (auto simp: run_db_def keeps_def)

lemma exec_db_keeps: "keeps (\<lambda>s. f s = X) m \<Longrightarrow> f (va_db v) = X \<Longrightarrow> f (va_db (exec_db m v)) = X"
  by (simp add: exec_db_def' keeps_def)

lemma work_resolve_worker:
  assumes "resolve_worker E now sid wn v = (r, v')"
  shows "work_rows (va_db v') = work_rows (va_db v)"
  using assms run_db_keeps [OF work_look_up _ refl, of wn v] exec_db_keeps [OF work_touch refl]
  by (auto simp: resolve_worker_def Let_def cache_worker_def split: option.splits prod.splits sum.splits if_splits)

lemma record_share_ok:
  assumes "run_db (record_share wk jid d b sid) v = (Inr i, v')"
  shows "\<exists>row. shares (va_db v') = shares (va_db v) @ [row] \<and> sh_worker row = wk \<and> sh_job row = jid
    \<and> sh_difficulty row = d \<and> sh_is_block row = b \<and> sh_session row = Some sid"
  using assms
  by (auto simp: run_db_def record_share_def bind_real_def check_fk_def bump_id_def
      elim!: stmt_Inr split: prod.splits if_splits)

lemma stmt_failed_keeps:
  assumes "stmt f s = (Inl e, s')" and "no_faults_dep P" and "P s"
    and "\<And>t e t'. P t \<Longrightarrow> f t = (Inl e, t') \<Longrightarrow> P t'"
  shows "P s'"
  using assms no_faults_depD [OF assms(2,3)]
  by (auto simp: stmt_def tick_def split: prod.splits list.splits bool.splits)

lemma record_share_failed:
  assumes "run_db (record_share wk jid d b sid) v = (Inl e, v')"
  shows "work_rows (va_db v') = work_rows (va_db v)"
proof -
  have "record_share wk jid d b sid (va_db v) = (Inl e, va_db v')"
    using assms by (auto simp: run_db_def split: prod.splits)
  then show ?thesis
    unfolding record_share_def
    by (rule stmt_failed_keeps [OF _ work_rows_no_faults])
      (auto simp: check_fk_def split: option.splits if_splits)
qed

section \<open>A won block writes no share\<close>

lemma shares_keepI: "(\<And>s. shares (f s) = shares s) \<Longrightarrow> keeps (\<lambda>s. shares s = X) (modify f)"
  by (intro db_inv shares_no_faults) simp

lemma shares_ops:
  "keeps (\<lambda>s. shares s = X) (record_block h hs r a wk l)"
  "keeps (\<lambda>s. shares s = X) (record_block_submission h hs wk r a)"
  "keeps (\<lambda>s. shares s = X) (resolve_block_submission i out)"
  "keeps (\<lambda>s. shares s = X) (get_recent_blocks n)"
  unfolding record_block_def record_block_submission_def resolve_block_submission_def get_recent_blocks_def
  by (intro db_inv shares_no_faults; simp add: check_fk_def bump_id_def split: if_splits)+

lemmas shares_run = shares_ops [THEN run_db_keeps, rotated, OF refl]

lemma va_db_run_rpc: "run_rpc f vw = (r, v', w') \<Longrightarrow> va_db v' = va_db (fst vw)"
  by (auto simp: run_rpc_def split: prod.splits)

lemma shares_resolve_crumb: "shares (va_db (resolve_crumb crumb out v)) = shares (va_db v)"
  using exec_db_keeps [OF shares_ops(3)] by (auto simp: resolve_crumb_def split: option.split)

lemma shares_latest: "latest_block_time v = (t, v') \<Longrightarrow> shares (va_db v') = shares (va_db v)"
  by (auto simp: latest_block_time_def dest!: shares_run split: prod.splits sum.splits list.splits)

lemma shares_record_won:
  "record_won_block h hs r a wk crumb v = (found, v') \<Longrightarrow> shares (va_db v') = shares (va_db v)"
  by (auto simp: record_won_block_def Let_def shares_resolve_crumb dest!: shares_run shares_latest
      split: prod.splits sum.splits)

lemma db_block_fate: "block_fate E h hs bx vw = (fate, v', w') \<Longrightarrow> va_db v' = va_db (fst vw)"
  by (auto simp: block_fate_def dest!: va_db_run_rpc split: prod.splits sum.splits)

lemma shares_win_block: "win_block E job jd wk vw = (found, v', w') \<Longrightarrow> shares (va_db v') = shares (va_db (fst vw))"
  by (auto simp: win_block_def Let_def shares_resolve_crumb dest!: shares_run db_block_fate shares_record_won
      split: prod.splits sum.splits inclusion_check.splits)

section \<open>Crediting\<close>

lemma check_replay_db: "check_replay sid fp v = (r, v') \<Longrightarrow> va_db v' = va_db v"
  by (auto simp: check_replay_def set_session_def split: option.splits if_splits)

lemma credit_share_failed:
  assumes "credit_share E m sid wn jid job jd (v, w) = (Inl e, v', w')"
  shows "work_rows (va_db v') = work_rows (va_db v)"
  using assms
proof (cases rule: credit_share_cases)
  case (not_recorded wid v1 e)
  then show ?thesis using work_resolve_worker record_share_failed by metis
qed (auto dest: work_resolve_worker)

lemma credit_share_ok:
  assumes "credit_share E m sid wn jid job jd (v, w) = (Inr r, v', w')"
  shows "\<exists>row. shares (va_db v') = shares (va_db v) @ [row] \<and> sh_job row = jid
    \<and> sh_difficulty row = jd_difficulty jd \<and> sh_is_block row = jd_is_block jd \<and> sh_session row = Some sid"
  using assms
proof (cases rule: credit_share_cases)
  case (recorded wid v1 i v2 height)
  have "shares (va_db v1) = shares (va_db v)"
    using work_resolve_worker [OF recorded(1)] by (simp add: work_rows_def)
  moreover have "shares (va_db v') = shares (va_db v2)"
    using recorded(4) shares_win_block [of E job jd wid "(v2, w)" height v' w'] by (simp split: if_splits)
  ultimately show ?thesis using record_share_ok [OF recorded(2)] by auto
qed simp_all

section \<open>What a judged share has shown\<close>

lemma decode_solution_ok:
  assumes "decode_solution H s = Inr (raw, canonical)"
  shows "length raw = RAW_SOLUTION_SIZE" and "canonical = compact_size RAW_SOLUTION_SIZE @ raw"
  using assms
  by (auto simp: decode_solution_def canonical_solution_def res_bind_Inr_iff split: option.splits if_splits)

lemma submitted_form_ok:
  assumes "submitted_form H jobs jid n1 n2 sol = Inr (job, nonce, raw, canonical)"
  shows "map_of jobs jid = Some job" and "hx_decode H (n1 @ n2) = Some nonce" and "length nonce = 32"
    and "length raw = RAW_SOLUTION_SIZE" and "canonical = compact_size RAW_SOLUTION_SIZE @ raw"
  using assms decode_solution_ok [of H sol raw canonical]
  by (auto simp: submitted_form_def res_bind_Inr_iff ok_or_Inr_iff decode_nonce_def
      split: option.splits if_splits)

lemma match_grace_Some:
  "match_grace now h gts = Some d \<Longrightarrow>
   \<exists>gt \<in> set gts. elapsed now (gt_set_at gt) \<le> GRACE_TARGET_MAX_AGE \<and> meets_target h (gt_target gt)
     \<and> d = gt_difficulty gt"
  by (induction gts) (auto split: if_splits)

lemma credited_difficulty_ok:
  assumes "credited_difficulty now h t c gts = Inr d"
  shows "meets_target h t \<and> d = c
    \<or> (\<exists>gt \<in> set gts. elapsed now (gt_set_at gt) \<le> GRACE_TARGET_MAX_AGE \<and> meets_target h (gt_target gt)
         \<and> d = gt_difficulty gt)"
  using assms match_grace_Some [of now h "rev gts" d]
  by (auto simp: credited_difficulty_def ok_or_Inr_iff split: if_splits)

lemma judge_share_ok:
  assumes "judge_share E m (t, c, gts) job tm nonce raw canonical = Inr jd"
  shows "\<exists>input. check_ntime job tm (mo_unix_secs m) = Inr ()
    \<and> build_header_input (en_hex E) job tm = Inr input
    \<and> jd_header jd = input @ nonce @ canonical \<and> jd_hash jd = sha256d (en_hashes E) (jd_header jd)
    \<and> credited_difficulty (mo_now m) (jd_hash jd) t c gts = Inr (jd_difficulty jd)
    \<and> en_equihash E input nonce raw = None"
  using assms
  by (auto simp: judge_share_def Let_def res_bind_Inr_iff check_equihash_def split: option.splits)

lemma ntime_window:
  assumes "check_ntime job tm secs = Inr ()"
  shows "\<exists>n. u32_from_str_radix16 tm = Some n
    \<and> ucast (bt_curtime (mj_template job)) \<le> swap_bytes32 n
    \<and> swap_bytes32 n \<le> saturating_add32
        (case secs of None \<Rightarrow> ucast (bt_curtime (mj_template job)) | Some s \<Rightarrow> ucast s) 90"
  using assms by (auto simp: check_ntime_def Let_def split: option.splits if_splits)

section \<open>The rows of one submission\<close>

lemma refused_share_rows:
  assumes "validate_share E m sid wn jid tm n1 n2 sol (v, w) = (Inl e, v', w')"
  shows "work_rows (va_db v') = work_rows (va_db v)"
  using assms
proof (cases rule: validate_share_cases)
  case (credited job nonce raw canonical v1 jd)
  then show ?thesis using credit_share_failed [OF credited(4)] check_replay_db [OF credited(2)] by simp
qed (auto dest: check_replay_db)

lemma accepted_share_row:
  assumes "validate_share E m sid wn jid tm n1 n2 sol (v, w) = (Inr r, v', w')"
  shows "\<exists>row. shares (va_db v') = shares (va_db v) @ [row]"
  using assms
proof (cases rule: validate_share_cases)
  case (credited job nonce raw canonical v1 jd)
  then show ?thesis using credit_share_ok [OF credited(4)] check_replay_db [OF credited(2)] by auto
qed simp_all

end
