(* ===== verification/Share_Properties.thy ===== *)
theory Share_Properties
  imports Share_Effects
begin

text \<open>
  Properties of share validation: what an accepted share has shown, that a refused one leaves
  no trace in the books, that the memory is bounded and replays are refused within it; and
  the two holes that the model exhibits.
\<close>

section \<open>A concrete validator\<close>

text \<open>
  Toy third-party functions for the concrete runs: \<open>S\<close> and \<open>N\<close> are the hexadecimal text of an
  all-zero solution and nonce, \<open>T\<close> of the empty (zero) network target, anything else of the
  easiest target; every header hashes to 1.
\<close>

definition toy_hex :: hexlib where
  "toy_hex = \<lparr>hx_encode = (\<lambda>bs. ''E''),
     hx_decode = (\<lambda>s. if s = ''S'' then Some (replicate 1344 0) else if s = ''N'' then Some (replicate 32 0)
       else if s = ''T'' then Some [] else Some (replicate 32 255))\<rparr>"

definition one_hash :: hashes where
  "one_hash = \<lparr>hs_sha256 = (\<lambda>d. 1 # replicate 31 0), hs_blake2b_256 = (\<lambda>p d. replicate 32 0)\<rparr>"

definition toy_share_env :: "script share_env" where
  "toy_share_env = \<lparr>en_hex = toy_hex, en_hashes = one_hash, en_equihash = (\<lambda>i n s. None),
     en_fingerprint = (\<lambda>j n s. 7), en_transport = scripted, en_serde = body_serde,
     en_agg = \<lparr>ag_sum = (\<lambda>xs. Fin 0), ag_avg = (\<lambda>xs. Fin 0)\<rparr>, en_sqlx_text = (\<lambda>e. ''sqlx''),
     en_snapshots_json = (\<lambda>ss. Inr ''[]'')\<rparr>"

definition toy_template :: block_template where
  "toy_template = \<lparr>bt_version = 4, bt_previousblockhash = ''p'', bt_lightclientroothash = None,
     bt_blockcommitmentshash = None, bt_finalsaplingroothash = None, bt_defaultroots = None,
     bt_transactions = [], bt_coinbasetxn = None, bt_target = ''T'', bt_mintime = 0, bt_curtime = 0,
     bt_bits = ''b'', bt_height = 9, bt_capabilities = [], bt_mutable = [], bt_noncerange = None,
     bt_sigoplimit = None, bt_sizelimit = None, bt_longpollid = None\<rparr>"

definition toy_job :: mining_job where
  "toy_job = \<lparr>mj_job_id = ''1'', mj_template = toy_template, mj_version_hex = ''v'', mj_prev_hash_hex = ''p'',
     mj_merkle_root_hex = ''m'', mj_reserved_hex = ''r'', mj_time_hex = ''0'', mj_bits_hex = ''b''\<rparr>"

definition toy_moment :: moment where
  "toy_moment = \<lparr>mo_now = 10 ^ 10, mo_unix_secs = Some 50, mo_unix_ms = 50000\<rparr>"

definition toy_config :: vardiff_config where
  "toy_config = \<lparr>vc_initial_difficulty = Fin 1, vc_target_shares_per_minute = Fin 30,
     vc_retarget_interval_secs = Fin 60\<rparr>"

definition toy_session :: session_difficulty where
  "toy_session = fresh_session 0 ''t1.rig'' ''1.2.3.4'' 3333 (replicate 32 255) (vardiff_new (Fin 30) (Fin 60) (Fin 1) 0)"

definition toy_validator :: validator where
  "toy_validator = set_session ''s'' toy_session
     (validator_new 0 (empty_db True 1000 []) (new_server \<lparr>nonce1_size = 4, na_counter = 0\<rparr> None)
       [(''1'', toy_job)] (pplns_new 10 (Fin 0) Pplns) (replicate 32 255) toy_config Map.empty None
       (client_new ''u'') (Fin 8192) no_counts)"

definition no_node :: script where
  "no_node = \<lparr>sc_replies = [], sc_requests = [], sc_slept = 0\<rparr>"

section \<open>Accepted and refused shares\<close>

text \<open>A share earns a difficulty: the session's own when it meets its target, or that of a
  replaced target which is at most a minute old.\<close>

definition earns :: "nanos \<Rightarrow> bytes \<times> f64 \<times> grace_target list \<Rightarrow> bytes \<Rightarrow> f64 \<Rightarrow> bool" where
  "earns now view h d \<longleftrightarrow> (case view of (t, current, graces) \<Rightarrow>
     meets_target h t \<and> d = current
     \<or> (\<exists>gt \<in> set graces. elapsed now (gt_set_at gt) \<le> GRACE_TARGET_MAX_AGE
          \<and> meets_target h (gt_target gt) \<and> d = gt_difficulty gt))"

lemma session_view_replay:
  "check_replay sid fp v = (Inr u, v1) \<Longrightarrow> session_view v1 sid = session_view v sid"
  by (auto simp: check_replay_def session_view_def remember_fp_def split: option.splits if_splits)

text \<open>
  C1: An accepted share is work: its job is known, nonce and raw solution have their sizes, the
  time lies between the template's and 90 seconds from now, Equihash accepts the solution for
  the header input, and the double SHA-256 of the canonical header meets the session's target
  (credited at the session's difficulty) or a target replaced at most a minute ago (credited
  at that one's).  Exactly one share row is written, for that job, session and difficulty.
\<close>

theorem accepted_share_is_work:
  assumes "validate_share E m sid wn jid tm n1 n2 sol (v, w) = (Inr r, v', w')"
  shows "\<exists>job nonce raw input n d row. map_of (va_jobs v) jid = Some job
     \<and> hx_decode (en_hex E) (n1 @ n2) = Some nonce \<and> length nonce = 32 \<and> length raw = 1344
     \<and> u32_from_str_radix16 tm = Some n
     \<and> (let curtime = ucast (bt_curtime (mj_template job)) in
          curtime \<le> swap_bytes32 n
          \<and> swap_bytes32 n \<le> saturating_add32 (case mo_unix_secs m of None \<Rightarrow> curtime | Some s \<Rightarrow> ucast s) 90)
     \<and> build_header_input (en_hex E) job tm = Inr input \<and> en_equihash E input nonce raw = None
     \<and> earns (mo_now m) (session_view v sid)
         (sha256d (en_hashes E) (input @ nonce @ compact_size 1344 @ raw)) d
     \<and> shares (va_db v') = shares (va_db v) @ [row]
     \<and> sh_job row = jid \<and> sh_session row = Some sid \<and> sh_difficulty row = d"
  using assms
proof (cases rule: validate_share_cases)
  case (credited job nonce raw canonical v1 jd)
  obtain t c gts where view: "session_view v sid = (t, c, gts)" by (rule prod_cases3)
  note form = submitted_form_ok [OF credited(1), unfolded RAW_SOLUTION_SIZE_def]
  note jd = judge_share_ok [OF credited(3) [unfolded session_view_replay [OF credited(2)] view]]
  then obtain input where input: "build_header_input (en_hex E) job tm = Inr input"
    "jd_header jd = input @ nonce @ canonical" "en_equihash E input nonce raw = None"
    and judged: "jd_hash jd = sha256d (en_hashes E) (jd_header jd)"
    "credited_difficulty (mo_now m) (jd_hash jd) t c gts = Inr (jd_difficulty jd)" by blast
  obtain n where n: "u32_from_str_radix16 tm = Some n"
    "ucast (bt_curtime (mj_template job)) \<le> swap_bytes32 n"
    "swap_bytes32 n \<le> saturating_add32
       (case mo_unix_secs m of None \<Rightarrow> ucast (bt_curtime (mj_template job)) | Some s \<Rightarrow> ucast s) 90"
    using ntime_window jd by blast
  have "earns (mo_now m) (session_view v sid) (sha256d (en_hashes E) (input @ nonce @ compact_size 1344 @ raw))
      (jd_difficulty jd)"
    using credited_difficulty_ok [OF judged(2)] judged(1) input(2) form(5) by (simp add: earns_def view)
  moreover obtain row where "shares (va_db v') = shares (va_db v) @ [row]" "sh_job row = jid"
    "sh_session row = Some sid" "sh_difficulty row = jd_difficulty jd"
    using credit_share_ok [OF credited(4)] check_replay_db [OF credited(2)] by auto
  ultimately show ?thesis
    using form n input by (simp add: Let_def) blast
qed simp_all

text \<open>
  C18: A refused share leaves no trace in the books: whatever the reason (malformed, unknown job,
  replay, time, target, Equihash, database), no share, block or submission row is written.
\<close>

theorem refused_share_writes_nothing:
  assumes "validate_share E m sid wn jid tm n1 n2 sol (v, w) = (Inl e, v', w')"
  shows "shares (va_db v') = shares (va_db v) \<and> blocks (va_db v') = blocks (va_db v)
     \<and> submissions (va_db v') = submissions (va_db v)"
  using refused_share_rows [OF assms] by (simp add: work_rows_def)

text \<open>
  The validator's memory is bounded on every run, whatever the miners send: each session
  keeps at most 8 grace targets, 50 adjustments and 1024 fingerprints, and the worker cache at
  most 4097 entries.
\<close>

theorem session_memory_bounded:
  assumes "va_session_difficulty v = []" and "va_worker_cache v = []"
    and "run_validator E steps (v, w) = (v', w')" and "session_of v' sid = Some sd"
  shows "length (sx_recent_targets sd) \<le> 8 \<and> length (sx_diff_history sd) \<le> 50
     \<and> length (sx_recent_share_fps sd) \<le> 1024 \<and> length (va_worker_cache v') \<le> 4097"
proof -
  have "memory_bounded v" using assms(1,2) by (simp add: memory_bounded_def)
  then have "memory_bounded v'" using bounded_run [of "(v, w)" E steps] assms(3) by simp
  then show ?thesis
    using bounded_get [OF _ assms(4)]
    by (simp add: histories_bounded_def memory_bounded_def GRACE_TARGET_HISTORY_def MAX_DIFF_HISTORY_def
        SHARE_DEDUP_HISTORY_def MAX_WORKER_CACHE_def)
qed

text \<open>
  C2: A credited share is not credited again within the window: while its session lasts and is
  not registered anew, and fewer than 1024 of its submissions are handled in between, a
  submission with the same job id, nonce and raw solution (in whatever encoding, padding or
  time) is refused as a duplicate, and the books stay as they are.
\<close>

theorem replay_refused_within_window:
  assumes "memory_bounded v" and "session_of v sid \<noteq> None"
    and form: "submitted_form (en_hex E) (va_jobs v) jid n1 n2 sol = Inr (job, nonce, raw, canonical)"
    and first: "validate_share E m sid wn jid tm n1 n2 sol (v, w) = (Inr r, v1, w1)"
    and run: "run_validator E steps (v1, w1) = (v2, w2)"
    and quiet: "list_all (\<lambda>(m, st). keeps_session sid st) steps"
    and few: "length (filter (\<lambda>(m, st). submits sid st) steps) < 1024"
    and again: "submitted_form (en_hex E) (va_jobs v2) jid n1' n2' sol' = Inr (job', nonce, raw, canonical')"
  shows "validate_share E m' sid wn' jid tm' n1' n2' sol' (v2, w2) = (Inl duplicate_share, v2, w2)"
proof -
  let ?fp = "en_fingerprint E jid nonce raw"
  obtain fps where fps: "fps_of v sid = Some fps" "length fps \<le> SHARE_DEDUP_HISTORY"
    using assms(2) bounded_get [OF assms(1)] by (auto simp: fps_of_def histories_bounded_def)
  have "fps_of v1 sid = Some (push_fp ?fp fps)"
    using first
  proof (cases rule: validate_share_cases)
    case (credited job' nonce' raw' canonical' v0 jd)
    then have "fps_of v1 = fps_of v0" "check_replay sid ?fp v = (Inr (), v0)"
      using fps_credit_share form by auto
    then show ?thesis using fps_check_replay(1) fps(1) by fastforce
  qed simp_all
  moreover have "pushes_le (length (filter (\<lambda>(m, st). submits sid st) steps)) (fps_of v1 sid) (fps_of v2 sid)"
    using fps_run [OF quiet, of "(v1, w1)" E] run by simp
  ultimately obtain later where "length later \<le> length (filter (\<lambda>(m, st). submits sid st) steps)"
    and later2: "fps_of v2 sid = Some (replays.pushes (?fp # later) fps)"
    by (auto simp: pushes_le_def)
  then have later1: "length later < 1024" using few by simp
  have "?fp \<in> set (replays.pushes (?fp # later) fps)"
    using replays.recent_kept [OF fps(2), of later ?fp] later1 by (simp add: SHARE_DEDUP_HISTORY_def)
  then have "check_replay sid ?fp v2 = (Inl duplicate_share, v2)"
    using later2 by (auto simp: fps_of_def check_replay_def)
  then show ?thesis using again by (simp add: validate_share_def)
qed

section \<open>Two holes\<close>


text \<open>
  The time of a share is checked as a number but hashed as text: eight leading zeros change
  neither its value nor the verdict of the time window, and lengthen the block header by four
  bytes.  Such a share passes for work, though the block it might solve cannot be a block.
\<close>

theorem padded_time_lengthens_header:
  assumes "tm \<noteq> []" and "hd tm \<noteq> CHR ''+''" and "check_ntime job tm secs = Inr ()"
    and "build_header_input H job tm = Inr input" and "hx_decode H tm = Some b"
    and "hx_decode H (''00000000'' @ tm) = Some ([0, 0, 0, 0] @ b)"
  shows "check_ntime job (''00000000'' @ tm) secs = Inr ()
     \<and> (\<exists>input'. build_header_input H job (''00000000'' @ tm) = Inr input' \<and> length input' = length input + 4)"
proof -
  have zeros: "parse_digits16 0 (''00000000'' @ s) = parse_digits16 0 s" for s
    unfolding parse_digits16_append by (simp add: hex_value_def)
  have "u32_from_str_radix16 (''00000000'' @ tm) = map_option of_nat (parse_digits16 0 (''00000000'' @ tm))"
    by (simp add: u32_from_str_radix16_def)
  also have "\<dots> = u32_from_str_radix16 tm"
    unfolding zeros using assms(1,2) by (cases tm) (simp_all add: u32_from_str_radix16_def)
  finally have "u32_from_str_radix16 (''00000000'' @ tm) = u32_from_str_radix16 tm" .
  then have "check_ntime job (''00000000'' @ tm) secs = check_ntime job tm secs"
    unfolding check_ntime_def by simp
  then show ?thesis
    using assms(3-6) by (auto simp: build_header_input_def decode_field_def res_bind_Inr_iff)
qed

section \<open>Witnesses\<close>

text \<open>The submission of the witnesses, and its crediting once form and header are judged.\<close>

lemma toy_form: "submitted_form toy_hex [(''1'', toy_job)] ''1'' ''N'' '''' ''S''
   = Inr (toy_job, replicate 32 0, replicate 1344 0, compact_size 1344 @ replicate 1344 0)"
  by (simp add: submitted_form_def decode_nonce_def decode_solution_def canonical_solution_def toy_hex_def
      RAW_SOLUTION_SIZE_def)

lemma toy_header: "\<exists>input. build_header_input toy_hex toy_job ''0'' = Inr input"
  by (simp add: build_header_input_def decode_field_def toy_hex_def toy_job_def)

lemma toy_time: "check_ntime toy_job ''0'' (Some 50) = Inr ()" by code_simp

lemma toy_target: "network_target toy_hex toy_job = Inr (replicate 32 0)"
  by (simp add: network_target_def parse_target_def toy_hex_def toy_job_def toy_template_def)

lemma toy_meets: "meets_target (1 # replicate 31 0) (replicate 32 255)" "\<not> meets_target (1 # replicate 31 0) (replicate 32 0)"
 by code_simp+

lemma toy_judge:
  assumes "session_view v ''s'' = (replicate 32 255, Fin 1, gts)"
  shows "\<exists>header. judge_share toy_share_env toy_moment (session_view v ''s'') toy_job ''0'' nonce raw canonical
   = Inr \<lparr>jd_header = header, jd_hash = 1 # replicate 31 0, jd_difficulty = Fin 1, jd_is_block = False\<rparr>"
proof -
  obtain input where "build_header_input toy_hex toy_job ''0'' = Inr input" using toy_header by blast
  then show ?thesis using assms toy_meets toy_time toy_target
   by (simp add: judge_share_def Let_def toy_share_env_def toy_moment_def sha256d_def one_hash_def
     credited_difficulty_def check_equihash_def)
qed

definition toy_judged :: judged where
  "toy_judged = \<lparr>jd_header = [], jd_hash = [], jd_difficulty = Fin 1, jd_is_block = False\<rparr>"

definition toy_credit :: "validator \<Rightarrow> (stratum_error + share_result) \<times> validator \<times> script" where
  "toy_credit v = credit_share toy_share_env toy_moment ''s'' ''t1.rig'' ''1'' toy_job toy_judged (v, no_node)"

lemma credit_share_cong:
  assumes "\<not> jd_is_block jd" and "\<not> jd_is_block jd'" and "jd_difficulty jd = jd_difficulty jd'"
  shows "credit_share E m sid wn jid job jd vw = credit_share E m sid wn jid job jd' vw"
  using assms by (simp add: credit_share_def cong del: sum.case_cong_weak prod.case_cong_weak)

lemma toy_validate:
  assumes "va_jobs v = [(''1'', toy_job)]" and "session_of v ''s'' = Some sd"
    and "7 \<notin> set (sx_recent_share_fps sd)" and "sx_target sd = replicate 32 255"
    and "vd_current_difficulty (sx_vardiff sd) = Fin 1"
  shows "validate_share toy_share_env toy_moment ''s'' ''t1.rig'' ''1'' ''0'' ''N'' '''' ''S'' (v, no_node)
    = toy_credit (set_session ''s'' (remember_fp 7 sd) v)"
proof -
  have view: "session_view (set_session ''s'' (remember_fp 7 sd) v) ''s'' = (replicate 32 255, Fin 1, sx_recent_targets sd)"
    using assms(4,5) by (simp add: session_view_def remember_fp_def)
  have "check_replay ''s'' 7 v = (Inr (), set_session ''s'' (remember_fp 7 sd) v)"
    using assms(2,3) by (simp add: check_replay_def)
  moreover have "en_hex toy_share_env = toy_hex" "en_fingerprint toy_share_env = (\<lambda>j n s. 7)"
    by (simp_all add: toy_share_env_def)
  ultimately show ?thesis
    using toy_judge [OF view, of "replicate 32 0" "replicate 1344 0" "compact_size 1344 @ replicate 1344 0"]
    by (auto simp: validate_share_def assms(1) toy_form toy_credit_def toy_judged_def
       intro!: credit_share_cong)
qed

abbreviation toy_submit :: "validator \<Rightarrow> (stratum_error + share_result) \<times> validator \<times> script" where
  "toy_submit v \<equiv> validate_share toy_share_env toy_moment ''s'' ''t1.rig'' ''1'' ''0'' ''N'' '''' ''S'' (v, no_node)"

definition after_first :: validator where
  "after_first = fst (snd (toy_credit (set_session ''s'' (remember_fp 7 toy_session) toy_validator)))"

lemma toy_credit_world: "snd (snd (toy_credit v)) = no_node"
  by (simp add: toy_credit_def toy_judged_def credit_share_def Let_def split: sum.split prod.split)

lemma toy_first_credit:
  "toy_credit (set_session ''s'' (remember_fp 7 toy_session) toy_validator)
     = (Inr \<lparr>sr_is_block = False, sr_block_height = None\<rparr>, after_first, no_node)"
proof -
  have "fst (toy_credit (set_session ''s'' (remember_fp 7 toy_session) toy_validator))
      = Inr \<lparr>sr_is_block = False, sr_block_height = None\<rparr>" by code_simp
  then show ?thesis by (simp add: prod_eq_iff after_first_def toy_credit_world)
qed

lemma toy_known: "va_jobs toy_validator = [(''1'', toy_job)]" "session_of toy_validator ''s'' = Some toy_session"
  "sx_recent_share_fps toy_session = []" "sx_target toy_session = replicate 32 255"
  "vd_current_difficulty (sx_vardiff toy_session) = Fin 1" "shares (va_db toy_validator) = []"
  by (simp_all add: toy_validator_def validator_new_def set_session_def session_of_def toy_session_def
      fresh_session_def vardiff_new_def empty_db_def)

lemma toy_first: "toy_submit toy_validator = (Inr \<lparr>sr_is_block = False, sr_block_height = None\<rparr>, after_first, no_node)"
  using toy_validate [OF toy_known(1,2)] toy_known(3-5) toy_first_credit by simp

definition books :: "validator \<Rightarrow> (string \<times> string option) list" where
  "books v = map (\<lambda>r. (sh_job r, sh_session r)) (shares (va_db v))"

theorem accepted_share_is_work_witness: "books after_first = [(''1'', Some ''s'')]"
  using accepted_share_is_work [OF toy_first] toy_known(6) by (auto simp: books_def)

text \<open>A share for a job that does not exist.\<close>

theorem refused_share_writes_nothing_witness:
  "case validate_share toy_share_env toy_moment ''s'' ''t1.rig'' ''2'' ''0'' ''N'' '''' ''S'' (toy_validator, no_node) of
     (r, v', w') \<Rightarrow> r = Inl job_not_found \<and> shares (va_db v') = []"
proof -
  let ?r = "validate_share toy_share_env toy_moment ''s'' ''t1.rig'' ''2'' ''0'' ''N'' '''' ''S'' (toy_validator, no_node)"
  have r: "?r = (Inl job_not_found, toy_validator, no_node)"
    by (simp add: validate_share_def submitted_form_def toy_known)
  show ?thesis unfolding r using refused_share_writes_nothing [OF r] toy_known(6) by simp
qed

definition connect :: validator_step where
  "connect = Event (WorkerConnected ''s'' ''t1.rig'' ''x'' ''a'' 3333)"

theorem session_memory_bounded_witness:
  "case session_of (fst (run_validator toy_share_env [(toy_moment, connect), (toy_moment, Snapshot_tick)]
       (toy_validator\<lparr>va_session_difficulty := []\<rparr>, no_node))) ''s'' of
     None \<Rightarrow> False | Some sd \<Rightarrow> sx_recent_share_fps sd = [] \<and> length (sx_diff_history sd) \<le> 50"
proof -
  let ?v0 = "toy_validator\<lparr>va_session_difficulty := []\<rparr>"
  let ?run = "run_validator toy_share_env [(toy_moment, connect), (toy_moment, Snapshot_tick)] (?v0, no_node)"
  have "(case session_of (fst ?run) ''s'' of None \<Rightarrow> False | Some sd \<Rightarrow> sx_recent_share_fps sd = [])" by code_simp
  then obtain sd where sd: "session_of (fst ?run) ''s'' = Some sd" "sx_recent_share_fps sd = []"
    by (auto split: option.splits)
  obtain v' w' where run: "?run = (v', w')" by (rule prod.exhaust)
  have "va_worker_cache ?v0 = []" by (simp add: toy_validator_def validator_new_def set_session_def)
  from session_memory_bounded [OF _ this run] sd run show ?thesis by simp
qed

theorem replay_refused_within_window_witness:
  "case run_validator toy_share_env [(toy_moment, Event (TargetSuggested ''s'' ''t''))] (after_first, no_node) of
     (v2, w2) \<Rightarrow> toy_submit v2 = (Inl duplicate_share, v2, w2)"
proof -
  let ?steps = "[(toy_moment, Event (TargetSuggested ''s'' ''t''))]"
  obtain v2 w2 where run: "run_validator toy_share_env ?steps (after_first, no_node) = (v2, w2)" by (rule prod.exhaust)
  then have v2: "v2 = stamp_heartbeat toy_moment after_first" "w2 = no_node" by simp_all
  have jobs: "va_jobs after_first = [(''1'', toy_job)]" by code_simp
  have hex: "en_hex toy_share_env = toy_hex" by (simp add: toy_share_env_def)
  have bounded: "memory_bounded toy_validator"
    by (simp add: memory_bounded_def toy_validator_def validator_new_def set_session_def histories_bounded_def
        toy_session_def fresh_session_def)
  have jobs2: "va_jobs v2 = [(''1'', toy_job)]" using v2 jobs by (simp add: stamp_heartbeat_def)
  from replay_refused_within_window [OF bounded _ _ toy_first run, of toy_job "replicate 32 0" "replicate 1344 0"]
  show ?thesis using run toy_form jobs2 v2 by (simp add: toy_known hex)
qed

text \<open>The event of an authorize request of a session that is authorized already.\<close>

definition toy_miner :: miner_session where
  "toy_miner = snd (authorize_worker ''t1.rig'' ((new_session ''s'' ''N'')\<lparr>subscribed := True\<rparr>))"

definition toy_authorize :: "server \<times> miner_session \<times> server_message list" where
  "toy_authorize = handle_authorize (va_stratum toy_validator) toy_miner JNull ''t1.rig'' ''x'' ''a'' 3333"

definition re_registered :: validator where
  "re_registered = fst (handle_event toy_share_env toy_moment (last (srv_events (fst toy_authorize))) (after_first, no_node))"


theorem padded_time_lengthens_header_witness:
  "case build_header_input hex_ref (toy_job\<lparr>mj_version_hex := ''04'', mj_prev_hash_hex := ''01'', mj_merkle_root_hex := ''02'',
        mj_reserved_hex := ''03'', mj_bits_hex := ''05''\<rparr>) ''0000000000000000'' of
     Inl e \<Rightarrow> False | Inr input' \<Rightarrow> length input' = 9 + 4"
proof -
  let ?job = "toy_job\<lparr>mj_version_hex := ''04'', mj_prev_hash_hex := ''01'', mj_merkle_root_hex := ''02'',
        mj_reserved_hex := ''03'', mj_bits_hex := ''05''\<rparr>"
  have "check_ntime ?job ''00000000'' (Some 50) = Inr ()" by code_simp
  moreover have "build_header_input hex_ref ?job ''00000000'' = Inr [4, 1, 2, 3, 0, 0, 0, 0, 5]" by code_simp
  moreover have "hx_decode hex_ref ''00000000'' = Some [0, 0, 0, 0]"
    "hx_decode hex_ref (''00000000'' @ ''00000000'') = Some ([0, 0, 0, 0] @ [0, 0, 0, 0])" by code_simp+
  ultimately show ?thesis
    using padded_time_lengthens_header [of "''00000000''" ?job "Some 50" hex_ref "[4, 1, 2, 3, 0, 0, 0, 0, 5]"
      "[0, 0, 0, 0]"] by auto
qed

end
