(* ===== verification/Share_Blocks.thy ===== *)
theory Share_Blocks
  imports Share_Properties
begin

text \<open>
  Won blocks and replies: a block that the node did not refuse is recorded or left to the sweep
  at start-up, the sweep settles what was left, and every submission gets its answer.
\<close>

section \<open>Recorded and open blocks\<close>

definition recorded :: "string \<Rightarrow> db \<Rightarrow> bool" where
  "recorded hash s \<longleftrightarrow> list_ex (\<lambda>b. bk_hash b = hash) (blocks s)"

definition left_open :: "int \<Rightarrow> string \<Rightarrow> db \<Rightarrow> bool" where
  "left_open cid hash s \<longleftrightarrow> list_ex (\<lambda>r. su_id r = cid \<and> su_hash r = hash \<and> \<not> su_resolved r) (submissions s)"

text \<open>Recorded blocks stay, whatever the database does next.\<close>

lemma recorded_no_faults: "no_faults_dep (recorded hash)"
  by (simp add: no_faults_dep_def recorded_def)

lemma open_no_faults: "no_faults_dep (left_open cid hash)"
  by (simp add: no_faults_dep_def left_open_def)

lemma recorded_ops:
  "keeps (recorded hash) (resolve_block_submission i out)"
  "keeps (recorded hash) (get_recent_blocks n)"
  "keeps (recorded hash) (get_block_id_by_hash h)"
  "keeps (recorded hash) (record_block ht h rw a wk l)"
  unfolding resolve_block_submission_def get_recent_blocks_def get_block_id_by_hash_def record_block_def
  by (intro db_inv recorded_no_faults; simp add: recorded_def check_fk_def bump_id_def split: if_splits)+

lemma open_ops:
  "keeps (left_open cid hash) (get_recent_blocks n)"
  "keeps (left_open cid hash) (record_block ht h rw a wk l)"
  unfolding get_recent_blocks_def record_block_def
  by (intro db_inv open_no_faults; simp add: left_open_def check_fk_def bump_id_def split: if_splits)+

lemma record_block_ok:
  assumes "record_block ht h rw a wk l s = (Inr b, s')"
  shows "recorded h s'"
  using assms
  by (auto simp: record_block_def check_fk_def bump_id_def recorded_def elim!: stmt_Inr split: if_splits)

lemma submission_ok:
  assumes "record_block_submission ht h wk rw a s = (Inr cid, s')"
  shows "left_open cid h s'"
  using assms by (auto simp: record_block_submission_def bump_id_def left_open_def elim!: stmt_Inr)

lemma keeps_run: "keeps P m \<Longrightarrow> P (va_db v) \<Longrightarrow> run_db m v = (r, v') \<Longrightarrow> P (va_db v')"
  by (auto simp: run_db_def split: prod.splits dest: keepsD)

lemma run_db_res: "run_db m v = (r, v') \<Longrightarrow> m (va_db v) = (r, va_db v')"
  by (auto simp: run_db_def split: prod.splits)

text \<open>After recording, the block has its row; when that fails the submission stays open.\<close>

lemma record_won_block_cases:
  assumes "record_won_block ht h rw a wk crumb v = (found, v')" and "left_open cid h (va_db v)"
  shows "found = Some ht \<and> recorded h (va_db v') \<or> found = None \<and> left_open cid h (va_db v')"
proof -
  obtain since v1 where lt: "latest_block_time v = (since, v1)" by (rule prod.exhaust)
  have open1: "left_open cid h (va_db v1)"
    using lt assms(2) keeps_run [OF open_ops(1)]
    by (fastforce simp: latest_block_time_def split: prod.splits sum.splits list.splits)
  obtain r v2 where rb: "run_db (record_block ht h rw a wk None) v1 = (r, v2)" by (rule prod.exhaust)
  show ?thesis
  proof (cases r)
    case (Inl e)
    then show ?thesis using assms(1) keeps_run [OF open_ops(2) open1 rb] by (simp add: record_won_block_def lt rb)
  next
    case (Inr b)
    then have "recorded h (va_db v2)" using record_block_ok run_db_res [OF rb] by blast
    then have "recorded h (va_db (resolve_crumb crumb out v2))" for out
      using recorded_ops(1) by (auto simp: resolve_crumb_def exec_db_def' keeps_def split: option.split)
    then show ?thesis using assms(1) Inr by (auto simp: record_won_block_def lt rb Let_def)
  qed
qed

text \<open>
  C3: A won block is not lost: once the breadcrumb of a block is written, then whatever fails
  afterwards (any statement, or every statement from some point on, as in a crash), unless the
  node says that the block is not on its best chain, the block has its row or its breadcrumb is
  still open for the sweep.
\<close>

theorem won_block_recorded_or_open:
  assumes "assemble_full_block (en_hex E) (jd_header jd) (mj_template job) = Inr blk"
    and "run_db (record_block_submission (sint (bt_height (mj_template job)))
          (hx_encode (en_hex E) (jd_hash jd)) wk (compute_block_reward (sint (bt_height (mj_template job))))
          (Some (compute_block_reward (sint (bt_height (mj_template job))) + collected_fees (mj_template job)))) v
        = (Inr cid, v1)"
    and "fst (block_fate E (bt_height (mj_template job)) (hx_encode (en_hex E) (jd_hash jd))
          (hx_encode (en_hex E) blk) (v1, w)) \<noteq> Mismatch"
    and "win_block E job jd wk (v, w) = (found, v', w')"
  shows "recorded (hx_encode (en_hex E) (jd_hash jd)) (va_db v')
     \<or> left_open cid (hx_encode (en_hex E) (jd_hash jd)) (va_db v')"
proof -
  let ?h = "hx_encode (en_hex E) (jd_hash jd)" and ?b = "hx_encode (en_hex E) blk"
  obtain fate v2 w2 where fate: "block_fate E (bt_height (mj_template job)) ?h ?b (v1, w) = (fate, v2, w2)"
    by (rule prod_cases3)
  have "left_open cid ?h (va_db v1)" using submission_ok run_db_res [OF assms(2)] by blast
  then have open2: "left_open cid ?h (va_db v2)" using db_block_fate [OF fate] by simp
  show ?thesis
  proof (cases fate)
    case Verified
    then show ?thesis
      using assms(1,2,4) fate record_won_block_cases [OF _ open2]
      by (fastforce simp: win_block_def Let_def split: prod.splits)
  qed (use assms fate open2 in \<open>simp_all add: win_block_def Let_def\<close>)
qed

section \<open>The sweep\<close>

definition resolved_as :: "int \<Rightarrow> string \<Rightarrow> db \<Rightarrow> bool" where
  "resolved_as i out s \<longleftrightarrow> list_all (\<lambda>r. su_id r = i \<longrightarrow> su_resolved r \<and> su_outcome r = Some out) (submissions s)"

lemma recover_block_works:
  assumes "db_faults (va_db v) = []" and "has_worker (va_db v) (su_worker r) \<or> \<not> db_fk (va_db v)"
    and "recover_block r v = (ok, v')"
  shows "ok \<and> recorded (su_hash r) (va_db v') \<and> db_faults (va_db v') = []"
proof -
  have look: "run_db (get_block_id_by_hash (su_hash r)) v
      = (Inr (case map bk_id (filter (\<lambda>b. bk_hash b = su_hash r) (blocks (va_db v))) of [] \<Rightarrow> None | x # _ \<Rightarrow> Some x), v)"
    using assms(1) by (simp add: run_db_def get_block_id_by_hash_def fetch_optional_def select_def stmt_def tick_def)
  show ?thesis
  proof (cases "filter (\<lambda>b. bk_hash b = su_hash r) (blocks (va_db v))")
    case Nil
    then have "\<not> list_ex (\<lambda>b. bk_hash b = su_hash r) (blocks (va_db v))"
      by (auto simp: list_ex_iff filter_empty_conv)
    then show ?thesis
      using assms look Nil
      by (auto simp: recover_block_def run_db_def record_block_def stmt_def tick_def check_fk_def bump_id_def
          recorded_def)
  next
    case (Cons b bs)
    then have "b \<in> set (blocks (va_db v)) \<and> bk_hash b = su_hash r"
      using filter_set [of _ "blocks (va_db v)"] by (auto dest: filter_eq_ConsD)
    then show ?thesis
      using assms look Cons by (auto simp: recover_block_def recorded_def list_ex_iff)
  qed
qed


section \<open>Answers\<close>

text \<open>Judging and crediting a share says nothing to the miners.\<close>

lemma stratum_run_db: "run_db m v = (r, v') \<Longrightarrow> va_stratum v' = va_stratum v"
  by (auto simp: run_db_def split: prod.splits)

lemma stratum_run_rpc: "run_rpc f vw = (r, v', w') \<Longrightarrow> va_stratum v' = va_stratum (fst vw)"
  by (auto simp: run_rpc_def split: prod.splits)

lemma stratum_frame [simp]:
  "va_stratum (exec_db m v) = va_stratum v"
  "va_stratum (set_session sid sd v) = va_stratum v"
  "va_stratum (alter_session sid f v) = va_stratum v"
  "va_stratum (bump g v) = va_stratum v"
  "va_stratum (resolve_crumb crumb out v) = va_stratum v"
  "va_stratum (cache_worker key e v) = va_stratum v"
  by (simp_all add: exec_db_def' set_session_def alter_session_def bump_def resolve_crumb_def cache_worker_def
      split: option.split)

lemma stratum_record_won: "record_won_block h hs r a wk crumb v = (found, v') \<Longrightarrow> va_stratum v' = va_stratum v"
  by (auto simp: record_won_block_def latest_block_time_def Let_def dest!: stratum_run_db
      split: prod.splits sum.splits list.splits)

lemma stratum_win_block: "win_block E job jd wk vw = (found, v', w') \<Longrightarrow> va_stratum v' = va_stratum (fst vw)"
  by (auto simp: win_block_def block_fate_def Let_def dest!: stratum_run_db stratum_run_rpc stratum_record_won
      split: prod.splits sum.splits inclusion_check.splits)

lemma stratum_validate_share:
  assumes "validate_share E m sid wn jid tm n1 n2 sol (v, w) = (r, v', w')"
  shows "va_stratum v' = va_stratum v"
proof -
  have replay: "check_replay sid fp v = (x, v1) \<Longrightarrow> va_stratum v1 = va_stratum v" for fp x v1
    by (auto simp: check_replay_def split: option.splits if_splits)
  have worker: "resolve_worker E now sid wn u = (x, u1) \<Longrightarrow> va_stratum u1 = va_stratum u" for now u x u1
    by (auto simp: resolve_worker_def Let_def dest!: stratum_run_db
        split: option.splits prod.splits sum.splits if_splits)
  show ?thesis
    using assms
  proof (cases rule: validate_share_cases)
    case (credited job nonce raw canonical v1 jd)
    have "va_stratum v' = va_stratum v1"
      using credited(4)
    proof (cases rule: credit_share_cases)
      case (recorded wid v2 i v3 height)
      then show ?thesis
        using worker [OF recorded(1)] stratum_run_db [OF recorded(2)] stratum_win_block [of E job jd wid "(v3, w)"]
        by (auto split: if_splits)
    next
      case (not_recorded wid v2 e)
      then show ?thesis using worker [OF not_recorded(1)] stratum_run_db [OF not_recorded(2)] by simp
    qed (auto dest: worker)
    then show ?thesis using replay [OF credited(2)] by simp
  qed (auto dest: replay)
qed

definition is_retarget :: "server_message \<Rightarrow> bool" where
  "is_retarget msg \<longleftrightarrow> (case msg of SetDifficulty d \<Rightarrow> True | SetTarget t \<Rightarrow> True | _ \<Rightarrow> False)"

abbreviation queue :: "validator \<Rightarrow> string \<Rightarrow> server_message list" where
  "queue v sid \<equiv> srv_queues (va_stratum v) sid"

text \<open>After the answer only a new difficulty may follow, and the shares stay.\<close>

definition followed :: "string \<Rightarrow> validator \<Rightarrow> validator \<Rightarrow> bool" where
  "followed sid v v' \<longleftrightarrow> (\<exists>rest. list_all is_retarget rest \<and> queue v' sid = queue v sid @ rest)
     \<and> shares (va_db v') = shares (va_db v)"

lemma followed_refl: "followed sid v v"
  by (auto simp: followed_def intro: exI [of _ "[]"])

lemma followed_cong:
  "va_stratum u = va_stratum v \<Longrightarrow> shares (va_db u) = shares (va_db v) \<Longrightarrow> followed sid u v' = followed sid v v'"
  by (simp add: followed_def)

lemma followed_send_difficulty: "followed sid v (send_difficulty sid d t v)"
proof -
  have one: "\<exists>rest. list_all is_retarget rest \<and> queue (send sid msg u) sid = queue u sid @ rest"
    if "is_retarget msg" for msg u
    using that by (auto simp: send_def send_to_session_def intro: exI [of _ "[]"] exI [of _ "[msg]"])
  obtain r1 where r1: "list_all is_retarget r1" "queue (send sid (SetDifficulty d) v) sid = queue v sid @ r1"
    using one [of "SetDifficulty d" v] by (auto simp: is_retarget_def)
  obtain r2 where r2: "list_all is_retarget r2"
    "queue (send_difficulty sid d t v) sid = queue (send sid (SetDifficulty d) v) sid @ r2"
    using one [of "SetTarget t" "send sid (SetDifficulty d) v"] by (auto simp: is_retarget_def send_difficulty_def)
  have "shares (va_db (send_difficulty sid d t v)) = shares (va_db v)"
    by (simp add: send_difficulty_def send_def)
  then show ?thesis unfolding followed_def using r1 r2 by (auto intro!: exI [of _ "r1 @ r2"])
qed

lemma db_frame [simp]:
  "va_db (set_session sid sd v) = va_db v"
  "va_db (alter_session sid f v) = va_db v"
  "va_db (bump g v) = va_db v"
  "va_db (reply_submit sid rid e v) = va_db v"
  by (simp_all add: set_session_def alter_session_def bump_def reply_submit_def send_def split: option.split)

lemma shares_worker_difficulty: "shares (va_db (exec_db (update_worker_difficulty wk d) v)) = shares (va_db v)"
proof -
  have "keeps (\<lambda>s. shares s = X) (update_worker_difficulty wk d)" for X
    unfolding update_worker_difficulty_def by (intro db_inv shares_no_faults) simp
  then show ?thesis by (rule exec_db_keeps) (rule refl)
qed

lemma followed_after:
  "va_stratum u = va_stratum v \<Longrightarrow> shares (va_db u) = shares (va_db v) \<Longrightarrow> followed sid v (send_difficulty sid d t u)"
  using followed_send_difficulty followed_cong by blast

lemma followed_quiet: "va_stratum u = va_stratum v \<Longrightarrow> shares (va_db u) = shares (va_db v) \<Longrightarrow> followed sid v u"
  using followed_refl followed_cong by blast

lemma followed_retarget: "followed sid v (retarget_with f E now sid v)"
proof (cases "session_of v sid")
  case (Some sd)
  obtain r vd where f: "f (sx_vardiff sd) = (r, vd)" by (rule prod.exhaust)
  let ?v = "set_session sid (sd\<lparr>sx_vardiff := vd\<rparr>) v"
  have "followed sid v (apply_retarget E now sid d reason ?v)" for d reason
    unfolding apply_retarget_def Let_def
    by (rule followed_after) (simp_all add: shares_worker_difficulty split: option.split)
  then show ?thesis
    by (cases r) (auto simp: retarget_with_def Some f intro: followed_quiet)
qed (simp add: retarget_with_def followed_refl)

lemma followed_low_diff: "followed sid v (note_low_diff E now sid v)"
proof (cases "session_of v sid")
  case (Some sd)
  have "followed sid v (reset_difficulty E now sid k (set_session sid sd' v))" for k sd'
    by (auto simp: reset_difficulty_def Let_def intro: followed_after split: prod.split)
  then show ?thesis by (auto simp: note_low_diff_def Some Let_def intro: followed_quiet)
qed (simp add: note_low_diff_def followed_refl)

lemma reply_queue:
  assumes "sid \<in> srv_senders (va_stratum v)" "sid \<in> srv_receivers (va_stratum v)" "length (queue v sid) < 64"
  shows "queue (reply_submit sid rid e v) sid = queue v sid @ [SubmitResult rid (e = None) e]"
  using assms by (simp add: reply_submit_def send_def send_to_session_def SESSION_CHANNEL_CAPACITY_def)

definition answered_once :: "string \<Rightarrow> json \<Rightarrow> validator \<Rightarrow> validator \<Rightarrow> bool" where
  "answered_once sid rid v u \<longleftrightarrow> (\<exists>err rest. queue u sid = queue v sid @ SubmitResult rid (err = None) err # rest
     \<and> list_all is_retarget rest
     \<and> length (shares (va_db u)) = length (shares (va_db v)) + (if err = None then 1 else 0))"


section \<open>Witnesses\<close>

text \<open>A database that writes the breadcrumb and then fails for good, and a node that has the block.\<close>

definition block_env :: "script share_env" where
  "block_env = toy_share_env\<lparr>en_hex := hex_ref\<rparr>"

definition crashing :: validator where
  "crashing = toy_validator\<lparr>va_db := empty_db False 1000 [False, True, True, True, True]\<rparr>"

definition block_job :: mining_job where
  "block_job = toy_job\<lparr>mj_template := toy_template\<lparr>bt_coinbasetxn := Some \<lparr>ct_data = ''aa'', ct_hash = '''',
     ct_fee = Some (- 5), ct_sigops = None, ct_required = None\<rparr>\<rparr>\<rparr>"

definition solved :: judged where
  "solved = \<lparr>jd_header = [1], jd_hash = [255, 11], jd_difficulty = Fin 1, jd_is_block = True\<rparr>"

definition slow_node :: script where
  "slow_node = \<lparr>sc_replies = [Inl ''timeout'', Inr ''0bff''], sc_requests = [], sc_slept = 0\<rparr>"

theorem won_block_recorded_or_open_witness:
  "case win_block block_env block_job solved 1 (crashing, slow_node) of
     (found, v', w') \<Rightarrow> found = None \<and> left_open 1 ''ff0b'' (va_db v')"
proof -
  let ?h = "hx_encode (en_hex block_env) (jd_hash solved)"
  let ?rw = "compute_block_reward (sint (bt_height (mj_template block_job)))"
  let ?written = "run_db (record_block_submission (sint (bt_height (mj_template block_job))) ?h 1 ?rw
        (Some (?rw + collected_fees (mj_template block_job)))) crashing"
  obtain found v' w' where win: "win_block block_env block_job solved 1 (crashing, slow_node) = (found, v', w')"
    by (rule prod_cases3)
  obtain r v1 where written: "?written = (r, v1)" by (rule prod.exhaust)
  have hash: "?h = ''ff0b''" by code_simp
  have blk: "assemble_full_block (en_hex block_env) (jd_header solved) (mj_template block_job) = Inr [1, 1, 170]"
    by code_simp
  have "fst ?written = Inr 1" by code_simp
  then have r: "r = Inr 1" using written by simp
  have fate: "fst (block_fate block_env (bt_height (mj_template block_job)) ?h
      (hx_encode (en_hex block_env) [1, 1, 170]) (snd ?written, slow_node)) \<noteq> Mismatch" by code_simp
  have "fst (win_block block_env block_job solved 1 (crashing, slow_node)) = None
      \<and> \<not> recorded ''ff0b'' (va_db (fst (snd (win_block block_env block_job solved 1 (crashing, slow_node)))))"
    by code_simp
  then show ?thesis
    using won_block_recorded_or_open [OF blk written [unfolded r] _ win] fate written win hash by simp
qed

definition left_over :: submission_row where
  "left_over = \<lparr>su_id = 1, su_height = 9, su_hash = ''ff0b'', su_worker = 1, su_reward = 10, su_actual = Some 15,
     su_resolved = False, su_outcome = None, su_created = 900\<rparr>"

definition restarted :: validator where
  "restarted = toy_validator\<lparr>va_db := (empty_db False 1000 [])\<lparr>submissions := [left_over]\<rparr>\<rparr>"


text \<open>A connected miner asks about a job nobody knows.\<close>

definition chatty :: validator where
  "chatty = toy_validator\<lparr>va_stratum := (va_stratum toy_validator)\<lparr>srv_senders := {''s''}, srv_receivers := {''s''}\<rparr>\<rparr>"


end
