(* ===== verification/Payer.thy ===== *)
theory Payer
  imports Ledger_Effects Node_Rpc Vardiff
begin

text \<open>
  What the payout loop and the reconciler of \<open>pool-dashboard/src\<close> stand on: the state of the
  process that pays (database, RPC clients of the wallet and the node, monotonic clock), the
  payout configuration, address validation, waiting for a wallet operation.  The outside world
  \<open>'w\<close> answers RPC calls; it also decides how long a call or a sleep takes beyond its nominal
  time (\<open>pe_elapsed\<close>) and what the wall clock shows (\<open>pe_utc\<close>, seconds).  SQLite's
  \<open>datetime('now')\<close> reads the same wall clock.  Database statements take no time in the model.
\<close>

section \<open>Configuration\<close>

record payout_config =
  pc_enabled :: bool
  pc_pool_address :: "string option"
  pc_mining_address :: "string option"
  pc_wallet_rpc_url :: "string option"
  pc_wallet_rpc_user :: "string option"
  pc_wallet_rpc_password :: "string option"
  pc_minimum_payout :: f64
  pc_interval_secs :: nat
  pc_maturity_confirmations :: u64
  pc_auto_void_reorged :: bool
  pc_reserve_min :: f64
  pc_available_balance_margin :: f64
  pc_reconcile_interval_secs :: nat
  pc_pay_immature :: bool
  pc_min_payout_interval_secs :: nat
  pc_coalesce_override_zec :: "f64 option"
  pc_shielded_coinbase :: bool

definition default_payout_config :: payout_config where
  "default_payout_config =
     \<lparr>pc_enabled = False, pc_pool_address = None, pc_mining_address = None,
      pc_wallet_rpc_url = None, pc_wallet_rpc_user = None, pc_wallet_rpc_password = None,
      pc_minimum_payout = flit (1 / 100), pc_interval_secs = 300, pc_maturity_confirmations = 100,
      pc_auto_void_reorged = True, pc_reserve_min = Fin 0,
      pc_available_balance_margin = flit (9 / 10), pc_reconcile_interval_secs = 600,
      pc_pay_immature = False, pc_min_payout_interval_secs = 0, pc_coalesce_override_zec = None,
      pc_shielded_coinbase = False\<rparr>"

definition ZATOSHIS_PER_ZEC :: f64 where
  "ZATOSHIS_PER_ZEC = Fin 100000000"

definition to_zec :: "int \<Rightarrow> f64" where
  "to_zec z = fdiv (f64_of_int z) ZATOSHIS_PER_ZEC"

definition to_zatoshis :: "f64 \<Rightarrow> int" where
  "to_zatoshis x = as_i64 (fmul x ZATOSHIS_PER_ZEC)"

definition I64_MAX :: int where
  "I64_MAX = 2 ^ 63 - 1"

text \<open>The arguments of \<open>run_payout_loop\<close> that do not change between cycles.\<close>

record payout_params =
  pm_pool_address :: string
  pm_mining_address :: string
  pm_min_payout :: int
  pm_reserve_min :: int
  pm_margin :: f64
  pm_maturity :: u64
  pm_interval :: nanos
  pm_network :: string
  pm_pay_immature :: bool
  pm_knobs :: "int \<times> int"

definition coalesce_knobs :: "payout_config \<Rightarrow> int \<times> int" where
  "coalesce_knobs c = (int (pc_min_payout_interval_secs c),
     case pc_coalesce_override_zec c of None \<Rightarrow> I64_MAX | Some z \<Rightarrow> to_zatoshis z)"

definition pay_immature_enabled :: "payout_config \<Rightarrow> string \<Rightarrow> bool" where
  "pay_immature_enabled c mode_name \<longleftrightarrow>
     pc_pay_immature c \<and> map to_lower mode_name = ''solo'' \<and> flt (Fin 0) (pc_reserve_min c)"

text \<open>\<open>None\<close> is the panic of \<open>expect\<close>: payouts are enabled without an address or a wallet.\<close>

definition payout_params_of :: "payout_config \<Rightarrow> string \<Rightarrow> string \<Rightarrow> payout_params option" where
  "payout_params_of c mode_name network = (case (pc_pool_address c, pc_wallet_rpc_url c) of
     (Some pool_address, Some _) \<Rightarrow> Some
       \<lparr>pm_pool_address = pool_address,
        pm_mining_address = (case pc_mining_address c of None \<Rightarrow> pool_address | Some a \<Rightarrow> a),
        pm_min_payout = to_zatoshis (pc_minimum_payout c),
        pm_reserve_min = to_zatoshis (pc_reserve_min c),
        pm_margin = fclamp (pc_available_balance_margin c) (flit (1 / 2)) (Fin 1),
        pm_maturity = pc_maturity_confirmations c, pm_interval = pc_interval_secs c * 10 ^ 9,
        pm_network = network, pm_pay_immature = pay_immature_enabled c mode_name,
        pm_knobs = coalesce_knobs c\<rparr>
   | _ \<Rightarrow> None)"

section \<open>The process and the outside\<close>

record payer =
  py_db :: db
  py_wallet :: rpc_client
  py_node :: rpc_client
  py_now :: nanos

record 'w payout_env =
  pe_transport :: "'w transport"
  pe_serde :: serde
  pe_hex :: hexlib
  pe_base58 :: "string \<Rightarrow> bytes option"
  pe_elapsed :: "'w \<Rightarrow> nanos"
  pe_utc :: "'w \<Rightarrow> int"
  pe_rfc3339 :: "'w \<Rightarrow> string"
  pe_sqlx_text :: "sqlx_error \<Rightarrow> string"
  pe_config :: "'w \<Rightarrow> payout_config option"
  pe_woken :: "'w \<Rightarrow> nanos option"

type_synonym 'w pay = "payer \<times> 'w"

definition run_pdb :: "'w payout_env \<Rightarrow> 'a dbm \<Rightarrow> 'w pay \<Rightarrow> (db_error + 'a) \<times> 'w pay" where
  "run_pdb E m st = (case m ((py_db (fst st))\<lparr>db_clock := pe_utc E (snd st)\<rparr>) of
     (r, s) \<Rightarrow> (r, (fst st)\<lparr>py_db := s\<rparr>, snd st))"

definition exec_pdb :: "'w payout_env \<Rightarrow> 'a dbm \<Rightarrow> 'w pay \<Rightarrow> 'w pay" where
  "exec_pdb E m st = snd (run_pdb E m st)"

definition ask_wallet ::
  "'w payout_env \<Rightarrow> (rpc_client \<times> 'w \<Rightarrow> 'a \<times> rpc_client \<times> 'w) \<Rightarrow> 'w pay \<Rightarrow> 'a \<times> 'w pay" where
  "ask_wallet E f st = (case f (py_wallet (fst st), snd st) of (r, c, w) \<Rightarrow>
     (r, (fst st)\<lparr>py_wallet := c, py_now := py_now (fst st) + pe_elapsed E w\<rparr>, w))"

definition ask_node ::
  "'w payout_env \<Rightarrow> (rpc_client \<times> 'w \<Rightarrow> 'a \<times> rpc_client \<times> 'w) \<Rightarrow> 'w pay \<Rightarrow> 'a \<times> 'w pay" where
  "ask_node E f st = (case f (py_node (fst st), snd st) of (r, c, w) \<Rightarrow>
     (r, (fst st)\<lparr>py_node := c, py_now := py_now (fst st) + pe_elapsed E w\<rparr>, w))"

definition pause :: "'w payout_env \<Rightarrow> nanos \<Rightarrow> 'w pay \<Rightarrow> 'w pay" where
  "pause E d st = (let w = tr_sleep (pe_transport E) d (snd st) in
     ((fst st)\<lparr>py_now := py_now (fst st) + d + pe_elapsed E w\<rparr>, w))"

fun db_error_text :: "(sqlx_error \<Rightarrow> string) \<Rightarrow> db_error \<Rightarrow> string" where
  "db_error_text sqlx (Sqlx e) = ''Database error: '' @ sqlx e"
| "db_error_text sqlx (InsufficientPending m a) =
     ''Payout guard: miner '' @ show_int m @ '' pending < '' @ show_int a
     @ '' zat (already settled?), refusing to double-debit''"

section \<open>Strings\<close>

fun starts_with :: "string \<Rightarrow> string \<Rightarrow> bool" where
  "starts_with s [] = True"
| "starts_with [] (_ # _) = False"
| "starts_with (c # s) (d # p) = (c = d \<and> starts_with s p)"

fun has_substring :: "string \<Rightarrow> string \<Rightarrow> bool" where
  "has_substring [] p = (p = [])"
| "has_substring (c # s) p = (starts_with (c # s) p \<or> has_substring s p)"

fun after_first :: "char \<Rightarrow> string \<Rightarrow> string" where
  "after_first c [] = []"
| "after_first c (d # s) = (if d = c then s else after_first c s)"

definition after_last :: "char \<Rightarrow> string \<Rightarrow> string" where
  "after_last c s = rev (takeWhile (\<lambda>d. d \<noteq> c) (rev s))"

section \<open>Addresses\<close>

definition bech32_charset :: string where
  "bech32_charset = ''qpzry9x8gf2tvdw0s3jn54khce6mua7l''"

definition bech32_data :: "string \<Rightarrow> bool" where
  "bech32_data s = list_all (\<lambda>c. c \<in> set bech32_charset) s"

text \<open>\<open>&addr[hrp_end + 1..]\<close> is what is behind the separator, which the accepted prefixes
  contain.\<close>

definition is_valid_zcash_address :: "(string \<Rightarrow> bytes option) \<Rightarrow> string \<Rightarrow> string \<Rightarrow> bool" where
  "is_valid_zcash_address base58 addr network = (let is_mainnet = network = ''mainnet'' in
     if starts_with addr ''t'' then
       (if is_mainnet then starts_with addr ''t1'' \<or> starts_with addr ''t3''
        else starts_with addr ''tm'' \<or> starts_with addr ''t2'')
       \<and> (case base58 addr of Some bs \<Rightarrow> length bs = 22 | None \<Rightarrow> False)
     else if starts_with addr ''z'' then
       starts_with addr (if is_mainnet then ''zs1'' else ''ztestsapling1'')
       \<and> bech32_data (after_last (CHR ''1'') addr)
       \<and> length addr = (if is_mainnet then 78 else 88)
     else if starts_with addr ''u'' then
       (if is_mainnet then starts_with addr ''u1'' \<and> \<not> starts_with addr ''utest''
        else starts_with addr ''utest1'')
       \<and> bech32_data (after_first (CHR ''1'') addr)
       \<and> 50 \<le> length (after_first (CHR ''1'') addr) \<and> length addr \<le> 320
     else False)"

definition reverse_hex_bytes :: "hexlib \<Rightarrow> string \<Rightarrow> string" where
  "reverse_hex_bytes H s = reverse_hex H s"

section \<open>Fees\<close>

definition estimate_shield_fee :: "nat \<Rightarrow> int" where
  "estimate_shield_fee utxos = 5000 * max (int utxos + 2) 2"

definition estimate_payout_fee :: "nat \<Rightarrow> int" where
  "estimate_payout_fee recipients = 5000 * max (int recipients + 2) 2"

section \<open>Waiting for a wallet operation\<close>

definition OP_POLL_TIMEOUT :: nanos where
  "OP_POLL_TIMEOUT = 120 * 10 ^ 9"

definition POLL_PAUSE :: nanos where
  "POLL_PAUSE = 5 * 10 ^ 9"

datatype op_result = Success string | Failed string

definition first_opt :: "'a list \<Rightarrow> 'a option" where
  "first_opt xs = nth_opt xs 0"

definition status_state :: "json \<Rightarrow> string" where
  "status_state status = COALESCE (Option.bind (jget ''status'' status) as_str) ''''"

definition result_txid :: "json \<Rightarrow> json option" where
  "result_txid status = Option.bind (jget ''result'' status) (jget ''txid'')"

definition operation_txid :: "json \<Rightarrow> string" where
  "operation_txid status = COALESCE (Option.bind
     (case result_txid status of
        None \<Rightarrow> Option.bind (Option.bind (Option.bind (jget ''result'' status) (jget ''txids'')) as_array)
          first_opt
      | Some t \<Rightarrow> Some t) as_str) ''unknown''"

definition operation_message :: "json \<Rightarrow> string option" where
  "operation_message status =
     Option.bind (Option.bind (jget ''error'' status) (jget ''message'')) as_str"

definition poll_result :: "json list \<Rightarrow> op_result option" where
  "poll_result sts = Option.bind (first_opt sts) (\<lambda>status.
     if status_state status = ''success'' then Some (Success (operation_txid status))
     else if status_state status = ''failed''
       then Some (Failed (COALESCE (operation_message status) ''unknown error''))
     else None)"

definition poll_once ::
  "'w payout_env \<Rightarrow> string \<Rightarrow> 'w pay \<Rightarrow> (rpc_error + json list) \<times> 'w pay" where
  "poll_once E opid st =
     ask_wallet E (z_get_operation_status (pe_transport E) (pe_serde E) [opid]) st"

function poll_operation ::
  "'w payout_env \<Rightarrow> string \<Rightarrow> nanos \<Rightarrow> 'w pay \<Rightarrow> (string + op_result) \<times> 'w pay" where
  "poll_operation E opid deadline st =
     (let st = pause E POLL_PAUSE st in
      if deadline < py_now (fst st)
      then (Inl (''Timed out waiting for operation '' @ opid @ '' after 120s''), st)
      else case poll_once E opid st of
        (Inl e, st) \<Rightarrow> (Inl (''z_getoperationstatus failed: '' @ rpc_error_text e), st)
      | (Inr sts, st) \<Rightarrow> (case poll_result sts of
          Some r \<Rightarrow> (Inr r, st)
        | None \<Rightarrow> poll_operation E opid deadline st))"
  by pat_completeness auto

lemma pause_now: "py_now (fst st) + d \<le> py_now (fst (pause E d st))"
  by (simp add: pause_def Let_def)

lemma ask_wallet_now: "ask_wallet E f st = (r, st') \<Longrightarrow> py_now (fst st) \<le> py_now (fst st')"
  by (auto simp: ask_wallet_def split: prod.splits)

lemma ask_node_now: "ask_node E f st = (r, st') \<Longrightarrow> py_now (fst st) \<le> py_now (fst st')"
  by (auto simp: ask_node_def split: prod.splits)

lemma poll_once_now:
  "poll_once E opid st = (r, st') \<Longrightarrow> py_now (fst st) \<le> py_now (fst st')"
  unfolding poll_once_def by (rule ask_wallet_now)

lemma poll_measure:
  assumes "poll_once E opid (pause E POLL_PAUSE st) = (r, st')"
    and "\<not> deadline < py_now (fst (pause E POLL_PAUSE st))"
  shows "Suc deadline - py_now (fst st') < Suc deadline - py_now (fst st)"
  using poll_once_now [OF assms(1)] assms(2) pause_now [of st POLL_PAUSE E]
  by (simp add: POLL_PAUSE_def)

termination poll_operation
  by (relation "measure (\<lambda>(E, opid, deadline, st). Suc deadline - py_now (fst st))")
    (auto dest: poll_measure [OF sym])

declare poll_operation.simps [simp del]

definition wait_for_operation ::
  "'w payout_env \<Rightarrow> string \<Rightarrow> 'w pay \<Rightarrow> (string + op_result) \<times> 'w pay" where
  "wait_for_operation E opid st = poll_operation E opid (py_now (fst st) + OP_POLL_TIMEOUT) st"

end
