(* ===== verification/Payout_Round.thy ===== *)
theory Payout_Round
  imports Payer
begin

text \<open>
  \<open>process_payouts\<close> of \<open>pool-dashboard/src/main.rs\<close>: one payout round.  The balances to pay
  are selected and scaled to what the wallet can spend, reserved in the ledger, sent in one
  \<open>z_sendmany\<close>, followed to the chain and settled.  A database error whose result the code
  discards (\<open>let _ =\<close>, or a warning) is discarded by \<open>exec_pdb\<close>.
\<close>

section \<open>Selection\<close>

text \<open>Immature credits are included while their total fits within the reserve.\<close>

definition immature_allowed ::
  "'w payout_env \<Rightarrow> payout_params \<Rightarrow> 'w pay \<Rightarrow> (string + bool) \<times> 'w pay" where
  "immature_allowed E K st =
     (if \<not> pm_pay_immature K then (Inr False, st)
      else case run_pdb E get_immature_exposure st of
        (Inl e, st) \<Rightarrow> (Inl (db_error_text (pe_sqlx_text E) e), st)
      | (Inr exposure, st) \<Rightarrow> (Inr (exposure \<le> pm_reserve_min K), st))"

definition available_zec :: "payout_params \<Rightarrow> f64 \<Rightarrow> f64" where
  "available_zec K private_balance =
     fmax (fmul (fmax (fsub private_balance (to_zec (pm_reserve_min K))) (Fin 0)) (pm_margin K)) (Fin 0)"

definition payout_scale :: "f64 \<Rightarrow> pending_payout list \<Rightarrow> f64" where
  "payout_scale available pending = (let tot = to_zec (sum_list (map pp_amount pending)) in
     if fle tot available then Fin 1 else fdiv available tot)"

text \<open>
  Where to pay: the miner's address; the mining address when it is invalid and the miner older
  than two days; nowhere otherwise.  \<open>created_at\<close> is the text \<open>datetime('now')\<close> wrote, which
  always parses.
\<close>

definition pay_to ::
  "'w payout_env \<Rightarrow> payout_params \<Rightarrow> int \<Rightarrow> pending_payout \<Rightarrow> string option" where
  "pay_to E K now p =
     (if is_valid_zcash_address (pe_base58 E) (pp_address p) (pm_network K) then Some (pp_address p)
      else if pp_created p \<le> now - 2 * 86400 then Some (pm_mining_address K)
      else None)"

definition scaled_zatoshis :: "f64 \<Rightarrow> pending_payout \<Rightarrow> int" where
  "scaled_zatoshis scale p = as_i64 (ffloor (fmul (f64_of_int (pp_amount p)) scale))"

type_synonym planned = "pending_payout \<times> int \<times> string"

fun plan_payouts ::
  "'w payout_env \<Rightarrow> payout_params \<Rightarrow> int \<Rightarrow> f64 \<Rightarrow> pending_payout list \<Rightarrow> planned list" where
  "plan_payouts E K now scale [] = []"
| "plan_payouts E K now scale (p # ps) =
     (case pay_to E K now p of
        None \<Rightarrow> []
      | Some addr \<Rightarrow> (if pm_min_payout K \<le> scaled_zatoshis scale p
          then [(p, scaled_zatoshis scale p, addr)] else []))
     @ plan_payouts E K now scale ps"

section \<open>Merging to unique destinations\<close>

text \<open>The order of \<open>BTreeMap<&str, _>\<close>: bytes, lexicographically.\<close>

fun str_less :: "string \<Rightarrow> string \<Rightarrow> bool" where
  "str_less _ [] = False"
| "str_less [] (_ # _) = True"
| "str_less (c # s) (d # t) =
     ((of_char c :: nat) < of_char d \<or> c = d \<and> str_less s t)"

fun add_entry :: "string \<Rightarrow> int \<Rightarrow> (string \<times> int) list \<Rightarrow> (string \<times> int) list" where
  "add_entry a z [] = [(a, z)]"
| "add_entry a z ((b, y) # rest) =
     (if a = b then (b, y + z) # rest
      else if str_less a b then (a, z) # (b, y) # rest
      else (b, y) # add_entry a z rest)"

definition merge_destinations :: "planned list \<Rightarrow> (string \<times> int) list" where
  "merge_destinations plan = foldl (\<lambda>acc (p, z, addr). add_entry addr z acc) [] plan"

definition send_amounts :: "planned list \<Rightarrow> (string \<times> f64) list" where
  "send_amounts plan = map (\<lambda>(addr, z). (addr, to_zec z)) (merge_destinations plan)"

section \<open>Following the transaction\<close>

definition mark_attempt ::
  "'w payout_env \<Rightarrow> int \<Rightarrow> string \<Rightarrow> string option \<Rightarrow> string option \<Rightarrow> string option
     \<Rightarrow> 'w pay \<Rightarrow> 'w pay" where
  "mark_attempt E aid status opid txid note st =
     exec_pdb E (update_payout_attempt aid status opid txid note) st"

definition refund_and_fail :: "'w payout_env \<Rightarrow> int \<Rightarrow> string \<Rightarrow> 'w pay \<Rightarrow> 'w pay" where
  "refund_and_fail E aid note st =
     mark_attempt E aid ''failed'' None None (Some note) (exec_pdb E (refund_payout aid) st)"

definition look_up_tx :: "'w payout_env \<Rightarrow> string \<Rightarrow> 'w pay \<Rightarrow> (rpc_error + json) \<times> 'w pay" where
  "look_up_tx E txid st = ask_node E (get_raw_transaction (pe_transport E) (pe_serde E) txid 1) st"

definition VISIBILITY_TRIES :: nat where
  "VISIBILITY_TRIES = 6"

text \<open>Whether the node shows the transaction within the tries, and the last error.\<close>

fun verify_visible ::
  "nat \<Rightarrow> 'w payout_env \<Rightarrow> string \<Rightarrow> string \<Rightarrow> 'w pay \<Rightarrow> (string + unit) \<times> 'w pay" where
  "verify_visible 0 E txid last_err st = (Inl last_err, st)"
| "verify_visible (Suc n) E txid last_err st =
     (case look_up_tx E txid st of
        (Inr _, st) \<Rightarrow> (Inr (), st)
      | (Inl e, st) \<Rightarrow> verify_visible n E txid (rpc_error_text e) (pause E POLL_PAUSE st))"

definition settle_payout ::
  "'w payout_env \<Rightarrow> int \<Rightarrow> planned list \<Rightarrow> string \<Rightarrow> 'w pay \<Rightarrow> (string + nat) \<times> 'w pay" where
  "settle_payout E aid plan txid st =
     (let recipients = length (remdups (map (snd \<circ> snd) plan));
          st = exec_pdb E (record_tx_cost ''payout'' txid (estimate_payout_fee recipients)) st in
      case run_pdb E (confirm_payout aid txid) st of
        (Inl e, st) \<Rightarrow> (Inr 0, mark_attempt E aid ''sent'' None (Some txid)
            (Some (''confirm failed: '' @ db_error_text (pe_sqlx_text E) e)) st)
      | (Inr n, st) \<Rightarrow> (Inr (nat n), mark_attempt E aid ''confirmed'' None (Some txid) None st))"

definition follow_payout ::
  "'w payout_env \<Rightarrow> int \<Rightarrow> planned list \<Rightarrow> string \<Rightarrow> 'w pay \<Rightarrow> (string + nat) \<times> 'w pay" where
  "follow_payout E aid plan opid st =
     (case wait_for_operation E opid st of
        (Inl e, st) \<Rightarrow> (Inl e, mark_attempt E aid ''sent'' (Some opid) None
            (Some (''wait_for_operation error: '' @ e)) st)
      | (Inr (Failed msg), st) \<Rightarrow> (Inl (''z_sendmany failed: '' @ msg),
            refund_and_fail E aid (''z_sendmany operation failed: '' @ msg) st)
      | (Inr (Success txid), st) \<Rightarrow>
          (case verify_visible VISIBILITY_TRIES E txid '''' st of
             (Inl e, st) \<Rightarrow> (Inr 0, mark_attempt E aid ''sent'' None (Some txid)
                 (Some (''tx not yet visible: '' @ e)) st)
           | (Inr _, st) \<Rightarrow> settle_payout E aid plan txid st))"

section \<open>Sending\<close>

fun is_json_rpc_error :: "rpc_error \<Rightarrow> bool" where
  "is_json_rpc_error (JsonRpc _) = True"
| "is_json_rpc_error _ = False"

text \<open>
  Only an error response of the wallet proves that nothing was queued; after any other error the
  reservation stays.
\<close>

definition send_refused ::
  "'w payout_env \<Rightarrow> int \<Rightarrow> rpc_error \<Rightarrow> 'w pay \<Rightarrow> (string + nat) \<times> 'w pay" where
  "send_refused E aid e st = (let msg = rpc_error_text e in
     if \<not> is_json_rpc_error e
     then (Inl (''z_sendmany fate unknown: '' @ msg), mark_attempt E aid ''sent'' None None
             (Some (''z_sendmany fate unknown, NOT refunded: '' @ msg)) st)
     else if has_substring msg ''Insufficient balance''
     then (Inr 0, refund_and_fail E aid
             (''deferred: insufficient spendable balance (refunded): '' @ msg) st)
     else (Inl (''z_sendmany failed: '' @ msg),
           refund_and_fail E aid (''z_sendmany failed (refunded): '' @ msg) st))"

definition submit_payout ::
  "'w payout_env \<Rightarrow> payout_params \<Rightarrow> int \<Rightarrow> planned list \<Rightarrow> 'w pay \<Rightarrow> (string + nat) \<times> 'w pay" where
  "submit_payout E K aid plan st =
     (case run_pdb E (update_payout_attempt aid ''submitting'' None None None) st of
        (Inl e, st) \<Rightarrow> (let msg = db_error_text (pe_sqlx_text E) e in
          (Inl (''could not mark attempt submitting: '' @ msg),
           refund_and_fail E aid
             (''could not mark submitting (refunded, nothing sent): '' @ msg) st))
      | (Inr _, st) \<Rightarrow>
          (case ask_wallet E (z_sendmany (pe_transport E) (pe_serde E) (pm_pool_address K)
                  (send_amounts plan)) st of
             (Inl e, st) \<Rightarrow> send_refused E aid e st
           | (Inr opid, st) \<Rightarrow> follow_payout E aid plan opid
               (mark_attempt E aid ''sent'' (Some opid) None None st)))"

section \<open>The round\<close>

definition reserved_plan :: "(int \<times> int) list \<Rightarrow> planned list \<Rightarrow> planned list" where
  "reserved_plan reserved plan = filter (\<lambda>(p, z, addr). pp_miner p \<in> fst ` set reserved) plan"

definition reserve_items :: "planned list \<Rightarrow> (int \<times> int) list" where
  "reserve_items plan = map (\<lambda>(p, z, addr). (pp_miner p, z)) plan"

definition pay_plan ::
  "'w payout_env \<Rightarrow> payout_params \<Rightarrow> planned list \<Rightarrow> 'w pay \<Rightarrow> (string + nat) \<times> 'w pay" where
  "pay_plan E K plan st =
     (case run_pdb E (create_payout_attempt (int (length plan))
             (sum_list (map (fst \<circ> snd) plan)) ''loop'') st of
        (Inl e, st) \<Rightarrow> (Inr 0, st)
      | (Inr aid, st) \<Rightarrow>
          (case run_pdb E (reserve_payout aid (reserve_items plan)) st of
             (Inl e, st) \<Rightarrow> (let msg = db_error_text (pe_sqlx_text E) e in
               (Inl (''payout reservation failed: '' @ msg),
                mark_attempt E aid ''failed'' None None (Some (''reserve failed: '' @ msg)) st))
           | (Inr reserved, st) \<Rightarrow>
               (if reserved = []
                then (Inr 0, mark_attempt E aid ''failed'' None None
                        (Some ''no funds reserved (balances changed since selection)'') st)
                else submit_payout E K aid (reserved_plan reserved plan) st)))"

definition plan_round ::
  "'w payout_env \<Rightarrow> payout_params \<Rightarrow> pending_payout list \<Rightarrow> wallet_balances_rec \<Rightarrow> 'w
     \<Rightarrow> planned list" where
  "plan_round E K pending b w = (let available = available_zec K (wb_spendable b) in
     if flt available (to_zec (pm_min_payout K)) then []
     else plan_payouts E K (pe_utc E w) (payout_scale available pending) pending)"

text \<open>The coalescing knobs of the cycle: the cooldown and the override.\<close>

definition process_payouts ::
  "'w payout_env \<Rightarrow> payout_params \<Rightarrow> int \<times> int \<Rightarrow> 'w pay \<Rightarrow> (string + nat) \<times> 'w pay" where
  "process_payouts E K knobs st =
     (case immature_allowed E K st of
        (Inl e, st) \<Rightarrow> (Inl e, st)
      | (Inr include_immature, st) \<Rightarrow>
          (case run_pdb E (get_pending_payouts (pm_min_payout K) include_immature
                  (fst knobs) (snd knobs)) st of
             (Inl e, st) \<Rightarrow> (Inl (db_error_text (pe_sqlx_text E) e), st)
           | (Inr pending, st) \<Rightarrow>
               (if pending = [] then (Inr 0, st)
                else (case ask_wallet E (wallet_balances (pe_transport E) (pe_serde E) 3) st of
                  (Inl e, st) \<Rightarrow> (Inl (''Failed to check wallet balance: '' @ rpc_error_text e), st)
                | (Inr b, st) \<Rightarrow> (let plan = plan_round E K pending b (snd st) in
                    if plan = [] then (Inr 0, st) else pay_plan E K plan st)))))"

end
