(* ===== verification/Payout_Loop.thy ===== *)
theory Payout_Loop
  imports Payout_Round
begin

text \<open>
  \<open>run_payout_loop\<close> of \<open>pool-dashboard/src/main.rs\<close> and its other phases: the maturity check,
  the shielding of the coinbase, the health record.
\<close>

section \<open>Maturity\<close>

definition absorb_clawback ::
  "'w payout_env \<Rightarrow> bool \<Rightarrow> int \<Rightarrow> (int \<times> int) option \<Rightarrow> 'w pay \<Rightarrow> (string + unit) \<times> 'w pay" where
  "absorb_clawback E pay_immature block_id outcome st = (case outcome of
     Some (_, clawback) \<Rightarrow>
       (if pay_immature \<and> 0 < clawback
        then case run_pdb E (acknowledge_clawbacks_for_block block_id
               ''absorbed from reserve (immediate-payout policy)'') st of
          (Inl e, st) \<Rightarrow> (Inl (db_error_text (pe_sqlx_text E) e), st)
        | (Inr _, st) \<Rightarrow> (Inr (), st)
        else (Inr (), st))
   | None \<Rightarrow> (Inr (), st))"

definition settle_block ::
  "'w payout_env \<Rightarrow> bool \<Rightarrow> block_row \<Rightarrow> string \<Rightarrow> 'w pay \<Rightarrow> (string + unit) \<times> 'w pay" where
  "settle_block E pay_immature b chain_hash st =
     (if chain_hash = reverse_hex_bytes (pe_hex E) (bk_hash b) \<or> chain_hash = bk_hash b
      then case run_pdb E (update_block_status (bk_id b) ''confirmed'') st of
          (Inl e, st) \<Rightarrow> (Inl (db_error_text (pe_sqlx_text E) e), st)
        | (Inr _, st) \<Rightarrow> (Inr (), st)
      else case run_pdb E (orphan_block (bk_id b) (bk_reward b)) st of
          (Inl e, st) \<Rightarrow> (Inl (db_error_text (pe_sqlx_text E) e), st)
        | (Inr outcome, st) \<Rightarrow> absorb_clawback E pay_immature (bk_id b) outcome st)"

fun settle_blocks ::
  "'w payout_env \<Rightarrow> bool \<Rightarrow> u64 \<Rightarrow> u64 \<Rightarrow> block_row list \<Rightarrow> 'w pay \<Rightarrow> (string + unit) \<times> 'w pay" where
  "settle_blocks E pay_immature maturity height [] st = (Inr (), st)"
| "settle_blocks E pay_immature maturity height (b # bs) st =
     (if sint height - bk_height b < sint maturity
      then settle_blocks E pay_immature maturity height bs st
      else case ask_node E (get_block_hash (pe_transport E) (pe_serde E) (word_of_int (bk_height b))) st of
        (Inl e, st) \<Rightarrow> (Inl (''getblockhash failed: '' @ rpc_error_text e), st)
      | (Inr chain_hash, st) \<Rightarrow> (case settle_block E pay_immature b chain_hash st of
          (Inl e, st) \<Rightarrow> (Inl e, st)
        | (Inr _, st) \<Rightarrow> settle_blocks E pay_immature maturity height bs st))"

definition check_block_maturity ::
  "'w payout_env \<Rightarrow> u64 \<Rightarrow> bool \<Rightarrow> 'w pay \<Rightarrow> (string + unit) \<times> 'w pay" where
  "check_block_maturity E maturity pay_immature st =
     (case ask_node E (get_block_count (pe_transport E) (pe_serde E)) st of
        (Inl e, st) \<Rightarrow> (Inl (''getblockcount failed: '' @ rpc_error_text e), st)
      | (Inr height, st) \<Rightarrow> (case run_pdb E get_pending_blocks st of
          (Inl e, st) \<Rightarrow> (Inl (db_error_text (pe_sqlx_text E) e), st)
        | (Inr pending, st) \<Rightarrow> settle_blocks E pay_immature maturity height pending st))"

section \<open>Shielding\<close>

definition MAX_SHIELD_BATCHES_PER_CYCLE :: nat where
  "MAX_SHIELD_BATCHES_PER_CYCLE = 10"

definition MAX_IN_FLIGHT_SHIELDING_BATCHES :: nat where
  "MAX_IN_FLIGHT_SHIELDING_BATCHES = 1"

definition benign_shield_error :: "string \<Rightarrow> bool" where
  "benign_shield_error msg \<longleftrightarrow> has_substring msg ''No spendable transparent outputs''
     \<or> has_substring msg ''Insufficient'' \<or> has_substring msg ''No funds''
     \<or> has_substring msg ''Could not find any coinbase funds''"

record shield_answer =
  sa_utxos :: nat
  sa_value :: f64
  sa_remaining :: nat
  sa_opid :: string

text \<open>An answer without \<open>shieldingUTXOs\<close> is zecd's, one sweep of everything.\<close>

definition read_shield_answer :: "json \<Rightarrow> shield_answer" where
  "read_shield_answer result = (let zecd = jget ''shieldingUTXOs'' result = None in
     \<lparr>sa_utxos = COALESCE (Option.bind (jget ''shieldingUTXOs'' result) as_u64) (if zecd then 1 else 0),
      sa_value = COALESCE (Option.bind (jget ''shieldingValue'' result) as_f64) (Fin 0),
      sa_remaining = (if zecd then 0
        else COALESCE (Option.bind (jget ''remainingUTXOs'' result) as_u64) 0),
      sa_opid = COALESCE (Option.bind (jget ''opid'' result) as_str) ''unknown''\<rparr>)"

text \<open>\<open>opids.drain(..)\<close>: wait for the queued operations in order.\<close>

fun drain_shielding ::
  "'w payout_env \<Rightarrow> (string \<times> nat) list \<Rightarrow> 'w pay \<Rightarrow> (string + unit) \<times> 'w pay" where
  "drain_shielding E [] st = (Inr (), st)"
| "drain_shielding E ((opid, utxos) # rest) st =
     (case wait_for_operation E opid st of
        (Inl e, st) \<Rightarrow> (Inl e, st)
      | (Inr (Success txid), st) \<Rightarrow> drain_shielding E rest
          (exec_pdb E (record_tx_cost ''shield'' txid (estimate_shield_fee utxos)) st)
      | (Inr (Failed msg), st) \<Rightarrow> drain_shielding E rest st)"

fun shield_batches ::
  "nat \<Rightarrow> 'w payout_env \<Rightarrow> payout_params \<Rightarrow> (string \<times> nat) list \<Rightarrow> 'w pay \<Rightarrow> (string + unit) \<times> 'w pay" where
  "shield_batches 0 E K opids st = drain_shielding E opids st"
| "shield_batches (Suc n) E K opids st =
     (case ask_wallet E (z_shield_coinbase (pe_transport E) (pe_serde E) (pm_mining_address K)
             (pm_pool_address K) (Some 50)) st of
        (Inl e, st) \<Rightarrow> (if benign_shield_error (rpc_error_text e) then drain_shielding E opids st
           else (Inl (''z_shieldcoinbase failed: '' @ rpc_error_text e), st))
      | (Inr result, st) \<Rightarrow> (let a = read_shield_answer result in
          if sa_utxos a = 0 \<or> sa_opid a = ''unknown'' then drain_shielding E opids st
          else let opids = opids @ [(sa_opid a, sa_utxos a)] in
            if MAX_IN_FLIGHT_SHIELDING_BATCHES \<le> length opids \<or> sa_remaining a = 0
            then case drain_shielding E opids st of
                (Inl e, st) \<Rightarrow> (Inl e, st)
              | (Inr _, st) \<Rightarrow> (if sa_remaining a = 0 then (Inr (), st)
                  else shield_batches n E K [] st)
            else shield_batches n E K opids st))"

definition shield_coinbase ::
  "'w payout_env \<Rightarrow> payout_params \<Rightarrow> 'w pay \<Rightarrow> (string + unit) \<times> 'w pay" where
  "shield_coinbase E K st =
     (if pm_mining_address K = pm_pool_address K then (Inr (), st)
      else shield_batches MAX_SHIELD_BATCHES_PER_CYCLE E K [] st)"

section \<open>Health\<close>

record phase_failures =
  ph_payout :: "nat \<times> string"
  ph_maturity :: "nat \<times> string"
  ph_shielding :: "nat \<times> string"

definition no_failures :: phase_failures where
  "no_failures = \<lparr>ph_payout = (0, ''''), ph_maturity = (0, ''''), ph_shielding = (0, '''')\<rparr>"

definition after_phase :: "string + 'a \<Rightarrow> nat \<times> string \<Rightarrow> nat \<times> string" where
  "after_phase r f = (case r of Inr _ \<Rightarrow> (0, '''') | Inl e \<Rightarrow> (fst f + 1, e))"

definition payout_health ::
  "payout_params \<Rightarrow> phase_failures \<Rightarrow> f64 \<Rightarrow> f64 \<Rightarrow> bool \<Rightarrow> string \<Rightarrow> json" where
  "payout_health K f transparent_zec private_zec responsive now_text = JObj [
     (''consecutive_payout_failures'', jnat (fst (ph_payout f))),
     (''last_payout_error'', JStr (snd (ph_payout f))),
     (''consecutive_maturity_failures'', jnat (fst (ph_maturity f))),
     (''last_maturity_error'', JStr (snd (ph_maturity f))),
     (''consecutive_shielding_failures'', jnat (fst (ph_shielding f))),
     (''last_shielding_error'', JStr (snd (ph_shielding f))),
     (''transparent_balance_zec'', jfloat transparent_zec),
     (''private_balance_zec'', jfloat private_zec),
     (''reserve_min_zec'', jfloat (to_zec (pm_reserve_min K))),
     (''spendable_balance_zec'', jfloat (fmax (fsub private_zec (to_zec (pm_reserve_min K))) (Fin 0))),
     (''shielding_stuck'', JBool (flt (flit (1 / 100)) transparent_zec)),
     (''wallet_responsive'', JBool responsive),
     (''checked_at'', JStr now_text)]"

definition write_payout_health ::
  "'w payout_env \<Rightarrow> payout_params \<Rightarrow> phase_failures \<Rightarrow> 'w pay \<Rightarrow> (db_error + unit) \<times> 'w pay" where
  "write_payout_health E K f st =
     (let (r1, st) = ask_wallet E (wallet_balances (pe_transport E) (pe_serde E) 1) st;
          (transparent_zec, private_zec) = (case r1 of
              Inr b \<Rightarrow> (wb_transparent b, wb_spendable b) | Inl _ \<Rightarrow> (Fin 0, Fin 0));
          (r0, st) = ask_wallet E (wallet_balances (pe_transport E) (pe_serde E) 0) st;
          health = payout_health K f transparent_zec private_zec (case r0 of Inr _ \<Rightarrow> True | Inl _ \<Rightarrow> False)
            (pe_rfc3339 E (snd st)) in
      run_pdb E (set_pool_status ''payout_health'' (sd_render (pe_serde E) health)) st)"

section \<open>The loop\<close>

definition reload_coalesce_knobs :: "'w payout_env \<Rightarrow> payout_params \<Rightarrow> 'w \<Rightarrow> int \<times> int" where
  "reload_coalesce_knobs E K w = (case pe_config E w of
     Some c \<Rightarrow> coalesce_knobs c | None \<Rightarrow> pm_knobs K)"

text \<open>The wait for the next cycle or for an admin's nudge.\<close>

definition idle :: "'w payout_env \<Rightarrow> payout_params \<Rightarrow> 'w pay \<Rightarrow> 'w pay" where
  "idle E K st = pause E (case pe_woken E (snd st) of
     Some d \<Rightarrow> min d (pm_interval K) | None \<Rightarrow> pm_interval K) st"

definition payout_cycle ::
  "'w payout_env \<Rightarrow> payout_params \<Rightarrow> phase_failures \<times> 'w pay \<Rightarrow> phase_failures \<times> 'w pay" where
  "payout_cycle E K fst_st = (let (f, st) = fst_st;
       (r, st) = check_block_maturity E (pm_maturity K) (pm_pay_immature K) st;
       f = f\<lparr>ph_maturity := after_phase r (ph_maturity f)\<rparr>;
       (r, st) = shield_coinbase E K st;
       f = f\<lparr>ph_shielding := after_phase r (ph_shielding f)\<rparr>;
       (r, st) = process_payouts E K (reload_coalesce_knobs E K (snd st)) st;
       f = f\<lparr>ph_payout := after_phase r (ph_payout f)\<rparr>;
       st = snd (write_payout_health E K f st) in
     (f, idle E K st))"

definition STARTUP_PAUSE :: nanos where
  "STARTUP_PAUSE = 30 * 10 ^ 9"

definition run_payout_loop ::
  "'w payout_env \<Rightarrow> payout_params \<Rightarrow> nat \<Rightarrow> 'w pay \<Rightarrow> phase_failures \<times> 'w pay" where
  "run_payout_loop E K n st = (payout_cycle E K ^^ n) (no_failures, pause E STARTUP_PAUSE st)"

end
