(* ===== verification/Reconciler.thy ===== *)
theory Reconciler
  imports Payout_Round
begin

text \<open>
  \<open>pool-dashboard/src/reconciler.rs\<close>: the independent sweep over the payouts.  Reservations and
  stale attempts are resolved by what the wallet and the node say, recorded payouts are looked
  up on the chain, clawbacks and the accounting invariant are reported, the coinbase of each
  confirmed block is checked.
\<close>

section \<open>State\<close>

definition STALE_ATTEMPT_MINUTES :: int where
  "STALE_ATTEMPT_MINUTES = 10"

definition PHANTOM_CHECK_HOURS :: int where
  "PHANTOM_CHECK_HOURS = 24"

definition INVARIANT_DRIFT_DELTA_ALERT_ZATOSHIS :: int where
  "INVARIANT_DRIFT_DELTA_ALERT_ZATOSHIS = 10000000"

definition RESERVATION_REFUND_MINUTES :: int where
  "RESERVATION_REFUND_MINUTES = 60"

record reconciler =
  re_pool_fee :: f64
  re_mining_address :: string
  re_auto_void_reorged :: bool
  re_shielded_coinbase :: bool

record sweep_summary =
  sm_attempts_resolved :: nat
  sm_attempts_failed :: nat
  sm_late_confirmed :: nat
  sm_phantom_txids :: "string list"
  sm_drift :: int
  sm_alerts :: "string list"

definition empty_summary :: sweep_summary where
  "empty_summary = \<lparr>sm_attempts_resolved = 0, sm_attempts_failed = 0, sm_late_confirmed = 0,
     sm_phantom_txids = [], sm_drift = 0, sm_alerts = []\<rparr>"

type_synonym 'w sweeping = "sweep_summary \<times> 'w pay"

definition alert :: "string \<Rightarrow> 'w sweeping \<Rightarrow> 'w sweeping" where
  "alert a x = ((fst x)\<lparr>sm_alerts := sm_alerts (fst x) @ [a]\<rparr>, snd x)"

definition tally :: "(sweep_summary \<Rightarrow> sweep_summary) \<Rightarrow> 'w sweeping \<Rightarrow> 'w sweeping" where
  "tally f x = (f (fst x), snd x)"

definition count_failed :: "sweep_summary \<Rightarrow> sweep_summary" where
  "count_failed s = s\<lparr>sm_attempts_failed := sm_attempts_failed s + 1\<rparr>"

definition count_late :: "sweep_summary \<Rightarrow> sweep_summary" where
  "count_late s = s\<lparr>sm_attempts_resolved := sm_attempts_resolved s + 1,
     sm_late_confirmed := sm_late_confirmed s + 1\<rparr>"

text \<open>Lifting the operations of the process.\<close>

definition sweep_db :: "'w payout_env \<Rightarrow> 'a dbm \<Rightarrow> 'w sweeping \<Rightarrow> (db_error + 'a) \<times> 'w sweeping" where
  "sweep_db E m x = (case run_pdb E m (snd x) of (r, st) \<Rightarrow> (r, fst x, st))"

definition sweep_exec :: "'w payout_env \<Rightarrow> 'a dbm \<Rightarrow> 'w sweeping \<Rightarrow> 'w sweeping" where
  "sweep_exec E m x = snd (sweep_db E m x)"

definition lifted :: "('w pay \<Rightarrow> 'a \<times> 'w pay) \<Rightarrow> 'w sweeping \<Rightarrow> 'a \<times> 'w sweeping" where
  "lifted f x = (case f (snd x) of (r, st) \<Rightarrow> (r, fst x, st))"

definition error_text :: "'w payout_env \<Rightarrow> db_error \<Rightarrow> string" where
  "error_text E e = db_error_text (pe_sqlx_text E) e"

text \<open>\<open>{:.4}\<close> of an amount, and the dash of the messages in UTF-8.\<close>

definition coins :: "int \<Rightarrow> string" where
  "coins z = fmt_fixed 4 (to_zec z)"

definition em_dash :: string where
  "em_dash = [CHR 0xE2, CHR 0x80, CHR 0x94]"

definition backticked :: "string \<Rightarrow> string" where
  "backticked s = [CHR 0x60] @ s @ [CHR 0x60]"

definition past_minutes :: "'w payout_env \<Rightarrow> int \<Rightarrow> int \<Rightarrow> 'w sweeping \<Rightarrow> bool" where
  "past_minutes E created minutes x \<longleftrightarrow> created \<le> pe_utc E (snd (snd x)) - minutes * 60"

section \<open>Reservations\<close>

definition reservation :: "int \<Rightarrow> int \<Rightarrow> string" where
  "reservation aid tot = ''reservation '' @ show_int aid @ '' ('' @ coins tot @ '' coins)''"

definition refund_reservation ::
  "'w payout_env \<Rightarrow> int \<Rightarrow> int \<Rightarrow> string \<Rightarrow> 'w sweeping \<Rightarrow> 'w sweeping" where
  "refund_reservation E aid tot why x =
     (case sweep_db E (refund_payout aid) x of
        (Inr n, x) \<Rightarrow>
          (let x = sweep_exec E (update_payout_attempt aid ''failed'' None None
                     (Some (''reconciled: refunded ('' @ why @ '')''))) x in
           alert (reservation aid tot @ '' refunded to pending: '' @ why @ '' ('' @ show_int n @ '' items)'')
             (tally count_failed x))
      | (Inl e, x) \<Rightarrow> alert (''reservation '' @ show_int aid @ '': refund_payout failed: '' @ error_text E e) x)"

definition confirm_reservation ::
  "'w payout_env \<Rightarrow> int \<Rightarrow> int \<Rightarrow> string \<Rightarrow> 'w sweeping \<Rightarrow> 'w sweeping" where
  "confirm_reservation E aid tot t x =
     (case sweep_db E (confirm_payout aid t) x of
        (Inr n, x) \<Rightarrow>
          (let x = sweep_exec E (update_payout_attempt aid ''confirmed'' None (Some t)
                     (Some ''reconciled: confirmed via chain lookup'')) x in
           alert (reservation aid tot @ '' confirmed via chain lookup of '' @ t
               @ '' ('' @ show_int n @ '' items finalized)'') (tally count_late x))
      | (Inl e, x) \<Rightarrow> alert (''reservation '' @ show_int aid @ '': confirm_payout failed: '' @ error_text E e) x)"

text \<open>What is known of an attempt after asking the wallet about its operation.\<close>

datatype op_answer = Unreachable rpc_error | Executing | Op_failed json | Known "string option"

definition resolve_opid ::
  "'w payout_env \<Rightarrow> string option \<Rightarrow> string option \<Rightarrow> 'w sweeping \<Rightarrow> op_answer \<times> 'w sweeping" where
  "resolve_opid E opid txid x = (case (txid, opid) of
     (None, Some op) \<Rightarrow> (case lifted (poll_once E op) x of
         (Inl e, x) \<Rightarrow> (Unreachable e, x)
       | (Inr sts, x) \<Rightarrow> (case first_opt sts of
           None \<Rightarrow> (Known None, x)
         | Some status \<Rightarrow>
             (if status_state status = ''success''
              then (Known (Option.bind (result_txid status) as_str), x)
              else if status_state status = ''failed'' then (Op_failed status, x)
              else (Executing, x))))
   | _ \<Rightarrow> (Known txid, x))"

definition settle_known ::
  "'w payout_env \<Rightarrow> int \<Rightarrow> int \<Rightarrow> int \<Rightarrow> string \<Rightarrow> 'w sweeping \<Rightarrow> 'w sweeping" where
  "settle_known E aid tot created t x =
     (case lifted (look_up_tx E t) x of
        (Inr _, x) \<Rightarrow> confirm_reservation E aid tot t x
      | (Inl e, x) \<Rightarrow>
          (if \<not> is_definitely_not_found e
           then alert (reservation aid tot @ '': node unreachable checking txid '' @ t
             @ '' ('' @ rpc_error_text e @ ''); holding'') x
           else if past_minutes E created RESERVATION_REFUND_MINUTES x
           then refund_reservation E aid tot ''txid not on chain (-5) past expiry'' x
           else alert (reservation aid tot @ '' txid '' @ t @ '' not yet on chain '' @ em_dash
             @ '' leaving for a later sweep'') x))"

definition settle_unknown ::
  "'w payout_env \<Rightarrow> int \<Rightarrow> string \<Rightarrow> int \<Rightarrow> int \<Rightarrow> string option \<Rightarrow> 'w sweeping \<Rightarrow> 'w sweeping" where
  "settle_unknown E aid status tot created opid x = (case opid of
     None \<Rightarrow>
       (if status = ''sent'' \<or> status = ''submitting''
        then alert (''UNRESOLVABLE reservation '' @ show_int aid @ '' ('' @ coins tot @ '' coins, status ''
          @ status @ ''): z_sendmany fate unknown (no opid recorded). Funds parked in '' @ backticked ''paying'' @ ''. ''
          @ ''Check the wallet'' @ [CHR 0x27] @ ''s recent transactions for a matching send before refunding manually.'') x
        else if past_minutes E created RESERVATION_REFUND_MINUTES x
        then refund_reservation E aid tot ''never submitted (no opid) past expiry'' x
        else alert (reservation aid tot @ '' unresolved (no opid yet) '' @ em_dash
          @ '' leaving for a later sweep'') x)
   | Some _ \<Rightarrow> alert (reservation aid tot
       @ '' UNRESOLVABLE: opid known but wallet lost op state and no txid recorded '' @ em_dash
       @ '' funds held in '' @ backticked ''paying'' @ ''; operator must check wallet history and either confirm_payout ''
       @ ''or refund_payout manually'') x)"

definition reconcile_one :: "'w payout_env \<Rightarrow> reserved_attempt \<Rightarrow> 'w sweeping \<Rightarrow> 'w sweeping" where
  "reconcile_one E a x =
     (case resolve_opid E (ra_opid a) (ra_txid a) x of
        (Unreachable e, x) \<Rightarrow> alert (''reservation '' @ show_int (ra_id a)
          @ '': wallet unreachable resolving opid ('' @ rpc_error_text e @ ''); holding'') x
      | (Executing, x) \<Rightarrow> x
      | (Op_failed _, x) \<Rightarrow> refund_reservation E (ra_id a) (ra_total a) ''operation failed'' x
      | (Known (Some t), x) \<Rightarrow> settle_known E (ra_id a) (ra_total a) (ra_created a) t x
      | (Known None, x) \<Rightarrow>
          settle_unknown E (ra_id a) (ra_status a) (ra_total a) (ra_created a) (ra_opid a) x)"

definition reconcile_reserved_payouts ::
  "'w payout_env \<Rightarrow> int option \<Rightarrow> 'w sweeping \<Rightarrow> 'w sweeping" where
  "reconcile_reserved_payouts E older x =
     (case sweep_db E (get_reserved_attempts older) x of
        (Inl e, x) \<Rightarrow> alert (''reserved-attempt query failed: '' @ error_text E e) x
      | (Inr reserved, x) \<Rightarrow> fold (reconcile_one E) reserved x)"

definition reconcile_reserved_payouts_once ::
  "'w payout_env \<Rightarrow> int option \<Rightarrow> 'w pay \<Rightarrow> 'w sweeping" where
  "reconcile_reserved_payouts_once E older st = reconcile_reserved_payouts E older (empty_summary, st)"

section \<open>Stale attempts without a reservation\<close>

definition fail_attempt :: "'w payout_env \<Rightarrow> int \<Rightarrow> string \<Rightarrow> 'w sweeping \<Rightarrow> 'w sweeping" where
  "fail_attempt E aid note x =
     tally count_failed (sweep_exec E (update_payout_attempt aid ''failed'' None None (Some note)) x)"

definition created_text :: "'w payout_env \<Rightarrow> (int \<Rightarrow> string) \<Rightarrow> attempt_row \<Rightarrow> string" where
  "created_text E text r = ''attempt '' @ show_int (at_id r) @ '' ('' @ coins (at_total r)
     @ '' coins, created '' @ text (at_created r) @ '')''"

text \<open>\<open>created_at\<close> is printed as SQLite stored it; \<open>dt\<close> is that text of an instant.\<close>

definition resolve_one ::
  "'w payout_env \<Rightarrow> (int \<Rightarrow> string) \<Rightarrow> attempt_row \<Rightarrow> 'w sweeping \<Rightarrow> 'w sweeping" where
  "resolve_one E dt r x = (let attempt = ''attempt '' @ show_int (at_id r) in
     case resolve_opid E (at_opid r) (at_txid r) x of
       (Unreachable e, x) \<Rightarrow> alert (attempt @ '': wallet unreachable resolving opid (''
         @ rpc_error_text e @ ''); leaving for next sweep'') x
     | (Executing, x) \<Rightarrow> x
     | (Op_failed status, x) \<Rightarrow> fail_attempt E (at_id r)
         (''reconciler: op failed: '' @ COALESCE (operation_message status) ''unknown'') x
     | (Known (Some t), x) \<Rightarrow> (case lifted (look_up_tx E t) x of
         (Inr _, x) \<Rightarrow> alert (created_text E dt r @ '' confirmed late via chain lookup of '' @ t
             @ '' '' @ em_dash @ '' verify per-miner payout rows exist for this tx'')
           (tally count_late (sweep_exec E (update_payout_attempt (at_id r) ''confirmed'' None (Some t)
             (Some ''reconciler: late-confirmed via chain lookup'')) x))
       | (Inl e, x) \<Rightarrow>
           (if \<not> is_definitely_not_found e
            then alert (attempt @ '': node unreachable checking txid '' @ t @ '' ('' @ rpc_error_text e
              @ ''); leaving for next sweep'') x
            else alert (attempt @ '' ('' @ coins (at_total r) @ '' coins) had txid '' @ t
                @ '' that never reached the chain '' @ em_dash
                @ '' marked failed; pending balances were never debited so miners will be paid next round'')
              (fail_attempt E (at_id r) ''reconciler: txid not found on chain (-5)'' x)))
     | (Known None, x) \<Rightarrow> alert (created_text E dt r @ '' was unresolvable '' @ em_dash
           @ '' wallet has no record of opid; verify wallet transaction history manually if balances look short'')
         (fail_attempt E (at_id r) (''reconciler: unresolvable (status was '' @ [CHR 0x27] @ at_status r
           @ [CHR 0x27] @ '', opid '' @ COALESCE (at_opid r) ''none'' @ '' )'') x))"

definition resolve_stale_attempts ::
  "'w payout_env \<Rightarrow> (int \<Rightarrow> string) \<Rightarrow> 'w sweeping \<Rightarrow> 'w sweeping" where
  "resolve_stale_attempts E dt x =
     (case sweep_db E (get_stale_payout_attempts STALE_ATTEMPT_MINUTES) x of
        (Inl e, x) \<Rightarrow> alert (''stale-attempt query failed: '' @ error_text E e) x
      | (Inr stale, x) \<Rightarrow> fold (resolve_one E dt) stale x)"

section \<open>The coinbase of confirmed blocks\<close>

text \<open>\<open>str::parse::<i64>\<close>, \<open>unwrap_or(0)\<close>.\<close>

definition parse_i64 :: "string \<Rightarrow> int option" where
  "parse_i64 s = (let (neg, digits) = (case s of
         c # cs \<Rightarrow> if c = CHR ''-'' then (True, cs) else if c = CHR ''+'' then (False, cs) else (False, s)
       | [] \<Rightarrow> (False, [])) in
     case (if digits = [] then None else parse_dec 0 digits) of
       None \<Rightarrow> None
     | Some n \<Rightarrow> (let i = (if neg then - int n else int n) in
         if - (2 ^ 63) \<le> i \<and> i < 2 ^ 63 then Some i else None))"

definition pays_address :: "string \<Rightarrow> json \<Rightarrow> bool" where
  "pays_address addr vout = (case Option.bind (Option.bind (jget ''scriptPubKey'' vout) (jget ''addresses''))
      as_array of
     None \<Rightarrow> False | Some addrs \<Rightarrow> list_ex (\<lambda>a. as_str a = Some addr) addrs)"

definition coinbase_pays :: "string \<Rightarrow> json \<Rightarrow> bool" where
  "coinbase_pays addr tx = (case Option.bind (jget ''vout'' tx) as_array of
     None \<Rightarrow> False | Some vouts \<Rightarrow> list_ex (pays_address addr) vouts)"

definition coinbase_txid :: "json \<Rightarrow> string option" where
  "coinbase_txid blk =
     Option.bind (Option.bind (Option.bind (jget ''tx'' blk) as_array) first_opt) as_str"

text \<open>\<open>gettransaction\<close> of the wallet: an error response is a definitive no.\<close>

definition wallet_owns ::
  "'w payout_env \<Rightarrow> string \<Rightarrow> 'w sweeping \<Rightarrow> (rpc_error + bool option) \<times> 'w sweeping" where
  "wallet_owns E txid x =
     (case lifted (ask_wallet E (call (pe_transport E) (sd_json (pe_serde E)) ''gettransaction''
             (JArr [JStr txid]))) x of
        (Inr _, x) \<Rightarrow> (Inr (Some True), x)
      | (Inl (JsonRpc _), x) \<Rightarrow> (Inr (Some False), x)
      | (Inl e, x) \<Rightarrow> (Inl e, x))"

definition paid_us ::
  "'w payout_env \<Rightarrow> reconciler \<Rightarrow> int \<Rightarrow> 'w sweeping \<Rightarrow> (rpc_error + bool option) \<times> 'w sweeping" where
  "paid_us E R height x = (let T = pe_transport E; S = pe_serde E in
     case lifted (ask_node E (get_block_hash T S (word_of_int height))) x of
       (Inl e, x) \<Rightarrow> (Inl e, x)
     | (Inr bh, x) \<Rightarrow> (case lifted (ask_node E (get_block T S bh 1)) x of
         (Inl e, x) \<Rightarrow> (Inl e, x)
       | (Inr blk, x) \<Rightarrow> (case coinbase_txid blk of
           None \<Rightarrow> (Inr None, x)
         | Some txid \<Rightarrow> (case lifted (look_up_tx E txid) x of
             (Inl e, x) \<Rightarrow> (Inl e, x)
           | (Inr tx, x) \<Rightarrow> (let pays = coinbase_pays (re_mining_address R) tx in
               if pays \<or> \<not> re_shielded_coinbase R then (Inr (Some pays), x)
               else wallet_owns E txid x)))))"

definition mismatch_alert :: "reconciler \<Rightarrow> int \<Rightarrow> string" where
  "mismatch_alert R height = ''COINBASE MISMATCH: confirmed block at height '' @ show_int height
     @ '' does not pay '' @ (if re_shielded_coinbase R
         then ''the payout wallet (shielded coinbase not found by gettransaction)''
         else ''the mining address'')
     @ '' '' @ em_dash @ '' book income may be phantom; investigate before payouts''"

fun walk_blocks ::
  "'w payout_env \<Rightarrow> reconciler \<Rightarrow> (int \<times> string) list \<Rightarrow> int \<Rightarrow> 'w sweeping \<Rightarrow> int \<times> 'w sweeping" where
  "walk_blocks E R [] watermark x = (watermark, x)"
| "walk_blocks E R ((height, _) # rest) watermark x =
     (case paid_us E R height x of
        (Inl _, x) \<Rightarrow> (watermark, x)
      | (Inr (Some True), x) \<Rightarrow> walk_blocks E R rest height x
      | (Inr (Some False), x) \<Rightarrow> walk_blocks E R rest height (alert (mismatch_alert R height) x)
      | (Inr None, x) \<Rightarrow> walk_blocks E R rest height (alert (''coinbase-check: block '' @ show_int height
          @ '' had no readable coinbase txid; skipping'') x))"

definition check_coinbase_outputs :: "'w payout_env \<Rightarrow> reconciler \<Rightarrow> 'w sweeping \<Rightarrow> 'w sweeping" where
  "check_coinbase_outputs E R x =
     (if re_mining_address R = '''' then x
      else case sweep_db E (get_pool_status ''coinbase_check_height'') x of
        (Inl e, x) \<Rightarrow> alert (''coinbase-check watermark read failed: '' @ error_text E e) x
      | (Inr v, x) \<Rightarrow> (let start = COALESCE (Option.bind v (\<lambda>(val, _). parse_i64 val)) 0 in
          case sweep_db E (get_confirmed_blocks_above start 20) x of
            (Inl e, x) \<Rightarrow> alert (''coinbase-check block query failed: '' @ error_text E e) x
          | (Inr bs, x) \<Rightarrow> (let (watermark, x) = walk_blocks E R bs start x in
              if start < watermark
              then sweep_exec E (set_pool_status ''coinbase_check_height'' (show_int watermark)) x
              else x)))"

section \<open>Clawbacks\<close>

definition clawback_alert :: "int \<times> int \<times> int \<Rightarrow> string" where
  "clawback_alert row = (case row of (block_id, miner_id, amount) \<Rightarrow>
     ''orphan clawback: miner '' @ show_int miner_id @ '' kept '' @ coins amount
     @ '' coins credited for orphaned block id '' @ show_int block_id
     @ '' (already paid out before reversal) '' @ em_dash
     @ '' operator decision: net against future earnings or absorb'')"

definition check_clawbacks :: "'w payout_env \<Rightarrow> 'w sweeping \<Rightarrow> 'w sweeping" where
  "check_clawbacks E x = (case sweep_db E (get_recent_clawbacks 24) x of
     (Inl e, x) \<Rightarrow> alert (''clawback query failed: '' @ error_text E e) x
   | (Inr rows, x) \<Rightarrow> fold (\<lambda>row. alert (clawback_alert row)) rows x)"

section \<open>Phantom payouts\<close>

text \<open>
  \<open>String\<close> is decoded from \<open>txid\<close>, which is never NULL in rows the code writes.
\<close>

definition phantom_alert :: "string \<Rightarrow> int \<Rightarrow> 'w sweeping \<Rightarrow> 'w sweeping" where
  "phantom_alert txid tot x =
     alert (''payout txid '' @ txid @ '' ('' @ coins tot @ '' coins) is recorded as paid but not found on chain ''
       @ em_dash @ '' phantom payout; balances.paid is overstated (manual reconcile required; ''
       @ ''reconciler never auto-deletes)'')
     (tally (\<lambda>s. s\<lparr>sm_phantom_txids := sm_phantom_txids s @ [txid]\<rparr>) x)"

definition absent_payout ::
  "'w payout_env \<Rightarrow> reconciler \<Rightarrow> string \<Rightarrow> int \<Rightarrow> 'w sweeping \<Rightarrow> 'w sweeping" where
  "absent_payout E R txid tot x =
     (if \<not> re_auto_void_reorged R then phantom_alert txid tot x
      else case sweep_db E (void_reorged_payout txid) x of
        (Inr (rows, zats), x) \<Rightarrow>
          (if 0 < rows
           then alert (''AUTO-VOIDED payout txid '' @ txid @ '': reorged out and expired (-5); ''
             @ show_int rows @ '' payout row(s) / '' @ coins zats @ '' coins returned to pending ''
             @ em_dash @ '' miners re-pay next cycle'') x
           else phantom_alert txid tot x)
      | (Inl e, x) \<Rightarrow> alert (''auto-void FAILED for txid '' @ txid @ '': '' @ error_text E e
          @ '' '' @ em_dash @ '' manual reconcile required'') x)"

definition check_phantom ::
  "'w payout_env \<Rightarrow> reconciler \<Rightarrow> string option \<times> int \<Rightarrow> 'w sweeping \<Rightarrow> 'w sweeping" where
  "check_phantom E R row x = (let (t, tot) = row; txid = COALESCE t '''' in
     case lifted (look_up_tx E txid) x of
       (Inr _, x) \<Rightarrow> x
     | (Inl e, x) \<Rightarrow>
         (if \<not> is_definitely_not_found e
          then alert (''phantom-check: node unreachable for txid '' @ txid @ '' ('' @ rpc_error_text e
            @ ''); skipping this sweep'') x
          else absent_payout E R txid tot x))"

definition check_phantom_payouts :: "'w payout_env \<Rightarrow> reconciler \<Rightarrow> 'w sweeping \<Rightarrow> 'w sweeping" where
  "check_phantom_payouts E R x = (case sweep_db E (get_recent_payout_txids PHANTOM_CHECK_HOURS) x of
     (Inl e, x) \<Rightarrow> alert (''phantom-check query failed: '' @ error_text E e) x
   | (Inr recent, x) \<Rightarrow> fold (check_phantom E R) recent x)"

section \<open>The accounting invariant\<close>

definition invariant_version :: "reconciler \<Rightarrow> string" where
  "invariant_version R = ''v4-costrecovery-fee'' @ fmt_fixed 4 (re_pool_fee R)"

definition distributable_total :: "reconciler \<Rightarrow> int \<Rightarrow> int" where
  "distributable_total R reward = as_i64 (fmul (f64_of_int reward) (fsub (Fin 1) (re_pool_fee R)))"

text \<open>The drift the previous sweep wrote, if it used the same formula.\<close>

definition previous_drift :: "'w payout_env \<Rightarrow> reconciler \<Rightarrow> (string \<times> int) option \<Rightarrow> int option" where
  "previous_drift E R v = (case v of None \<Rightarrow> None
   | Some (val, _) \<Rightarrow> (case sd_value (pe_serde E) val of Inl _ \<Rightarrow> None
     | Inr j \<Rightarrow>
         (if Option.bind (jget ''invariant_version'' j) as_str = Some (invariant_version R)
          then map_option to_zatoshis (Option.bind (jget ''invariant_drift_zec'' j) as_f64)
          else None)))"

definition signed_coins :: "int \<Rightarrow> string" where
  "signed_coins z = (if z < 0 then coins z else CHR ''+'' # coins z)"

definition check_invariant :: "'w payout_env \<Rightarrow> reconciler \<Rightarrow> 'w sweeping \<Rightarrow> 'w sweeping" where
  "check_invariant E R x = (case sweep_db E get_accounting_invariant x of
     (Inl e, x) \<Rightarrow> alert (''invariant query failed: '' @ error_text E e) x
   | (Inr (reward, bals, clawed), x) \<Rightarrow>
       (let drift = bals - clawed - distributable_total R reward;
            x = tally (\<lambda>s. s\<lparr>sm_drift := drift\<rparr>) x;
            (v, x) = sweep_db E (get_pool_status ''reconciler_health'') x in
        case previous_drift E R (case v of Inl _ \<Rightarrow> None | Inr o' \<Rightarrow> o') of
          None \<Rightarrow> x
        | Some prev \<Rightarrow>
            (if INVARIANT_DRIFT_DELTA_ALERT_ZATOSHIS < \<bar>drift - prev\<bar>
             then alert (''accounting invariant moved by '' @ signed_coins (drift - prev)
               @ '' coins since last sweep (absolute drift now '' @ coins drift @ '') '' @ em_dash
               @ '' money moved without matching bookkeeping'') x
             else x)))"

section \<open>The sweep\<close>

definition reconciler_health :: "reconciler \<Rightarrow> string \<Rightarrow> sweep_summary \<Rightarrow> json" where
  "reconciler_health R now_text s = JObj [
     (''invariant_version'', JStr (invariant_version R)), (''last_run'', JStr now_text),
     (''attempts_resolved'', jnat (sm_attempts_resolved s)),
     (''attempts_failed'', jnat (sm_attempts_failed s)),
     (''late_confirmed_attempts'', jnat (sm_late_confirmed s)),
     (''phantom_txids'', JArr (map JStr (sm_phantom_txids s))),
     (''invariant_drift_zec'', jfloat (to_zec (sm_drift s))),
     (''alerts'', JArr (map JStr (sm_alerts s)))]"

definition sweep_checks ::
  "'w payout_env \<Rightarrow> (int \<Rightarrow> string) \<Rightarrow> reconciler \<Rightarrow> 'w sweeping \<Rightarrow> 'w sweeping" where
  "sweep_checks E dt R = check_coinbase_outputs E R \<circ> check_invariant E R \<circ> check_clawbacks E
     \<circ> check_phantom_payouts E R \<circ> resolve_stale_attempts E dt
     \<circ> reconcile_reserved_payouts E (Some STALE_ATTEMPT_MINUTES)"

definition sweep_once ::
  "'w payout_env \<Rightarrow> (int \<Rightarrow> string) \<Rightarrow> reconciler \<Rightarrow> 'w pay \<Rightarrow> (db_error + sweep_summary) \<times> 'w pay" where
  "sweep_once E dt R st = (let (s, st) = sweep_checks E dt R (empty_summary, st);
       (r, st) = run_pdb E (set_pool_status ''reconciler_health''
         (sd_render (pe_serde E) (reconciler_health R (pe_rfc3339 E (snd st)) s))) st in
     (case r of Inl e \<Rightarrow> Inl e | Inr _ \<Rightarrow> Inr s, st))"

definition reconciler_turn ::
  "'w payout_env \<Rightarrow> (int \<Rightarrow> string) \<Rightarrow> reconciler \<Rightarrow> nanos \<Rightarrow> 'w pay \<Rightarrow> 'w pay" where
  "reconciler_turn E dt R interval st = pause E interval (snd (sweep_once E dt R st))"

definition run_reconciler ::
  "'w payout_env \<Rightarrow> (int \<Rightarrow> string) \<Rightarrow> reconciler \<Rightarrow> nanos \<Rightarrow> nat \<Rightarrow> 'w pay \<Rightarrow> 'w pay" where
  "run_reconciler E dt R interval n st =
     (reconciler_turn E dt R interval ^^ n) (pause E (90 * 10 ^ 9) st)"

end
