(* ===== verification/Payout_Client.thy ===== *)
theory Payout_Client
  imports Payout_Loop Reconciler
begin

text \<open>
  What the payout loop and the reconciler use of the ledger, as a locale: an assertion \<open>P\<close> about
  the database that every ledger operation they call keeps, except operations on the attempts
  in \<open>A\<close>.  The lemmas of the locale show that then every round, sweep and cycle keeps \<open>P\<close>,
  whatever the wallet, the node and the database answer.
\<close>

section \<open>Attempts whose fate is unknown\<close>

definition parked_row :: "attempt_row \<Rightarrow> bool" where
  "parked_row r \<longleftrightarrow> (at_status r = ''sent'' \<or> at_status r = ''submitting'')
     \<and> at_opid r = None \<and> at_txid r = None"

definition parked_entry :: "reserved_attempt \<Rightarrow> bool" where
  "parked_entry a \<longleftrightarrow> (ra_status a = ''sent'' \<or> ra_status a = ''submitting'')
     \<and> ra_opid a = None \<and> ra_txid a = None"

lemma parked_reserved_entry: "parked_row r \<Longrightarrow> parked_entry (reserved_entry s r)"
  by (simp add: parked_row_def parked_entry_def reserved_entry_def)

lemma reconcile_parked: "parked_entry a \<Longrightarrow> snd (reconcile_one E a x) = snd x"
  by (auto simp: parked_entry_def reconcile_one_def resolve_opid_def settle_unknown_def alert_def)

section \<open>Database operations within the process\<close>

abbreviation db_now :: "'w payout_env \<Rightarrow> 'w pay \<Rightarrow> db" where
  "db_now E st \<equiv> (py_db (fst st))\<lparr>db_clock := pe_utc E (snd st)\<rparr>"

lemma run_pdb_eq:
  "run_pdb E m st = (r, st') \<Longrightarrow> m (db_now E st) = (r, py_db (fst st'))"
  by (auto simp: run_pdb_def split: prod.splits)

lemma pause_db [simp]: "py_db (fst (pause E d st)) = py_db (fst st)"
  by (simp add: pause_def Let_def)

lemma ask_wallet_db: "ask_wallet E f st = (r, st') \<Longrightarrow> py_db (fst st') = py_db (fst st)"
  by (auto simp: ask_wallet_def split: prod.splits)

lemma ask_node_db: "ask_node E f st = (r, st') \<Longrightarrow> py_db (fst st') = py_db (fst st)"
  by (auto simp: ask_node_def split: prod.splits)

lemma snd_ask_db [simp]:
  "py_db (fst (snd (ask_wallet E f st))) = py_db (fst st)"
  "py_db (fst (snd (ask_node E f st))) = py_db (fst st)"
  by (simp_all add: ask_wallet_def ask_node_def case_prod_beta)

lemma poll_operation_db: "py_db (fst (snd (poll_operation E opid deadline st))) = py_db (fst st)"
proof (induction E opid deadline st rule: poll_operation.induct)
  case (1 E opid deadline st)
  show ?case
    using 1 by (subst poll_operation.simps)
      (auto simp: Let_def poll_once_def dest: ask_wallet_db split: prod.splits sum.splits option.splits)
qed

lemma wait_for_operation_db [simp]: "py_db (fst (snd (wait_for_operation E opid st))) = py_db (fst st)"
  by (simp add: wait_for_operation_def poll_operation_db)

lemma verify_visible_db [simp]: "py_db (fst (snd (verify_visible n E txid e st))) = py_db (fst st)"
  by (induction n E txid e st rule: verify_visible.induct)
    (auto simp: look_up_tx_def dest: ask_node_db split: prod.splits sum.splits)

lemma snd_lifted [simp]: "snd (snd (lifted f x)) = snd (f (snd x))"
  by (simp add: lifted_def split: prod.splits)

lemma resolve_opid_db [simp]: "py_db (fst (snd (snd (resolve_opid E opid txid x)))) = py_db (fst (snd x))"
proof -
  have "py_db (fst (snd y)) = py_db (fst (snd x))" if "lifted (poll_once E op) x = (r, y)" for r y op
    using that snd_lifted [of "poll_once E op" x] by (simp add: poll_once_def)
  then show ?thesis
    by (auto simp: resolve_opid_def split: prod.splits sum.splits option.splits)
qed

lemma alert_db [simp]: "snd (alert a x) = snd x"
  by (simp add: alert_def)

lemma tally_db [simp]: "snd (tally f x) = snd x"
  by (simp add: tally_def)

section \<open>The contract\<close>

locale ledger_client =
  fixes P :: "db \<Rightarrow> bool" and A :: "int set"
  assumes clock: "P (s\<lparr>db_clock := c\<rparr>) = P s"
    and faults: "no_faults_dep P"
    and create: "keeps P (create_payout_attempt n t src)"
    and fresh: "P s \<Longrightarrow> create_payout_attempt n t src s = (Inr i, s') \<Longrightarrow> i \<notin> A"
    and update: "i \<notin> A \<Longrightarrow> keeps P (update_payout_attempt i status opid ot err)"
    and reserve: "i \<notin> A \<Longrightarrow> keeps P (reserve_payout i rs)"
    and confirm: "i \<notin> A \<Longrightarrow> keeps P (confirm_payout i txt)"
    and refund: "i \<notin> A \<Longrightarrow> keeps P (refund_payout i)"
    and void: "keeps P (void_reorged_payout txt)"
    and tx_cost: "keeps P (record_tx_cost kind ref fee)"
    and pool_status: "keeps P (set_pool_status k v)"
    and held: "P s \<Longrightarrow> r \<in> set (attempts s) \<Longrightarrow> at_id r \<in> A \<Longrightarrow> has_items s (at_id r) \<and> parked_row r"
begin

definition holds :: "'w pay \<Rightarrow> bool" where
  "holds st \<longleftrightarrow> P (py_db (fst st))"

lemma holds_pause [simp]: "holds (pause E d st) = holds st"
  by (simp add: holds_def)

lemma holds_run:
  assumes "holds st" "keeps P m"
  shows "holds (snd (run_pdb E m st))"
  using assms keepsD [OF assms(2), of "db_now E st"] run_pdb_eq [of E m st]
  by (metis clock holds_def prod.collapse)

lemma holds_exec: "holds st \<Longrightarrow> keeps P m \<Longrightarrow> holds (exec_pdb E m st)"
  by (simp add: exec_pdb_def holds_run)

lemma holds_ran: "run_pdb E m st = (r, st') \<Longrightarrow> holds st \<Longrightarrow> keeps P m \<Longrightarrow> holds st'"
  using holds_run [of st m E] by simp

lemma holds_asked:
  "ask_wallet E f st = (r, st') \<Longrightarrow> holds st \<Longrightarrow> holds st'"
  "ask_node E g st = (q, st') \<Longrightarrow> holds st \<Longrightarrow> holds st'"
  by (simp_all add: holds_def ask_wallet_db ask_node_db)

lemma holds_waited: "wait_for_operation E opid st = (r, st') \<Longrightarrow> holds st \<Longrightarrow> holds st'"
  using wait_for_operation_db [of E opid st] by (simp add: holds_def)

lemma holds_verified: "verify_visible n E txid e st = (r, st') \<Longrightarrow> holds st \<Longrightarrow> holds st'"
  using verify_visible_db [of n E txid e st] by (simp add: holds_def)

lemma keeps_reads:
  "keeps P get_immature_exposure" "keeps P (get_pending_payouts mn inc cd ov)"
  "keeps P (get_reserved_attempts older)" "keeps P (get_stale_payout_attempts mins)"
  "keeps P (get_recent_payout_txids h)" "keeps P (get_recent_clawbacks h)"
  "keeps P get_accounting_invariant" "keeps P (get_pool_status k)"
  "keeps P (get_confirmed_blocks_above height cap)"
  unfolding get_immature_exposure_def get_pending_payouts_def get_reserved_attempts_def
    get_stale_payout_attempts_def get_recent_payout_txids_def get_recent_clawbacks_def
    get_accounting_invariant_def get_pool_status_def get_confirmed_blocks_above_def
  by (intro db_inv faults)+

section \<open>A round\<close>

lemma holds_mark: "holds st \<Longrightarrow> aid \<notin> A \<Longrightarrow> holds (mark_attempt E aid status opid txid note st)"
  by (simp add: mark_attempt_def holds_exec update)

lemma holds_refund_and_fail: "holds st \<Longrightarrow> aid \<notin> A \<Longrightarrow> holds (refund_and_fail E aid note st)"
  by (simp add: refund_and_fail_def holds_mark holds_exec refund)

lemma holds_settle:
  assumes "holds st" "aid \<notin> A"
  shows "holds (snd (settle_payout E aid plan txid st))"
  using assms unfolding settle_payout_def
  by (auto simp: Let_def split: prod.splits sum.splits
      intro: holds_mark holds_ran [OF _ holds_exec [OF assms(1) tx_cost] confirm])

lemma holds_follow:
  assumes "holds st" "aid \<notin> A"
  shows "holds (snd (follow_payout E aid plan opid st))"
  using assms unfolding follow_payout_def
  by (auto split: prod.splits sum.splits op_result.splits
      intro!: holds_mark holds_settle holds_refund_and_fail dest: holds_waited holds_verified)

lemma holds_send_refused: "holds st \<Longrightarrow> aid \<notin> A \<Longrightarrow> holds (snd (send_refused E aid e st))"
  by (auto simp: send_refused_def Let_def intro!: holds_mark holds_refund_and_fail)

lemma holds_submit:
  assumes "holds st" "aid \<notin> A"
  shows "holds (snd (submit_payout E K aid plan st))"
  using assms unfolding submit_payout_def
  by (auto simp: Let_def split: prod.splits sum.splits
      intro!: holds_refund_and_fail holds_send_refused holds_follow holds_mark
      dest: holds_asked holds_ran [OF _ assms(1) update [OF assms(2)]])

lemma created_outside:
  assumes "holds st" "run_pdb E (create_payout_attempt n t src) st = (Inr i, st')"
  shows "i \<notin> A"
  using fresh [OF _ run_pdb_eq [OF assms(2)]] assms(1) by (simp add: clock holds_def)

lemma holds_pay_plan:
  assumes "holds st"
  shows "holds (snd (pay_plan E K plan st))"
  unfolding pay_plan_def
proof (split prod.split sum.split, intro allI conjI impI, goal_cases)
  case (1 r st1)
  show ?case
  proof (split sum.split, intro allI conjI impI, goal_cases)
    case (1 e)
    then show ?case using holds_ran [OF \<open>_ = (r, st1)\<close> assms create] by simp
  next
    case (2 aid)
    have st1: "holds st1" and aid: "aid \<notin> A"
      using holds_ran [OF \<open>_ = (r, st1)\<close> assms create] created_outside [OF assms] 1 2 by blast+
    then show ?case
      by (auto simp: Let_def split: prod.splits sum.splits intro!: holds_mark holds_submit
          dest: holds_ran [OF _ st1 reserve [OF aid]])
  qed
qed

lemma holds_process_payouts:
  assumes "holds st"
  shows "holds (snd (process_payouts E K knobs st))"
proof -
  have imm: "holds st'" if "immature_allowed E K st = (r, st')" for r st'
    using that assms by (auto simp: immature_allowed_def keeps_reads dest: holds_ran
        split: if_splits prod.splits sum.splits)
  show ?thesis unfolding process_payouts_def
    by (auto simp: Let_def keeps_reads split: prod.splits sum.splits intro!: holds_pay_plan
        dest!: imm dest: holds_asked holds_ran)
qed

section \<open>A sweep\<close>

lemma holds_sweep_db:
  assumes "sweep_db E m x = (r, x')" "holds (snd x)" "keeps P m"
  shows "holds (snd x')"
  using assms holds_run [of "snd x" m E] by (auto simp: sweep_db_def split: prod.splits)

lemma holds_sweep_exec: "holds (snd x) \<Longrightarrow> keeps P m \<Longrightarrow> holds (snd (sweep_exec E m x))"
  unfolding sweep_exec_def by (rule holds_sweep_db [OF prod.collapse [symmetric]])

lemma holds_lifted:
  "lifted (ask_wallet E f) x = (r, x') \<Longrightarrow> holds (snd x) \<Longrightarrow> holds (snd x')"
  "lifted (ask_node E g) x = (q, x') \<Longrightarrow> holds (snd x) \<Longrightarrow> holds (snd x')"
  by (auto simp: lifted_def holds_asked split: prod.splits)

lemma holds_lifted_pair:
  "lifted (ask_wallet E f) (sm, st) = (r, sm', st') \<Longrightarrow> holds st \<Longrightarrow> holds st'"
  "lifted (ask_node E g) (sm, st) = (q, sm', st') \<Longrightarrow> holds st \<Longrightarrow> holds st'"
  "lifted (look_up_tx E t) (sm, st) = (u, sm', st') \<Longrightarrow> holds st \<Longrightarrow> holds st'"
  unfolding look_up_tx_def using holds_lifted [of E _ "(sm, st)" _ "(sm', st')"] by auto

lemma holds_swept_pair:
  "sweep_db E m (sm, st) = (r, sm', st') \<Longrightarrow> holds st \<Longrightarrow> keeps P m \<Longrightarrow> holds st'"
  using holds_sweep_db [of E m "(sm, st)" r "(sm', st')"] by simp

lemma holds_looked_up: "lifted (look_up_tx E t) x = (r, x') \<Longrightarrow> holds (snd x) \<Longrightarrow> holds (snd x')"
  unfolding look_up_tx_def by (rule holds_lifted(2))

lemma holds_resolved: "resolve_opid E opid txid x = (r, x') \<Longrightarrow> holds (snd x) \<Longrightarrow> holds (snd x')"
  using resolve_opid_db [of E opid txid x] by (simp add: holds_def)

lemma holds_refund_reservation:
  assumes "holds (snd x)" "aid \<notin> A"
  shows "holds (snd (refund_reservation E aid tot why x))"
  using assms unfolding refund_reservation_def
  by (auto simp: Let_def split: prod.splits sum.splits intro!: holds_sweep_exec update
      dest: holds_sweep_db [OF _ assms(1) refund [OF assms(2)]])

lemma holds_confirm_reservation:
  assumes "holds (snd x)" "aid \<notin> A"
  shows "holds (snd (confirm_reservation E aid tot t x))"
  using assms unfolding confirm_reservation_def
  by (auto simp: Let_def split: prod.splits sum.splits intro!: holds_sweep_exec update
      dest: holds_sweep_db [OF _ assms(1) confirm [OF assms(2)]])

lemma holds_settle_known:
  "holds (snd x) \<Longrightarrow> aid \<notin> A \<Longrightarrow> holds (snd (settle_known E aid tot created t x))"
  unfolding settle_known_def
  by (auto split: prod.splits sum.splits intro!: holds_refund_reservation holds_confirm_reservation
      dest: holds_looked_up)

lemma holds_settle_unknown:
  "holds (snd x) \<Longrightarrow> aid \<notin> A \<Longrightarrow> holds (snd (settle_unknown E aid status tot created opid x))"
  unfolding settle_unknown_def by (auto split: option.splits intro!: holds_refund_reservation)

lemma holds_reconcile_one:
  assumes "holds (snd x)" "ra_id a \<in> A \<Longrightarrow> parked_entry a"
  shows "holds (snd (reconcile_one E a x))"
proof (cases "ra_id a \<in> A")
  case True
  then show ?thesis using assms by (simp add: reconcile_parked)
next
  case False
  then show ?thesis using assms(1) unfolding reconcile_one_def
    by (auto split: prod.splits op_answer.splits option.splits intro!: holds_refund_reservation
        holds_settle_known holds_settle_unknown dest: holds_resolved)
qed

lemma holds_fold:
  assumes "\<And>a x. a \<in> set xs \<Longrightarrow> holds (snd x) \<Longrightarrow> holds (snd (f a x))" "holds (snd x)"
  shows "holds (snd (fold f xs x))"
  using assms by (induction xs arbitrary: x) auto

lemma held_entries:
  assumes "holds st" "run_pdb E (get_reserved_attempts older) st = (Inr reserved, st')"
    and "a \<in> set reserved" "ra_id a \<in> A"
  shows "parked_entry a"
proof -
  from run_pdb_eq [OF assms(2)] obtain fs where
    "reserved = (\<lambda>s. map (reserved_entry s) (sort_key at_id (filter (\<lambda>r. has_items s (at_id r)
       \<and> (case older of None \<Rightarrow> True | Some mins \<Rightarrow> older_than s mins 60 (at_created r)))
       (attempts s)))) ((db_now E st)\<lparr>db_faults := fs\<rparr>)"
    unfolding get_reserved_attempts_def by (auto elim: select_Inr)
  with assms(3) obtain r where r: "r \<in> set (attempts (py_db (fst st)))" "\<exists>s. a = reserved_entry s r"
    by auto
  from r(2) assms(4) have "at_id r \<in> A" by (auto simp: reserved_entry_def)
  with held [OF _ r(1)] assms(1) have "parked_row r" by (simp add: holds_def)
  then show ?thesis using r(2) parked_reserved_entry by blast
qed

lemma holds_reconcile_reserved:
  assumes "holds (snd x)"
  shows "holds (snd (reconcile_reserved_payouts E older x))"
proof -
  obtain r x' where Pair: "sweep_db E (get_reserved_attempts older) x = (r, x')" by (rule prod.exhaust)
  have x': "holds (snd x')" using holds_sweep_db [OF Pair assms keeps_reads(3)] .
  show ?thesis
  proof (cases r)
    case (Inr reserved)
    have "run_pdb E (get_reserved_attempts older) (snd x) = (Inr reserved, snd x')"
      using Pair Inr by (auto simp: sweep_db_def split: prod.splits)
    from held_entries [OF assms this] show ?thesis using Pair Inr x'
      by (auto simp: reconcile_reserved_payouts_def intro!: holds_fold holds_reconcile_one)
  qed (use Pair x' in \<open>simp add: reconcile_reserved_payouts_def\<close>)
qed

lemma stale_outside:
  assumes "holds st" "run_pdb E (get_stale_payout_attempts mins) st = (Inr stale, st')" "r \<in> set stale"
  shows "at_id r \<notin> A"
proof -
  from run_pdb_eq [OF assms(2)] assms(3)
  have "r \<in> set (attempts (py_db (fst st)))" "\<not> has_items (py_db (fst st)) (at_id r)"
    unfolding get_stale_payout_attempts_def by (auto elim!: select_Inr simp: has_items_def)
  then show ?thesis using held assms(1) by (auto simp: holds_def)
qed

lemma holds_fail_attempt:
  "holds (snd x) \<Longrightarrow> aid \<notin> A \<Longrightarrow> holds (snd (fail_attempt E aid note x))"
  by (simp add: fail_attempt_def holds_sweep_exec update)

lemma holds_resolve_one:
  "holds (snd x) \<Longrightarrow> at_id r \<notin> A \<Longrightarrow> holds (snd (resolve_one E dt r x))"
  unfolding resolve_one_def Let_def
  by (auto split: prod.splits op_answer.splits option.splits sum.splits
      intro!: holds_fail_attempt holds_sweep_exec update dest: holds_resolved holds_looked_up)

lemma holds_resolve_stale:
  assumes "holds (snd x)"
  shows "holds (snd (resolve_stale_attempts E dt x))"
proof -
  obtain r x' where Pair: "sweep_db E (get_stale_payout_attempts STALE_ATTEMPT_MINUTES) x = (r, x')" by (rule prod.exhaust)
  have x': "holds (snd x')" using holds_sweep_db [OF Pair assms keeps_reads(4)] .
  show ?thesis
  proof (cases r)
    case (Inr stale)
    have "run_pdb E (get_stale_payout_attempts STALE_ATTEMPT_MINUTES) (snd x) = (Inr stale, snd x')"
      using Pair Inr by (auto simp: sweep_db_def split: prod.splits)
    from stale_outside [OF assms this] show ?thesis using Pair Inr x'
      by (auto simp: resolve_stale_attempts_def intro!: holds_fold holds_resolve_one)
  qed (use Pair x' in \<open>simp add: resolve_stale_attempts_def\<close>)
qed

lemma holds_absent: "holds (snd x) \<Longrightarrow> holds (snd (absent_payout E R txid tot x))"
  unfolding absent_payout_def phantom_alert_def
  by (cases x) (auto split: prod.splits sum.splits dest: holds_swept_pair [OF _ _ void])

lemma holds_check_phantom: "holds (snd x) \<Longrightarrow> holds (snd (check_phantom E R row x))"
  unfolding check_phantom_def Let_def
  by (cases x) (auto split: prod.splits sum.splits intro!: holds_absent dest: holds_lifted_pair)

lemma holds_check_phantoms: "holds (snd x) \<Longrightarrow> holds (snd (check_phantom_payouts E R x))"
  unfolding check_phantom_payouts_def
  by (auto split: prod.splits sum.splits intro!: holds_fold holds_check_phantom
      dest: holds_sweep_db [OF _ _ keeps_reads(5)])

lemma holds_check_clawbacks: "holds (snd x) \<Longrightarrow> holds (snd (check_clawbacks E x))"
  unfolding check_clawbacks_def
  by (auto split: prod.splits sum.splits intro!: holds_fold dest: holds_sweep_db [OF _ _ keeps_reads(6)])

lemma holds_check_invariant: "holds (snd x) \<Longrightarrow> holds (snd (check_invariant E R x))"
  unfolding check_invariant_def Let_def
  by (cases x) (auto simp: tally_def split: prod.splits sum.splits option.splits
      dest!: holds_swept_pair [OF _ _ keeps_reads(7)] holds_swept_pair [OF _ _ keeps_reads(8)])

lemma holds_paid_us: "paid_us E R height x = (r, x') \<Longrightarrow> holds (snd x) \<Longrightarrow> holds (snd x')"
  unfolding paid_us_def wallet_owns_def Let_def
  by (cases x, cases x') (auto split: prod.splits sum.splits option.splits if_splits rpc_error.splits
      dest: holds_lifted_pair)

lemma holds_walk_blocks: "holds (snd x) \<Longrightarrow> holds (snd (snd (walk_blocks E R bs w x)))"
proof (induction bs arbitrary: w x)
  case (Cons b bs)
  obtain h hash r x' where b: "b = (h, hash)" and p: "paid_us E R h x = (r, x')" by (cases b) (metis surj_pair)
  from holds_paid_us [OF p Cons.prems] show ?case
    using Cons.IH by (auto simp: b p split: sum.splits option.splits bool.splits)
qed simp

lemma holds_check_coinbase:
  assumes "holds (snd x)"
  shows "holds (snd (check_coinbase_outputs E R x))"
proof -
  have walked: "holds (snd x')" if "walk_blocks E R bs w y = (h, x')" "holds (snd y)" for h x' bs w y
    using holds_walk_blocks [OF that(2), of E R bs w] that(1) by simp
  show ?thesis using assms unfolding check_coinbase_outputs_def Let_def
    by (cases x) (auto split: prod.splits sum.splits intro!: holds_sweep_exec pool_status dest!: walked
        dest: holds_swept_pair [OF _ _ keeps_reads(8)] holds_swept_pair [OF _ _ keeps_reads(9)])
qed

lemma holds_sweep_checks: "holds (snd x) \<Longrightarrow> holds (snd (sweep_checks E dt R x))"
  by (simp add: sweep_checks_def holds_check_coinbase holds_check_invariant holds_check_clawbacks
      holds_check_phantoms holds_resolve_stale holds_reconcile_reserved)

lemma holds_sweep_once:
  assumes "holds st"
  shows "holds (snd (sweep_once E dt R st))"
  using holds_sweep_checks [of "(empty_summary, st)" E dt R] assms unfolding sweep_once_def Let_def
  by (auto split: prod.splits dest: holds_ran [OF _ _ pool_status])

end

section \<open>The whole cycle\<close>

text \<open>The maturity check also flips and orphans blocks and acknowledges clawbacks.\<close>

locale cycle_client = ledger_client +
  assumes block_status: "keeps P (update_block_status b status)"
    and orphan: "keeps P (orphan_block b reward)"
    and acknowledge: "keeps P (acknowledge_clawbacks_for_block b note)"
begin

lemma holds_settle_block: "holds st \<Longrightarrow> holds (snd (settle_block E imm b h st))"
  unfolding settle_block_def absorb_clawback_def
  by (auto split: prod.splits sum.splits option.splits dest: holds_ran [OF _ _ block_status]
      holds_ran [OF _ _ orphan] holds_ran [OF _ _ acknowledge])

lemma holds_settle_blocks: "holds st \<Longrightarrow> holds (snd (settle_blocks E imm maturity height bs st))"
proof (induction bs arbitrary: st)
  case (Cons b bs)
  have "holds st2" if "settle_block E imm b h st1 = (r, st2)" "holds st1" for r h st1 st2
    using holds_settle_block [OF that(2), of E imm b h] that(1) by simp
  then show ?case using Cons by (auto split: prod.splits sum.splits dest: holds_asked)
qed simp

lemma holds_check_block_maturity:
  assumes "holds st"
  shows "holds (snd (check_block_maturity E maturity imm st))"
proof -
  have pending: "keeps P get_pending_blocks" unfolding get_pending_blocks_def by (intro db_inv faults)
  show ?thesis using assms unfolding check_block_maturity_def
    by (auto split: prod.splits sum.splits intro!: holds_settle_blocks
        dest: holds_asked holds_ran [OF _ _ pending])
qed

lemma holds_drain: "holds st \<Longrightarrow> holds (snd (drain_shielding E opids st))"
proof (induction opids arbitrary: st)
  case (Cons q opids)
  obtain opid utxos r st' where q: "q = (opid, utxos)" and w: "wait_for_operation E opid st = (r, st')"
    by (cases q) (metis surj_pair)
  have "holds st'" using holds_waited [OF w Cons.prems] .
  then show ?case
    by (simp add: q w Cons.IH holds_exec tx_cost split: sum.split op_result.split)
qed simp

lemma holds_shield_batches: "holds st \<Longrightarrow> holds (snd (shield_batches n E K opids st))"
proof (induction n arbitrary: opids st)
  case (Suc n)
  have "holds st2" if "drain_shielding E os st1 = (r, st2)" "holds st1" for r os st1 st2
    using holds_drain [OF that(2), of E os] that(1) by simp
  then show ?case using Suc
    by (auto simp: Let_def split: prod.splits sum.splits intro: holds_drain dest: holds_asked)
qed (simp add: holds_drain)

lemma holds_shield_coinbase: "holds st \<Longrightarrow> holds (snd (shield_coinbase E K st))"
  by (simp add: shield_coinbase_def holds_shield_batches)

lemma holds_write_health: "holds st \<Longrightarrow> holds (snd (write_payout_health E K f st))"
  unfolding write_payout_health_def Let_def
  by (auto split: prod.splits sum.splits intro!: holds_run pool_status dest: holds_asked)

lemma holds_cycle:
  assumes "holds (snd x)"
  shows "holds (snd (payout_cycle E K x))"
  using assms unfolding payout_cycle_def Let_def idle_def
  by (auto simp: case_prod_beta intro!: holds_write_health holds_process_payouts holds_shield_coinbase
      holds_check_block_maturity)

end

end
