(* ===== verification/Payout_Books.thy ===== *)
theory Payout_Books
  imports Payout_Client
begin

text \<open>
  The assertions the payout process keeps, each an interpretation of the contract of
  \<open>Payout_Client\<close>: the books, what each miner is owed, the refinement of an abstract purse
  machine, the reservation of an attempt whose fate is unknown.
\<close>

section \<open>Operations that leave the balance sheet alone\<close>

lemma ledger_pool_status: "keeps ledger_inv (set_pool_status k v)"
proof -
  have "ledger_inv (s\<lparr>statuses := x\<rparr>) = ledger_inv s" for s x by (rule ledger_off) simp_all
  then show ?thesis unfolding set_pool_status_def by (intro db_inv ledger_no_faults) simp
qed

lemma ledger_ack_block: "keeps ledger_inv (acknowledge_clawbacks_for_block b note)"
  unfolding acknowledge_clawbacks_for_block_def acknowledge_where_def
  by (intro db_inv ledger_no_faults) (simp add: Let_def)

interpretation sound: cycle_client ledger_inv "{}"
  by unfold_locales
    (simp_all add: ledger_attempt ledger_attempt_update ledger_reserve ledger_confirm ledger_refund
      ledger_void ledger_tx_cost ledger_pool_status ledger_status ledger_orphan ledger_ack_block)

lemma books_off:
  assumes "balances s' = balances s" "items s' = items s" "payouts s' = payouts s"
  shows "books W s' = books W s"
  using books_tables [OF assms] by simp

lemma books_frame_more [simp]:
  "books W (attempts_update f1 s) = books W s" "books W (db_seq_update f2 s) = books W s"
  "books W (tx_costs_update f3 s) = books W s" "books W (statuses_update f4 s) = books W s"
  "books W (db_clock_update f5 s) = books W s"
  by (rule books_off; simp)+

section \<open>An abstract purse\<close>

text \<open>Per miner: waiting to be paid, reserved by an attempt, paid.\<close>

record purse =
  pu_pending :: "int \<Rightarrow> int"
  pu_paying :: "int \<Rightarrow> int"
  pu_paid :: "int \<Rightarrow> int"

definition column :: "(balance_row \<Rightarrow> int) \<Rightarrow> db \<Rightarrow> int \<Rightarrow> int" where
  "column f s m = sum_where (\<lambda>b. bl_miner b = m) f (balances s)"

definition purse_of :: "db \<Rightarrow> purse" where
  "purse_of s = \<lparr>pu_pending = column bl_pending s, pu_paying = column bl_paying s,
     pu_paid = column bl_paid s\<rparr>"

text \<open>
  Amounts move only between neighbouring purses, never more than there is.
\<close>

inductive purse_step :: "purse \<Rightarrow> purse \<Rightarrow> bool" where
  Reserve: "\<forall>m. 0 \<le> f m \<and> f m \<le> pu_pending p m \<Longrightarrow> purse_step p
    (p\<lparr>pu_pending := \<lambda>m. pu_pending p m - f m, pu_paying := \<lambda>m. pu_paying p m + f m\<rparr>)"
| Settle: "\<forall>m. 0 \<le> f m \<and> f m \<le> pu_paying p m \<Longrightarrow> purse_step p
    (p\<lparr>pu_paying := \<lambda>m. pu_paying p m - f m, pu_paid := \<lambda>m. pu_paid p m + f m\<rparr>)"
| Return: "\<forall>m. 0 \<le> f m \<and> f m \<le> pu_paying p m \<Longrightarrow> purse_step p
    (p\<lparr>pu_paying := \<lambda>m. pu_paying p m - f m, pu_pending := \<lambda>m. pu_pending p m + f m\<rparr>)"
| Void: "\<forall>m. 0 \<le> f m \<and> f m \<le> pu_paid p m \<Longrightarrow> purse_step p
    (p\<lparr>pu_paid := \<lambda>m. pu_paid p m - f m, pu_pending := \<lambda>m. pu_pending p m + f m\<rparr>)"

inductive_simps purse_step_iff: "purse_step p q"

definition purse_total :: "purse \<Rightarrow> int \<Rightarrow> int" where
  "purse_total p m = pu_pending p m + pu_paying p m + pu_paid p m"

lemma purse_step_total: "purse_step p q \<Longrightarrow> purse_total q = purse_total p"
  by (induction rule: purse_step.induct) (simp_all add: purse_total_def fun_eq_iff)

lemma purse_run_total: "purse_step\<^sup>*\<^sup>* p q \<Longrightarrow> purse_total q = purse_total p"
  by (induction rule: rtranclp_induct) (auto dest: purse_step_total)

text \<open>In sound books the columns are the items, the payouts and the rest.\<close>

lemma column_key:
  assumes "distinct (map bl_miner bs)" "\<And>b. b \<in> set bs \<Longrightarrow> f b = F (bl_miner b)"
    and "m \<notin> bl_miner ` set bs \<Longrightarrow> F m = 0"
  shows "sum_where (\<lambda>b. bl_miner b = m) f bs = F m"
  using assms
proof (induction bs)
  case (Cons b bs)
  show ?case
  proof (cases "bl_miner b = m")
    case True
    then have "sum_where (\<lambda>b. bl_miner b = m) f bs = 0"
      using Cons.prems(1) by (intro sum_where_others) auto
    then show ?thesis using True Cons.prems(2) [of b] by (simp add: sum_where_def)
  next
    case False
    then show ?thesis using Cons by (auto simp: sum_where_def)
  qed
qed (simp add: sum_where_def)

lemma purse_columns:
  assumes "books W s"
  shows "column bl_paying s m = item_sum s m" "column bl_paid s m = payout_sum s m"
    "column bl_pending s m = W m - item_sum s m - payout_sum s m" "0 \<le> column bl_pending s m"
    "0 \<le> item_sum s m" "0 \<le> payout_sum s m"
proof -
  have sh: "sheet (item_sum s) (payout_sum s) W (balances s)"
    and it: "\<forall>i \<in> set (items s). 0 < it_amount i \<and> has_balance s (it_miner i)"
    and po: "\<forall>p \<in> set (payouts s). 0 \<le> po_amount p \<and> has_balance s (po_miner p)"
    using assms by (simp_all add: books_iff)
  have d: "distinct (map bl_miner (balances s))"
    and w: "column (\<lambda>b. bl_pending b + bl_paying b + bl_paid b) s m = W m"
    using sh by (simp_all add: sheet_def column_def)
  have z1: "m \<notin> bl_miner ` set (balances s) \<Longrightarrow> item_sum s m = 0"
    using it by (intro no_items_no_sum) (auto simp: has_balance_def)
  show 1: "column bl_paying s m = item_sum s m"
    unfolding column_def by (rule column_key [where F = "item_sum s", OF d _ z1]) (use sheet_row [OF sh] in auto)
  have z2: "m \<notin> bl_miner ` set (balances s) \<Longrightarrow> payout_sum s m = 0"
    using po by (intro no_payouts_no_sum) (auto simp: has_balance_def)
  show 2: "column bl_paid s m = payout_sum s m"
    unfolding column_def by (rule column_key [where F = "payout_sum s", OF d _ z2]) (use sheet_row [OF sh] in auto)
  have "column (\<lambda>b. bl_pending b + bl_paying b + bl_paid b) s m
      = column bl_pending s m + column bl_paying s m + column bl_paid s m"
    by (simp add: column_def sum_where_def sum_list_addf)
  with w 1 2 show "column bl_pending s m = W m - item_sum s m - payout_sum s m" by simp
  show "0 \<le> column bl_pending s m" unfolding column_def
    by (rule sum_where_nonneg) (use sheet_row [OF sh] in auto)
  show "0 \<le> item_sum s m" unfolding item_sum_def
    by (rule sum_where_nonneg) (use it in \<open>simp add: less_imp_le\<close>)
  show "0 \<le> payout_sum s m" unfolding payout_sum_def
    by (rule sum_where_nonneg) (use po in simp)
qed

lemma purse_of_books:
  assumes "books W s"
  shows "purse_of s = \<lparr>pu_pending = \<lambda>m. W m - item_sum s m - payout_sum s m,
     pu_paying = item_sum s, pu_paid = payout_sum s\<rparr>"
  using purse_columns [OF assms] by (simp add: purse_of_def fun_eq_iff)

section \<open>The ledger refines the purse\<close>

text \<open>Sound books, what each miner is owed, and a run of the purse from \<open>p\<close> to here.\<close>

definition refines :: "purse \<Rightarrow> (int \<Rightarrow> int) \<Rightarrow> db \<Rightarrow> bool" where
  "refines p W s \<longleftrightarrow> books W s \<and> purse_step\<^sup>*\<^sup>* p (purse_of s)"

lemma refines_off:
  assumes "balances s' = balances s" "items s' = items s" "payouts s' = payouts s"
  shows "refines p W s' = refines p W s"
  using books_off [OF assms, of W] assms(1) by (simp add: refines_def purse_of_def column_def [abs_def])

lemma refines_frame [simp]:
  "refines p W (attempts_update f1 s) = refines p W s" "refines p W (db_seq_update f2 s) = refines p W s"
  "refines p W (tx_costs_update f3 s) = refines p W s" "refines p W (statuses_update f4 s) = refines p W s"
  "refines p W (db_clock_update f5 s) = refines p W s" "refines p W (db_faults_update f6 s) = refines p W s"
  by (rule refines_off; simp)+

lemma refines_no_faults [simp, intro]: "no_faults_dep (refines p W)"
  by (simp add: no_faults_dep_def)

lemma refines_step:
  assumes "refines p W s" "books W s'" "purse_step (purse_of s) (purse_of s')"
  shows "refines p W s'"
  using assms by (auto simp: refines_def)

lemma pair_sum_items:
  assumes "books W s"
  shows "0 \<le> pair_sum (items_of s aid) m" "pair_sum (items_of s aid) m \<le> item_sum s m"
  using items_of_covered [of s aid m] items_of_valid [of s aid] assms
  by (auto simp: books_def intro: pair_sum_nonneg)

lemma item_sum_without:
  assumes "items s' = filter (\<lambda>i. it_attempt i \<noteq> aid) (items s)"
  shows "item_sum s' m = item_sum s m - pair_sum (items_of s aid) m"
  using arg_cong [OF item_sum_delete [of aid s], of "\<lambda>g. g m"] by (simp add: item_sum_def assms)

lemma keeps_txn_refines:
  assumes "\<And>s v s'. refines p W s \<Longrightarrow> txn m s = (Inr v, s') \<Longrightarrow> refines p W s'"
  shows "keeps (refines p W) (txn m)"
proof (rule keepsI)
  fix s assume P: "refines p W s"
  show "refines p W (snd (txn m s))"
    using assms [OF P] P by (cases rule: txn_outcome [of m s]) auto
qed

lemma refines_reserve: "keeps (refines p W) (reserve_payout aid rs)"
  unfolding reserve_payout_def
proof (rule keeps_txn_refines)
  fix s v s' assume R: "refines p W s" and "txn (dfold (reserve_one aid) [] rs) s = (Inr v, s')"
  then have B: "books W s" and run: "reserve_payout aid rs s = (Inr v, s')"
    by (simp_all add: refines_def reserve_payout_def)
  note e = reserved_effect [OF B run]
  have B': "books W s'" and i: "item_sum s' m = item_sum s m + pair_sum v m"
    and p': "payout_sum s' m = payout_sum s m" for m
    using e new_items_sum [of aid v s s'] by (auto simp: payout_sum_def)
  have n: "0 \<le> pair_sum v m" for m using e by (intro pair_sum_nonneg) (auto simp: less_imp_le)
  have c: "pair_sum v m \<le> W m - item_sum s m - payout_sum s m" for m
    using purse_columns(3,4) [OF B', of m] i [of m] p' [of m] by simp
  have "purse_of s' = (purse_of s)\<lparr>pu_pending := \<lambda>m. pu_pending (purse_of s) m - pair_sum v m,
      pu_paying := \<lambda>m. pu_paying (purse_of s) m + pair_sum v m\<rparr>"
    using i p' by (simp add: purse_of_books [OF B] purse_of_books [OF B'] fun_eq_iff)
  then have "purse_step (purse_of s) (purse_of s')"
    using Reserve [of "pair_sum v" "purse_of s"] n c by (simp add: purse_of_books [OF B])
  then show "refines p W s'" by (rule refines_step [OF R B'])
qed

lemma refines_refund: "keeps (refines p W) (refund_payout aid)"
  unfolding refund_payout_def
proof (rule keeps_txn_refines)
  fix s v s' assume R: "refines p W s" and "txn (dbind (select (\<lambda>s. items_of s aid)) (\<lambda>is.
      dbind (dfold (refund_one aid) 0 is) (\<lambda>k. dseq (delete_items aid) (dret k)))) s = (Inr v, s')"
  then have B: "books W s" and run: "refund_payout aid s = (Inr v, s')"
    by (simp_all add: refines_def refund_payout_def)
  let ?f = "pair_sum (items_of s aid)"
  from books_refunded [OF B run] have B': "books W s'" and p': "payout_sum s' = payout_sum s"
    and i: "item_sum s' m = item_sum s m - ?f m" for m
    by (auto simp: payout_sum_def [abs_def] intro: item_sum_without)
  have "purse_of s' = (purse_of s)\<lparr>pu_paying := \<lambda>m. pu_paying (purse_of s) m - ?f m,
      pu_pending := \<lambda>m. pu_pending (purse_of s) m + ?f m\<rparr>"
    using i p' by (simp add: purse_of_books [OF B] purse_of_books [OF B'] fun_eq_iff)
  then have "purse_step (purse_of s) (purse_of s')"
    using Return [of ?f "purse_of s"] pair_sum_items [OF B] by (simp add: purse_of_books [OF B])
  then show "refines p W s'" by (rule refines_step [OF R B'])
qed

lemma refines_confirm: "keeps (refines p W) (confirm_payout aid txid)"
  unfolding confirm_payout_def
proof (rule keeps_txn_refines)
  fix s v s' assume R: "refines p W s" and "txn (dbind (select (\<lambda>s. items_of s aid)) (\<lambda>is.
      dbind (dfold (confirm_one aid txid) 0 is) (\<lambda>k. dseq (delete_items aid) (dret k)))) s = (Inr v, s')"
  then have B: "books W s" and run: "confirm_payout aid txid s = (Inr v, s')"
    by (simp_all add: refines_def confirm_payout_def)
  let ?f = "pair_sum (items_of s aid)"
  from books_confirmed [OF B run] have B': "books W s'" and np: "new_payouts txid (items_of s aid) s s'"
    and i: "item_sum s' m = item_sum s m - ?f m" for m
    by (auto intro: item_sum_without)
  from np obtain ps where "payouts s' = payouts s @ ps" "map (\<lambda>p. (po_miner p, po_amount p)) ps = items_of s aid"
    by (auto simp: new_payouts_def)
  then have p': "payout_sum s' m = payout_sum s m + ?f m" for m
    by (auto simp: payout_sum_def pair_sum_def sum_where_def filter_map comp_def simp flip: \<open>_ = items_of s aid\<close>)
  have "purse_of s' = (purse_of s)\<lparr>pu_paying := \<lambda>m. pu_paying (purse_of s) m - ?f m,
      pu_paid := \<lambda>m. pu_paid (purse_of s) m + ?f m\<rparr>"
    using i p' by (simp add: purse_of_books [OF B] purse_of_books [OF B'] fun_eq_iff)
  then have "purse_step (purse_of s) (purse_of s')"
    using Settle [of ?f "purse_of s"] pair_sum_items [OF B] by (simp add: purse_of_books [OF B])
  then show "refines p W s'" by (rule refines_step [OF R B'])
qed

lemma refines_void: "keeps (refines p W) (void_reorged_payout txid)"
  unfolding void_reorged_payout_def
proof (rule keeps_txn_refines)
  fix s v s' assume R: "refines p W s" and run0: "txn (void_reorged_payout_txn txid) s = (Inr v, s')"
  have B: "books W s" using R by (simp add: refines_def)
  obtain k z where "void_reorged_payout txid s = (Inr (k, z), s')"
    using run0 by (cases v) (simp add: void_reorged_payout_def)
  note e = books_voided [OF B this]
  have B': "books W s'" and i: "item_sum s' = item_sum s" using e by (auto simp: item_sum_def [abs_def])
  have "payouts s' = payouts s \<or> payouts s' = filter (\<lambda>p. po_txid p \<noteq> Some txid) (payouts s)"
    using e by (auto split: if_splits)
  then have "payout_sum s' m = payout_sum s m
      \<or> payout_sum s' m = payout_sum s m - pair_sum (rows_of_txid txid s) m" for m
    using arg_cong [OF payout_sum_delete [of txid s], of "\<lambda>g. g m"] by (auto simp: payout_sum_def)
  moreover have "0 \<le> pair_sum (rows_of_txid txid s) m" for m
    using B by (intro pair_sum_nonneg) (auto simp: rows_of_txid_def books_iff)
  ultimately have le: "payout_sum s' m \<le> payout_sum s m" for m by (metis diff_ge_0_iff_ge diff_le_eq le_add_same_cancel1 order_refl)
  let ?f = "\<lambda>m. payout_sum s m - payout_sum s' m"
  have "purse_of s' = (purse_of s)\<lparr>pu_paid := \<lambda>m. pu_paid (purse_of s) m - ?f m,
      pu_pending := \<lambda>m. pu_pending (purse_of s) m + ?f m\<rparr>"
    using i by (simp add: purse_of_books [OF B] purse_of_books [OF B'] fun_eq_iff)
  then have "purse_step (purse_of s) (purse_of s')"
    using Void [of ?f "purse_of s"] le purse_columns(6) [OF B'] by (simp add: purse_of_books [OF B])
  then show "refines p W s'" by (rule refines_step [OF R B'])
qed

lemma refines_others:
  "keeps (refines p W) (create_payout_attempt n t src)"
  "keeps (refines p W) (update_payout_attempt i status opid txid err)"
  "keeps (refines p W) (record_tx_cost kind ref fee)"
  "keeps (refines p W) (set_pool_status k v)"
  unfolding create_payout_attempt_def update_payout_attempt_def record_tx_cost_def insert_cost_def
    set_pool_status_def
  by (intro db_inv refines_no_faults; simp add: bump_id_def)+

interpretation refined: ledger_client "refines p W" "{}" for p W
  by unfold_locales
    (simp_all add: refines_others refines_reserve refines_confirm refines_refund refines_void)

end
