(* ===== verification/Payout_Parked.thy ===== *)
theory Payout_Parked
  imports Payout_Books
begin

text \<open>
  A reservation whose fate is unknown (status \<open>sent\<close> or \<open>submitting\<close>, no operation id, no
  transaction id) is left alone by every operation the process runs on other attempts, and by the
  block operations of the maturity check.
\<close>

definition parked :: "int \<Rightarrow> item_row list \<Rightarrow> attempt_row list \<Rightarrow> db \<Rightarrow> bool" where
  "parked aid its rows s \<longleftrightarrow> its \<noteq> [] \<and> filter (\<lambda>i. it_attempt i = aid) (items s) = its
     \<and> filter (\<lambda>r. at_id r = aid) (attempts s) = rows \<and> list_all parked_row rows
     \<and> aid \<le> db_seq s ''payout_attempts''"

lemma parked_off:
  assumes "items s' = items s" "attempts s' = attempts s"
    "db_seq s ''payout_attempts'' \<le> db_seq s' ''payout_attempts''"
  shows "parked aid its rows s \<Longrightarrow> parked aid its rows s'"
  using assms by (simp add: parked_def)

lemma parked_frame [simp]:
  "parked aid its rows (balances_update f1 s) = parked aid its rows s"
  "parked aid its rows (payouts_update f2 s) = parked aid its rows s"
  "parked aid its rows (tx_costs_update f3 s) = parked aid its rows s"
  "parked aid its rows (statuses_update f4 s) = parked aid its rows s"
  "parked aid its rows (blocks_update f5 s) = parked aid its rows s"
  "parked aid its rows (credits_update f6 s) = parked aid its rows s"
  "parked aid its rows (clawbacks_update f7 s) = parked aid its rows s"
  "parked aid its rows (db_clock_update f8 s) = parked aid its rows s"
  "parked aid its rows (db_faults_update f9 s) = parked aid its rows s"
  by (simp_all add: parked_def)

lemma parked_bump: "parked aid its rows s \<Longrightarrow> parked aid its rows (bump_id t s)"
  by (auto simp: parked_def bump_id_def)

lemma parked_no_faults [simp, intro]: "no_faults_dep (parked aid its rows)"
  by (simp add: no_faults_dep_def)

lemma filter_upd_where:
  "(\<And>x. x \<in> set xs \<Longrightarrow> c x \<Longrightarrow> \<not> Q x \<and> \<not> Q (f x)) \<Longrightarrow> filter Q (upd_where c f xs) = filter Q xs"
  by (induction xs) (auto simp: upd_where_def)

lemma parked_upd_attempts:
  assumes "parked aid its rows s" "\<And>r. at_id (f r) = at_id r"
    and "\<And>r. c r \<Longrightarrow> parked_row r \<Longrightarrow> at_id r \<noteq> aid"
  shows "parked aid its rows (s\<lparr>attempts := upd_where c f (attempts s)\<rparr>)"
proof -
  have "filter (\<lambda>r. at_id r = aid) (upd_where c f (attempts s)) = filter (\<lambda>r. at_id r = aid) (attempts s)"
  proof (rule filter_upd_where)
    fix r assume r: "r \<in> set (attempts s)" "c r"
    then have "at_id r = aid \<Longrightarrow> parked_row r" using assms(1) by (auto simp: parked_def list_all_iff)
    then show "\<not> at_id r = aid \<and> \<not> at_id (f r) = aid" using assms(2,3) r(2) by auto
  qed
  then show ?thesis using assms(1) by (simp add: parked_def)
qed

lemma parked_update_balance: "keeps (parked aid its rows) (update_balance m g f)"
  unfolding update_balance_def by (intro db_inv parked_no_faults) (simp add: Let_def)

lemma parked_insert_item:
  "i \<noteq> aid \<Longrightarrow> keeps (parked aid its rows) (insert_item i m a)"
  unfolding insert_item_def
  by (intro db_inv parked_no_faults) (auto simp: check_fk_def parked_def bump_id_def)

lemma parked_insert_payout: "keeps (parked aid its rows) (insert_payout m t a)"
  unfolding insert_payout_def
  by (intro db_inv parked_no_faults) (auto simp: check_fk_def parked_bump)

lemma parked_delete_items: "i \<noteq> aid \<Longrightarrow> keeps (parked aid its rows) (delete_items i)"
proof -
  assume "i \<noteq> aid"
  then have e: "filter (\<lambda>x. it_attempt x = aid) (filter (\<lambda>x. it_attempt x \<noteq> i) xs) = filter (\<lambda>x. it_attempt x = aid) xs" for xs
    by (induction xs) auto
  show ?thesis unfolding delete_items_def
    by (intro db_inv parked_no_faults) (auto simp: parked_def e simp del: filter_filter)
qed

lemma parked_attempts:
  "keeps (parked aid its rows) (create_payout_attempt n t src)"
  "i \<noteq> aid \<Longrightarrow> keeps (parked aid its rows) (update_payout_attempt i status opid txid err)"
  unfolding create_payout_attempt_def update_payout_attempt_def
  by (intro db_inv parked_no_faults; auto simp: parked_def bump_id_def next_id_def)
    (intro db_inv parked_no_faults parked_upd_attempts; simp)

lemma parked_fresh:
  "parked aid its rows s \<Longrightarrow> create_payout_attempt n t src s = (Inr i, s') \<Longrightarrow> i \<noteq> aid"
  unfolding create_payout_attempt_def by (auto elim!: stmt_Inr simp: parked_def next_id_def)

lemma parked_saga:
  assumes "i \<noteq> aid"
  shows "keeps (parked aid its rows) (reserve_payout i rs)"
    "keeps (parked aid its rows) (confirm_payout i txid)"
    "keeps (parked aid its rows) (refund_payout i)"
  unfolding reserve_payout_def confirm_payout_def refund_payout_def
  by (intro keeps_txn keeps_on_ok parked_no_faults keeps_fold db_inv;
      auto simp: reserve_one_def confirm_one_def refund_one_def split: prod.split
        intro!: db_inv parked_update_balance parked_insert_item parked_insert_payout parked_delete_items assms)+

lemma parked_void: "keeps (parked aid its rows) (void_reorged_payout txid)"
proof -
  have "parked aid its rows (s\<lparr>attempts := upd_where
         (\<lambda>r. at_txid r = Some txid \<and> at_status r = ''confirmed'')
         (\<lambda>r. r\<lparr>at_status := st, at_updated := db_clock s, at_error := e\<rparr>) (attempts s)\<rparr>)"
    if "parked aid its rows s" for st e s
    by (rule parked_upd_attempts [OF that]) (auto simp: parked_row_def)
  moreover have "keeps (parked aid its rows) (void_one txid z r)" for z r
    unfolding void_one_def by (cases r) (auto intro!: db_inv parked_update_balance)
  ultimately show ?thesis unfolding void_reorged_payout_def void_reorged_payout_txn_def
    by (intro keeps_txn keeps_on_ok parked_no_faults) (auto intro!: db_inv)
qed

lemma parked_insert_cost: "keeps (parked aid its rows) (insert_cost k r f)"
  unfolding insert_cost_def by (intro db_inv parked_no_faults) (simp add: parked_bump)

lemma parked_blocks:
  "keeps (parked aid its rows) (update_block_status b st)"
  "keeps (parked aid its rows) (acknowledge_clawbacks_for_block b note)"
  "keeps (parked aid its rows) (set_pool_status k v)"
  unfolding update_block_status_def acknowledge_clawbacks_for_block_def acknowledge_where_def
    set_pool_status_def
  by (intro db_inv parked_no_faults; simp add: Let_def)+

lemma parked_orphan: "keeps (parked aid its rows) (orphan_block b reward)"
proof -
  have 1: "keeps (parked aid its rows) (reverse_one b acc c)" for acc c
    unfolding reverse_one_def insert_clawback_def Let_def
    by (cases acc; cases c) (auto intro!: db_inv parked_update_balance simp: parked_bump)
  have 2: "keeps (parked aid its rows) (requeue_costs b)"
    unfolding requeue_costs_def set_block_costs_def by (auto intro!: db_inv parked_insert_cost)
  have 3: "keeps (parked aid its rows) (proportional_reversal r t)" for r t
    unfolding proportional_reversal_def by (intro db_inv parked_no_faults) simp
  have "keeps (parked aid its rows) (orphan_block_txn b reward)"
    unfolding orphan_block_txn_def reverse_block_credits_precise_txn_def
    by (auto intro!: db_inv 1 2 3)
  then show ?thesis unfolding orphan_block_def
    by (intro keeps_txn parked_no_faults keeps_on_ok)
qed

lemma parked_held:
  assumes "parked aid its rows s" "r \<in> set (attempts s)" "at_id r = aid"
  shows "has_items s aid \<and> parked_row r"
proof -
  have "r \<in> set (filter (\<lambda>r. at_id r = aid) (attempts s))" using assms(2,3) by simp
  moreover have "\<exists>i \<in> set (items s). it_attempt i = aid"
    using assms(1) filter_False [of "items s" "\<lambda>i. it_attempt i = aid"] by (auto simp: parked_def)
  ultimately show ?thesis
    using assms(1) by (auto simp: parked_def has_items_def list_ex_iff list_all_iff)
qed

interpretation parked: cycle_client "parked aid its rows" "{aid}" for aid its rows
proof unfold_locales
  show "keeps (parked aid its rows) (record_tx_cost kind ref fee)" for kind ref fee
    unfolding record_tx_cost_def by (rule parked_insert_cost)
qed (use parked_fresh parked_held in \<open>auto simp: parked_attempts parked_saga parked_void parked_blocks parked_orphan\<close>)

end
