(* ===== verification/Payout_Turns.thy ===== *)
theory Payout_Turns
  imports Payout_Parked
begin

text \<open>
  What every interleaving of payout rounds, cycles and reconciler sweeps keeps.
\<close>

section \<open>Turns of the two loops\<close>

text \<open>
  The payout loop and the reconciler are two tasks over one database and one pair of RPC
  clients.  A run is any sequence of their turns.
\<close>

datatype pay_turn =
    Round payout_params "int \<times> int"
  | Cycle payout_params phase_failures
  | Sweep reconciler
  | Startup "int option"
  | Wait nanos

fun take_turn :: "'w payout_env \<Rightarrow> (int \<Rightarrow> string) \<Rightarrow> pay_turn \<Rightarrow> 'w pay \<Rightarrow> 'w pay" where
  "take_turn E dt (Round K knobs) st = snd (process_payouts E K knobs st)"
| "take_turn E dt (Cycle K f) st = snd (payout_cycle E K (f, st))"
| "take_turn E dt (Sweep R) st = snd (sweep_once E dt R st)"
| "take_turn E dt (Startup older) st = snd (reconcile_reserved_payouts_once E older st)"
| "take_turn E dt (Wait d) st = pause E d st"

definition take_turns :: "'w payout_env \<Rightarrow> (int \<Rightarrow> string) \<Rightarrow> pay_turn list \<Rightarrow> 'w pay \<Rightarrow> 'w pay" where
  "take_turns E dt ts st = fold (take_turn E dt) ts st"

text \<open>Turns that move money without the maturity check.\<close>

fun settles_blocks :: "pay_turn \<Rightarrow> bool" where
  "settles_blocks (Cycle K f) = True"
| "settles_blocks _ = False"

lemma take_turns_Nil [simp]: "take_turns E dt [] st = st"
  by (simp add: take_turns_def)

context ledger_client begin

lemma holds_turn: "\<not> settles_blocks t \<Longrightarrow> holds st \<Longrightarrow> holds (take_turn E dt t st)"
  by (cases t) (simp_all add: holds_process_payouts holds_sweep_once reconcile_reserved_payouts_once_def
      holds_reconcile_reserved)

lemma holds_turns: "list_all (\<lambda>t. \<not> settles_blocks t) ts \<Longrightarrow> holds st \<Longrightarrow> holds (take_turns E dt ts st)"
  unfolding take_turns_def by (induction ts arbitrary: st) (simp_all add: holds_turn)

end

context cycle_client begin

lemma holds_any_turn: "holds st \<Longrightarrow> holds (take_turn E dt t st)"
  by (cases t) (simp_all add: holds_process_payouts holds_sweep_once reconcile_reserved_payouts_once_def
      holds_reconcile_reserved holds_cycle)

lemma holds_any_turns: "holds st \<Longrightarrow> holds (take_turns E dt ts st)"
  unfolding take_turns_def by (induction ts arbitrary: st) (simp_all add: holds_any_turn)

end

abbreviation ledger :: "'w pay \<Rightarrow> db" where
  "ledger st \<equiv> py_db (fst st)"

text \<open>
  C8: Whatever the wallet, the node and the database answer, after any sequence of payout
  rounds, cycles and sweeps the books are sound: no balance is negative, each miner's \<open>paying\<close> is
  exactly its reserved items and \<open>paid\<close> exactly its recorded payouts.
\<close>

theorem books_after_every_turn:
  assumes "ledger_inv (ledger st)" and "b \<in> set (balances (ledger (take_turns E dt ts st)))"
  shows "0 \<le> bl_pending b \<and> 0 \<le> bl_paying b \<and> 0 \<le> bl_paid b
    \<and> bl_paying b = item_sum (ledger (take_turns E dt ts st)) (bl_miner b)
    \<and> bl_paid b = payout_sum (ledger (take_turns E dt ts st)) (bl_miner b)"
proof -
  have "ledger_inv (ledger (take_turns E dt ts st))"
    using sound.holds_any_turns [of st E dt ts] assms(1) by (simp add: sound.holds_def)
  then have "books_ok (ledger (take_turns E dt ts st))" by (simp add: ledger_inv_def)
  from books_okD [OF this assms(2)] show ?thesis by blast
qed


section \<open>Reservations of unknown fate\<close>

lemma parked_turns: "parked aid its rows (ledger st) \<Longrightarrow> parked aid its rows (ledger (take_turns E dt ts st))"
  using parked.holds_any_turns [of aid its rows st E dt ts] by (simp add: parked.holds_def)

lemma parked_covered:
  assumes "parked aid its rows s" "ledger_inv s"
  shows "pair_sum (map (\<lambda>i. (it_miner i, it_amount i)) its) m \<le> column bl_paying s m"
proof -
  have B: "books (owed s) s" using books_of_ledger [OF assms(2)] .
  have "items_of s aid = map (\<lambda>i. (it_miner i, it_amount i)) its" using assms(1) by (auto simp: parked_def items_of_def)
  then show ?thesis using pair_sum_items(2) [OF B, of aid m] purse_columns(1) [OF B, of m] by simp
qed

text \<open>What the send leaves behind when the wallet gave no answer.\<close>

definition awaiting_send :: "int \<Rightarrow> item_row list \<Rightarrow> db \<Rightarrow> bool" where
  "awaiting_send aid its s \<longleftrightarrow> its \<noteq> [] \<and> filter (\<lambda>i. it_attempt i = aid) (items s) = its
     \<and> (\<forall>r \<in> set (attempts s). at_id r = aid \<longrightarrow> at_opid r = None \<and> at_txid r = None)
     \<and> aid \<le> db_seq s ''payout_attempts''"

lemma update_attempt_Inr:
  assumes "update_payout_attempt aid status opid txid err s = (Inr u, s')"
  obtains fs where "s' = (s\<lparr>db_faults := fs\<rparr>)\<lparr>attempts := upd_where (\<lambda>r. at_id r = aid)
    (\<lambda>r. r\<lparr>at_status := status, at_opid := coalesce_first opid (at_opid r),
      at_txid := coalesce_first txid (at_txid r), at_error := coalesce_first err (at_error r),
      at_updated := db_clock s\<rparr>) (attempts s)\<rparr>"
  using assms unfolding update_payout_attempt_def by (auto elim!: modify_Inr)

lemma coalesce_None [simp]: "coalesce_first None x = x"
  by (simp add: coalesce_first_def)

lemma marked_parked:
  assumes "awaiting_send aid its s" "status = ''sent'' \<or> status = ''submitting''"
    and "update_payout_attempt aid status None None err s = (Inr u, s')"
  shows "awaiting_send aid its s' \<and> (\<exists>rows. parked aid its rows s')"
proof -
  let ?f = "\<lambda>r. r\<lparr>at_status := status, at_opid := coalesce_first None (at_opid r),
      at_txid := coalesce_first None (at_txid r), at_error := coalesce_first err (at_error r),
      at_updated := db_clock s\<rparr>"
  from assms(3) obtain fs where s': "s' = (s\<lparr>db_faults := fs\<rparr>)\<lparr>attempts := upd_where (\<lambda>r. at_id r = aid)
    ?f (attempts s)\<rparr>" by (rule update_attempt_Inr)
  have i: "items s' = items s" "db_seq s' = db_seq s" by (simp_all add: s')
  have none: "at_opid r = None \<and> at_txid r = None" if "r \<in> set (attempts s)" "at_id r = aid" for r
    using assms(1) that unfolding awaiting_send_def by blast
  have rows: "at_opid r = None \<and> at_txid r = None \<and> at_status r = status"
    if "r \<in> set (attempts s')" "at_id r = aid" for r
  proof -
    have "\<exists>r0 \<in> set (attempts s). r = (if at_id r0 = aid then ?f r0 else r0)"
      using that(1) unfolding s' by (auto simp: upd_where_def)
    then obtain r0 where r0: "r0 \<in> set (attempts s)" "r = (if at_id r0 = aid then ?f r0 else r0)" ..
    then have "at_id r0 = aid" using that(2) by (simp split: if_splits)
    then show ?thesis using r0 none [of r0] by simp
  qed
  have "awaiting_send aid its s'" using assms(1) rows by (simp add: awaiting_send_def i)
  moreover have "parked aid its (filter (\<lambda>r. at_id r = aid) (attempts s')) s'"
    using assms(1,2) rows by (auto simp: parked_def awaiting_send_def i list_all_iff parked_row_def)
  ultimately show ?thesis by blast
qed

lemma failed_update_attempt:
  assumes "update_payout_attempt aid status opid txid err s = (Inl e, s')"
  obtains fs where "s' = s\<lparr>db_faults := fs\<rparr>"
  using assms unfolding update_payout_attempt_def modify_def by (auto elim!: stmt_Inl)

lemma awaiting_frame [simp]:
  "awaiting_send aid its (s\<lparr>db_clock := c\<rparr>) = awaiting_send aid its s"
  by (simp add: awaiting_send_def)

lemma unanswered_send_parks:
  assumes wait: "awaiting_send aid its (ledger st)"
    and mark: "run_pdb E (update_payout_attempt aid ''submitting'' None None None) st = (Inr u, st1)"
    and send: "ask_wallet E (z_sendmany (pe_transport E) (pe_serde E) (pm_pool_address K)
        (send_amounts plan)) st1 = (Inl e, st2)"
    and lost: "\<not> is_json_rpc_error e"
  shows "\<exists>rows. parked aid its rows (ledger (snd (submit_payout E K aid plan st)))"
proof -
  from marked_parked [OF _ _ run_pdb_eq [OF mark], of its] wait obtain rows
    where p1: "awaiting_send aid its (ledger st1)" "parked aid its rows (ledger st1)" by auto
  have l2: "ledger st2 = ledger st1" using ask_wallet_db [OF send] .
  let ?m = "update_payout_attempt aid ''sent'' None None
    (Some (''z_sendmany fate unknown, NOT refunded: '' @ rpc_error_text e))"
  obtain r st3 where r: "run_pdb E ?m st2 = (r, st3)" by (rule prod.exhaust)
  have "snd (submit_payout E K aid plan st) = st3"
    using mark send lost r by (simp add: submit_payout_def send_refused_def Let_def mark_attempt_def exec_pdb_def)
  moreover have "\<exists>rows. parked aid its rows (ledger st3)"
  proof (cases r)
    case (Inl e')
    from failed_update_attempt [OF run_pdb_eq [OF r [unfolded Inl]]] obtain fs
      where "ledger st3 = (db_now E st2)\<lparr>db_faults := fs\<rparr>" .
    then show ?thesis using p1(2) l2 by auto
  next
    case (Inr u')
    from marked_parked [OF _ _ run_pdb_eq [OF r [unfolded Inr]], of its] p1(1) l2 show ?thesis by auto
  qed
  ultimately show ?thesis by simp
qed

text \<open>
  C6: When \<open>z_sendmany\<close> fails without an answer of the wallet, the money stays reserved: no
  sequence of later rounds, cycles, restarts and sweeps, however long and whatever the wallet and
  the node answer, releases the items of the attempt, and they stay covered by \<open>paying\<close>.
\<close>

theorem unanswered_send_stays_reserved:
  assumes "awaiting_send aid its (ledger st)" and "ledger_inv (ledger st)"
    and "run_pdb E (update_payout_attempt aid ''submitting'' None None None) st = (Inr u, st1)"
    and "ask_wallet E (z_sendmany (pe_transport E) (pe_serde E) (pm_pool_address K)
        (send_amounts plan)) st1 = (Inl e, st2)"
    and "\<not> is_json_rpc_error e"
    and "st' = take_turns E dt ts (snd (submit_payout E K aid plan st))"
  shows "filter (\<lambda>i. it_attempt i = aid) (items (ledger st')) = its
    \<and> pair_sum (map (\<lambda>i. (it_miner i, it_amount i)) its) m \<le> column bl_paying (ledger st') m"
proof -
  let ?st = "snd (submit_payout E K aid plan st)"
  from unanswered_send_parks [OF assms(1,3-5)] obtain rows where "parked aid its rows (ledger ?st)" ..
  then have p: "parked aid its rows (ledger st')" unfolding assms(6) by (rule parked_turns)
  have "sound.holds ?st" using sound.holds_submit [of st aid E K plan] assms(2) by (simp add: sound.holds_def)
  then have "ledger_inv (ledger st')"
    using sound.holds_any_turns [of ?st E dt ts] assms(6) by (simp add: sound.holds_def)
  from parked_covered [OF p this] p show ?thesis by (simp add: parked_def)
qed

end
