(* ===== verification/Payout_Linked.thy ===== *)
theory Payout_Linked
  imports Payout_Turns
begin

text \<open>
  Referential integrity of the payout tables: every reserved item hangs on exactly one attempt, so
  the query from which the reconciler works lists all reserved money.
\<close>

definition linked :: "db \<Rightarrow> bool" where
  "linked s \<longleftrightarrow> db_fk s \<and> distinct (map at_id (attempts s))
     \<and> list_all (\<lambda>a. a \<le> db_seq s ''payout_attempts'') (map at_id (attempts s))
     \<and> list_all (\<lambda>i. it_attempt i \<in> at_id ` set (attempts s)) (items s)"

lemma linked_frame [simp]:
  "linked (balances_update f1 s) = linked s" "linked (payouts_update f2 s) = linked s"
  "linked (tx_costs_update f3 s) = linked s" "linked (statuses_update f4 s) = linked s"
  "linked (blocks_update f5 s) = linked s" "linked (credits_update f6 s) = linked s"
  "linked (clawbacks_update f7 s) = linked s" "linked (db_clock_update f8 s) = linked s"
  "linked (db_faults_update f9 s) = linked s"
  by (simp_all add: linked_def)

lemma linked_bump: "linked s \<Longrightarrow> linked (bump_id t s)"
  by (auto simp: linked_def bump_id_def list_all_iff)

lemma linked_no_faults [simp, intro]: "no_faults_dep linked"
  by (simp add: no_faults_dep_def)

lemma linked_upd_attempts:
  assumes "linked s" "\<And>r. at_id (f r) = at_id r"
  shows "linked (s\<lparr>attempts := upd_where c f (attempts s)\<rparr>)"
proof -
  have "map at_id (upd_where c f xs) = map at_id xs" for xs
    by (induction xs) (simp_all add: upd_where_def assms(2))
  note ids = this [of "attempts s"]
  have "at_id ` set (upd_where c f (attempts s)) = at_id ` set (attempts s)"
    using arg_cong [OF ids, of set] by simp
  then show ?thesis using assms(1) ids unfolding linked_def by simp
qed

lemma linked_update_balance: "keeps linked (update_balance m g f)"
  unfolding update_balance_def by (intro db_inv linked_no_faults) (simp add: Let_def)

lemma linked_insert_item: "keeps linked (insert_item i m a)"
  unfolding insert_item_def
  by (intro db_inv linked_no_faults)
    (auto simp: check_fk_def linked_def bump_id_def has_attempt_def list_all_iff list_ex_iff)

lemma linked_insert_payout: "keeps linked (insert_payout m t a)"
  unfolding insert_payout_def
  by (intro db_inv linked_no_faults) (auto simp: check_fk_def linked_bump)

lemma linked_delete_items: "keeps linked (delete_items i)"
  unfolding delete_items_def by (intro db_inv linked_no_faults) (auto simp: linked_def list_all_iff)

lemma linked_attempts:
  "keeps linked (create_payout_attempt n t src)"
  "keeps linked (update_payout_attempt i status opid txid err)"
  unfolding create_payout_attempt_def update_payout_attempt_def
  by (intro db_inv linked_no_faults; force simp: linked_def bump_id_def next_id_def list_all_iff)
    (intro db_inv linked_no_faults linked_upd_attempts; simp)

lemma linked_saga:
  "keeps linked (reserve_payout i rs)" "keeps linked (confirm_payout i txid)" "keeps linked (refund_payout i)"
  unfolding reserve_payout_def confirm_payout_def refund_payout_def
  by (intro keeps_txn keeps_on_ok linked_no_faults keeps_fold db_inv;
      auto simp: reserve_one_def confirm_one_def refund_one_def split: prod.split
        intro!: db_inv linked_update_balance linked_insert_item linked_insert_payout linked_delete_items)+

lemma linked_void: "keeps linked (void_reorged_payout txid)"
proof -
  have "linked (s\<lparr>attempts := upd_where c (\<lambda>r. r\<lparr>at_status := st, at_updated := db_clock s, at_error := e\<rparr>)
      (attempts s)\<rparr>)" if "linked s" for c st e s
    by (rule linked_upd_attempts [OF that]) simp
  moreover have "keeps linked (void_one txid z r)" for z r
    unfolding void_one_def by (cases r) (auto intro!: db_inv linked_update_balance)
  ultimately show ?thesis unfolding void_reorged_payout_def void_reorged_payout_txn_def
    by (intro keeps_txn keeps_on_ok linked_no_faults) (auto intro!: db_inv)
qed

lemma linked_insert_cost: "keeps linked (insert_cost k r f)"
  unfolding insert_cost_def by (intro db_inv linked_no_faults) (simp add: linked_bump)

lemma linked_blocks:
  "keeps linked (update_block_status b st)"
  "keeps linked (acknowledge_clawbacks_for_block b note)"
  "keeps linked (set_pool_status k v)"
  unfolding update_block_status_def acknowledge_clawbacks_for_block_def acknowledge_where_def
    set_pool_status_def
  by (intro db_inv linked_no_faults; simp add: Let_def)+

lemma linked_orphan: "keeps linked (orphan_block b reward)"
proof -
  have 1: "keeps linked (reverse_one b acc c)" for acc c
    unfolding reverse_one_def insert_clawback_def Let_def
    by (cases acc; cases c) (auto intro!: db_inv linked_update_balance simp: linked_bump)
  have 2: "keeps linked (requeue_costs b)"
    unfolding requeue_costs_def set_block_costs_def by (auto intro!: db_inv linked_insert_cost)
  have 3: "keeps linked (proportional_reversal r t)" for r t
    unfolding proportional_reversal_def by (intro db_inv linked_no_faults) simp
  have "keeps linked (orphan_block_txn b reward)"
    unfolding orphan_block_txn_def reverse_block_credits_precise_txn_def
    by (auto intro!: db_inv 1 2 3)
  then show ?thesis unfolding orphan_block_def
    by (intro keeps_txn linked_no_faults keeps_on_ok)
qed

interpretation linked: cycle_client linked "{}"
proof unfold_locales
  show "keeps linked (record_tx_cost kind ref fee)" for kind ref fee
    unfolding record_tx_cost_def by (rule linked_insert_cost)
qed (auto simp: linked_attempts linked_saga linked_void linked_blocks linked_orphan)

section \<open>The reserved money in both tables\<close>

lemma sum_by_key:
  assumes "distinct ks" "\<And>x. x \<in> set xs \<Longrightarrow> g x \<in> set ks"
  shows "sum_list (map (\<lambda>k. sum_list (map f (filter (\<lambda>x. g x = k) xs))) ks) = (sum_list (map f xs) :: int)"
  using assms(2)
proof (induction xs)
  case (Cons x xs)
  have "sum_list (map (\<lambda>k. if g x = k then f x else 0) ks) = f x"
    using assms(1) Cons.prems [of x] sum_list_distinct_conv_sum_set [OF assms(1), of "\<lambda>k. if g x = k then f x else 0"]
    by simp
  moreover have "(\<lambda>k. sum_list (map f (filter (\<lambda>y. g y = k) (x # xs))))
      = (\<lambda>k. (if g x = k then f x else 0) + sum_list (map f (filter (\<lambda>y. g y = k) xs)))"
    by (rule ext) simp
  ultimately show ?case using Cons by (simp add: sum_list_addf)
qed simp

lemma sum_list_perm:
  fixes f :: "'a \<Rightarrow> int"
  assumes "mset xs = mset ys"
  shows "sum_list (map f xs) = sum_list (map f ys)"
  using arg_cong [OF assms, of "\<lambda>M. sum_mset (image_mset f M)"]
  by (simp add: sum_mset_sum_list flip: mset_map)

lemma sum_unlisted:
  "(\<And>x. x \<in> set xs \<Longrightarrow> \<not> Q x \<Longrightarrow> f x = 0) \<Longrightarrow> sum_list (map f (filter Q xs)) = (sum_list (map f xs) :: int)"
  by (induction xs) auto

lemma listed_total:
  assumes "linked s" "get_reserved_attempts None s = (Inr listed, s')"
  shows "sum_list (map ra_total listed) = sum_list (map it_amount (items s))"
proof -
  let ?amt = "\<lambda>r. sum_list (map it_amount (filter (\<lambda>i. it_attempt i = at_id r) (items s)))"
  have l: "listed = map (reserved_entry s) (sort_key at_id (filter (\<lambda>r. has_items s (at_id r)) (attempts s)))"
    using assms(2) unfolding get_reserved_attempts_def by (auto elim!: select_Inr)
      (simp add: reserved_entry_def items_of_def has_items_def fun_eq_iff)
  have tot: "ra_total \<circ> reserved_entry s = ?amt"
    by (simp add: fun_eq_iff reserved_entry_def items_of_def comp_def)
  have "sum_list (map ra_total listed) = sum_list (map ?amt (sort_key at_id (filter (\<lambda>r. has_items s (at_id r)) (attempts s))))"
    unfolding l by (simp only: map_map tot)
  also have "\<dots> = sum_list (map ?amt (filter (\<lambda>r. has_items s (at_id r)) (attempts s)))"
    by (rule sum_list_perm) simp
  also have "\<dots> = sum_list (map ?amt (attempts s))"
  proof (rule sum_unlisted)
    fix r assume "\<not> has_items s (at_id r)"
    then have "filter (\<lambda>i. it_attempt i = at_id r) (items s) = []" by (auto simp: has_items_def list_ex_iff)
    then show "?amt r = 0" by simp
  qed
  also have "\<dots> = sum_list (map (\<lambda>k. sum_list (map it_amount (filter (\<lambda>i. it_attempt i = k) (items s)))) (map at_id (attempts s)))"
    by (simp add: comp_def)
  also have "\<dots> = sum_list (map it_amount (items s))"
    by (rule sum_by_key) (use assms(1) in \<open>auto simp: linked_def list_all_iff\<close>)
  finally show ?thesis .
qed

lemma paying_total:
  assumes "ledger_inv s"
  shows "sum_list (map bl_paying (balances s)) = sum_list (map it_amount (items s))"
proof -
  have B: "sheet (item_sum s) (payout_sum s) (owed s) (balances s)"
    "\<forall>i \<in> set (items s). has_balance s (it_miner i)"
    using assms by (auto simp: ledger_inv_def books_ok_def)
  have "map bl_paying (balances s) = map (item_sum s \<circ> bl_miner) (balances s)"
    by (rule map_cong [OF refl]) (simp add: sheet_row(4) [OF B(1)])
  then have "sum_list (map bl_paying (balances s)) = sum_list (map (item_sum s) (map bl_miner (balances s)))"
    by (simp only: map_map)
  also have "item_sum s = (\<lambda>m. sum_list (map it_amount (filter (\<lambda>i. it_miner i = m) (items s))))"
    by (simp add: fun_eq_iff item_sum_def sum_where_def)
  also have "sum_list (map \<dots> (map bl_miner (balances s))) = sum_list (map it_amount (items s))"
    by (rule sum_by_key) (use B in \<open>auto simp: sheet_def has_balance_def\<close>)
  finally show ?thesis .
qed

text \<open>
  C9: Reserved money is never lost from sight: after any sequence of rounds, cycles and sweeps the
  attempt ids are unique, every item hangs on an attempt that exists, and the totals of the
  reserved attempts the reconciler lists add up to the \<open>paying\<close> column of the balances.
\<close>

theorem reserved_money_is_listed:
  assumes "linked (ledger st)" and "ledger_inv (ledger st)"
    and "s = ledger (take_turns E dt ts st)"
    and "get_reserved_attempts None s = (Inr listed, s')"
  shows "distinct (map at_id (attempts s))
    \<and> list_all (\<lambda>i. it_attempt i \<in> at_id ` set (attempts s)) (items s)
    \<and> sum_list (map ra_total listed) = sum_list (map bl_paying (balances s))"
proof -
  have "linked s" using linked.holds_any_turns [of st E dt ts] assms(1,3) by (simp add: linked.holds_def)
  moreover have "ledger_inv s"
    using sound.holds_any_turns [of st E dt ts] assms(2,3) by (simp add: sound.holds_def)
  ultimately show ?thesis
    using listed_total [OF _ assms(4)] paying_total [of s] by (simp add: linked_def)
qed

end
