(* ===== verification/Payout_Timing.thy ===== *)
theory Payout_Timing
  imports Payout_Turns
begin

text \<open>
  How long the process waits: for a wallet operation, and in a whole round.
\<close>

section \<open>How long a round takes\<close>

lemma status_call_counts:
  "z_get_operation_status T S opids (c, w) = (r, c', w') \<Longrightarrow> rc_next_id c' = rc_next_id c + 1"
  by (auto simp: z_get_operation_status_def call_def call_with_timeout_def post_request_def Let_def
      split: prod.splits)

lemma poll_once_counts:
  "poll_once E opid st = (r, st') \<Longrightarrow>
     rc_next_id (py_wallet (fst st')) = rc_next_id (py_wallet (fst st)) + 1 \<and> py_node (fst st') = py_node (fst st)"
  by (auto simp: poll_once_def ask_wallet_def dest: status_call_counts split: prod.splits)

lemma pause_keeps [simp]:
  "py_wallet (fst (pause E d st)) = py_wallet (fst st)" "py_node (fst (pause E d st)) = py_node (fst st)"
  by (simp_all add: pause_def Let_def)

lemma poll_operation_counts:
  assumes "poll_operation E opid deadline st = (r, st')"
  shows "\<exists>k. rc_next_id (py_wallet (fst st')) = rc_next_id (py_wallet (fst st)) + of_nat k
    \<and> py_node (fst st') = py_node (fst st)
    \<and> (k = 0 \<or> py_now (fst st) + k * POLL_PAUSE \<le> deadline)
    \<and> (r = Inl (''Timed out waiting for operation '' @ opid @ '' after 120s'') \<longrightarrow> deadline < py_now (fst st'))"
  using assms
proof (induction E opid deadline st rule: poll_operation.induct)
  case (1 E opid deadline st)
  let ?p = "pause E POLL_PAUSE st"
  have now: "py_now (fst st) + POLL_PAUSE \<le> py_now (fst ?p)" by (rule pause_now)
  note run = 1(2) [unfolded poll_operation.simps [of E opid deadline st] Let_def]
  show ?case
  proof (cases "deadline < py_now (fst ?p)")
    case True
    then show ?thesis using run by (intro exI [of _ 0]) auto
  next
    case before: False
    obtain q st1 where q: "poll_once E opid ?p = (q, st1)" by (rule prod.exhaust)
    note c = poll_once_counts [OF q] poll_once_now [OF q]
    show ?thesis
    proof (cases "\<exists>sts. q = Inr sts \<and> poll_result sts = None")
      case True
      then obtain sts where sts: "q = Inr sts" "poll_result sts = None" by blast
      then have "poll_operation E opid deadline st1 = (r, st')" using run before q by simp
      from 1(1) [OF refl before q [symmetric] sts this] obtain k where k:
        "rc_next_id (py_wallet (fst st')) = rc_next_id (py_wallet (fst st1)) + of_nat k"
        "py_node (fst st') = py_node (fst st1)" "k = 0 \<or> py_now (fst st1) + k * POLL_PAUSE \<le> deadline"
        "r = Inl (''Timed out waiting for operation '' @ opid @ '' after 120s'') \<longrightarrow> deadline < py_now (fst st')" by blast
      show ?thesis
        by (rule exI [of _ "Suc k"]) (use k c now before in auto)
    next
      case False
      then show ?thesis using run before q c now
        by (intro exI [of _ 1]) (auto split: sum.splits option.splits)
    qed
  qed
qed

text \<open>
  C31: Waiting for a wallet operation ends, whatever the wallet answers: the wallet is asked at most
  24 times, the node and the database are not touched, and a time-out is reported only after the
  120 seconds have passed.
\<close>

theorem wait_is_bounded:
  assumes "wait_for_operation E opid st = (r, st')"
  shows "\<exists>k \<le> 24. rc_next_id (py_wallet (fst st')) = rc_next_id (py_wallet (fst st)) + of_nat k
    \<and> py_node (fst st') = py_node (fst st) \<and> py_db (fst st') = py_db (fst st)
    \<and> (r = Inl (''Timed out waiting for operation '' @ opid @ '' after 120s'')
        \<longrightarrow> py_now (fst st) + 120 * 10 ^ 9 < py_now (fst st'))"
proof -
  from poll_operation_counts [OF assms [unfolded wait_for_operation_def]] obtain k where k:
    "rc_next_id (py_wallet (fst st')) = rc_next_id (py_wallet (fst st)) + of_nat k"
    "py_node (fst st') = py_node (fst st)"
    "k = 0 \<or> py_now (fst st) + k * POLL_PAUSE \<le> py_now (fst st) + OP_POLL_TIMEOUT"
    "r = Inl (''Timed out waiting for operation '' @ opid @ '' after 120s'')
       \<longrightarrow> py_now (fst st) + OP_POLL_TIMEOUT < py_now (fst st')" by blast
  moreover have "py_db (fst st') = py_db (fst st)" using wait_for_operation_db [of E opid st] assms by simp
  moreover have "k \<le> 24" using k(3) by (auto simp: POLL_PAUSE_def OP_POLL_TIMEOUT_def)
  ultimately show ?thesis unfolding OP_POLL_TIMEOUT_def by blast
qed

text \<open>With a bound on what a call takes, and on how much a sleep overshoots.\<close>

definition prompt :: "'w payout_env \<Rightarrow> nanos \<Rightarrow> bool" where
  "prompt E d \<longleftrightarrow> (\<forall>w. pe_elapsed E w \<le> d)"

lemma pause_time: "prompt E d \<Longrightarrow> py_now (fst (pause E t st)) \<le> py_now (fst st) + t + d"
  by (auto simp: pause_def Let_def prompt_def)

lemma ask_time:
  assumes "prompt E d"
  shows "ask_wallet E f st = (r, st') \<Longrightarrow> py_now (fst st') \<le> py_now (fst st) + d"
    "ask_node E g st = (q, st') \<Longrightarrow> py_now (fst st') \<le> py_now (fst st) + d"
  using assms by (auto simp: ask_wallet_def ask_node_def prompt_def split: prod.splits)

lemma poll_operation_time:
  assumes "prompt E d" "poll_operation E opid deadline st = (r, st')"
  shows "py_now (fst st') \<le> max (py_now (fst st)) (deadline + d) + POLL_PAUSE + d"
  using assms
proof (induction E opid deadline st rule: poll_operation.induct)
  case (1 E opid deadline st)
  let ?p = "pause E POLL_PAUSE st"
  have p: "py_now (fst ?p) \<le> py_now (fst st) + POLL_PAUSE + d" using 1(2) by (rule pause_time)
  note run = 1(3) [unfolded poll_operation.simps [of E opid deadline st] Let_def]
  obtain q st1 where q: "poll_once E opid ?p = (q, st1)" by (rule prod.exhaust)
  have st1: "py_now (fst st1) \<le> py_now (fst ?p) + d"
    using ask_time(1) [OF 1(2) q [unfolded poll_once_def]] .
  show ?case
  proof (cases "deadline < py_now (fst ?p)")
    case True
    then show ?thesis using run p by auto
  next
    case before: False
    show ?thesis
    proof (cases "\<exists>sts. q = Inr sts \<and> poll_result sts = None")
      case True
      then obtain sts where sts: "q = Inr sts" "poll_result sts = None" by blast
      then have "poll_operation E opid deadline st1 = (r, st')" using run before q by simp
      from 1(1) [OF refl before q [symmetric] sts 1(2) this] show ?thesis using st1 before by auto
    next
      case False
      then have "st' = st1" using run before q by (auto split: sum.splits option.splits)
      then show ?thesis using st1 before by auto
    qed
  qed
qed

lemma wait_time:
  assumes "prompt E d" "wait_for_operation E opid st = (r, st')"
  shows "py_now (fst st') \<le> py_now (fst st) + OP_POLL_TIMEOUT + POLL_PAUSE + 2 * d"
  using poll_operation_time [OF assms(1) assms(2) [unfolded wait_for_operation_def]] by simp

lemma verify_time:
  assumes "prompt E d"
  shows "verify_visible n E txid e st = (r, st') \<Longrightarrow> py_now (fst st') \<le> py_now (fst st) + n * (POLL_PAUSE + 2 * d)"
proof (induction n arbitrary: e st)
  case (Suc n)
  obtain q st1 where q: "look_up_tx E txid st = (q, st1)" by (rule prod.exhaust)
  have st1: "py_now (fst st1) \<le> py_now (fst st) + d"
    using ask_time(2) [OF assms q [unfolded look_up_tx_def]] .
  show ?case
  proof (cases q)
    case (Inl err)
    then have "verify_visible n E txid (rpc_error_text err) (pause E POLL_PAUSE st1) = (r, st')"
      using Suc.prems q by simp
    from Suc.IH [OF this] pause_time [OF assms, of POLL_PAUSE st1] st1 show ?thesis by simp
  next
    case (Inr j)
    then show ?thesis using Suc.prems q st1 by simp
  qed
qed simp

lemma run_pdb_now: "run_pdb E m st = (r, st') \<Longrightarrow> py_now (fst st') = py_now (fst st)"
  by (auto simp: run_pdb_def split: prod.splits)

lemma exec_pdb_now [simp]: "py_now (fst (exec_pdb E m st)) = py_now (fst st)"
  unfolding exec_pdb_def using run_pdb_now [of E m st] by (metis prod.collapse)

lemma mark_now [simp]:
  "py_now (fst (mark_attempt E aid status opid txid note st)) = py_now (fst st)"
  "py_now (fst (refund_and_fail E aid why st)) = py_now (fst st)"
  by (simp_all add: mark_attempt_def refund_and_fail_def)

lemma settle_now [simp]: "py_now (fst (snd (settle_payout E aid plan txid st))) = py_now (fst st)"
  by (auto simp: settle_payout_def Let_def dest!: run_pdb_now split: prod.splits sum.splits)

lemma send_refused_now [simp]: "py_now (fst (snd (send_refused E aid e st))) = py_now (fst st)"
  by (simp add: send_refused_def Let_def)

lemma follow_time:
  assumes "prompt E d"
  shows "py_now (fst (snd (follow_payout E aid plan opid st)))
    \<le> py_now (fst st) + OP_POLL_TIMEOUT + POLL_PAUSE + 2 * d + VISIBILITY_TRIES * (POLL_PAUSE + 2 * d)"
proof -
  obtain r st1 where w: "wait_for_operation E opid st = (r, st1)" by (rule prod.exhaust)
  note t1 = wait_time [OF assms w]
  show ?thesis
  proof (cases "\<exists>txid. r = Inr (Success txid)")
    case True
    then obtain txid where r: "r = Inr (Success txid)" ..
    obtain q st2 where v: "verify_visible VISIBILITY_TRIES E txid '''' st1 = (q, st2)" by (rule prod.exhaust)
    from verify_time [OF assms v] t1 show ?thesis
      by (simp add: follow_payout_def w r v split: sum.split)
  next
    case False
    then show ?thesis using t1 by (auto simp: follow_payout_def w split: sum.split op_result.split)
  qed
qed

lemma submit_time:
  assumes "prompt E d"
  shows "py_now (fst (snd (submit_payout E K aid plan st)))
    \<le> py_now (fst st) + OP_POLL_TIMEOUT + POLL_PAUSE + 3 * d + VISIBILITY_TRIES * (POLL_PAUSE + 2 * d)"
proof -
  obtain r st1 where m: "run_pdb E (update_payout_attempt aid ''submitting'' None None None) st = (r, st1)"
    by (rule prod.exhaust)
  obtain q st2 where s: "ask_wallet E (z_sendmany (pe_transport E) (pe_serde E) (pm_pool_address K)
      (send_amounts plan)) st1 = (q, st2)" by (rule prod.exhaust)
  note t = ask_time(1) [OF assms s] run_pdb_now [OF m]
  have "py_now (fst (snd (follow_payout E aid plan opid (mark_attempt E aid ''sent'' (Some opid) None None st2))))
      \<le> py_now (fst st) + OP_POLL_TIMEOUT + POLL_PAUSE + 3 * d + VISIBILITY_TRIES * (POLL_PAUSE + 2 * d)" for opid
    using follow_time [OF assms, of aid plan opid "mark_attempt E aid ''sent'' (Some opid) None None st2"] t by simp
  then show ?thesis using t by (simp add: submit_payout_def m s Let_def split: sum.split)
qed

text \<open>
  C32: A round holds its reservation for less than the ten minutes after which the reconciler
  looks at it, as long as no call outlasts the RPC time-out of 15 seconds and no sleep overshoots by
  more than that: at most 380 seconds from the creation of the attempt to the end of the round.
\<close>

theorem round_ends_before_the_sweep:
  assumes "prompt E RPC_TIMEOUT" and "pay_plan E K plan st = (r, st')"
  shows "py_now (fst st') \<le> py_now (fst st) + 380 * 10 ^ 9
    \<and> py_now (fst st') < py_now (fst st) + nat STALE_ATTEMPT_MINUTES * 60 * 10 ^ 9"
proof -
  obtain q st1 where c: "run_pdb E (create_payout_attempt (int (length plan))
      (sum_list (map (fst \<circ> snd) plan)) ''loop'') st = (q, st1)" by (rule prod.exhaust)
  have "py_now (fst (snd (pay_plan E K plan st))) \<le> py_now (fst st) + 380 * 10 ^ 9"
  proof (cases q)
    case (Inr aid)
    obtain u st2 where v: "run_pdb E (reserve_payout aid (reserve_items plan)) st1 = (u, st2)" by (rule prod.exhaust)
    have "py_now (fst (snd (submit_payout E K aid p st2))) \<le> py_now (fst st) + 380 * 10 ^ 9" for p
      using submit_time [OF assms(1), of K aid p st2] run_pdb_now [OF c] run_pdb_now [OF v]
      by (simp add: OP_POLL_TIMEOUT_def POLL_PAUSE_def VISIBILITY_TRIES_def RPC_TIMEOUT_def)
    then show ?thesis using run_pdb_now [OF c] run_pdb_now [OF v]
      by (simp add: pay_plan_def c v Inr Let_def split: sum.split)
  qed (use run_pdb_now [OF c] in \<open>simp add: pay_plan_def c\<close>)
  then show ?thesis using assms(2) by (simp add: STALE_ATTEMPT_MINUTES_def)
qed

end
