(* ===== verification/Payout_Release.thy ===== *)
theory Payout_Release
  imports Payout_Turns
begin

text \<open>
  When the reconciler releases a reservation.
\<close>

section \<open>Releasing a reservation\<close>

lemma sweep_db_eq: "sweep_db E m x = (r, x') \<Longrightarrow> m (db_now E (snd x)) = (r, ledger (snd x'))"
  by (auto simp: sweep_db_def dest: run_pdb_eq split: prod.splits)

lemma update_attempt_tables:
  "ledger (snd (sweep_exec E (update_payout_attempt i status opid txid err) x)) = s' \<Longrightarrow>
     items s' = items (ledger (snd x)) \<and> payouts s' = payouts (ledger (snd x))"
proof -
  assume s': "ledger (snd (sweep_exec E (update_payout_attempt i status opid txid err) x)) = s'"
  obtain r y where y: "sweep_db E (update_payout_attempt i status opid txid err) x = (r, y)" by (rule prod.exhaust)
  have "keeps (\<lambda>s. items s = items (ledger (snd x)) \<and> payouts s = payouts (ledger (snd x)))
      (update_payout_attempt i status opid txid err)"
    unfolding update_payout_attempt_def by (intro db_inv) (simp_all add: no_faults_dep_def)
  from keepsD [OF this _ sweep_db_eq [OF y]] show ?thesis using s' y by (simp add: sweep_exec_def)
qed

lemma refund_reservation_effect:
  assumes "books W (ledger (snd x))"
  shows "payouts (ledger (snd (refund_reservation E aid tot why x))) = payouts (ledger (snd x))"
proof -
  obtain r y where y: "sweep_db E (refund_payout aid) x = (r, y)" by (rule prod.exhaust)
  have "payouts (ledger (snd y)) = payouts (ledger (snd x))"
  proof (cases r)
    case (Inl e)
    from txn_atomic [OF sweep_db_eq [OF y, unfolded Inl refund_payout_def]] show ?thesis by auto
  next
    case (Inr n)
    from books_refunded [OF _ sweep_db_eq [OF y, unfolded Inr], of W] assms show ?thesis by simp
  qed
  then show ?thesis using update_attempt_tables [OF refl, of E _ _ _ _ _ y]
    by (auto simp: refund_reservation_def y Let_def split: sum.split)
qed

lemma confirm_reservation_effect:
  assumes "books W (ledger (snd x))" "items_of (ledger (snd x)) aid \<noteq> []"
    and "items_of (ledger (snd (confirm_reservation E aid tot t x))) aid = []"
  shows "\<exists>ps. payouts (ledger (snd (confirm_reservation E aid tot t x))) = payouts (ledger (snd x)) @ ps
    \<and> map (\<lambda>p. (po_miner p, po_amount p)) ps = items_of (ledger (snd x)) aid
    \<and> list_all (\<lambda>p. po_txid p = Some t) ps"
proof -
  obtain r y where y: "sweep_db E (confirm_payout aid t) x = (r, y)" by (rule prod.exhaust)
  show ?thesis
  proof (cases r)
    case (Inl e)
    from txn_atomic [OF sweep_db_eq [OF y, unfolded Inl confirm_payout_def]] assms(2,3) show ?thesis
      by (auto simp: confirm_reservation_def y Inl items_of_def)
  next
    case (Inr n)
    from books_confirmed [OF _ sweep_db_eq [OF y, unfolded Inr], of W] assms(1)
    have "new_payouts t (items_of (ledger (snd x)) aid) (db_now E (snd x)) (ledger (snd y))"
      by (simp add: items_of_def)
    then show ?thesis using update_attempt_tables [OF refl, of E _ _ _ _ _ y]
      by (auto simp: confirm_reservation_def y Inr Let_def new_payouts_def list_all_iff)
  qed
qed

lemma looked_up_db: "lifted (look_up_tx E t) x = (r, y) \<Longrightarrow> ledger (snd y) = ledger (snd x)"
  using snd_lifted [of "look_up_tx E t" x] by (simp add: look_up_tx_def)

text \<open>
  C5: The reconciler never releases a reservation on a guess.  When the items of an attempt are
  gone after it looked at the attempt, then either the node showed the transaction and exactly these
  items were recorded as paid under its id, or nothing was recorded as paid and the wallet reported
  the operation failed, or the node answered definitely (code -5) that it does not know the
  transaction an hour or more after the attempt was made, or the attempt was an hour old and had
  never been marked as submitted.
\<close>

theorem release_needs_evidence:
  assumes "books W (ledger (snd x))" and "items_of (ledger (snd x)) (ra_id a) \<noteq> []"
    and "reconcile_one E a x = x'" and "items_of (ledger (snd x')) (ra_id a) = []"
    and "resolve_opid E (ra_opid a) (ra_txid a) x = (ans, y)"
  shows "(\<exists>t j z ps. ans = Known (Some t) \<and> lifted (look_up_tx E t) y = (Inr j, z)
        \<and> payouts (ledger (snd x')) = payouts (ledger (snd x)) @ ps
        \<and> map (\<lambda>p. (po_miner p, po_amount p)) ps = items_of (ledger (snd x)) (ra_id a)
        \<and> list_all (\<lambda>p. po_txid p = Some t) ps)
    \<or> payouts (ledger (snd x')) = payouts (ledger (snd x))
      \<and> ((\<exists>status. ans = Op_failed status)
        \<or> (\<exists>t e z. ans = Known (Some t) \<and> lifted (look_up_tx E t) y = (Inl (JsonRpc e), z)
             \<and> je_code e = - 5 \<and> past_minutes E (ra_created a) 60 z)
        \<or> ans = Known None \<and> ra_opid a = None \<and> ra_status a \<noteq> ''sent'' \<and> ra_status a \<noteq> ''submitting''
             \<and> past_minutes E (ra_created a) 60 y)"
proof -
  have ly: "ledger (snd y) = ledger (snd x)" using resolve_opid_db [of E "ra_opid a" "ra_txid a" x] assms(5) by simp
  have x': "x' = (case ans of Unreachable e \<Rightarrow> alert (''reservation '' @ show_int (ra_id a)
          @ '': wallet unreachable resolving opid ('' @ rpc_error_text e @ ''); holding'') y
      | Executing \<Rightarrow> y | Op_failed _ \<Rightarrow> refund_reservation E (ra_id a) (ra_total a) ''operation failed'' y
      | Known (Some t) \<Rightarrow> settle_known E (ra_id a) (ra_total a) (ra_created a) t y
      | Known None \<Rightarrow> settle_unknown E (ra_id a) (ra_status a) (ra_total a) (ra_created a) (ra_opid a) y)"
    using assms(3,5) by (auto simp: reconcile_one_def split: op_answer.split option.split)
  have kept: "snd x' \<noteq> snd y" using assms(2,4) ly by auto
  show ?thesis
  proof (cases ans)
    case (Unreachable e)
    then show ?thesis using x' kept by simp
  next
    case Executing
    then show ?thesis using x' kept by simp
  next
    case (Op_failed status)
    then show ?thesis using x' refund_reservation_effect [of W y] assms(1) ly by simp
  next
    case (Known known)
    show ?thesis
    proof (cases known)
      case None
      have r: "ra_opid a = None \<and> ra_status a \<noteq> ''sent'' \<and> ra_status a \<noteq> ''submitting''
          \<and> past_minutes E (ra_created a) 60 y"
        using x' kept Known None
        by (auto simp: settle_unknown_def RESERVATION_REFUND_MINUTES_def split: option.splits if_splits)
      then have "x' = refund_reservation E (ra_id a) (ra_total a) ''never submitted (no opid) past expiry'' y"
        using x' Known None by (simp add: settle_unknown_def RESERVATION_REFUND_MINUTES_def)
      then show ?thesis using refund_reservation_effect [of W y] assms(1) ly Known None r by simp
    next
      case (Some t)
      obtain q z where q: "lifted (look_up_tx E t) y = (q, z)" by (rule prod.exhaust)
      have lz: "ledger (snd z) = ledger (snd x)" using looked_up_db [OF q] ly by simp
      have s: "x' = (case q of Inr _ \<Rightarrow> confirm_reservation E (ra_id a) (ra_total a) t z
          | Inl e \<Rightarrow> if \<not> is_definitely_not_found e then alert (reservation (ra_id a) (ra_total a)
               @ '': node unreachable checking txid '' @ t @ '' ('' @ rpc_error_text e @ ''); holding'') z
            else if past_minutes E (ra_created a) 60 z
            then refund_reservation E (ra_id a) (ra_total a) ''txid not on chain (-5) past expiry'' z
            else alert (reservation (ra_id a) (ra_total a) @ '' txid '' @ t @ '' not yet on chain '' @ em_dash
              @ '' leaving for a later sweep'') z)"
        using x' Known Some q by (simp add: settle_known_def RESERVATION_REFUND_MINUTES_def)
      show ?thesis
      proof (cases q)
        case (Inr j)
        have c: "x' = confirm_reservation E (ra_id a) (ra_total a) t z" using s Inr by simp
        from confirm_reservation_effect [of W z "ra_id a" E "ra_total a" t] assms(1,2,4)
        obtain ps where "payouts (ledger (snd x')) = payouts (ledger (snd x)) @ ps"
          "map (\<lambda>p. (po_miner p, po_amount p)) ps = items_of (ledger (snd x)) (ra_id a)"
          "list_all (\<lambda>p. po_txid p = Some t) ps" unfolding c lz by blast
        with q Inr Known Some show ?thesis by blast
      next
        case (Inl e)
        have d: "is_definitely_not_found e" "past_minutes E (ra_created a) 60 z"
          using s Inl lz assms(2,4) by (auto split: if_splits)
        then obtain err where e: "e = JsonRpc err" "je_code err = - 5" by (cases e) auto
        have "payouts (ledger (snd x')) = payouts (ledger (snd x))"
          using s Inl d refund_reservation_effect [of W z] assms(1) lz by simp
        with q Inl Known Some e d(2) show ?thesis by blast
      qed
    qed
  qed
qed

section \<open>A success without a transaction id\<close>

lemma verify_all_fail:
  assumes "\<And>c w. fst (get_raw_transaction (pe_transport E) (pe_serde E) txid 1 (c, w)) = Inl e"
  shows "\<exists>last_err. fst (verify_visible n E txid le st) = Inl last_err"
proof (induction n arbitrary: le st)
  case (Suc n)
  obtain q st1 where q: "look_up_tx E txid st = (q, st1)" by (rule prod.exhaust)
  then have "q = Inl e"
    using assms [of "py_node (fst st)" "snd st"] by (auto simp: look_up_tx_def ask_node_def split: prod.splits)
  then show ?case using Suc.IH q by simp
qed simp

lemma update_attempt_ok:
  assumes "db_faults s = []"
  shows "update_payout_attempt aid status opid txid err s = (Inr (), s\<lparr>attempts := upd_where (\<lambda>r. at_id r = aid)
    (\<lambda>r. r\<lparr>at_status := status, at_opid := coalesce_first opid (at_opid r),
      at_txid := coalesce_first txid (at_txid r), at_error := coalesce_first err (at_error r),
      at_updated := db_clock s\<rparr>) (attempts s)\<rparr>)"
  using assms by (simp add: update_payout_attempt_def modify_def stmt_def tick_def)

lemma unique_updated:
  assumes "filter (\<lambda>r. at_id r = aid) rows = [r0]" "r \<in> set (upd_where (\<lambda>r. at_id r = aid) f rows)"
    and "at_id r = aid" "\<And>r. at_id (f r) = at_id r"
  shows "r = f r0"
proof -
  have "\<exists>r1 \<in> set rows. r = (if at_id r1 = aid then f r1 else r1)"
    using assms(2) by (auto simp: upd_where_def)
  then obtain r1 where r1: "r1 \<in> set rows" "r = (if at_id r1 = aid then f r1 else r1)" ..
  then have "at_id r1 = aid" using assms(3) by (simp split: if_splits)
  then have "r1 \<in> set (filter (\<lambda>r. at_id r = aid) rows)" using r1(1) by simp
  then show ?thesis using r1(2) \<open>at_id r1 = aid\<close> by (simp add: assms(1))
qed


end
