(* ===== verification/Payout_Sends.thy ===== *)
theory Payout_Sends
  imports Payout_Turns
begin

text \<open>
  What a round sends: the merged destinations are what it reserved.
\<close>

section \<open>What is sent\<close>

lemma add_entry_sum: "sum_list (map snd (add_entry a z xs)) = z + sum_list (map snd xs)"
  by (induction a z xs rule: add_entry.induct) auto

lemma add_entry_keys: "fst ` set (add_entry a z xs) = insert a (fst ` set xs)"
  by (induction a z xs rule: add_entry.induct) auto

lemma str_less_irrefl: "\<not> str_less s s"
  by (induction s) auto

lemma str_less_trans: "str_less a b \<Longrightarrow> str_less b c \<Longrightarrow> str_less a c"
proof (induction a b arbitrary: c rule: str_less.induct)
  case (3 x s y t)
  then show ?case by (cases c) auto
qed (case_tac c; auto)+

lemma str_less_total: "str_less a b \<or> a = b \<or> str_less b a"
proof (induction a b rule: str_less.induct)
  case (1 a)
  then show ?case by (cases a) auto
next
  case (3 c s d t)
  show ?case
  proof (cases "c = d")
    case True
    then show ?thesis using 3 by auto
  next
    case False
    then have "(of_char c :: nat) \<noteq> of_char d" by simp
    then have "(of_char c :: nat) < of_char d \<or> (of_char d :: nat) < of_char c" by (simp only: nat_neq_iff)
    then show ?thesis by auto
  qed
qed auto

definition sorted_entries :: "(string \<times> int) list \<Rightarrow> bool" where
  "sorted_entries xs \<longleftrightarrow> sorted_wrt (\<lambda>x y. str_less (fst x) (fst y)) xs"

lemma add_entry_sorted: "sorted_entries xs \<Longrightarrow> sorted_entries (add_entry a z xs)"
  unfolding sorted_entries_def
proof (induction a z xs rule: add_entry.induct)
  case (2 a z b y rest)
  have rest: "str_less b (fst e)" if "e \<in> set rest" for e using 2(2) that by simp
  consider "a = b" | "a \<noteq> b" "str_less a b" | "a \<noteq> b" "\<not> str_less a b" "str_less b a"
    using str_less_total by blast
  then show ?case
  proof cases
    case 2
    then show ?thesis using rest \<open>sorted_wrt _ ((b, y) # rest)\<close> str_less_trans [OF 2(2)] by simp
  next
    case 3
    have "str_less b (fst e)" if e: "e \<in> set (add_entry a z rest)" for e
    proof -
      have "fst e = a \<or> fst e \<in> fst ` set rest" using imageI [OF e, of fst] by (simp add: add_entry_keys)
      then show ?thesis using 3(3) rest by (metis imageE)
    qed
    then show ?thesis using 2 3 by simp
  qed (use 2(2) in simp)
qed simp

lemma sorted_entries_distinct: "sorted_entries xs \<Longrightarrow> distinct (map fst xs)"
  unfolding sorted_entries_def by (induction xs) (auto simp: str_less_irrefl)

definition amount_to :: "string \<Rightarrow> planned list \<Rightarrow> int" where
  "amount_to addr plan = sum_list (map (fst \<circ> snd) (filter (\<lambda>e. snd (snd e) = addr) plan))"

lemma add_entry_lookup:
  "sorted_entries xs \<Longrightarrow> map_of (add_entry a z xs) c
     = (if c = a then Some (COALESCE (map_of xs a) 0 + z) else map_of xs c)"
  unfolding sorted_entries_def
proof (induction a z xs rule: add_entry.induct)
  case (2 a z b y rest)
  have "map_of rest a = None" if "str_less a b"
    using that 2(2) str_less_trans [OF that] str_less_irrefl by (auto simp: map_of_eq_None_iff)
  then show ?case using 2 by auto
qed auto

lemma amount_to_simps:
  "amount_to addr ((p, z, a) # plan) = (if a = addr then z else 0) + amount_to addr plan"
  "addr \<notin> snd ` snd ` set plan \<Longrightarrow> amount_to addr plan = 0"
proof -
  show "amount_to addr ((p, z, a) # plan) = (if a = addr then z else 0) + amount_to addr plan"
    by (simp add: amount_to_def)
  assume "addr \<notin> snd ` snd ` set plan"
  then have "filter (\<lambda>e. snd (snd e) = addr) plan = []" by (auto simp: filter_empty_conv)
  then show "amount_to addr plan = 0" by (simp add: amount_to_def)
qed

lemma merge_entries:
  "sorted_entries acc \<Longrightarrow> (let ms = foldl (\<lambda>acc (p, z, addr). add_entry addr z acc) acc plan in
     sorted_entries ms \<and> sum_list (map snd ms) = sum_list (map snd acc) + sum_list (map (fst \<circ> snd) plan)
     \<and> (\<forall>addr. map_of ms addr = (if addr \<in> snd ` snd ` set plan
          then Some (COALESCE (map_of acc addr) 0 + amount_to addr plan) else map_of acc addr)))"
proof (induction plan arbitrary: acc)
  case (Cons e plan)
  obtain p z addr where e: "e = (p, z, addr)" by (rule prod_cases3)
  from Cons.IH [OF add_entry_sorted [OF Cons.prems, of addr z]] show ?case
    by (auto simp: e Let_def add_entry_sum add_entry_lookup [OF Cons.prems] amount_to_simps)
qed (simp add: amount_to_def)

lemma merged:
  "sorted_entries (merge_destinations plan)"
  "sum_list (map snd (merge_destinations plan)) = sum_list (map (fst \<circ> snd) plan)"
  "map_of (merge_destinations plan) addr
     = (if addr \<in> snd ` snd ` set plan then Some (amount_to addr plan) else None)"
  using merge_entries [of "[]" plan] by (simp_all add: merge_destinations_def sorted_entries_def Let_def)

section \<open>The plan\<close>

lemma plan_payouts_set:
  "e \<in> set (plan_payouts E K now scale ps) \<Longrightarrow> (\<exists>p \<in> set ps. \<exists>addr. pay_to E K now p = Some addr
     \<and> pm_min_payout K \<le> scaled_zatoshis scale p \<and> e = (p, scaled_zatoshis scale p, addr))"
  by (induction E K now scale ps rule: plan_payouts.induct) (auto split: option.splits if_splits)

lemma plan_payouts_distinct:
  "distinct (map pp_miner ps) \<Longrightarrow> distinct (map (pp_miner \<circ> fst) (plan_payouts E K now scale ps))"
proof (induction ps)
  case (Cons p ps)
  have "pp_miner p \<notin> (pp_miner \<circ> fst) ` set (plan_payouts E K now scale ps)"
    using Cons.prems plan_payouts_set [of _ E K now scale ps] by fastforce
  then show ?case using Cons by (auto split: option.split)
qed simp

lemma payable_distinct:
  assumes "distinct (map bl_miner (balances s))" "distinct (map mi_id (miners s))"
  shows "distinct (map pp_miner (payable_rows inc s))"
proof -
  have one: "length (filter (\<lambda>m. mi_id m = i) ms) \<le> 1" if "distinct (map mi_id ms)" for i ms
    using that
  proof (induction ms)
    case (Cons a ms)
    have "filter (\<lambda>m. mi_id m = i) ms = []" if "mi_id a = i"
      using Cons.prems that by (auto simp: filter_empty_conv rev_image_eqI)
    then show ?case using Cons by auto
  qed simp
  have rows: "distinct (map pp_miner (concat (map (\<lambda>b. map (f b) (filter (\<lambda>m. mi_id m = bl_miner b) (miners s))) bs)))"
    if "distinct (map bl_miner bs)" "\<And>b m. pp_miner (f b m) = bl_miner b" for f :: "balance_row \<Rightarrow> miner_row \<Rightarrow> pending_payout" and bs
    using that(1)
  proof (induction bs)
    case (Cons b bs)
    let ?row = "\<lambda>b. map pp_miner (map (f b) (filter (\<lambda>m. mi_id m = bl_miner b) (miners s)))"
    have "distinct (?row b)"
      using one [OF assms(2), of "bl_miner b"]
      by (cases "filter (\<lambda>m. mi_id m = bl_miner b) (miners s)") auto
    moreover have in_row: "set (?row c) \<subseteq> {bl_miner c}" for c by (auto simp: that(2))
    have "x = bl_miner b \<Longrightarrow> x \<notin> set (concat (map ?row bs))" for x
      using Cons.prems in_row by fastforce
    then have "set (?row b) \<inter> set (concat (map ?row bs)) = {}" using in_row [of b] by blast
    moreover have "distinct (concat (map ?row bs))" using Cons by (simp add: map_concat comp_def)
    ultimately show ?case by (simp add: map_concat comp_def)
  qed simp
  show ?thesis unfolding payable_rows_def by (rule rows [OF assms(1)]) simp
qed

lemma distinct_sort_rows: "distinct (map k xs) \<Longrightarrow> distinct (map k (desc f xs))"
  unfolding desc_def using mset_order_by by (metis mset_map mset_eq_imp_distinct_iff)

lemma sum_same_set:
  fixes f :: "'a \<Rightarrow> int"
  assumes "distinct xs" "distinct ys" "set xs = set ys"
  shows "sum_list (map f xs) = sum_list (map f ys)"
  using assms by (simp add: sum_list_distinct_conv_sum_set)

lemma reserved_plan_sum:
  assumes "distinct (map (pp_miner \<circ> fst) plan)" "set v \<subseteq> set (reserve_items plan)" "distinct (map fst v)"
  shows "sum_list (map (fst \<circ> snd) (reserved_plan v plan)) = sum_list (map snd v)"
proof -
  let ?k = "\<lambda>e :: planned. (pp_miner (fst e), fst (snd e))"
  have k: "reserve_items plan = map ?k plan" by (simp add: reserve_items_def case_prod_beta)
  have inj: "e = e'" if "e \<in> set plan" "e' \<in> set plan" "pp_miner (fst e) = pp_miner (fst e')" for e e'
    using assms(1) that by (auto simp: distinct_map inj_on_def)
  have d: "distinct plan" using assms(1) by (simp add: distinct_map)
  have rp: "reserved_plan v plan = filter (\<lambda>e. pp_miner (fst e) \<in> fst ` set v) plan"
    unfolding reserved_plan_def by (rule arg_cong [of _ _ "\<lambda>P. filter P plan"]) (auto simp: fun_eq_iff)
  have "set (map ?k (reserved_plan v plan)) = set v"
  proof (intro equalityI subsetI)
    fix r assume "r \<in> set (map ?k (reserved_plan v plan))"
    then obtain e where e: "e \<in> set plan" "r = ?k e" "pp_miner (fst e) \<in> fst ` set v" by (auto simp: rp)
    then obtain r' where r': "r' \<in> set v" "fst r' = pp_miner (fst e)" by auto
    have "r' \<in> ?k ` set plan" using assms(2) r'(1) k by auto
    then obtain e' where e': "e' \<in> set plan" "r' = ?k e'" by blast
    have "e = e'" by (rule inj) (use e e' r' in simp_all)
    then show "r \<in> set v" using e(2) e'(2) r'(1) by simp
  next
    fix r assume r: "r \<in> set v"
    then have "r \<in> ?k ` set plan" using assms(2) k by auto
    then obtain e where e: "e \<in> set plan" "r = ?k e" by blast
    have "pp_miner (fst e) \<in> fst ` set v" using r e(2) by (metis fst_conv imageI)
    then show "r \<in> set (map ?k (reserved_plan v plan))" using e unfolding rp by simp
  qed
  moreover have "distinct (map ?k (reserved_plan v plan))"
    using d inj by (auto simp: rp distinct_map inj_on_def)
  moreover have "distinct v" using assms(3) by (simp add: distinct_map)
  ultimately have "sum_list (map snd (map ?k (reserved_plan v plan))) = sum_list (map snd v)"
    by (intro sum_same_set) auto
  then show ?thesis by (simp add: comp_def)
qed


end
