(* ===== verification/Payout_Properties.thy ===== *)
theory Payout_Properties
  imports Payout_Linked Payout_Timing Payout_Release Payout_Sends
begin

text \<open>
  A small outside world for the payout process and the properties of the payouts at concrete
  inputs.  The world is the wall clock in seconds; wallet and node give fixed answers.
\<close>

section \<open>The toy world\<close>

type_synonym answer = "string + string"

definition toy_post ::
  "answer \<Rightarrow> answer \<Rightarrow> answer \<Rightarrow> string \<Rightarrow> (string \<times> string) option \<Rightarrow> rpc_request \<Rightarrow> nanos \<Rightarrow> int
     \<Rightarrow> answer \<times> int" where
  "toy_post sent polled looked url auth rq t w =
     (if rq_method rq = ''z_sendmany'' then sent
      else if rq_method rq = ''z_getoperationstatus'' then polled
      else if rq_method rq = ''getrawtransaction'' then looked
      else if rq_method rq = ''z_gettotalbalance'' then Inr ''bal''
      else Inl ''down'', w)"

definition answered :: "'a \<Rightarrow> string + 'a rpc_response" where
  "answered v = Inr \<lparr>rs_id = None, rs_result = Some v, rs_error = None\<rparr>"

definition refused :: "int \<Rightarrow> string + 'a rpc_response" where
  "refused cd = Inr \<lparr>rs_id = None, rs_result = None,
     rs_error = Some \<lparr>je_code = cd, je_message = ''no'', je_data = None\<rparr>\<rparr>"

definition toy_statuses :: "string \<Rightarrow> json list" where
  "toy_statuses b =
     (if b = ''ok'' then [JObj [(''status'', JStr ''success''), (''result'', JObj [(''txid'', JStr ''tx'')])]]
      else if b = ''bare'' then [JObj [(''status'', JStr ''success'')]]
      else [])"

definition toy_json :: "string \<Rightarrow> string + json rpc_response" where
  "toy_json b = (if b = ''absent'' then refused (- 5)
     else answered (JObj [(''private'', JStr ''2''), (''transparent'', JStr ''0'')]))"

definition toy_jsons :: "string \<Rightarrow> string + json list rpc_response" where
  "toy_jsons b = answered (toy_statuses b)"

definition no_body :: "string \<Rightarrow> string + 'a" where
  "no_body b = Inl ''bad''"

definition toy_sleep :: "nanos \<Rightarrow> int \<Rightarrow> int" where
  "toy_sleep d w = w + int (d div 10 ^ 9)"

definition toy_serde :: serde where
  "toy_serde = \<lparr>sd_value = no_body, sd_render = (\<lambda>j. ''json''), sd_template = no_body,
     sd_u64 = no_body, sd_string = answered, sd_opt_string = no_body, sd_info = no_body, sd_f64 = no_body,
     sd_json = toy_json, sd_jsons = toy_jsons\<rparr>"

definition toy_env :: "answer \<Rightarrow> answer \<Rightarrow> answer \<Rightarrow> int payout_env" where
  "toy_env sent polled looked =
     \<lparr>pe_transport = \<lparr>tr_post = toy_post sent polled looked, tr_sleep = toy_sleep\<rparr>,
      pe_serde = toy_serde, pe_hex = hex_ref, pe_base58 = (\<lambda>s. Some (replicate 22 0)),
      pe_elapsed = (\<lambda>w. 0), pe_utc = (\<lambda>w. w), pe_rfc3339 = (\<lambda>w. ''now''), pe_sqlx_text = (\<lambda>e. ''sql''),
      pe_config = (\<lambda>w. None), pe_woken = (\<lambda>w. None)\<rparr>"

definition toy_params :: payout_params where
  "toy_params = \<lparr>pm_pool_address = ''pool'', pm_mining_address = ''mine'', pm_min_payout = 1,
     pm_reserve_min = 0, pm_margin = Fin 1, pm_maturity = 100, pm_interval = 300,
     pm_network = ''mainnet'', pm_pay_immature = False, pm_knobs = (0, I64_MAX)\<rparr>"

definition toy_owing :: db where
  "toy_owing = (empty_db True 0 [])\<lparr>
     miners := [\<lparr>mi_id = 1, mi_address = ''t1a'', mi_created = 0\<rparr>],
     balances := [\<lparr>bl_miner = 1, bl_pending = 100000000, bl_paid = 0, bl_paying = 0\<rparr>]\<rparr>"

definition toy_attempt :: "string option \<Rightarrow> string \<Rightarrow> attempt_row" where
  "toy_attempt txid status = \<lparr>at_id = 1, at_opid = None, at_txid = txid, at_status = status,
     at_miner_count = 1, at_total = 100000000, at_source = ''loop'', at_error = None, at_created = 0,
     at_updated = 0\<rparr>"

definition toy_item :: item_row where
  "toy_item = \<lparr>it_id = 1, it_attempt = 1, it_miner = 1, it_amount = 100000000, it_created = 0\<rparr>"

definition toy_reserved :: "string option \<Rightarrow> string \<Rightarrow> db" where
  "toy_reserved txid status = toy_owing\<lparr>
     balances := [\<lparr>bl_miner = 1, bl_pending = 0, bl_paid = 0, bl_paying = 100000000\<rparr>],
     attempts := [toy_attempt txid status], items := [toy_item],
     db_seq := (\<lambda>t. 0)(''payout_attempts'' := 1, ''payout_items'' := 1)\<rparr>"

definition toy_at :: "int \<Rightarrow> db \<Rightarrow> int pay" where
  "toy_at clock s = (\<lparr>py_db = s, py_wallet = client_new ''w'', py_node = client_new ''n'', py_now = 0\<rparr>, clock)"

definition toy_reconciler :: reconciler where
  "toy_reconciler = \<lparr>re_pool_fee = Fin 0, re_mining_address = '''', re_auto_void_reorged = True,
     re_shielded_coinbase = False\<rparr>"

lemma toy_books:
  "books (\<lambda>m. if m = 1 then 100000000 else 0) toy_owing"
  "books (\<lambda>m. if m = 1 then 100000000 else 0) (toy_reserved txid status)"
  by (auto simp: books_iff sheet_def toy_owing_def toy_reserved_def toy_item_def empty_db_def item_sum_def
      payout_sum_def has_balance_def sum_where_def fun_eq_iff)

lemma toy_ledger_inv: "ledger_inv toy_owing" "ledger_inv (toy_reserved txid status)"
  using toy_books by (simp_all add: ledger_inv_def books_def toy_reserved_def toy_owing_def empty_db_def)

section \<open>What the toy world answers\<close>

definition bumped :: "rpc_client \<Rightarrow> rpc_client" where
  "bumped c = c\<lparr>rc_next_id := rc_next_id c + 1\<rparr>"

definition absent_error :: json_rpc_error where
  "absent_error = \<lparr>je_code = - 5, je_message = ''no'', je_data = None\<rparr>"

lemma toy_env_sel [simp]:
  "pe_serde (toy_env s p l) = toy_serde" "pe_elapsed (toy_env s p l) w = 0" "pe_utc (toy_env s p l) w = w"
  "pe_sqlx_text (toy_env s p l) e = ''sql''" "tr_sleep (pe_transport (toy_env s p l)) = toy_sleep"
  by (simp_all add: toy_env_def)

lemmas rpc_defs = call_def call_with_timeout_def post_request_def response_result_def toy_serde_def
  toy_post_def answered_def refused_def toy_jsons_def toy_json_def toy_env_def Let_def bumped_def

lemma toy_calls:
  "z_sendmany (pe_transport (toy_env s p l)) toy_serde a am (c, w)
     = (case s of Inl e \<Rightarrow> Inl (Http e) | Inr b \<Rightarrow> Inr b, bumped c, w)"
  "z_get_operation_status (pe_transport (toy_env s p l)) toy_serde ops (c, w)
     = (case p of Inl e \<Rightarrow> Inl (Http e) | Inr b \<Rightarrow> Inr (toy_statuses b), bumped c, w)"
  "get_raw_transaction (pe_transport (toy_env s p l)) toy_serde t v (c, w)
     = (case l of Inl e \<Rightarrow> Inl (Http e) | Inr b \<Rightarrow> if b = ''absent'' then Inl (JsonRpc absent_error)
          else Inr (JObj [(''private'', JStr ''2''), (''transparent'', JStr ''0'')]), bumped c, w)"
  by (cases s; cases p; cases l; simp add: z_sendmany_def z_get_operation_status_def get_raw_transaction_def
      rpc_defs absent_error_def)+

lemma toy_balance:
  "fst (wallet_balances (pe_transport (toy_env s p l)) toy_serde n (c, w))
     = Inr \<lparr>wb_spendable = Fin 2, wb_transparent = Fin 0, wb_pending = Fin 0, wb_immature = Fin 0\<rparr>"
  "snd (wallet_balances (pe_transport (toy_env s p l)) toy_serde n (c, w)) = (bumped c, w)"
proof -
  have "parse_f64 ''2'' = Some (Fin 2)" "parse_f64 ''0'' = Some (Fin 0)" by code_simp+
  then show "fst (wallet_balances (pe_transport (toy_env s p l)) toy_serde n (c, w))
     = Inr \<lparr>wb_spendable = Fin 2, wb_transparent = Fin 0, wb_pending = Fin 0, wb_immature = Fin 0\<rparr>"
    "snd (wallet_balances (pe_transport (toy_env s p l)) toy_serde n (c, w)) = (bumped c, w)"
    by (simp_all add: wallet_balances_def rpc_defs text_amount_def)
qed

lemma toy_poll:
  "poll_once (toy_env s p l) op (y, w) = (case p of Inl e \<Rightarrow> Inl (Http e) | Inr b \<Rightarrow> Inr (toy_statuses b),
     y\<lparr>py_wallet := bumped (py_wallet y)\<rparr>, w)"
  by (simp add: poll_once_def ask_wallet_def toy_calls)

lemma toy_looked:
  "look_up_tx (toy_env s p l) t (y, w) = (case l of Inl e \<Rightarrow> Inl (Http e)
       | Inr b \<Rightarrow> if b = ''absent'' then Inl (JsonRpc absent_error)
          else Inr (JObj [(''private'', JStr ''2''), (''transparent'', JStr ''0'')]),
     y\<lparr>py_node := bumped (py_node y)\<rparr>, w)"
  by (simp add: look_up_tx_def ask_node_def toy_calls)

lemma toy_pause: "pause (toy_env s p l) d (y, w) = (y\<lparr>py_now := py_now y + d\<rparr>, w + int (d div 10 ^ 9))"
  by (simp add: pause_def toy_sleep_def)

lemma toy_poll_result:
  "poll_result (toy_statuses ''ok'') = Some (Success ''tx'')"
  "poll_result (toy_statuses ''bare'') = Some (Success ''unknown'')"
  "poll_result (toy_statuses ''none'') = None"
  by code_simp+

lemma toy_wait:
  assumes "poll_result (toy_statuses b) = Some r"
  shows "wait_for_operation (toy_env s (Inr b) l) op (y, w) = (Inr r,
     y\<lparr>py_wallet := bumped (py_wallet y), py_now := py_now y + POLL_PAUSE\<rparr>, w + 5)"
  using assms by (simp add: wait_for_operation_def poll_operation.simps [of "toy_env s (Inr b) l"] toy_pause
      toy_poll POLL_PAUSE_def OP_POLL_TIMEOUT_def Let_def)

section \<open>A round in the toy world\<close>

definition good_env :: "int payout_env" where
  "good_env = toy_env (Inr ''op'') (Inr ''ok'') (Inr ''seen'')"

definition toy_pending :: pending_payout where
  "toy_pending = \<lparr>pp_miner = 1, pp_address = ''t1a'', pp_amount = 100000000, pp_created = 0\<rparr>"

lemma toy_eligible: "eligible_payouts 1 False 0 I64_MAX (toy_owing\<lparr>db_clock := w\<rparr>) = [toy_pending]"
  by (simp add: eligible_payouts_def payable_rows_def toy_owing_def empty_db_def immature_of_def desc_def
      order_by_def toy_pending_def I64_MAX_def sum_where_def)

lemma toy_plan:
  "plan_round (toy_env s p l) toy_params [toy_pending]
     \<lparr>wb_spendable = Fin 2, wb_transparent = Fin 0, wb_pending = Fin 0, wb_immature = Fin 0\<rparr> w
   = [(toy_pending, 100000000, ''t1a'')]"
proof -
  have "available_zec toy_params (Fin 2) = Fin 2" "flt (Fin 2) (to_zec (pm_min_payout toy_params)) = False"
    "payout_scale (Fin 2) [toy_pending] = Fin 1" "scaled_zatoshis (Fin 1) toy_pending = 100000000" by code_simp+
  moreover have "pay_to (toy_env s p l) toy_params w toy_pending = Some ''t1a''"
    by (simp add: pay_to_def is_valid_zcash_address_def toy_pending_def toy_params_def toy_env_def Let_def)
  ultimately show ?thesis
    by (simp add: plan_round_def Let_def) (simp add: toy_params_def)
qed

lemma toy_created:
  "create_payout_attempt 1 100000000 ''loop'' (toy_owing\<lparr>db_clock := 0\<rparr>)
     = (Inr 1, toy_owing\<lparr>attempts := [toy_attempt None ''queued''], db_seq := (\<lambda>t. 0)(''payout_attempts'' := 1)\<rparr>)"
  by (simp add: create_payout_attempt_def stmt_def tick_def toy_owing_def empty_db_def next_id_def bump_id_def
      toy_attempt_def)

lemmas db_run_defs = dbind_def dseq_def stmt_def tick_def select_def modify_def txn_def check_fk_def
  update_balance_def insert_item_def next_id_def bump_id_def count_where_def upd_where_def toy_owing_def
  toy_reserved_def toy_item_def toy_attempt_def empty_db_def has_attempt_def has_miner_def coalesce_first_def

lemma toy_reserve:
  "reserve_payout 1 [(1, 100000000)] ((toy_owing\<lparr>attempts := [toy_attempt None ''queued''],
      db_seq := (\<lambda>t. 0)(''payout_attempts'' := 1)\<rparr>)\<lparr>db_clock := 0\<rparr>)
   = (Inr [(1, 100000000)], toy_reserved None ''queued'')"
  by (simp add: reserve_payout_def reserve_one_def pending_to_paying_def db_run_defs)

lemma toy_mark:
  "update_payout_attempt 1 st None tx None ((toy_reserved txid st0)\<lparr>db_clock := 0\<rparr>)
     = (Inr (), toy_reserved (coalesce_first tx txid) st)"
  by (cases tx) (simp_all add: update_payout_attempt_def db_run_defs)

definition toy_plan_of :: "planned list" where
  "toy_plan_of = [(toy_pending, 100000000, ''t1a'')]"

definition toy_st :: "string option \<Rightarrow> string \<Rightarrow> int \<Rightarrow> int pay" where
  "toy_st txid status w = toy_at w (toy_reserved txid status)"

text \<open>The round up to the send.\<close>

lemma toy_round_starts:
  "pay_plan (toy_env s p l) toy_params toy_plan_of (y\<lparr>py_db := toy_owing\<rparr>, 0)
     = submit_payout (toy_env s p l) toy_params 1 toy_plan_of (y\<lparr>py_db := toy_reserved None ''queued''\<rparr>, 0)"
proof -
  have c: "run_pdb (toy_env s p l) (create_payout_attempt 1 100000000 ''loop'') (y\<lparr>py_db := toy_owing\<rparr>, 0)
     = (Inr 1, y\<lparr>py_db := toy_owing\<lparr>attempts := [toy_attempt None ''queued''],
          db_seq := (\<lambda>t. 0)(''payout_attempts'' := 1)\<rparr>\<rparr>, 0)"
    using toy_created by (simp add: run_pdb_def)
  have r: "run_pdb (toy_env s p l) (reserve_payout 1 [(1, 100000000)]) (y\<lparr>py_db := toy_owing\<lparr>attempts :=
       [toy_attempt None ''queued''], db_seq := (\<lambda>t. 0)(''payout_attempts'' := 1)\<rparr>\<rparr>, 0)
     = (Inr [(1, 100000000)], y\<lparr>py_db := toy_reserved None ''queued''\<rparr>, 0)"
    using toy_reserve by (simp add: run_pdb_def)
  show ?thesis
    by (simp add: pay_plan_def toy_plan_of_def reserve_items_def reserved_plan_def c r toy_pending_def)
qed

lemma toy_process:
  "process_payouts (toy_env s p l) toy_params (0, I64_MAX) (toy_at 0 toy_owing)
     = pay_plan (toy_env s p l) toy_params toy_plan_of
         ((fst (toy_at 0 toy_owing))\<lparr>py_wallet := bumped (client_new ''w''), py_db := toy_owing\<rparr>, 0)"
proof -
  let ?E = "toy_env s p l"
  have P: "run_pdb ?E (get_pending_payouts 1 False 0 I64_MAX) (toy_at 0 toy_owing) = (Inr [toy_pending], toy_at 0 toy_owing)"
    using toy_eligible [of 0]
    by (simp add: run_pdb_def get_pending_payouts_def select_def stmt_def tick_def toy_at_def)
      (simp add: toy_owing_def empty_db_def)
  obtain r x where wb: "wallet_balances (pe_transport ?E) toy_serde 3 (client_new ''w'', 0) = (r, x)" by (rule prod.exhaust)
  have W: "ask_wallet ?E (wallet_balances (pe_transport ?E) toy_serde 3) (toy_at 0 toy_owing)
     = (Inr \<lparr>wb_spendable = Fin 2, wb_transparent = Fin 0, wb_pending = Fin 0, wb_immature = Fin 0\<rparr>,
        (fst (toy_at 0 toy_owing))\<lparr>py_wallet := bumped (client_new ''w''), py_db := toy_owing\<rparr>, 0)"
    using toy_balance [of s p l 3 "client_new ''w''" 0] wb by (simp add: ask_wallet_def toy_at_def)
  have "pm_pay_immature toy_params = False" "pm_min_payout toy_params = 1" by (simp_all add: toy_params_def)
  with P W toy_plan show ?thesis
    by (simp add: process_payouts_def immature_allowed_def Let_def toy_plan_of_def)
qed

lemma toy_submitting:
  "run_pdb (toy_env s p l) (update_payout_attempt 1 ''submitting'' None None None)
      (y\<lparr>py_db := toy_reserved txid st0\<rparr>, 0) = (Inr (), y\<lparr>py_db := toy_reserved txid ''submitting''\<rparr>, 0)"
  using toy_mark [of "''submitting''" None txid st0] by (simp add: run_pdb_def coalesce_first_def)

lemma toy_visible:
  "verify_visible VISIBILITY_TRIES (toy_env s p (Inr ''seen'')) t e (y, w)
     = (Inr (), y\<lparr>py_node := bumped (py_node y)\<rparr>, w)"
  by (simp add: VISIBILITY_TRIES_def eval_nat_numeral toy_looked)

definition toy_paid :: db where
  "toy_paid = ledger (take_turns good_env (\<lambda>t. ''t'') [Round toy_params (0, I64_MAX)] (toy_at 0 toy_owing))"

lemma toy_settled:
  assumes "py_db y = toy_reserved None ''submitting''"
  shows "balances (ledger (snd (follow_payout good_env 1 toy_plan_of ''op'' (mark_attempt good_env 1 ''sent'' (Some ''op'') None None
      (y, 0)))))
     = [\<lparr>bl_miner = 1, bl_pending = 0, bl_paid = 100000000, bl_paying = 0\<rparr>]"
  using assms by (simp add: good_env_def follow_payout_def mark_attempt_def exec_pdb_def run_pdb_def update_payout_attempt_def
      toy_wait [OF toy_poll_result(1)] toy_visible settle_payout_def Let_def record_tx_cost_def insert_cost_def
      confirm_payout_def items_of_def confirm_one_def paying_to_paid_def insert_payout_def delete_items_def db_run_defs)

lemma toy_paid_balances:
  "balances toy_paid = [\<lparr>bl_miner = 1, bl_pending = 0, bl_paid = 100000000, bl_paying = 0\<rparr>]"
  by (simp add: toy_settled [unfolded good_env_def] toy_paid_def take_turns_def good_env_def toy_process toy_round_starts submit_payout_def toy_submitting
      ask_wallet_def toy_calls bumped_def)

section \<open>The properties at concrete inputs\<close>

theorem books_after_every_turn_witness:
  "balances toy_paid = [\<lparr>bl_miner = 1, bl_pending = 0, bl_paid = 100000000, bl_paying = 0\<rparr>]
   \<and> payout_sum toy_paid 1 = 100000000 \<and> item_sum toy_paid 1 = 0"
proof -
  let ?b = "\<lparr>bl_miner = 1, bl_pending = 0, bl_paid = 100000000, bl_paying = 0\<rparr>"
  have "ledger_inv (ledger (toy_at 0 toy_owing))" using toy_ledger_inv by (simp add: toy_at_def)
  moreover have "?b \<in> set (balances (ledger (take_turns good_env (\<lambda>t. ''t'') [Round toy_params (0, I64_MAX)]
      (toy_at 0 toy_owing))))" using toy_paid_balances by (simp add: toy_paid_def)
  ultimately show ?thesis
    using books_after_every_turn [of "toy_at 0 toy_owing" ?b good_env "\<lambda>t. ''t''" "[Round toy_params (0, I64_MAX)]"]
      toy_paid_balances by (simp add: toy_paid_def)
qed


text \<open>The wallet does not answer \<open>z_sendmany\<close>; two sweeps and a restart follow.\<close>

definition lost_env :: "int payout_env" where
  "lost_env = toy_env (Inl ''timeout'') (Inr ''none'') (Inr ''absent'')"

definition lost_turns :: "pay_turn list" where
  "lost_turns = [Wait (7200 * 10 ^ 9), Sweep toy_reconciler, Startup None, Sweep toy_reconciler]"

theorem unanswered_send_stays_reserved_witness:
  "items (ledger (take_turns lost_env (\<lambda>t. ''t'') lost_turns
       (snd (submit_payout lost_env toy_params 1 toy_plan_of (toy_st None ''queued'' 0))))) \<noteq> []
   \<and> 100000000 \<le> column bl_paying (ledger (take_turns lost_env (\<lambda>t. ''t'') lost_turns
       (snd (submit_payout lost_env toy_params 1 toy_plan_of (toy_st None ''queued'' 0))))) 1"
proof -
  let ?st = "toy_st None ''queued'' 0"
  have a: "awaiting_send 1 [toy_item] (ledger ?st)" "ledger_inv (ledger ?st)"
    using toy_ledger_inv
    by (simp_all add: awaiting_send_def toy_st_def toy_at_def toy_reserved_def toy_owing_def toy_attempt_def toy_item_def)
  let ?st1 = "((fst ?st)\<lparr>py_db := toy_reserved None ''submitting''\<rparr>, 0 :: int)"
  have m: "run_pdb lost_env (update_payout_attempt 1 ''submitting'' None None None) ?st = (Inr (), ?st1)"
    using toy_submitting [where y = "fst ?st" and txid = None and ?st0.0 = "''queued''" and s = "Inl ''timeout''"
        and p = "Inr ''none''" and l = "Inr ''absent''"]
    by (simp add: lost_env_def toy_st_def toy_at_def)
  have s: "ask_wallet lost_env (z_sendmany (pe_transport lost_env) (pe_serde lost_env) (pm_pool_address toy_params)
      (send_amounts toy_plan_of)) ?st1 = (Inl (Http ''timeout''),
      (fst ?st1)\<lparr>py_wallet := bumped (py_wallet (fst ?st1))\<rparr>, 0)"
    by (simp add: lost_env_def ask_wallet_def toy_calls)
  from unanswered_send_stays_reserved [OF a m s _ refl, of "\<lambda>t. ''t''" lost_turns 1]
  show ?thesis by (auto simp: toy_item_def)
qed

theorem wait_is_bounded_witness:
  "case wait_for_operation (toy_env (Inr ''op'') (Inr ''none'') (Inr ''seen'')) ''op'' (toy_at 0 toy_owing) of
     (r, st') \<Rightarrow> \<exists>k \<le> 24. rc_next_id (py_wallet (fst st')) = 1 + of_nat k"
proof -
  obtain r st' where w: "wait_for_operation (toy_env (Inr ''op'') (Inr ''none'') (Inr ''seen'')) ''op'' (toy_at 0 toy_owing)
     = (r, st')" by (rule prod.exhaust)
  from wait_is_bounded [OF w] show ?thesis by (auto simp: w) (auto simp: toy_at_def client_new_def)
qed

theorem round_ends_before_the_sweep_witness:
  "prompt lost_env RPC_TIMEOUT
   \<and> (case pay_plan lost_env toy_params toy_plan_of (toy_at 0 toy_owing) of
        (r, st') \<Rightarrow> py_now (fst st') \<le> 380 * 10 ^ 9 \<and> py_now (fst st') < nat STALE_ATTEMPT_MINUTES * 60 * 10 ^ 9)"
proof -
  have p: "prompt lost_env RPC_TIMEOUT" by (simp add: prompt_def lost_env_def)
  obtain r st' where w: "pay_plan lost_env toy_params toy_plan_of (toy_at 0 toy_owing) = (r, st')" by (rule prod.exhaust)
  have "py_now (fst (toy_at 0 toy_owing)) = 0" by (simp add: toy_at_def)
  with round_ends_before_the_sweep [OF p w] p show ?thesis by (simp add: w)
qed

text \<open>A reservation with a transaction id that the node knows.\<close>

definition sent_entry :: reserved_attempt where
  "sent_entry = \<lparr>ra_id = 1, ra_status = ''sent'', ra_opid = None, ra_txid = Some ''tx'', ra_total = 100000000,
     ra_created = 0\<rparr>"

definition confirmed_x :: "int sweeping" where
  "confirmed_x = reconcile_one good_env sent_entry (empty_summary, toy_st (Some ''tx'') ''sent'' 600)"

theorem release_needs_evidence_witness:
  "items (ledger (snd confirmed_x)) = [] \<and> (\<exists>t ps. payouts (ledger (snd confirmed_x)) = ps
     \<and> map (\<lambda>p. (po_miner p, po_amount p)) ps = [(1, 100000000)] \<and> list_all (\<lambda>p. po_txid p = Some t) ps)"
proof -
  let ?x = "(empty_summary, toy_st (Some ''tx'') ''sent'' 600)"
  have B: "books (\<lambda>m. if m = 1 then 100000000 else 0) (ledger (snd ?x))" "payouts (ledger (snd ?x)) = []"
    using toy_books by (simp_all add: toy_st_def toy_at_def) (simp add: toy_reserved_def toy_owing_def empty_db_def)
  have i: "items_of (ledger (snd ?x)) (ra_id sent_entry) = [(1, 100000000)]"
    by (simp add: toy_st_def toy_at_def items_of_def toy_reserved_def toy_item_def sent_entry_def)
  have r: "resolve_opid good_env (ra_opid sent_entry) (ra_txid sent_entry) ?x = (Known (Some ''tx''), ?x)"
    by (simp add: resolve_opid_def sent_entry_def)
  have z: "items (ledger (snd confirmed_x)) = []" "payouts (ledger (snd confirmed_x)) \<noteq> []"
    by (simp_all add: confirmed_x_def sent_entry_def reconcile_one_def resolve_opid_def settle_known_def good_env_def
        lifted_def toy_looked toy_st_def toy_at_def confirm_reservation_def sweep_db_def sweep_exec_def alert_def tally_def
        run_pdb_def confirm_payout_def items_of_def confirm_one_def paying_to_paid_def insert_payout_def delete_items_def
        update_payout_attempt_def Let_def db_run_defs)
  then have "items_of (ledger (snd confirmed_x)) (ra_id sent_entry) = []" by (simp add: items_of_def)
  from release_needs_evidence [OF B(1) _ confirmed_x_def [symmetric] this r] i show ?thesis
    using z B(2) by auto
qed

text \<open>The reservation of the round, and what is sent for it.\<close>

definition toy_queued :: db where
  "toy_queued = toy_owing\<lparr>attempts := [toy_attempt None ''queued''], db_seq := (\<lambda>t. 0)(''payout_attempts'' := 1)\<rparr>"


text \<open>A success without a transaction id: the reservation is back in the balance an hour later.\<close>

definition bare_env :: "int payout_env" where
  "bare_env = toy_env (Inr ''op'') (Inr ''bare'') (Inr ''absent'')"

definition bare_sent :: "int pay" where
  "bare_sent = snd (follow_payout bare_env 1 toy_plan_of ''op'' (toy_st None ''sent'' 0))"


text \<open>What the next sweep finds reserved.\<close>

theorem reserved_money_is_listed_witness:
  "(case get_reserved_attempts None (ledger (take_turns lost_env (\<lambda>t. ''t'') [Wait 5] (toy_st None ''sent'' 0))) of
      (Inr listed, _) \<Rightarrow> map ra_status listed = [''sent''] \<and> sum_list (map ra_total listed) = 100000000
    | (Inl e, _) \<Rightarrow> False)
   \<and> map bl_paying (balances (ledger (take_turns lost_env (\<lambda>t. ''t'') [Wait 5] (toy_st None ''sent'' 0)))) = [100000000]"
proof -
  let ?st = "toy_st None ''sent'' 0"
  let ?s = "ledger (take_turns lost_env (\<lambda>t. ''t'') [Wait 5] ?st)"
  have s: "?s = toy_reserved None ''sent''" by (simp add: take_turns_def toy_st_def toy_at_def)
  have L: "linked (ledger ?st)" "ledger_inv (ledger ?st)"
    using toy_ledger_inv
    by (simp_all add: toy_st_def toy_at_def)
      (simp add: linked_def toy_reserved_def toy_owing_def empty_db_def toy_item_def toy_attempt_def)
  obtain s' where g: "get_reserved_attempts None ?s = (Inr [reserved_entry ?s (toy_attempt None ''sent'')], s')"
    unfolding s get_reserved_attempts_def
    by (simp add: select_def stmt_def tick_def toy_reserved_def toy_owing_def empty_db_def has_items_def toy_item_def
        toy_attempt_def)
  have b: "map bl_paying (balances ?s) = [100000000]" by (simp add: s toy_reserved_def)
  from reserved_money_is_listed [OF L refl g] b g show ?thesis
    by (simp add: reserved_entry_def toy_attempt_def)
qed

end
