(* ===== verification/Web_Text.thy ===== *)
theory Web_Text
  imports Payer
begin

text \<open>
  The functions on \<open>str\<close> of Rust's standard library that the web crate uses, on ASCII text, and
  the JSON replies of its handlers.
\<close>

section \<open>Splitting\<close>

definition newline :: char where
  "newline = CHR 0x0A"

definition carriage_return :: char where
  "carriage_return = CHR 0x0D"

definition is_space :: "char \<Rightarrow> bool" where
  "is_space c = (let n = of_char c :: nat in 9 \<le> n \<and> n \<le> 13 \<or> n = 32)"

text \<open>\<open>split_whitespace\<close>\<close>

fun words_from :: "string \<Rightarrow> string \<Rightarrow> string list" where
  "words_from w [] = (if w = [] then [] else [w])"
| "words_from w (c # s) =
     (if is_space c then (if w = [] then words_from [] s else w # words_from [] s)
      else words_from (w @ [c]) s)"

definition split_whitespace :: "string \<Rightarrow> string list" where
  "split_whitespace s = words_from [] s"

text \<open>\<open>split_once\<close>, \<open>rsplit_once\<close>, \<open>find\<close>\<close>

fun split_once :: "char \<Rightarrow> string \<Rightarrow> (string \<times> string) option" where
  "split_once c [] = None"
| "split_once c (d # s) =
     (if d = c then Some ([], s) else map_option (\<lambda>(a, b). (d # a, b)) (split_once c s))"

definition rsplit_once :: "char \<Rightarrow> string \<Rightarrow> (string \<times> string) option" where
  "rsplit_once c s = map_option (\<lambda>(a, b). (rev b, rev a)) (split_once c (rev s))"

definition find_char :: "char \<Rightarrow> string \<Rightarrow> nat option" where
  "find_char c s = map_option (\<lambda>(a, b). length a) (split_once c s)"

definition trim_matches :: "(char \<Rightarrow> bool) \<Rightarrow> string \<Rightarrow> string" where
  "trim_matches p s = rev (dropWhile p (rev (dropWhile p s)))"

definition trim_end_matches :: "char \<Rightarrow> string \<Rightarrow> string" where
  "trim_end_matches c s = rev (dropWhile (\<lambda>d. d = c) (rev s))"

text \<open>\<open>lines\<close>: pieces that end with a newline, without their line ending.\<close>

fun raw_lines :: "string \<Rightarrow> string list" where
  "raw_lines [] = []"
| "raw_lines (c # s) =
     (if c = newline then [c] # raw_lines s
      else case raw_lines s of [] \<Rightarrow> [[c]] | l # ls \<Rightarrow> (c # l) # ls)"

definition strip_ending :: "string \<Rightarrow> string" where
  "strip_ending l =
     (if l \<noteq> [] \<and> last l = newline
      then (let k = butlast l in if k \<noteq> [] \<and> last k = carriage_return then butlast k else k)
      else l)"

definition str_lines :: "string \<Rightarrow> string list" where
  "str_lines s = map strip_ending (raw_lines s)"

lemma concat_raw_lines [simp]: "concat (raw_lines s) = s"
  by (induction s) (auto split: list.split)

lemma raw_lines_nonempty: "l \<in> set (raw_lines s) \<Longrightarrow> l \<noteq> []"
  by (induction s arbitrary: l) (auto split: list.splits if_splits)

lemma raw_lines_eq_Nil [simp]: "raw_lines s = [] \<longleftrightarrow> s = []"
  by (cases s) (auto split: list.split)

lemma raw_lines_append:
  "raw_lines (s @ newline # t) = raw_lines (s @ [newline]) @ raw_lines t"
  by (induction s) (auto split: list.split)

lemma raw_lines_partial: "newline \<notin> set s \<Longrightarrow> raw_lines s = (if s = [] then [] else [s])"
  by (induction s) (auto split: list.split if_splits)

section \<open>Numbers\<close>

text \<open>\<open>str::parse\<close> for unsigned integers of the given number of bits.\<close>

definition parse_unsigned :: "nat \<Rightarrow> string \<Rightarrow> nat option" where
  "parse_unsigned bits s = (let digits = (case s of c # cs \<Rightarrow> if c = CHR ''+'' then cs else s | [] \<Rightarrow> []) in
     if digits = [] then None
     else case parse_dec 0 digits of
       None \<Rightarrow> None
     | Some n \<Rightarrow> if n < 2 ^ bits then Some n else None)"

lemma show_nat_digits: "c \<in> set (show_nat n) \<Longrightarrow> dec_value c \<noteq> None"
proof (induction n rule: show_nat.induct)
  case (1 n)
  then show ?case by (subst (asm) (2) show_nat.simps) (auto split: if_splits simp: dec_value_def Let_def)
qed

lemma dec_value_plus [simp]: "dec_value (CHR ''+'') = None"
  by code_simp

lemma parse_unsigned_show: "n < 2 ^ bits \<Longrightarrow> parse_unsigned bits (show_nat n) = Some n"
proof -
  assume n: "n < 2 ^ bits"
  obtain c cs where s: "show_nat n = c # cs" by (cases "show_nat n") auto
  then have "c \<noteq> CHR ''+''" using show_nat_digits [of c n] by auto
  then show ?thesis using n parse_show_nat [of n] s by (simp add: parse_unsigned_def)
qed

end
