(* ===== verification/Zebra_Metrics.thy ===== *)
theory Zebra_Metrics
  imports Web_Text "HOL-Library.AList"
begin

text \<open>
  The scrape of the node's metrics page (\<open>pool-api/src/zebra_metrics.rs\<close>) and the fan-out for the
  tip of the chain (\<open>pool-api/src/lwd_tip.rs\<close>).  The page is ASCII, as the Prometheus format
  prescribes; a response is a status and the chunks in which its body arrives, ended by an error or
  by the end of the list.
\<close>

section \<open>The metrics\<close>

record zebra_metrics =
  zm_verified_height :: "u64 option"
  zm_network_tip_height :: "u64 option"
  zm_distance_to_tip :: "u64 option"
  zm_rpc_active_requests :: "u64 option"
  zm_gbt_requests_total :: "u64 option"
  zm_gbt_errors_total :: "u64 option"
  zm_verified_blocks_total :: "u64 option"
  zm_gossip_queued_blocks :: "u64 option"
  zm_peers :: "u64 option"
  zm_mempool_txs :: "u64 option"
  zm_mempool_bytes :: "u64 option"
  zm_zebra_version :: "string option"
  zm_scrape_duration_ms :: "nat option"
  zm_scrape_error :: "string option"

definition no_metrics :: zebra_metrics where
  "no_metrics = \<lparr>zm_verified_height = None, zm_network_tip_height = None, zm_distance_to_tip = None,
     zm_rpc_active_requests = None, zm_gbt_requests_total = None, zm_gbt_errors_total = None,
     zm_verified_blocks_total = None, zm_gossip_queued_blocks = None, zm_peers = None,
     zm_mempool_txs = None, zm_mempool_bytes = None, zm_zebra_version = None,
     zm_scrape_duration_ms = None, zm_scrape_error = None\<rparr>"

definition metric_u64 :: "string \<Rightarrow> u64 option" where
  "metric_u64 s = map_option of_nat (parse_unsigned 64 s)"

section \<open>One line\<close>

definition unlabeled_u64 :: "string \<Rightarrow> string \<Rightarrow> u64 option" where
  "unlabeled_u64 line name =
     Option.bind (Option.bind (strip_prefix name line) (strip_prefix '' '')) (\<lambda>rest.
       case split_whitespace rest of [] \<Rightarrow> None | w # _ \<Rightarrow> metric_u64 w)"

definition trailing_u64 :: "string \<Rightarrow> u64 option" where
  "trailing_u64 line = Option.bind (rsplit_once (CHR '' '') line) (\<lambda>(_, v). metric_u64 v)"

fun label_in :: "string \<Rightarrow> string list \<Rightarrow> string option" where
  "label_in key [] = None"
| "label_in key (pair # pairs) =
     (case split_once (CHR ''='') (trim pair) of
        None \<Rightarrow> label_in key pairs
      | Some (k, v) \<Rightarrow> if k = key then Some (trim_matches (\<lambda>c. c = CHR 0x22) v) else label_in key pairs)"

definition extract_label :: "string \<Rightarrow> string \<Rightarrow> string option" where
  "extract_label line key =
     (case (find_char (CHR ''{'') line, find_char (CHR ''}'') line) of
        (Some labels_start, Some labels_end) \<Rightarrow>
          if labels_end \<le> labels_start then None
          else label_in key (split_on (CHR '','')
            (take (labels_end - (labels_start + 1)) (drop (labels_start + 1) line)))
      | _ \<Rightarrow> None)"

definition is_gbt :: "string \<Rightarrow> bool" where
  "is_gbt line \<longleftrightarrow> extract_label line ''method'' = Some ''getblocktemplate''"

text \<open>Additions wrap, as in a release build.\<close>

definition add_trailing :: "string \<Rightarrow> u64 option \<Rightarrow> u64 option" where
  "add_trailing line acc = (case trailing_u64 line of
     None \<Rightarrow> acc | Some v \<Rightarrow> Some (COALESCE acc 0 + v))"

text \<open>The metrics without labels, by name, in the order in which they are tried.\<close>

definition set_unlabeled :: "(string \<times> (u64 \<Rightarrow> zebra_metrics \<Rightarrow> zebra_metrics)) list" where
  "set_unlabeled =
     [(''sync_estimated_network_tip_height'', \<lambda>v m. m\<lparr>zm_network_tip_height := Some v\<rparr>),
      (''sync_estimated_distance_to_tip'', \<lambda>v m. m\<lparr>zm_distance_to_tip := Some v\<rparr>),
      (''rpc_active_requests'', \<lambda>v m. m\<lparr>zm_rpc_active_requests := Some v\<rparr>),
      (''zcash_chain_verified_block_total'', \<lambda>v m. m\<lparr>zm_verified_blocks_total := Some v\<rparr>),
      (''gossip_queued_block_count'', \<lambda>v m. m\<lparr>zm_gossip_queued_blocks := Some v\<rparr>),
      (''zcash_net_peers'', \<lambda>v m. m\<lparr>zm_peers := Some v\<rparr>),
      (''zcash_mempool_size_transactions'', \<lambda>v m. m\<lparr>zm_mempool_txs := Some v\<rparr>),
      (''mempool_queued_transactions_total'', \<lambda>v m. m\<lparr>zm_mempool_txs := Some v\<rparr>),
      (''zcash_mempool_cost_bytes'', \<lambda>v m. m\<lparr>zm_mempool_bytes := Some v\<rparr>)]"

fun try_unlabeled ::
  "(string \<times> (u64 \<Rightarrow> 'm \<Rightarrow> 'm)) list \<Rightarrow> string \<Rightarrow> 'm \<Rightarrow> 'm option" where
  "try_unlabeled [] line m = None"
| "try_unlabeled ((name, f) # rest) line m = (case unlabeled_u64 line name of
     Some v \<Rightarrow> Some (f v m) | None \<Rightarrow> try_unlabeled rest line m)"

definition parse_labeled :: "string \<Rightarrow> zebra_metrics \<Rightarrow> zebra_metrics" where
  "parse_labeled line m =
     (if starts_with line ''rpc_requests_total{''
      then (if is_gbt line then m\<lparr>zm_gbt_requests_total := add_trailing line (zm_gbt_requests_total m)\<rparr> else m)
      else if starts_with line ''rpc_errors_total{''
      then (if is_gbt line then m\<lparr>zm_gbt_errors_total := add_trailing line (zm_gbt_errors_total m)\<rparr> else m)
      else if starts_with line ''zebrad_build_info{'' \<or> starts_with line ''zakura_build_info{''
      then (case extract_label line ''version'' of
          Some ver \<Rightarrow> m\<lparr>zm_zebra_version := Some ver\<rparr> | None \<Rightarrow> m)
      else m)"

definition verified_names :: "string list" where
  "verified_names = [''zcash_chain_verified_block_height'', ''state_memory_best_committed_block_height'']"

definition parse_line :: "zebra_metrics \<Rightarrow> string \<Rightarrow> zebra_metrics" where
  "parse_line m line =
     (if line = [] \<or> hd line = CHR ''#'' then m
      else case (if zm_verified_height m = None
             then try_unlabeled (map (\<lambda>n. (n, \<lambda>v m. m\<lparr>zm_verified_height := Some v\<rparr>)) verified_names) line m
             else None) of
        Some m' \<Rightarrow> m'
      | None \<Rightarrow> (case try_unlabeled set_unlabeled line m of
          Some m' \<Rightarrow> m'
        | None \<Rightarrow> parse_labeled line m))"

definition parse_zebra_metrics :: "string \<Rightarrow> zebra_metrics" where
  "parse_zebra_metrics body = foldl parse_line no_metrics (str_lines body)"

definition all_targets_filled :: "zebra_metrics \<Rightarrow> bool" where
  "all_targets_filled m \<longleftrightarrow> zm_verified_height m \<noteq> None \<and> zm_network_tip_height m \<noteq> None
     \<and> zm_distance_to_tip m \<noteq> None \<and> zm_rpc_active_requests m \<noteq> None
     \<and> zm_gbt_requests_total m \<noteq> None \<and> zm_gbt_errors_total m \<noteq> None
     \<and> zm_gossip_queued_blocks m \<noteq> None \<and> zm_peers m \<noteq> None \<and> zm_mempool_txs m \<noteq> None
     \<and> zm_zebra_version m \<noteq> None"

section \<open>The streaming reader\<close>

definition MAX_SCRAPE_BYTES :: nat where
  "MAX_SCRAPE_BYTES = 400 * 1024 * 1024"

text \<open>The lines of a complete piece, up to the line that fills the last target.\<close>

fun parse_until_filled :: "zebra_metrics \<Rightarrow> string list \<Rightarrow> zebra_metrics \<times> bool" where
  "parse_until_filled m [] = (m, False)"
| "parse_until_filled m (l # ls) = (let m = parse_line m l in
     if all_targets_filled m then (m, True) else parse_until_filled m ls)"

text \<open>\<open>rfind('\n')\<close> and \<open>split_at\<close>\<close>

definition split_complete :: "string \<Rightarrow> (string \<times> string) option" where
  "split_complete s = map_option (\<lambda>(a, b). (a @ [newline], b)) (rsplit_once newline s)"

fun scrape_body ::
  "string \<Rightarrow> (string + string) list \<Rightarrow> nat \<Rightarrow> string \<Rightarrow> zebra_metrics \<Rightarrow> zebra_metrics \<times> string" where
  "scrape_body url [] bytes_read leftover m = (m, leftover)"
| "scrape_body url (Inl e # _) bytes_read leftover m =
     (m\<lparr>zm_scrape_error := Some (''chunk after '' @ show_nat bytes_read @ '' bytes from '' @ url @ '': '' @ e)\<rparr>,
      leftover)"
| "scrape_body url (Inr chunk # rest) bytes_read leftover m =
     (let bytes_read = bytes_read + length chunk in
      if MAX_SCRAPE_BYTES < bytes_read
      then (m\<lparr>zm_scrape_error := Some (''metrics body exceeded '' @ show_nat (MAX_SCRAPE_BYTES div (1024 * 1024))
              @ '' MB cap (node-side cardinality leak, see task #17)'')\<rparr>, leftover)
      else let leftover = leftover @ chunk in
        case split_complete leftover of
          None \<Rightarrow> scrape_body url rest bytes_read leftover m
        | Some (piece, tail) \<Rightarrow> (let (m, filled) = parse_until_filled m (str_lines piece) in
            if filled then (m, leftover) else scrape_body url rest bytes_read tail m))"

definition parse_leftover :: "zebra_metrics \<times> string \<Rightarrow> zebra_metrics" where
  "parse_leftover x = (case x of (m, leftover) \<Rightarrow> if leftover \<noteq> [] then parse_line m leftover else m)"

definition failed_scrape :: "string \<Rightarrow> nat \<Rightarrow> zebra_metrics" where
  "failed_scrape msg ms = no_metrics\<lparr>zm_scrape_error := Some msg, zm_scrape_duration_ms := Some ms\<rparr>"

text \<open>What \<open>reqwest\<close> answers: building the client fails, the request fails, or a status and a body.\<close>

datatype http_answer = No_client string | No_response string | Http_response nat "(string + string) list"

definition fetch_zebra_metrics :: "string \<Rightarrow> http_answer \<Rightarrow> nat \<Rightarrow> zebra_metrics" where
  "fetch_zebra_metrics url answer ms = (case answer of
     No_client e \<Rightarrow> failed_scrape (''client build: '' @ e) ms
   | No_response e \<Rightarrow> failed_scrape (''request to '' @ url @ '': '' @ e) ms
   | Http_response status chunks \<Rightarrow>
       (if \<not> (200 \<le> status \<and> status < 300)
        then failed_scrape (''HTTP '' @ show_nat status @ '' from '' @ url) ms
        else (parse_leftover (scrape_body url chunks 0 [] no_metrics))\<lparr>zm_scrape_duration_ms := Some ms\<rparr>))"

text \<open>
  \<open>with_port\<close> is \<open>reqwest::Url\<close>: parsing, setting the port to 9999 and the path to
  \<open>/metrics\<close>, and printing, when the first two succeed.
\<close>

fun replace_first :: "string \<Rightarrow> string \<Rightarrow> string \<Rightarrow> string" where
  "replace_first p r [] = []"
| "replace_first p r (c # s) =
     (if starts_with (c # s) p then r @ drop (length p) (c # s) else c # replace_first p r s)"

definition derive_metrics_url :: "(string \<Rightarrow> string option) \<Rightarrow> string \<Rightarrow> string" where
  "derive_metrics_url with_port rpc_url = (let trimmed = trim_end_matches (CHR ''/'') rpc_url in
     case with_port trimmed of
       Some url \<Rightarrow> url
     | None \<Rightarrow> trim_end_matches (CHR ''/'')
         (if has_substring trimmed '':8232'' then replace_first '':8232'' '':9999'' trimmed else trimmed)
         @ ''/metrics'')"

section \<open>The tip of the chain according to lightwalletd servers\<close>

record authoritative_tip =
  tp_max_height :: "u64 option"
  tp_heights :: "(string \<times> u64) list"
  tp_errors :: "(string \<times> string) list"
  tp_responses_ok :: nat
  tp_responses_total :: nat
  tp_fetched_at :: "int option"

text \<open>The answers in the order in which the tasks end; \<open>None\<close> is a task that panicked.\<close>

definition max_opt :: "u64 option \<Rightarrow> u64 \<Rightarrow> u64 option" where
  "max_opt best h = (case best of None \<Rightarrow> Some h | Some b \<Rightarrow> Some (max b h))"

definition tip_answer ::
  "(string \<times> (string + u64)) option \<Rightarrow> (string \<times> u64) list \<times> (string \<times> string) list
     \<Rightarrow> (string \<times> u64) list \<times> (string \<times> string) list" where
  "tip_answer joined maps = (case joined of
     None \<Rightarrow> maps
   | Some (host, Inr h) \<Rightarrow> (AList.update host h (fst maps), snd maps)
   | Some (host, Inl e) \<Rightarrow> (fst maps, AList.update host e (snd maps)))"

definition fetch_authoritative_tip ::
  "string list \<Rightarrow> (string \<times> (string + u64)) option list \<Rightarrow> int \<Rightarrow> authoritative_tip" where
  "fetch_authoritative_tip servers answers now =
     (let (good, bad) = fold tip_answer answers ([], []) in
      \<lparr>tp_max_height = foldl max_opt None (map snd good), tp_heights = good, tp_errors = bad,
       tp_responses_ok = length good, tp_responses_total = length servers, tp_fetched_at = Some now\<rparr>)"

section \<open>Streaming and parsing at once\<close>

lemma split_once_None [simp]: "split_once c s = None \<longleftrightarrow> c \<notin> set s"
  by (induction s) auto

lemma split_once_Some: "split_once c s = Some (a, b) \<Longrightarrow> s = a @ c # b \<and> c \<notin> set a"
  by (induction s arbitrary: a) (auto split: if_splits)

lemma split_complete_None [simp]: "split_complete s = None \<longleftrightarrow> newline \<notin> set s"
  by (simp add: split_complete_def rsplit_once_def)

lemma split_complete_Some:
  assumes "split_complete s = Some (c, t)"
  obtains a where "c = a @ [newline]" "s = a @ newline # t" "newline \<notin> set t"
proof -
  obtain x y where xy: "split_once newline (rev s) = Some (x, y)" "c = rev y @ [newline]" "t = rev x"
    using assms by (auto simp: split_complete_def rsplit_once_def)
  from split_once_Some [OF xy(1)] have "rev s = x @ newline # y" "newline \<notin> set x" by auto
  then have "rev (rev s) = rev y @ newline # t" "newline \<notin> set t" using xy(3) by simp_all
  then have "s = rev y @ newline # t" "newline \<notin> set t" by simp_all
  then show ?thesis using that xy(2) by blast
qed

lemma str_lines_append: "str_lines (a @ newline # t) = str_lines (a @ [newline]) @ str_lines t"
  unfolding str_lines_def by (subst raw_lines_append) (simp only: map_append)

lemma str_lines_partial: "newline \<notin> set s \<Longrightarrow> str_lines s = (if s = [] then [] else [s])"
proof -
  assume s: "newline \<notin> set s"
  then have "s = [] \<or> last s \<noteq> newline" by (metis last_in_set)
  with s show ?thesis by (auto simp: str_lines_def raw_lines_partial strip_ending_def)
qed

lemma try_unlabeled_Some:
  "try_unlabeled fs line m = Some m' \<Longrightarrow> \<exists>name f v. (name, f) \<in> set fs \<and> m' = f v m"
proof (induction fs)
  case (Cons a fs)
  then show ?case by (cases a) (auto split: option.splits)
qed simp

lemma parse_line_keeps:
  assumes "P m"
    and "\<And>v. P (m\<lparr>zm_verified_height := Some v\<rparr>)"
    and "\<And>name f v. (name, f) \<in> set set_unlabeled \<Longrightarrow> P (f v m)"
    and "P (m\<lparr>zm_gbt_requests_total := add_trailing line (zm_gbt_requests_total m)\<rparr>)"
    and "P (m\<lparr>zm_gbt_errors_total := add_trailing line (zm_gbt_errors_total m)\<rparr>)"
    and "\<And>v. P (m\<lparr>zm_zebra_version := Some v\<rparr>)"
  shows "P (parse_line m line)"
proof -
  let ?vs = "map (\<lambda>n. (n, \<lambda>v m. m\<lparr>zm_verified_height := Some v\<rparr>)) verified_names"
  have 1: "P m'" if "try_unlabeled ?vs line m = Some m'" for m'
    using try_unlabeled_Some [OF that] assms(2) by auto
  have 2: "P m'" if "try_unlabeled set_unlabeled line m = Some m'" for m'
    using try_unlabeled_Some [OF that] assms(3) by blast
  have 3: "P (parse_labeled line m)"
    using assms(1,4-6) by (simp add: parse_labeled_def split: option.split)
  show ?thesis unfolding parse_line_def using assms(1) 1 2 3 by (simp split: option.split)
qed

lemma parse_line_filled: "all_targets_filled m \<Longrightarrow> all_targets_filled (parse_line m line)"
  by (rule parse_line_keeps [where P = all_targets_filled])
    (auto simp: all_targets_filled_def set_unlabeled_def add_trailing_def split: option.split)

lemma foldl_filled: "all_targets_filled m \<Longrightarrow> all_targets_filled (foldl parse_line m ls)"
  by (induction ls arbitrary: m) (simp_all add: parse_line_filled)

lemma parse_until_unfilled:
  "\<not> all_targets_filled (foldl parse_line m ls) \<Longrightarrow> parse_until_filled m ls = (foldl parse_line m ls, False)"
  by (induction ls arbitrary: m) (auto simp: Let_def dest: foldl_filled)

lemma scrape_body_unfilled:
  assumes "newline \<notin> set leftover" "n + length (concat cs) \<le> MAX_SCRAPE_BYTES"
    and "\<not> all_targets_filled (foldl parse_line m (str_lines (leftover @ concat cs)))"
  shows "parse_leftover (scrape_body url (map Inr cs) n leftover m) = foldl parse_line m (str_lines (leftover @ concat cs))"
  using assms
proof (induction cs arbitrary: n leftover m)
  case Nil
  then show ?case by (simp add: parse_leftover_def str_lines_partial)
next
  case (Cons c cs)
  let ?l = "leftover @ c"
  have fits: "\<not> MAX_SCRAPE_BYTES < n + length c" "n + length c + length (concat cs) \<le> MAX_SCRAPE_BYTES"
    using Cons.prems(2) by auto
  show ?case
  proof (cases "split_complete ?l")
    case None
    then have "newline \<notin> set ?l" by simp
    from Cons.IH [OF this fits(2), of m] Cons.prems(3) show ?thesis using fits(1) None
      by (simp add: Let_def del: split_complete_None)
  next
    case (Some p)
    obtain piece tail where p: "p = (piece, tail)" by (cases p)
    from split_complete_Some [OF Some [unfolded p]] obtain a
      where a: "piece = a @ [newline]" "?l = a @ newline # tail" "newline \<notin> set tail" .
    have "leftover @ concat (c # cs) = ?l @ concat cs" by simp
    also have "\<dots> = a @ newline # (tail @ concat cs)" by (simp only: a(2) append.simps append_assoc)
    finally have "leftover @ concat (c # cs) = a @ newline # (tail @ concat cs)" .
    then have l: "str_lines (leftover @ concat (c # cs)) = str_lines piece @ str_lines (tail @ concat cs)"
      using str_lines_append [of a "tail @ concat cs"] a(1) by (simp only:)
    let ?m = "foldl parse_line m (str_lines piece)"
    have nf: "\<not> all_targets_filled (foldl parse_line ?m (str_lines (tail @ concat cs)))"
      using Cons.prems(3) unfolding l foldl_append .
    then have "\<not> all_targets_filled ?m" using foldl_filled by blast
    from parse_until_unfilled [OF this] Cons.IH [OF a(3) fits(2) nf] show ?thesis
      using fits(1) Some p l by (simp add: Let_def)
  qed
qed

text \<open>
  C39: As long as the page lacks one of the wanted metrics, reading it in chunks gives what parsing
  the whole page gives, wherever the chunks are cut.
\<close>

theorem stream_equals_whole_page:
  assumes "concat cs = body" and "length body \<le> MAX_SCRAPE_BYTES"
    and "\<not> all_targets_filled (parse_zebra_metrics body)" and "200 \<le> status" and "status < 300"
  shows "fetch_zebra_metrics url (Http_response status (map Inr cs)) ms
    = (parse_zebra_metrics body)\<lparr>zm_scrape_duration_ms := Some ms\<rparr>"
proof -
  have "parse_leftover (scrape_body url (map Inr cs) 0 [] no_metrics) = parse_zebra_metrics body"
    using scrape_body_unfilled [of "[]" 0 cs no_metrics url] assms(1-3) by (simp add: parse_zebra_metrics_def)
  then show ?thesis using assms(4,5)
    by (simp add: fetch_zebra_metrics_def parse_leftover_def case_prod_beta Let_def)
qed

section \<open>The early exit\<close>

definition quoted :: "string \<Rightarrow> string" where
  "quoted s = [CHR 0x22] @ s @ [CHR 0x22]"

definition requests_line :: "nat \<Rightarrow> string" where
  "requests_line n = ''rpc_requests_total{method='' @ quoted ''getblocktemplate'' @ ''} '' @ show_nat n"

definition errors_line :: "nat \<Rightarrow> string" where
  "errors_line n = ''rpc_errors_total{method='' @ quoted ''getblocktemplate'' @ ''} '' @ show_nat n"

lemma split_once_first: "c \<notin> set a \<Longrightarrow> split_once c (a @ c # b) = Some (a, b)"
  by (induction a) auto

lemma rsplit_once_last: "c \<notin> set y \<Longrightarrow> rsplit_once c (x @ c # y) = Some (x, y)"
  by (simp add: rsplit_once_def split_once_first)

lemma show_nat_plain: "dec_value c = None \<Longrightarrow> c \<notin> set (show_nat n)"
  using show_nat_digits by metis

lemma plain_chars [simp]: "newline \<notin> set (show_nat n)" "CHR '' '' \<notin> set (show_nat n)"
  by (rule show_nat_plain, code_simp)+

lemma trailing_show:
  assumes "n < 2 ^ 64"
  shows "trailing_u64 (x @ CHR '' '' # show_nat n) = Some (of_nat n)"
  using assms by (simp add: trailing_u64_def rsplit_once_last metric_u64_def parse_unsigned_show)

lemma gbt_label:
  "is_gbt (''rpc_requests_total{method='' @ quoted ''getblocktemplate'' @ ''} '' @ t)"
  "is_gbt (''rpc_errors_total{method='' @ quoted ''getblocktemplate'' @ ''} '' @ t)"
proof -
  have l: "label_in ''method'' (split_on (CHR '','') (''method='' @ quoted ''getblocktemplate'')) = Some ''getblocktemplate''"
    by code_simp
  show "is_gbt (''rpc_requests_total{method='' @ quoted ''getblocktemplate'' @ ''} '' @ t)"
    "is_gbt (''rpc_errors_total{method='' @ quoted ''getblocktemplate'' @ ''} '' @ t)"
    using l by (simp_all add: is_gbt_def extract_label_def find_char_def quoted_def)
qed

lemma parse_counters:
  assumes "zm_verified_height m \<noteq> None"
  shows "parse_line m (''rpc_requests_total{method='' @ quoted ''getblocktemplate'' @ ''} '' @ t)
      = m\<lparr>zm_gbt_requests_total := add_trailing (''rpc_requests_total{method='' @ quoted ''getblocktemplate'' @ ''} '' @ t)
          (zm_gbt_requests_total m)\<rparr>"
    "parse_line m (''rpc_errors_total{method='' @ quoted ''getblocktemplate'' @ ''} '' @ t)
      = m\<lparr>zm_gbt_errors_total := add_trailing (''rpc_errors_total{method='' @ quoted ''getblocktemplate'' @ ''} '' @ t)
          (zm_gbt_errors_total m)\<rparr>"
    "parse_line m (''x '' @ t) = m"
proof -
  obtain h where h: "zm_verified_height m = Some h" using assms by auto
  show "parse_line m (''rpc_requests_total{method='' @ quoted ''getblocktemplate'' @ ''} '' @ t)
      = m\<lparr>zm_gbt_requests_total := add_trailing (''rpc_requests_total{method='' @ quoted ''getblocktemplate'' @ ''} '' @ t)
          (zm_gbt_requests_total m)\<rparr>"
    "parse_line m (''rpc_errors_total{method='' @ quoted ''getblocktemplate'' @ ''} '' @ t)
      = m\<lparr>zm_gbt_errors_total := add_trailing (''rpc_errors_total{method='' @ quoted ''getblocktemplate'' @ ''} '' @ t)
          (zm_gbt_errors_total m)\<rparr>"
    "parse_line m (''x '' @ t) = m"
    using h gbt_label [of t]
    by (simp_all add: parse_line_def set_unlabeled_def unlabeled_u64_def strip_prefix_def parse_labeled_def)
qed

lemma line_of: "newline \<notin> set l \<Longrightarrow> last l \<noteq> carriage_return \<Longrightarrow> str_lines (l @ newline # t) = l # str_lines t"
proof -
  assume l: "newline \<notin> set l" "last l \<noteq> carriage_return"
  have "raw_lines (l @ [newline]) = [l @ [newline]]" using l(1) by (induction l) auto
  then have "str_lines (l @ [newline]) = [l]" using l(2) by (simp add: str_lines_def strip_ending_def Let_def)
  then show ?thesis by (subst str_lines_append) simp
qed

lemma counter_lines:
  "newline \<notin> set (requests_line n)" "last (requests_line n) \<noteq> carriage_return"
  "newline \<notin> set (errors_line n)" "last (errors_line n) \<noteq> carriage_return"
proof -
  have "carriage_return \<notin> set (show_nat n)" by (rule show_nat_plain) code_simp
  then have "last (show_nat n) \<noteq> carriage_return" by (metis last_in_set show_nat_nonempty)
  then show "last (requests_line n) \<noteq> carriage_return" "last (errors_line n) \<noteq> carriage_return"
    by (simp_all add: requests_line_def errors_line_def quoted_def)
  show "newline \<notin> set (requests_line n)" "newline \<notin> set (errors_line n)"
    by (simp_all add: requests_line_def errors_line_def quoted_def) (simp_all add: newline_def)
qed

text \<open>
  When the last wanted metric arrives in a chunk, the text of the whole chunk is parsed once
  more as if it were one line.  If the chunk begins with a counter line and ends inside a line, the
  number at its end is added to the counter.
\<close>

theorem early_exit_adds_fragment:
  assumes "a < 2 ^ 64" and "b < 2 ^ 64" and "e < 2 ^ 64"
    and "zm_gbt_requests_total m = None" and "zm_gbt_errors_total m = None"
    and "all_targets_filled (m\<lparr>zm_gbt_requests_total := Some 0, zm_gbt_errors_total := Some 0\<rparr>)"
    and "chunk = requests_line a @ newline # errors_line e @ newline # ''x '' @ show_nat b"
    and "n + length chunk \<le> MAX_SCRAPE_BYTES"
  shows "zm_gbt_requests_total (foldl parse_line m (str_lines chunk)) = Some (of_nat a)
    \<and> zm_gbt_requests_total (parse_leftover (scrape_body url (Inr chunk # rest) n [] m)) = Some (of_nat a + of_nat b)"
proof -
  let ?pre = "''rpc_requests_total{method='' @ quoted ''getblocktemplate'' @ ''} ''"
  let ?m1 = "m\<lparr>zm_gbt_requests_total := Some (of_nat a)\<rparr>"
  let ?m2 = "?m1\<lparr>zm_gbt_errors_total := Some (of_nat e)\<rparr>"
  have v: "zm_verified_height m \<noteq> None" using assms(6) by (simp add: all_targets_filled_def)
  have p1: "parse_line m (requests_line a) = ?m1"
    using parse_counters(1) [OF v, of "show_nat a"] trailing_show [OF assms(1), of "butlast ?pre"] assms(4)
    by (simp add: requests_line_def add_trailing_def quoted_def)
  have p2: "parse_line ?m1 (errors_line e) = ?m2"
    using parse_counters(2) [of ?m1 "show_nat e"] trailing_show [OF assms(3), of "butlast (''rpc_errors_total{method='' @ quoted ''getblocktemplate'' @ ''} '')"] assms(5) v
    by (simp add: errors_line_def add_trailing_def quoted_def)
  have x: "newline \<notin> set (''x '' @ show_nat b)" by simp (simp add: newline_def)
  have ls: "str_lines (requests_line a @ newline # errors_line e @ [newline]) = [requests_line a, errors_line e]"
    "str_lines chunk = [requests_line a, errors_line e, ''x '' @ show_nat b]"
    using line_of [OF counter_lines(1,2), of a "errors_line e @ [newline]"] line_of [OF counter_lines(3,4), of e "[]"]
      line_of [OF counter_lines(1,2), of a "errors_line e @ newline # ''x '' @ show_nat b"]
      line_of [OF counter_lines(3,4), of e "''x '' @ show_nat b"] str_lines_partial [OF x]
    by (simp_all add: assms(7) str_lines_def)
  have c: "split_complete chunk = Some (requests_line a @ newline # errors_line e @ [newline], ''x '' @ show_nat b)"
    using rsplit_once_last [OF x, of "requests_line a @ newline # errors_line e"]
    by (simp add: split_complete_def assms(7))
  have f: "\<not> all_targets_filled ?m1" "all_targets_filled ?m2"
    using assms(5,6) by (simp_all add: all_targets_filled_def)
  have "scrape_body url (Inr chunk # rest) n [] m = (?m2, chunk)"
    using assms(8) c ls(1) p1 p2 f by (simp add: Let_def)
  moreover have "chunk = ?pre @ show_nat a @ newline # errors_line e @ newline # ''x '' @ show_nat b"
    by (simp add: assms(7) requests_line_def)
  moreover have "trailing_u64 chunk = Some (of_nat b)"
    using trailing_show [OF assms(2), of "requests_line a @ newline # errors_line e @ newline # ''x''"]
    by (simp add: assms(7))
  ultimately have "zm_gbt_requests_total (parse_leftover (scrape_body url (Inr chunk # rest) n [] m))
      = Some (of_nat a + of_nat b)"
    using parse_counters(1) [of ?m2 "show_nat a @ newline # errors_line e @ newline # ''x '' @ show_nat b"] v
    by (simp add: parse_leftover_def add_trailing_def)
  moreover have "parse_line ?m2 (''x '' @ show_nat b) = ?m2" using parse_counters(3) [of ?m2] v by simp
  ultimately show ?thesis using ls(2) p1 p2 by simp
qed

section \<open>At concrete pages\<close>

definition small_page :: "string list" where
  "small_page = [''zcash_net_pe'', ''ers 7'' @ [newline] @ ''zcash_mempool_si'', ''ze_transactions 12'' @ [newline]]"

theorem stream_equals_whole_page_witness:
  "fetch_zebra_metrics ''u'' (Http_response 200 (map Inr small_page)) 5
     = no_metrics\<lparr>zm_peers := Some 7, zm_mempool_txs := Some 12, zm_scrape_duration_ms := Some 5\<rparr>"
proof -
  have l: "str_lines (concat small_page) = [''zcash_net_peers 7'', ''zcash_mempool_size_transactions 12'']"
    by code_simp
  have w: "split_whitespace ''7'' = [''7'']" "split_whitespace ''12'' = [''12'']"
    by code_simp+
  have n: "metric_u64 ''7'' = Some 7" "metric_u64 ''12'' = Some 12"
    by (simp_all add: metric_u64_def parse_unsigned_def dec_value_def)
  have p: "parse_zebra_metrics (concat small_page) = no_metrics\<lparr>zm_peers := Some 7, zm_mempool_txs := Some 12\<rparr>"
    unfolding parse_zebra_metrics_def l
    by (simp add: parse_line_def no_metrics_def verified_names_def set_unlabeled_def unlabeled_u64_def strip_prefix_def
        w n split: option.split)
  have "length (concat small_page) \<le> MAX_SCRAPE_BYTES" by (simp add: small_page_def MAX_SCRAPE_BYTES_def)
  moreover have "\<not> all_targets_filled (parse_zebra_metrics (concat small_page))"
    by (simp add: p all_targets_filled_def no_metrics_def)
  ultimately show ?thesis using stream_equals_whole_page [OF refl, of small_page 200 "''u''" 5] p by simp
qed

definition filled_metrics :: zebra_metrics where
  "filled_metrics = no_metrics\<lparr>zm_verified_height := Some 1, zm_network_tip_height := Some 1,
     zm_distance_to_tip := Some 0, zm_rpc_active_requests := Some 0, zm_gossip_queued_blocks := Some 0,
     zm_peers := Some 7, zm_mempool_txs := Some 2, zm_zebra_version := Some ''4.5.0''\<rparr>"

theorem early_exit_adds_fragment_witness:
  "zm_gbt_requests_total (parse_leftover (scrape_body ''u''
       [Inr (requests_line 40 @ newline # errors_line 0 @ newline # ''x '' @ show_nat 2)] 0 [] filled_metrics)) = Some 42"
proof -
  have f: "zm_gbt_requests_total filled_metrics = None" "zm_gbt_errors_total filled_metrics = None"
    "all_targets_filled (filled_metrics\<lparr>zm_gbt_requests_total := Some 0, zm_gbt_errors_total := Some 0\<rparr>)"
    by (simp_all add: filled_metrics_def no_metrics_def all_targets_filled_def)
  have l: "length (requests_line 40 @ newline # errors_line 0 @ newline # ''x '' @ show_nat 2) \<le> 200"
    by code_simp
  have "0 + length (requests_line 40 @ newline # errors_line 0 @ newline # ''x '' @ show_nat 2) \<le> MAX_SCRAPE_BYTES"
    using l by (simp add: MAX_SCRAPE_BYTES_def)
  from early_exit_adds_fragment [OF _ _ _ f refl this, of "''u''" "[]"] show ?thesis by simp
qed

end
