(* ===== verification/Admin_Access.thy ===== *)
theory Admin_Access
  imports Web_Text
begin

text \<open>
  Who may use the admin server (\<open>pool-api/src/admin.rs\<close>): login with its rate limit, session
  cookies, the guards of the two routers.  BLAKE2b, for the key of a password and for the MAC of a
  cookie, is a parameter.  A request is served between one reading of the monotonic clock and one
  of the wall clock; requests are served one after the other.
\<close>

section \<open>The login limiter\<close>

definition LOGIN_FAIL_WINDOW :: nanos where
  "LOGIN_FAIL_WINDOW = 900000000000"

definition LOGIN_FAIL_MAX :: nat where
  "LOGIN_FAIL_MAX = 5"

record login_limiter =
  ll_failures :: "nanos list"

definition locked :: "nanos \<Rightarrow> login_limiter \<Rightarrow> bool \<times> login_limiter" where
  "locked now l = (let fs = dropWhile (\<lambda>t. LOGIN_FAIL_WINDOW < now - t) (ll_failures l) in
     (LOGIN_FAIL_MAX \<le> length fs, l\<lparr>ll_failures := fs\<rparr>))"

definition record_failure :: "nanos \<Rightarrow> login_limiter \<Rightarrow> login_limiter" where
  "record_failure now l = l\<lparr>ll_failures := ll_failures l @ [now]\<rparr>"

section \<open>Session cookies\<close>

record admin_hash =
  ah_key :: "string \<Rightarrow> bytes"
  ah_mac :: "bytes \<Rightarrow> string \<Rightarrow> string"

definition SESSION_COOKIE_NAME :: string where
  "SESSION_COOKIE_NAME = ''admin_session''"

definition OPS_COOKIE_NAME :: string where
  "OPS_COOKIE_NAME = ''ops_session''"

definition SESSION_MAX_AGE_SECS :: int where
  "SESSION_MAX_AGE_SECS = 86400"

text \<open>\<open>{ts:x}\<close> and \<open>i64::from_str_radix(_, 16)\<close>\<close>

fun show_hex :: "nat \<Rightarrow> string" where
  "show_hex n = (if n < 16 then [hex_digit n] else show_hex (n div 16) @ [hex_digit (n mod 16)])"

declare show_hex.simps [simp del]

definition fmt_x64 :: "int \<Rightarrow> string" where
  "fmt_x64 ts = show_hex (nat (ts mod 2 ^ 64))"

fun hex_nat :: "nat \<Rightarrow> string \<Rightarrow> nat option" where
  "hex_nat acc [] = Some acc"
| "hex_nat acc (c # cs) = (case hex_value c of None \<Rightarrow> None | Some d \<Rightarrow> hex_nat (16 * acc + d) cs)"

definition i64_from_hex :: "string \<Rightarrow> int option" where
  "i64_from_hex s = (let (neg, digits) = (case s of
         c # cs \<Rightarrow> if c = CHR ''-'' then (True, cs) else if c = CHR ''+'' then (False, cs) else (False, s)
       | [] \<Rightarrow> (False, [])) in
     case (if digits = [] then None else hex_nat 0 digits) of
       None \<Rightarrow> None
     | Some n \<Rightarrow> (let i = (if neg then - int n else int n) in
         if - (2 ^ 63) \<le> i \<and> i < 2 ^ 63 then Some i else None))"

definition make_session_cookie :: "admin_hash \<Rightarrow> bytes \<Rightarrow> int \<Rightarrow> string" where
  "make_session_cookie H key now = (let ts_hex = fmt_x64 now in ts_hex @ CHR '':'' # ah_mac H key ts_hex)"

definition verify_session_cookie :: "admin_hash \<Rightarrow> bytes \<Rightarrow> int \<Rightarrow> string \<Rightarrow> bool" where
  "verify_session_cookie H key now cookie = (case split_once (CHR '':'') cookie of
     None \<Rightarrow> False
   | Some (ts_hex, mac) \<Rightarrow>
       (if mac \<noteq> ah_mac H key ts_hex then False
        else case i64_from_hex ts_hex of
          None \<Rightarrow> False
        | Some ts \<Rightarrow> now - ts < SESSION_MAX_AGE_SECS))"

text \<open>\<open>HeaderValue::to_str\<close> fails unless all bytes are visible ASCII.\<close>

definition visible_ascii :: "string \<Rightarrow> bool" where
  "visible_ascii s = list_all (\<lambda>c. let n = of_char c :: nat in 32 \<le> n \<and> n < 127 \<or> n = 9) s"

definition extract_cookie :: "string list \<Rightarrow> string \<Rightarrow> string option" where
  "extract_cookie cookie_headers name =
     (case List.map_filter (\<lambda>pair. strip_prefix (name @ ''='') (trim pair))
             (concat (map (split_on (CHR '';'')) (filter visible_ascii cookie_headers))) of
        [] \<Rightarrow> None | c # _ \<Rightarrow> Some c)"

section \<open>The state and its guards\<close>

record admin_state =
  ad_signing_key :: bytes
  ad_ops_key :: "bytes option"
  ad_ops_upstream :: string
  ad_limiter :: login_limiter

definition admin_new :: "admin_hash \<Rightarrow> string \<Rightarrow> admin_state" where
  "admin_new H password = \<lparr>ad_signing_key = ah_key H password, ad_ops_key = None, ad_ops_upstream = [],
     ad_limiter = \<lparr>ll_failures = []\<rparr>\<rparr>"

definition with_ops :: "admin_hash \<Rightarrow> string \<Rightarrow> string \<Rightarrow> admin_state \<Rightarrow> admin_state" where
  "with_ops H ops_password upstream st = st\<lparr>ad_ops_key := Some (ah_key H ops_password),
     ad_ops_upstream := trim_end_matches (CHR ''/'') (trim upstream)\<rparr>"

datatype response =
    Html_page string
  | Redirect_to string
  | Set_cookie string string
  | Status nat string
  | Handled

definition session_open :: "admin_hash \<Rightarrow> bytes \<Rightarrow> string \<Rightarrow> int \<Rightarrow> string list \<Rightarrow> bool" where
  "session_open H key name now cookie_headers = (case extract_cookie cookie_headers name of
     None \<Rightarrow> False | Some c \<Rightarrow> verify_session_cookie H key now c)"

text \<open>\<open>Handled\<close> stands for the handler behind the guard.\<close>

definition auth_middleware :: "admin_hash \<Rightarrow> admin_state \<Rightarrow> int \<Rightarrow> string \<Rightarrow> string list \<Rightarrow> response" where
  "auth_middleware H st now path cookie_headers =
     (if \<not> session_open H (ad_signing_key st) SESSION_COOKIE_NAME now cookie_headers
      then (if has_substring path ''/admin/api/'' then Status 401 ''Not authenticated''
            else Redirect_to ''/admin/login'')
      else Handled)"

definition ops_auth_middleware :: "admin_hash \<Rightarrow> admin_state \<Rightarrow> int \<Rightarrow> string list \<Rightarrow> response" where
  "ops_auth_middleware H st now cookie_headers = (case ad_ops_key st of
     None \<Rightarrow> Status 404 ''ops dashboard not configured''
   | Some key \<Rightarrow>
       (if \<not> session_open H key OPS_COOKIE_NAME now cookie_headers then Redirect_to ''/ops/login''
        else Handled))"

section \<open>Logging in\<close>

definition session_cookie :: "string \<Rightarrow> string \<Rightarrow> string \<Rightarrow> string" where
  "session_cookie name cookie path = name @ ''='' @ cookie @ ''; Path='' @ path
     @ ''; HttpOnly; SameSite=Lax; Secure; Max-Age='' @ show_int SESSION_MAX_AGE_SECS"

definition LOGIN_FAIL :: response where
  "LOGIN_FAIL = Html_page ''LOGIN_FAIL_HTML''"

definition OPS_LOGIN_FAIL :: response where
  "OPS_LOGIN_FAIL = Html_page ''OPS_LOGIN_FAIL_HTML''"

definition RATE_LIMITED :: response where
  "RATE_LIMITED = Status 429 ''LOGIN_RATE_LIMITED_HTML''"

definition note_failure :: "nanos \<Rightarrow> admin_state \<Rightarrow> admin_state" where
  "note_failure inst st = st\<lparr>ad_limiter := record_failure inst (ad_limiter st)\<rparr>"

definition handle_login ::
  "admin_hash \<Rightarrow> nanos \<Rightarrow> int \<Rightarrow> string \<Rightarrow> admin_state \<Rightarrow> response \<times> admin_state" where
  "handle_login H inst now password st = (let (is_locked, l) = locked inst (ad_limiter st);
       st = st\<lparr>ad_limiter := l\<rparr> in
     if is_locked then (RATE_LIMITED, st)
     else if ah_key H password \<noteq> ad_signing_key st then (LOGIN_FAIL, note_failure inst st)
     else (Set_cookie (session_cookie SESSION_COOKIE_NAME
              (make_session_cookie H (ad_signing_key st) now) ''/admin'') ''/admin'', st))"

definition handle_ops_login ::
  "admin_hash \<Rightarrow> nanos \<Rightarrow> int \<Rightarrow> string \<Rightarrow> admin_state \<Rightarrow> response \<times> admin_state" where
  "handle_ops_login H inst now password st = (case ad_ops_key st of
     None \<Rightarrow> (Status 404 ''ops dashboard not configured'', st)
   | Some key \<Rightarrow> (let (is_locked, l) = locked inst (ad_limiter st); st = st\<lparr>ad_limiter := l\<rparr> in
       if is_locked then (RATE_LIMITED, st)
       else if ah_key H password \<noteq> key \<and> ah_key H password \<noteq> ad_signing_key st
       then (OPS_LOGIN_FAIL, note_failure inst st)
       else (Set_cookie (session_cookie OPS_COOKIE_NAME (make_session_cookie H key now) ''/ops'') ''/ops/'', st)))"

definition clear_cookie :: "string \<Rightarrow> string \<Rightarrow> string" where
  "clear_cookie name path = name @ ''=; Path='' @ path @ ''; HttpOnly; SameSite=Strict; Max-Age=0''"

definition handle_logout :: response where
  "handle_logout = Set_cookie (clear_cookie SESSION_COOKIE_NAME ''/admin'') ''/admin/login''"

definition handle_ops_logout :: response where
  "handle_ops_logout = Set_cookie (clear_cookie OPS_COOKIE_NAME ''/ops'') ''/ops/login''"

section \<open>The router\<close>

definition protected_routes :: "(string \<times> string list) list" where
  "protected_routes =
     [(''/admin'', [''GET'']), (''/admin/api/config'', [''GET'']),
      (''/admin/api/config/raw'', [''GET'', ''POST'']), (''/admin/api/miners'', [''GET'']),
      (''/admin/api/health'', [''GET'']), (''/admin/api/payout/trigger'', [''POST'']),
      (''/admin/api/restart'', [''POST'']), (''/admin/api/restart-dashboard'', [''POST'']),
      (''/admin/api/restart-zallet'', [''POST'']), (''/admin/api/repair-zallet'', [''POST'']),
      (''/admin/api/logs'', [''GET'']), (''/admin/api/miner/adjust'', [''POST'']),
      (''/admin/api/pool-labels'', [''GET'', ''POST'']), (''/admin/api/pool-labels/delete'', [''POST'']),
      (''/admin/logout'', [''POST''])]"

definition ops_methods :: "string \<Rightarrow> string list option" where
  "ops_methods path = (if path = ''/ops/logout'' then Some [''POST'']
     else if path = ''/ops'' \<or> starts_with path ''/ops/'' then Some [''GET''] else None)"

record admin_request =
  ar_method :: string
  ar_path :: string
  ar_cookies :: "string list"
  ar_password :: string
  ar_mono :: nanos
  ar_utc :: int

text \<open>A \<open>get\<close> route also answers \<open>HEAD\<close>.\<close>

definition allowed :: "string list \<Rightarrow> admin_request \<Rightarrow> response \<Rightarrow> response" where
  "allowed methods rq r = (if ar_method rq \<in> set methods \<or> ar_method rq = ''HEAD'' \<and> ''GET'' \<in> set methods then r else Status 405 '''')"

text \<open>A guard is a layer around its routes, so it answers before the method is looked at.\<close>

definition serve :: "admin_hash \<Rightarrow> admin_request \<Rightarrow> admin_state \<Rightarrow> response \<times> admin_state" where
  "serve H rq st = (let path = ar_path rq in
     if path = ''/admin/login'' \<and> ar_method rq = ''POST''
     then handle_login H (ar_mono rq) (ar_utc rq) (ar_password rq) st
     else if path = ''/admin/login'' then (allowed [''GET''] rq (Html_page ''LOGIN_HTML''), st)
     else if path = ''/ops/login'' \<and> ar_method rq = ''POST''
     then handle_ops_login H (ar_mono rq) (ar_utc rq) (ar_password rq) st
     else if path = ''/ops/login'' then (allowed [''GET''] rq (Html_page ''OPS_LOGIN_HTML''), st)
     else (case map_of protected_routes path of
        Some methods \<Rightarrow> (case auth_middleware H st (ar_utc rq) path (ar_cookies rq) of
            Handled \<Rightarrow> (allowed methods rq (if path = ''/admin/logout'' then handle_logout else Handled), st)
          | r \<Rightarrow> (r, st))
      | None \<Rightarrow> (case ops_methods path of
            Some methods \<Rightarrow> (case ops_auth_middleware H st (ar_utc rq) (ar_cookies rq) of
                Handled \<Rightarrow> (allowed methods rq (if path = ''/ops/logout'' then handle_ops_logout
                   else if path = ''/ops'' then Redirect_to ''/ops/'' else Handled), st)
              | r \<Rightarrow> (r, st))
          | None \<Rightarrow> (Status 404 '''', st))))"

fun serve_all :: "admin_hash \<Rightarrow> admin_request list \<Rightarrow> admin_state \<Rightarrow> (admin_request \<times> response) list" where
  "serve_all H [] st = []"
| "serve_all H (rq # rqs) st = (case serve H rq st of (r, st') \<Rightarrow> (rq, r) # serve_all H rqs st')"

end
