(* ===== verification/Admin_Guards.thy ===== *)
theory Admin_Guards
  imports Admin_Access
begin

text \<open>
  What the guards of the admin server promise: the login limiter bounds the guesses, and a
  guarded page is served only after a login.
\<close>


section \<open>The limiter bounds the guesses\<close>

definition rejected_in :: "nanos \<Rightarrow> admin_request \<times> response \<Rightarrow> bool" where
  "rejected_in t = (\<lambda>(rq, r). r \<in> {LOGIN_FAIL, OPS_LOGIN_FAIL}
     \<and> t \<le> ar_mono rq \<and> ar_mono rq \<le> t + LOGIN_FAIL_WINDOW)"

definition in_window :: "nanos \<Rightarrow> nanos \<Rightarrow> bool" where
  "in_window t x = (t \<le> x \<and> x \<le> t + LOGIN_FAIL_WINDOW)"

lemma response_not_fail [simp]:
  "RATE_LIMITED \<noteq> LOGIN_FAIL" "RATE_LIMITED \<noteq> OPS_LOGIN_FAIL" "Handled \<noteq> LOGIN_FAIL"
  "Handled \<noteq> OPS_LOGIN_FAIL" "Status n s \<noteq> LOGIN_FAIL" "Status n s \<noteq> OPS_LOGIN_FAIL"
  "Set_cookie a b \<noteq> LOGIN_FAIL" "Set_cookie a b \<noteq> OPS_LOGIN_FAIL"
  "Redirect_to a \<noteq> LOGIN_FAIL" "Redirect_to a \<noteq> OPS_LOGIN_FAIL"
  "Html_page ''LOGIN_HTML'' \<noteq> LOGIN_FAIL" "Html_page ''LOGIN_HTML'' \<noteq> OPS_LOGIN_FAIL"
  "Html_page ''OPS_LOGIN_HTML'' \<noteq> LOGIN_FAIL" "Html_page ''OPS_LOGIN_HTML'' \<noteq> OPS_LOGIN_FAIL"
  by (simp_all add: RATE_LIMITED_def LOGIN_FAIL_def OPS_LOGIN_FAIL_def)

lemma locked_keeps_window:
  assumes "locked now l = (b, l')" "now \<le> t + LOGIN_FAIL_WINDOW"
  shows "filter (in_window t) (ll_failures l') = filter (in_window t) (ll_failures l)"
proof -
  have "filter (in_window t) (dropWhile (\<lambda>x. LOGIN_FAIL_WINDOW < now - x) fs) = filter (in_window t) fs" for fs
    using assms(2) by (induction fs) (auto simp: in_window_def)
  then show ?thesis using assms(1) by (auto simp: locked_def Let_def)
qed

lemma unlocked_few: "locked now l = (False, l') \<Longrightarrow> length (ll_failures l') < LOGIN_FAIL_MAX"
  by (auto simp: locked_def Let_def)

abbreviation failures :: "admin_state \<Rightarrow> nanos list" where
  "failures st \<equiv> ll_failures (ad_limiter st)"

lemma handle_login_failures:
  assumes "handle_login H inst now pw st = (r, st')"
  obtains (rejected) l where "r = LOGIN_FAIL" "locked inst (ad_limiter st) = (False, l)"
      "failures st' = ll_failures l @ [inst]"
    | (other) b where "r \<noteq> LOGIN_FAIL" "r \<noteq> OPS_LOGIN_FAIL" "locked inst (ad_limiter st) = (b, ad_limiter st')"
  using assms
  by (auto simp: handle_login_def note_failure_def record_failure_def Let_def split: prod.splits if_splits)

lemma handle_ops_login_failures:
  assumes "handle_ops_login H inst now pw st = (r, st')"
  obtains (rejected) l where "r = OPS_LOGIN_FAIL" "locked inst (ad_limiter st) = (False, l)"
      "failures st' = ll_failures l @ [inst]"
    | (other) b where "r \<noteq> LOGIN_FAIL" "r \<noteq> OPS_LOGIN_FAIL" "locked inst (ad_limiter st) = (b, ad_limiter st')"
    | (unchanged) "r \<noteq> LOGIN_FAIL" "r \<noteq> OPS_LOGIN_FAIL" "ad_limiter st' = ad_limiter st"
  using assms
  by (auto simp: handle_ops_login_def note_failure_def record_failure_def Let_def split: prod.splits if_splits option.splits)

lemma allowed_not_fail [simp]:
  "r \<noteq> LOGIN_FAIL \<Longrightarrow> allowed ms rq r \<noteq> LOGIN_FAIL"
  "r \<noteq> OPS_LOGIN_FAIL \<Longrightarrow> allowed ms rq r \<noteq> OPS_LOGIN_FAIL"
  by (simp_all add: allowed_def)

lemma guards_not_fail:
  "auth_middleware H st now p cs \<noteq> LOGIN_FAIL" "auth_middleware H st now p cs \<noteq> OPS_LOGIN_FAIL"
  "ops_auth_middleware H st now cs \<noteq> LOGIN_FAIL" "ops_auth_middleware H st now cs \<noteq> OPS_LOGIN_FAIL"
  by (simp_all add: auth_middleware_def ops_auth_middleware_def split: option.splits)

lemma serve_other:
  assumes "serve H rq st = (r, st')" "ar_path rq \<notin> {''/admin/login'', ''/ops/login''} \<or> ar_method rq \<noteq> ''POST''"
  shows "st' = st" "r \<noteq> LOGIN_FAIL" "r \<noteq> OPS_LOGIN_FAIL"
proof -
  note g = guards_not_fail [of H st]
  show "st' = st" using assms by (auto simp: serve_def Let_def split: if_splits option.splits response.splits)
  have "r \<noteq> LOGIN_FAIL \<and> r \<noteq> OPS_LOGIN_FAIL"
    using assms g(1) [of "ar_utc rq" "ar_path rq" "ar_cookies rq"] g(2) [of "ar_utc rq" "ar_path rq" "ar_cookies rq"]
      g(3) [of "ar_utc rq" "ar_cookies rq"] g(4) [of "ar_utc rq" "ar_cookies rq"]
    by (auto simp: serve_def Let_def handle_logout_def handle_ops_logout_def
        split: if_splits option.splits response.splits)
  then show "r \<noteq> LOGIN_FAIL" "r \<noteq> OPS_LOGIN_FAIL" by auto
qed

lemma serve_failures:
  assumes "serve H rq st = (r, st')"
  obtains (rejected) l where "r \<in> {LOGIN_FAIL, OPS_LOGIN_FAIL}" "locked (ar_mono rq) (ad_limiter st) = (False, l)"
      "failures st' = ll_failures l @ [ar_mono rq]"
    | (other) b where "r \<notin> {LOGIN_FAIL, OPS_LOGIN_FAIL}" "locked (ar_mono rq) (ad_limiter st) = (b, ad_limiter st')"
    | (unchanged) "r \<notin> {LOGIN_FAIL, OPS_LOGIN_FAIL}" "ad_limiter st' = ad_limiter st"
proof (cases "ar_method rq = ''POST'' \<and> ar_path rq \<in> {''/admin/login'', ''/ops/login''}")
  case False
  then show thesis using serve_other [OF assms] unchanged by auto
next
  case True
  show thesis
  proof (cases "ar_path rq = ''/admin/login''")
    case t: True
    then have "handle_login H (ar_mono rq) (ar_utc rq) (ar_password rq) st = (r, st')"
      using assms True by (simp add: serve_def Let_def)
    then show thesis by (rule handle_login_failures) (auto intro: rejected other)
  next
    case False
    then have "handle_ops_login H (ar_mono rq) (ar_utc rq) (ar_password rq) st = (r, st')"
      using assms True by (simp add: serve_def Let_def)
    then show thesis by (rule handle_ops_login_failures) (auto intro: rejected other unchanged)
  qed
qed

lemma past_window_none:
  "sorted (map ar_mono rqs) \<Longrightarrow> \<forall>rq \<in> set rqs. t + LOGIN_FAIL_WINDOW < ar_mono rq \<Longrightarrow>
   filter (rejected_in t) (serve_all H rqs st) = []"
  by (induction rqs arbitrary: st) (auto simp: rejected_in_def split: prod.splits)

lemma serve_all_rejections:
  assumes "sorted (map ar_mono rqs)" "length (filter (in_window t) (failures st)) \<le> LOGIN_FAIL_MAX"
  shows "length (filter (in_window t) (failures st))
     + length (filter (rejected_in t) (serve_all H rqs st)) \<le> LOGIN_FAIL_MAX"
  using assms
proof (induction rqs arbitrary: st)
  case Nil
  then show ?case by simp
next
  case (Cons rq rqs)
  obtain r st' where s: "serve H rq st = (r, st')" by (rule prod.exhaust)
  show ?case
  proof (cases "ar_mono rq \<le> t + LOGIN_FAIL_WINDOW")
    case False
    then have "filter (rejected_in t) (serve_all H (rq # rqs) st) = []"
      using Cons.prems(1) by (intro past_window_none) auto
    then show ?thesis using Cons.prems(2) by simp
  next
    case True
    note keep = locked_keeps_window [OF _ True]
    have IH: "length (filter (in_window t) (failures st')) \<le> LOGIN_FAIL_MAX \<Longrightarrow>
        length (filter (in_window t) (failures st'))
        + length (filter (rejected_in t) (serve_all H rqs st')) \<le> LOGIN_FAIL_MAX"
      using Cons by simp
    show ?thesis using s
    proof (cases rule: serve_failures)
      case (rejected l)
      have "length (filter (in_window t) (ll_failures l)) < LOGIN_FAIL_MAX"
        using unlocked_few [OF rejected(2)] by (rule le_less_trans [OF length_filter_le])
      moreover have "rejected_in t (rq, r) = in_window t (ar_mono rq)"
        using rejected(1) by (simp add: rejected_in_def in_window_def)
      ultimately show ?thesis using IH rejected(3) keep [OF rejected(2)] s by auto
    next
      case (other b)
      then have "\<not> rejected_in t (rq, r)" by (simp add: rejected_in_def)
      then show ?thesis using IH Cons.prems(2) keep [OF other(2)] s by simp
    next
      case unchanged
      then have "\<not> rejected_in t (rq, r)" by (simp add: rejected_in_def)
      then show ?thesis using IH Cons.prems(2) unchanged(2) s by simp
    qed
  qed
qed


definition toy_hash :: admin_hash where
  "toy_hash = \<lparr>ah_key = map (\<lambda>c. of_nat (of_char c)), ah_mac = (\<lambda>k m. m @ ref_encode k)\<rparr>"

definition login_at :: "string \<Rightarrow> nat \<Rightarrow> string \<Rightarrow> admin_request" where
  "login_at page secs pw = \<lparr>ar_method = ''POST'', ar_path = page, ar_cookies = [], ar_password = pw,
     ar_mono = secs * 1000000000, ar_utc = int secs\<rparr>"




section \<open>Only a login opens the guarded pages\<close>

lemma hex_nat_append:
  "hex_nat acc (s @ t) = (case hex_nat acc s of None \<Rightarrow> None | Some a \<Rightarrow> hex_nat a t)"
  by (induction s arbitrary: acc) (auto split: option.splits)

lemma hex_nat_show: "hex_nat 0 (show_hex n) = Some n"
proof (induction n rule: show_hex.induct)
  case (1 n)
  then show ?case by (subst show_hex.simps) (auto simp: hex_nat_append)
qed

lemma show_hex_digits: "c \<in> set (show_hex n) \<Longrightarrow> \<exists>d < 16. c = hex_digit d"
proof (induction n rule: show_hex.induct)
  case (1 n)
  have "c \<in> set (if n < 16 then [hex_digit n] else show_hex (n div 16) @ [hex_digit (n mod 16)])"
    using 1(2) by (subst (asm) show_hex.simps)
  then show ?case using 1(1) by (cases "n < 16") (auto intro: exI [of _ "n mod 16"])
qed

lemma hex_value_Some_not:
  assumes "hex_value c = Some d" shows "c \<noteq> CHR '':''" "c \<noteq> CHR ''-''" "c \<noteq> CHR ''+''"
  using assms by (auto simp: hex_value_def)

lemma show_hex_chars: "c \<in> set (show_hex n) \<Longrightarrow> c \<noteq> CHR '':'' \<and> c \<noteq> CHR ''-'' \<and> c \<noteq> CHR ''+''"
  using show_hex_digits [of c n] hex_value_digit hex_value_Some_not by metis

lemma show_hex_ne: "show_hex n \<noteq> []"
  by (subst show_hex.simps) simp

lemma i64_from_fmt:
  assumes "0 \<le> ts" "ts < 2 ^ 63" shows "i64_from_hex (fmt_x64 ts) = Some ts"
proof -
  have "fmt_x64 ts = show_hex (nat ts)" using assms by (simp add: fmt_x64_def)
  moreover obtain c cs where s: "show_hex (nat ts) = c # cs" using show_hex_ne by (cases "show_hex (nat ts)") auto
  moreover have "c \<noteq> CHR ''-''" "c \<noteq> CHR ''+''" using show_hex_chars [of c "nat ts"] s by auto
  moreover have "hex_nat 0 (c # cs) = Some (nat ts)" using hex_nat_show [of "nat ts"] s by simp
  ultimately show ?thesis using assms by (simp add: i64_from_hex_def Let_def del: hex_nat.simps)
qed

lemma split_once_none: "c \<notin> set a \<Longrightarrow> split_once c (a @ c # b) = Some (a, b)"
  by (induction a) auto

lemma split_once_back: "split_once c s = Some (a, b) \<Longrightarrow> s = a @ c # b"
  by (induction s arbitrary: a) (auto split: if_splits)

lemma fmt_no_colon: "CHR '':'' \<notin> set (fmt_x64 ts)"
  using show_hex_chars by (auto simp: fmt_x64_def)

lemma made_cookie_splits:
  "split_once (CHR '':'') (make_session_cookie H key now) = Some (fmt_x64 now, ah_mac H key (fmt_x64 now))"
  by (simp add: make_session_cookie_def Let_def split_once_none [OF fmt_no_colon])

text \<open>A cookie just minted is accepted for a day, under the key that minted it.\<close>
lemma made_cookie_verifies:
  "0 \<le> ts \<Longrightarrow> ts < 2 ^ 63 \<Longrightarrow>
   verify_session_cookie H key now (make_session_cookie H key ts) = (now - ts < SESSION_MAX_AGE_SECS)"
  by (simp add: verify_session_cookie_def made_cookie_splits i64_from_fmt)

text \<open>The cookies given out by a list of answers\<close>

definition gives_out :: "string \<Rightarrow> response \<Rightarrow> bool" where
  "gives_out c r = (r \<in> {Set_cookie (session_cookie SESSION_COOKIE_NAME c ''/admin'') ''/admin'',
     Set_cookie (session_cookie OPS_COOKIE_NAME c ''/ops'') ''/ops/''})"

text \<open>
  A client cannot compute a MAC: a cookie it presents with a right one, under either key, was
  given out before.
\<close>
definition presents_no_forgery ::
  "admin_hash \<Rightarrow> bytes list \<Rightarrow> (admin_request \<times> response) list \<Rightarrow> admin_request \<Rightarrow> bool" where
  "presents_no_forgery H keys earlier rq = list_all (\<lambda>name.
     case extract_cookie (ar_cookies rq) name of None \<Rightarrow> True
     | Some c \<Rightarrow> (case split_once (CHR '':'') c of None \<Rightarrow> True
         | Some (ts, mac) \<Rightarrow>
             mac \<notin> set (map (\<lambda>k. ah_mac H k ts) keys) \<or> list_ex (\<lambda>(q, r). gives_out c r) earlier))
     [SESSION_COOKIE_NAME, OPS_COOKIE_NAME]"

fun no_forgery ::
  "admin_hash \<Rightarrow> bytes list \<Rightarrow> (admin_request \<times> response) list \<Rightarrow> (admin_request \<times> response) list \<Rightarrow> bool" where
  "no_forgery H keys earlier [] = True"
| "no_forgery H keys earlier ((rq, r) # run) =
     (presents_no_forgery H keys earlier rq \<and> no_forgery H keys (earlier @ [(rq, r)]) run)"

lemma no_forgery_at:
  "no_forgery H keys earlier (pre @ (rq, r) # post) \<Longrightarrow> presents_no_forgery H keys (earlier @ pre) rq"
proof (induction pre arbitrary: earlier)
  case (Cons x pre)
  then show ?case using Cons.IH [of "earlier @ [x]"] by (cases x) auto
qed simp

lemma handle_login_keys:
  "handle_login H inst now pw st = (r, st') \<Longrightarrow> ad_signing_key st' = ad_signing_key st \<and> ad_ops_key st' = ad_ops_key st"
  "handle_ops_login H inst now pw st = (r, st') \<Longrightarrow> ad_signing_key st' = ad_signing_key st \<and> ad_ops_key st' = ad_ops_key st"
  by (auto simp: handle_login_def handle_ops_login_def note_failure_def Let_def split: prod.splits if_splits option.splits)

lemma serve_keys:
  assumes "serve H rq st = (r, st')"
  shows "ad_signing_key st' = ad_signing_key st \<and> ad_ops_key st' = ad_ops_key st"
proof (cases "ar_method rq = ''POST'' \<and> ar_path rq \<in> {''/admin/login'', ''/ops/login''}")
  case True
  then show ?thesis using assms handle_login_keys [of H _ _ _ st r st'] by (auto simp: serve_def Let_def)
next
  case False
  then have "st' = st" using serve_other(1) [OF assms] by auto
  then show ?thesis by simp
qed

lemma handle_login_gives_out:
  assumes "handle_login H inst now pw st = (r, st')" "gives_out c r"
  shows "ah_key H pw = ad_signing_key st \<and> c = make_session_cookie H (ad_signing_key st) now"
  using assms by (auto simp: handle_login_def gives_out_def session_cookie_def LOGIN_FAIL_def RATE_LIMITED_def
      SESSION_COOKIE_NAME_def OPS_COOKIE_NAME_def Let_def split: prod.splits if_splits)

lemma handle_ops_login_gives_out:
  assumes "handle_ops_login H inst now pw st = (r, st')" "gives_out c r"
  shows "\<exists>key. ad_ops_key st = Some key \<and> ah_key H pw \<in> {key, ad_signing_key st} \<and> c = make_session_cookie H key now"
  using assms by (auto simp: handle_ops_login_def gives_out_def session_cookie_def OPS_LOGIN_FAIL_def RATE_LIMITED_def
      SESSION_COOKIE_NAME_def OPS_COOKIE_NAME_def Let_def split: prod.splits if_splits option.splits)

lemma other_gives_out_nothing:
  assumes "serve H rq st = (r, st')" "ar_path rq \<notin> {''/admin/login'', ''/ops/login''} \<or> ar_method rq \<noteq> ''POST''"
  shows "\<not> gives_out c r"
proof -
  have g: "auth_middleware H st u p cs \<noteq> Set_cookie v w" "ops_auth_middleware H st u cs \<noteq> Set_cookie v w" for u p cs v w
    by (simp_all add: auth_middleware_def ops_auth_middleware_def split: option.splits)
  show ?thesis using assms g
    by (auto simp: serve_def Let_def allowed_def gives_out_def handle_logout_def handle_ops_logout_def
        split: if_splits option.splits response.splits)
qed

text \<open>What it takes to be given a cookie\<close>

definition logged_in :: "admin_hash \<Rightarrow> admin_state \<Rightarrow> admin_request \<Rightarrow> string \<Rightarrow> bool" where
  "logged_in H st rq c = (ar_method rq = ''POST'' \<and>
     (ar_path rq = ''/admin/login'' \<and> ah_key H (ar_password rq) = ad_signing_key st
        \<and> c = make_session_cookie H (ad_signing_key st) (ar_utc rq)
      \<or> ar_path rq = ''/ops/login'' \<and> (\<exists>key. ad_ops_key st = Some key
        \<and> ah_key H (ar_password rq) \<in> {key, ad_signing_key st} \<and> c = make_session_cookie H key (ar_utc rq))))"

lemma serve_gives_out:
  assumes "serve H rq st = (r, st')" "gives_out c r" shows "logged_in H st rq c"
proof -
  have post: "ar_method rq = ''POST''" "ar_path rq = ''/admin/login'' \<or> ar_path rq = ''/ops/login''"
    using other_gives_out_nothing [OF assms(1)] assms(2) by auto
  then show ?thesis using assms handle_login_gives_out handle_ops_login_gives_out
    by (fastforce simp: serve_def Let_def logged_in_def)
qed

lemma serve_all_gives_out:
  "(rq, r) \<in> set (serve_all H rqs st) \<Longrightarrow> gives_out c r \<Longrightarrow> logged_in H st rq c \<and> rq \<in> set rqs"
proof (induction rqs arbitrary: st)
  case Nil
  then show ?case by simp
next
  case (Cons q rqs)
  obtain r' st' where s: "serve H q st = (r', st')" by (rule prod.exhaust)
  show ?case
  proof (cases "(rq, r) = (q, r')")
    case True
    then show ?thesis using serve_gives_out [OF s] Cons.prems(2) by simp
  next
    case False
    then have "logged_in H st' rq c \<and> rq \<in> set rqs" using Cons s by auto
    then show ?thesis using serve_keys [OF s] by (auto simp: logged_in_def)
  qed
qed

text \<open>The state in which a request of a run is served has the keys of the start\<close>

lemma serve_all_at:
  "serve_all H rqs st = pre @ (rq, r) # post \<Longrightarrow>
   \<exists>st1 st2. serve H rq st1 = (r, st2) \<and> ad_signing_key st1 = ad_signing_key st \<and> ad_ops_key st1 = ad_ops_key st"
proof (induction pre arbitrary: rqs st)
  case Nil
  then show ?case by (cases rqs) (auto split: prod.splits)
next
  case (Cons x pre)
  obtain q rqs' where rqs: "rqs = q # rqs'" using Cons.prems by (cases rqs) auto
  obtain r' st' where s: "serve H q st = (r', st')" by (rule prod.exhaust)
  show ?case using Cons.IH [of rqs' st'] Cons.prems s rqs serve_keys [OF s] by auto
qed

lemma serve_handled:
  assumes "serve H rq st = (Handled, st')"
  shows "if map_of protected_routes (ar_path rq) \<noteq> None
    then session_open H (ad_signing_key st) SESSION_COOKIE_NAME (ar_utc rq) (ar_cookies rq)
    else \<exists>key. ad_ops_key st = Some key \<and> session_open H key OPS_COOKIE_NAME (ar_utc rq) (ar_cookies rq)"
proof -
  have "handle_login H i n p st \<noteq> (Handled, st')" "handle_ops_login H i n p st \<noteq> (Handled, st')" for i n p
    by (auto simp: handle_login_def handle_ops_login_def LOGIN_FAIL_def OPS_LOGIN_FAIL_def RATE_LIMITED_def Let_def
        split: prod.splits if_splits option.splits)
  then show ?thesis using assms
    by (auto simp: serve_def Let_def allowed_def auth_middleware_def ops_auth_middleware_def
        split: if_splits option.splits response.splits)
qed

lemma session_open_given_out:
  assumes "session_open H key name now cs" "presents_no_forgery H keys earlier rq" "ar_cookies rq = cs"
    "name \<in> {SESSION_COOKIE_NAME, OPS_COOKIE_NAME}" "key \<in> set keys"
  obtains q r c where "(q, r) \<in> set earlier" "gives_out c r" "verify_session_cookie H key now c"
proof -
  obtain c where c: "extract_cookie cs name = Some c" "verify_session_cookie H key now c"
    using assms(1) by (auto simp: session_open_def split: option.splits)
  then obtain ts where s: "split_once (CHR '':'') c = Some (ts, ah_mac H key ts)"
    by (auto simp: verify_session_cookie_def split: option.splits if_splits)
  have "list_ex (\<lambda>(q, r). gives_out c r) earlier"
    using assms(2,3,4,5) c(1) s by (auto simp: presents_no_forgery_def)
  then show thesis using that c(2) by (auto simp: list_ex_iff)
qed

lemma verify_minted:
  assumes "verify_session_cookie H key now (make_session_cookie H key' ts)"
    "\<forall>k k' m. ah_mac H k m = ah_mac H k' m \<longrightarrow> k = k'" "0 \<le> ts" "ts < 2 ^ 63"
  shows "key' = key \<and> now - ts < SESSION_MAX_AGE_SECS"
proof -
  have "ah_mac H key' (fmt_x64 ts) = ah_mac H key (fmt_x64 ts)"
    using assms(1) by (auto simp: verify_session_cookie_def made_cookie_splits split: if_splits)
  then have "key' = key" using assms(2) by blast
  then show ?thesis using assms by (simp add: made_cookie_verifies)
qed

text \<open>C34: 
  Whatever the clients of the admin server send, as long as they cannot compute a MAC, a page
  behind a guard is served only within a day of a login: an admin page after a login on the
  admin page with the admin password, an ops page after a login on the ops page with the ops
  password or the admin password.
\<close>
theorem guarded_pages_need_a_login:
  assumes "serve_all H rqs (with_ops H ops_pw upstream (admin_new H admin_pw)) = pre @ (rq, Handled) # post"
    "no_forgery H [ah_key H admin_pw, ah_key H ops_pw] [] (pre @ (rq, Handled) # post)"
    "\<forall>p q. ah_key H p = ah_key H q \<longrightarrow> p = q"
    "\<forall>k k' m. ah_mac H k m = ah_mac H k' m \<longrightarrow> k = k'"
    "\<forall>q \<in> set rqs. 0 \<le> ar_utc q \<and> ar_utc q < 2 ^ 63"
    "ops_pw \<noteq> admin_pw"
  shows "\<exists>(q, r) \<in> set pre. ar_method q = ''POST'' \<and> ar_utc rq - ar_utc q < SESSION_MAX_AGE_SECS
    \<and> (if map_of protected_routes (ar_path rq) \<noteq> None
       then ar_path q = ''/admin/login'' \<and> ar_password q = admin_pw
       else ar_path q = ''/ops/login'' \<and> ar_password q \<in> {ops_pw, admin_pw})"
proof -
  define st where "st = with_ops H ops_pw upstream (admin_new H admin_pw)"
  have keys: "ad_signing_key st = ah_key H admin_pw" "ad_ops_key st = Some (ah_key H ops_pw)"
    by (simp_all add: st_def with_ops_def admin_new_def)
  obtain st1 st2 where s: "serve H rq st1 = (Handled, st2)"
    "ad_signing_key st1 = ah_key H admin_pw" "ad_ops_key st1 = Some (ah_key H ops_pw)"
    using serve_all_at [OF assms(1)] keys by (auto simp: st_def)
  define adm where "adm = (map_of protected_routes (ar_path rq) \<noteq> None)"
  define key where "key = (if adm then ah_key H admin_pw else ah_key H ops_pw)"
  have "session_open H key (if adm then SESSION_COOKIE_NAME else OPS_COOKIE_NAME) (ar_utc rq) (ar_cookies rq)"
    using serve_handled [OF s(1)] s(2,3) by (auto simp: adm_def key_def)
  then obtain q r c where q: "(q, r) \<in> set pre" "gives_out c r" "verify_session_cookie H key (ar_utc rq) c"
    using no_forgery_at [OF assms(2)]
    by (rule session_open_given_out) (auto simp: key_def)
  have l: "logged_in H st q c" "q \<in> set rqs"
    using serve_all_gives_out [of q r H rqs st c] q(1,2) assms(1) by (auto simp: st_def)
  have m: "key' = key \<and> ar_utc rq - ar_utc q < SESSION_MAX_AGE_SECS" if "c = make_session_cookie H key' (ar_utc q)" for key'
    using verify_minted [OF _ assms(4)] q(3) that assms(5) l(2) by auto
  have ne: "ah_key H ops_pw \<noteq> ah_key H admin_pw" using assms(3,6) by blast
  have "ar_method q = ''POST'' \<and> (adm \<and> ar_path q = ''/admin/login'' \<and> ar_password q = admin_pw
      \<or> \<not> adm \<and> ar_path q = ''/ops/login'' \<and> ar_password q \<in> {ops_pw, admin_pw})
      \<and> ar_utc rq - ar_utc q < SESSION_MAX_AGE_SECS"
  proof (cases "ar_path q = ''/admin/login''")
    case True
    then have "ah_key H (ar_password q) = ah_key H admin_pw" "c = make_session_cookie H (ah_key H admin_pw) (ar_utc q)"
      using l(1) keys by (auto simp: logged_in_def)
    moreover from this have "ar_password q = admin_pw" using assms(3) by blast
    moreover have "adm" using m [of "ah_key H admin_pw"] calculation(2) ne by (cases adm) (simp_all add: key_def)
    ultimately show ?thesis using m [of "ah_key H admin_pw"] l(1) True by (simp add: logged_in_def)
  next
    case False
    then have "ah_key H (ar_password q) \<in> {ah_key H ops_pw, ah_key H admin_pw}"
      "c = make_session_cookie H (ah_key H ops_pw) (ar_utc q)"
      using l(1) keys by (auto simp: logged_in_def)
    moreover from this have "ar_password q \<in> {ops_pw, admin_pw}" using assms(3) by blast
    moreover have "\<not> adm" using m [of "ah_key H ops_pw"] calculation(2) ne by (cases adm) (simp_all add: key_def)
    ultimately show ?thesis using m [of "ah_key H ops_pw"] l(1) False by (simp add: logged_in_def)
  qed
  then show ?thesis using q(1) by (intro bexI [of _ "(q, r)"]) (auto simp: adm_def)
qed

definition toy_state :: admin_state where
  "toy_state = with_ops toy_hash ''o'' ''http://127.0.0.1/'' (admin_new toy_hash ''p'')"

definition visit_at :: "string \<Rightarrow> nat \<Rightarrow> string \<Rightarrow> admin_request" where
  "visit_at page secs cookie = \<lparr>ar_method = ''GET'', ar_path = page, ar_cookies = [cookie], ar_password = [],
     ar_mono = secs * 1000000000, ar_utc = int secs\<rparr>"

lemma unat_of_char [simp]: "unat (of_nat (of_char c) :: 8 word) = of_char c"
  using nat_of_char_less_256 [of c] by (simp add: unsigned_of_nat take_bit_nat_eq_self)

lemma toy_key_inj: "ah_key toy_hash p = ah_key toy_hash q \<Longrightarrow> p = q"
proof -
  assume "ah_key toy_hash p = ah_key toy_hash q"
  then have "map (\<lambda>b. char_of (unat b)) (ah_key toy_hash p) = map (\<lambda>b. char_of (unat b)) (ah_key toy_hash q)" by simp
  then show "p = q" by (simp add: toy_hash_def o_def)
qed

lemma toy_mac_inj: "ah_mac toy_hash k m = ah_mac toy_hash k' m \<Longrightarrow> k = k'"
  by (simp add: toy_hash_def) (metis ref_decode_encode option.inject)

definition toy_login :: admin_request where
  "toy_login = login_at ''/admin/login'' 5 ''p''"

definition toy_visit :: admin_request where
  "toy_visit = visit_at ''/admin'' 9 ''admin_session=5:570''"

definition toy_given :: response where
  "toy_given = Set_cookie (session_cookie SESSION_COOKIE_NAME ''5:570'' ''/admin'') ''/admin''"

lemma toy_keys:
  "ah_key toy_hash ''p'' = [112]" "ah_key toy_hash ''o'' = [111]"
  "ad_signing_key toy_state = [112]" "ad_ops_key toy_state = Some [111]" "ad_limiter toy_state = \<lparr>ll_failures = []\<rparr>"
  by (simp_all add: toy_state_def with_ops_def admin_new_def toy_hash_def)

lemma toy_cookie: "make_session_cookie toy_hash [112] 5 = ''5:570''" by code_simp

lemma toy_open: "session_open toy_hash [112] ''admin_session'' 9 [''admin_session=5:570'']" by code_simp

lemma toy_login_answer: "serve toy_hash toy_login toy_state = (toy_given, toy_state)"
  by (simp add: serve_def toy_login_def login_at_def handle_login_def locked_def LOGIN_FAIL_MAX_def toy_keys
      toy_cookie toy_given_def)

lemma toy_visit_answer: "serve toy_hash toy_visit toy_state = (Handled, toy_state)"
  by (simp add: serve_def toy_visit_def visit_at_def auth_middleware_def SESSION_COOKIE_NAME_def toy_keys toy_open
      protected_routes_def allowed_def)

lemma toy_run: "serve_all toy_hash [toy_login, toy_visit] toy_state = [(toy_login, toy_given), (toy_visit, Handled)]"
  by (simp add: toy_login_answer toy_visit_answer)

lemma toy_extracts:
  "extract_cookie [] n = None" "extract_cookie [''admin_session=5:570''] ''admin_session'' = Some ''5:570''"
  "extract_cookie [''admin_session=5:570''] ''ops_session'' = None"
  by (simp add: extract_cookie_def map_filter_simps) code_simp+

lemma toy_no_forgery:
  "no_forgery toy_hash [ah_key toy_hash ''p'', ah_key toy_hash ''o''] [] [(toy_login, toy_given), (toy_visit, Handled)]"
  by (simp add: presents_no_forgery_def toy_login_def login_at_def toy_visit_def visit_at_def toy_extracts
      SESSION_COOKIE_NAME_def OPS_COOKIE_NAME_def gives_out_def toy_given_def)

theorem guarded_pages_need_a_login_witness:
  "\<exists>(q, r) \<in> set [(toy_login, toy_given)]. ar_method q = ''POST''
     \<and> ar_utc toy_visit - ar_utc q < SESSION_MAX_AGE_SECS
     \<and> (if map_of protected_routes (ar_path toy_visit) \<noteq> None
        then ar_path q = ''/admin/login'' \<and> ar_password q = ''p''
        else ar_path q = ''/ops/login'' \<and> ar_password q \<in> {''o'', ''p''})"
proof (rule guarded_pages_need_a_login)
  show "serve_all toy_hash [toy_login, toy_visit] (with_ops toy_hash ''o'' ''http://127.0.0.1/'' (admin_new toy_hash ''p''))
      = [(toy_login, toy_given)] @ (toy_visit, Handled) # []"
    using toy_run by (simp add: toy_state_def)
  show "no_forgery toy_hash [ah_key toy_hash ''p'', ah_key toy_hash ''o''] []
      ([(toy_login, toy_given)] @ (toy_visit, Handled) # [])"
    using toy_no_forgery by simp
qed (auto simp: toy_key_inj toy_mac_inj toy_login_def toy_visit_def login_at_def visit_at_def)

end
