(* ===== verification/Web_Handlers.thy ===== *)
theory Web_Handlers
  imports Web_Text Reconciler
begin

text \<open>
  The public web API (\<open>pool-api/src/handlers.rs\<close>): the pool's statistics, its health, and the
  lists of blocks, miners and payouts.  A handler is a database action that answers with a
  status or a page; what it reads of the node, the wallet and the clock while it runs is the
  record \<open>web_view\<close>.  Timestamps of the tables are their instants in seconds, as in \<open>Db_Core\<close>.
\<close>

section \<open>The state\<close>

definition STALL_THRESHOLD_MS :: int where
  "STALL_THRESHOLD_MS = 90000"

definition block_time_secs :: f64 where
  "block_time_secs = Fin 75"

record stratum_port_info =
  pi_port :: u16
  pi_description :: string

record stats_snapshot =
  ss_timestamp_ms :: int
  ss_pool_hashrate :: f64
  ss_pool_hashrate_1m :: f64
  ss_network_hashrate :: f64
  ss_network_height :: nat
  ss_connected_miners :: int
  ss_total_blocks :: int
  ss_total_shares :: int
  ss_wallet_ok :: bool

record api_state =
  as_pool_name :: string
  as_pool_fee :: f64
  as_network :: string
  as_hostname :: string
  as_stratum_port :: u16
  as_stratum_ports :: "stratum_port_info list"
  as_last_template_at_ms :: "int option"
  as_wallet_rpc :: bool
  as_pool_address :: "string option"
  as_min_payout_zatoshis :: int
  as_pay_immature :: bool
  as_maturity_confirmations :: nat
  as_payout_wake :: bool
  as_difficulty_multiplier :: f64
  as_stats_history :: "stats_snapshot list"
  as_shares_accepted :: nat
  as_shares_rejected :: nat
  as_banner :: "string option"
  as_payout_scheme :: string

text \<open>The answers of the node and the wallet, the clock, and library functions.\<close>

record web_view =
  wv_now_ms :: int
  wv_sol_ps :: "f64 option"
  wv_tip :: "nat option"
  wv_mining_info :: "json option"
  wv_wallet :: "string + wallet_balances_rec"
  wv_agg :: sql_agg
  wv_json :: "string \<Rightarrow> json option"
  wv_rfc3339 :: "int \<Rightarrow> string option"
  wv_from_rfc3339 :: "string \<Rightarrow> int option"
  wv_fixed :: "nat \<Rightarrow> f64 \<Rightarrow> string"

text \<open>\<open>.await.unwrap_or(d)\<close> and \<open>.await\<close> with the error kept\<close>

definition db_or :: "'a \<Rightarrow> 'a dbm \<Rightarrow> 'a dbm" where
  "db_or d m s = (case m s of (Inl e, s') \<Rightarrow> (Inr d, s') | (Inr a, s') \<Rightarrow> (Inr a, s'))"

definition db_try :: "'a dbm \<Rightarrow> (db_error + 'a) dbm" where
  "db_try m s = (case m s of (r, s') \<Rightarrow> (Inr r, s'))"

lemma keeps_or [db_inv]: "keeps P m \<Longrightarrow> keeps P (db_or d m)"
  unfolding keeps_def db_or_def by (auto split: prod.splits sum.splits)

lemma keeps_try [db_inv]: "keeps P m \<Longrightarrow> keeps P (db_try m)"
  unfolding keeps_def db_try_def by (auto split: prod.splits)

definition status_text :: "string \<Rightarrow> string option dbm" where
  "status_text key = dbind (db_or None (get_pool_status key)) (\<lambda>v. dret (map_option fst v))"

definition status_u64 :: "string \<Rightarrow> nat dbm" where
  "status_u64 key = dbind (status_text key) (\<lambda>v.
     dret (case Option.bind v (parse_unsigned 64) of Some n \<Rightarrow> n | None \<Rightarrow> 0))"

definition template_age :: "web_view \<Rightarrow> int \<Rightarrow> bool \<times> string option" where
  "template_age W ms = (wv_now_ms W - ms < STALL_THRESHOLD_MS, wv_rfc3339 W ms)"

definition get_last_template_ms :: "api_state \<Rightarrow> web_view \<Rightarrow> (bool \<times> string option) dbm" where
  "get_last_template_ms st W = (case as_last_template_at_ms st of
     Some ms \<Rightarrow> (if ms > 0 then dret (template_age W ms)
       else dbind (status_text ''last_template_at_ms'') (\<lambda>v.
         dret (case Option.bind v parse_i64 of
           Some ms \<Rightarrow> if ms > 0 then template_age W ms else (True, None) | None \<Rightarrow> (True, None))))
   | None \<Rightarrow> dbind (status_text ''last_template_at_ms'') (\<lambda>v.
       dret (case Option.bind v parse_i64 of
         Some ms \<Rightarrow> if ms > 0 then template_age W ms else (True, None) | None \<Rightarrow> (True, None))))"

definition get_shares_counters :: "api_state \<Rightarrow> (nat \<times> nat) dbm" where
  "get_shares_counters st =
     (if as_shares_accepted st > 0 \<or> as_shares_rejected st > 0
      then dret (as_shares_accepted st, as_shares_rejected st)
      else dbind (status_u64 ''shares_accepted'') (\<lambda>a.
           dbind (status_u64 ''shares_rejected'') (\<lambda>r. dret (a, r))))"

definition get_rate_counters :: "(nat \<times> nat) dbm" where
  "get_rate_counters = dbind (status_u64 ''rate_warn_count'') (\<lambda>w.
     dbind (status_u64 ''rate_reject_count'') (\<lambda>r. dret (w, r)))"

definition get_rejection_breakdown :: "(nat \<times> nat \<times> nat \<times> nat) dbm" where
  "get_rejection_breakdown = dbind (status_u64 ''rejects_low_diff'') (\<lambda>ld.
     dbind (status_u64 ''rejects_job_not_found'') (\<lambda>jnf.
     dbind (status_u64 ''rejects_duplicate'') (\<lambda>dup.
     dbind (status_u64 ''rejects_other'') (\<lambda>oth. dret (ld, jnf, dup, oth)))))"

section \<open>The history\<close>

definition STATS_HISTORY_CAPACITY :: nat where
  "STATS_HISTORY_CAPACITY = 360"

definition push :: "stats_snapshot \<Rightarrow> stats_snapshot list \<Rightarrow> stats_snapshot list" where
  "push snap buf =
     (if STATS_HISTORY_CAPACITY \<le> length buf then tl buf else buf) @ [snap]"

definition latest :: "stats_snapshot list \<Rightarrow> stats_snapshot option" where
  "latest buf = (if buf = [] then None else Some (last buf))"

section \<open>Statistics\<close>

text \<open>The instant of \<open>now - secs\<close>, formatted with second resolution\<close>

definition since :: "web_view \<Rightarrow> int \<Rightarrow> int" where
  "since W secs = wv_now_ms W div 1000 - secs"

definition check_wallet_rpc :: "api_state \<Rightarrow> web_view \<Rightarrow> bool dbm" where
  "check_wallet_rpc st W =
     (if \<not> as_wallet_rpc st then dret False
      else dbind (status_text ''payout_health'') (\<lambda>v. dret (case Option.bind v (wv_json W) of
          None \<Rightarrow> False
        | Some h \<Rightarrow> jget ''wallet_responsive'' h = Some (JBool True)
            \<and> (case Option.bind (Option.bind (jget ''checked_at'' h) as_str) (wv_from_rfc3339 W) of
                 None \<Rightarrow> False | Some t \<Rightarrow> wv_now_ms W - t < 15 * 60000))))"

definition compute_stats_snapshot :: "api_state \<Rightarrow> web_view \<Rightarrow> stats_snapshot dbm" where
  "compute_stats_snapshot st W =
     dbind (db_or 0 get_connected_miners_count) (\<lambda>connected.
     dbind (db_or 0 get_blocks_count) (\<lambda>nblocks.
     dbind (db_or 0 get_total_shares_count) (\<lambda>nshares.
     dbind (db_or (Fin 0) (get_difficulty_sum_since (wv_agg W) (since W 600))) (\<lambda>diff_sum_10m.
     dbind (db_or (Fin 0) (get_difficulty_sum_since (wv_agg W) (since W 60))) (\<lambda>diff_sum_1m.
     dbind (check_wallet_rpc st W) (\<lambda>wallet_ok.
     dret \<lparr>ss_timestamp_ms = wv_now_ms W,
       ss_pool_hashrate = fmul (fdiv diff_sum_10m (Fin 600)) (as_difficulty_multiplier st),
       ss_pool_hashrate_1m = fmul (fdiv diff_sum_1m (Fin 60)) (as_difficulty_multiplier st),
       ss_network_hashrate = (case wv_sol_ps W of Some x \<Rightarrow> x | None \<Rightarrow> Fin 0),
       ss_network_height = (case wv_tip W of Some h \<Rightarrow> h | None \<Rightarrow> 0),
       ss_connected_miners = connected, ss_total_blocks = nblocks, ss_total_shares = nshares,
       ss_wallet_ok = wallet_ok\<rparr>))))))"

text \<open>Luck: the mean of the values that are there, and the work since the last block.\<close>

definition mean_luck :: "block_row list \<Rightarrow> f64 option" where
  "mean_luck bs = (let lucks = List.map_filter bk_luck bs in
     if lucks = [] then None else Some (fdiv (f64_sum lucks) (f64_of_int (int (length lucks)))))"

definition current_luck :: "api_state \<Rightarrow> web_view \<Rightarrow> f64 \<Rightarrow> f64 option dbm" where
  "current_luck st W network_hashrate =
     (if \<not> flt (Fin 0) network_hashrate then dret None
      else (let expected_work = fmul network_hashrate block_time_secs in
        dbind (db_or [] (get_recent_blocks 1)) (\<lambda>recent.
        dbind (db_or (Fin 0) (get_difficulty_sum_since (wv_agg W)
            (case recent of [] \<Rightarrow> 0 | b # _ \<Rightarrow> bk_created b))) (\<lambda>diff_sum.
        let actual_work = fmul diff_sum (as_difficulty_multiplier st) in
        dret (if flt (Fin 0) expected_work
          then Some (fmul (fdiv actual_work expected_work) (Fin 100)) else None)))))"

record pool_stats =
  ps_name :: string
  ps_fee_percent :: f64
  ps_min_payout_zec :: f64
  ps_payout_scheme :: string
  ps_stratum_url :: string
  ps_stratum_port :: u16
  ps_stratum_ports :: "stratum_port_info list"
  ps_immature_blocks :: int
  ps_pending_payout_blocks :: int
  ps_snapshot :: stats_snapshot
  ps_luck_percent :: "f64 option"
  ps_luck_last_10 :: "f64 option"
  ps_luck_lifetime :: "f64 option"
  ps_pool_percent_24h :: "f64 option"
  ps_node_ok :: bool
  ps_last_template_at :: "string option"
  ps_network :: string
  ps_banner :: "string option"

definition get_pool_stats :: "api_state \<Rightarrow> web_view \<Rightarrow> pool_stats dbm" where
  "get_pool_stats st W =
     dbind (case latest (as_stats_history st) of
         Some s \<Rightarrow> dret s | None \<Rightarrow> compute_stats_snapshot st W) (\<lambda>snap.
     dbind (db_or 0 get_immature_blocks_count) (\<lambda>immature.
     dbind (db_or [] (get_pending_payouts (as_min_payout_zatoshis st) (as_pay_immature st) 0 (2 ^ 63 - 1)))
       (\<lambda>pending.
     dbind (get_last_template_ms st W) (\<lambda>(node_ok, last_template_at).
     dbind (db_or 0 (get_blocks_count_since (since W 86400))) (\<lambda>blocks_24h.
     dbind (current_luck st W (ss_network_hashrate snap)) (\<lambda>luck_percent.
     dbind (db_or [] (get_recent_blocks 10)) (\<lambda>last_10.
     dbind (db_or None (get_lifetime_luck (wv_agg W))) (\<lambda>luck_lifetime.
     dret \<lparr>ps_name = as_pool_name st, ps_fee_percent = as_pool_fee st,
       ps_min_payout_zec = fdiv (f64_of_int (as_min_payout_zatoshis st)) ZATOSHIS_PER_ZEC,
       ps_payout_scheme = as_payout_scheme st,
       ps_stratum_url = ''stratum+tcp://'' @ as_hostname st @ '':'' @ show_nat (unat (as_stratum_port st)),
       ps_stratum_port = as_stratum_port st, ps_stratum_ports = as_stratum_ports st,
       ps_immature_blocks = immature, ps_pending_payout_blocks = int (length pending),
       ps_snapshot = snap, ps_luck_percent = luck_percent, ps_luck_last_10 = mean_luck last_10,
       ps_luck_lifetime = luck_lifetime,
       ps_pool_percent_24h = (let b = f64_of_int blocks_24h in
          if flt (Fin 0) b then Some (fmul (fdiv b (Fin 1152)) (Fin 100)) else None),
       ps_node_ok = node_ok, ps_last_template_at = last_template_at, ps_network = as_network st,
       ps_banner = as_banner st\<rparr>))))))))"

text \<open>The page for pool listings; the constant fields are left out.\<close>

record nomp_stats =
  nm_snapshot :: stats_snapshot
  nm_workers :: int
  nm_immature :: int
  nm_matured :: int
  nm_luck :: f64
  nm_min_payout :: f64
  nm_height :: nat
  nm_last_block_found :: int
  nm_round_shares :: int
  nm_difficulty :: string
  nm_networkhashps :: string

definition estimated_difficulty :: "f64 \<Rightarrow> f64" where
  "estimated_difficulty network_hashrate = fdiv (fmul network_hashrate block_time_secs) (Fin 8192)"

definition network_difficulty :: "web_view \<Rightarrow> f64 \<Rightarrow> f64" where
  "network_difficulty W network_hashrate = (case wv_mining_info W of
     None \<Rightarrow> estimated_difficulty network_hashrate
   | Some info \<Rightarrow> (case Option.bind (jget ''difficulty'' info) as_f64 of
       Some d \<Rightarrow> if flt (Fin 0) d then d else estimated_difficulty network_hashrate
     | None \<Rightarrow> estimated_difficulty network_hashrate))"

definition get_pool_stats_nomp :: "api_state \<Rightarrow> web_view \<Rightarrow> nomp_stats dbm" where
  "get_pool_stats_nomp st W =
     dbind (compute_stats_snapshot st W) (\<lambda>snap.
     dbind (db_or 0 get_connected_workers_count) (\<lambda>workers.
     dbind (db_or 0 get_immature_blocks_count) (\<lambda>immature.
     dbind (db_or 0 get_pending_payout_blocks_count) (\<lambda>matured.
     dbind (db_or [] (get_recent_blocks 1)) (\<lambda>recent.
     let last_block_found = (case recent of [] \<Rightarrow> 0 | b # _ \<Rightarrow> bk_created b) in
     dbind (if last_block_found > 0
        then dbind (db_or (Fin 0) (get_shares_count_since last_block_found)) (\<lambda>x. dret (as_i64 x))
        else dret (ss_total_shares snap)) (\<lambda>round_shares.
     dbind (db_or [] (get_recent_blocks 10)) (\<lambda>last_10.
     dret \<lparr>nm_snapshot = snap, nm_workers = workers, nm_immature = immature, nm_matured = matured,
       nm_luck = (case mean_luck last_10 of Some x \<Rightarrow> x | None \<Rightarrow> Fin 0),
       nm_min_payout = fdiv (f64_of_int (as_min_payout_zatoshis st)) ZATOSHIS_PER_ZEC,
       nm_height = (case wv_tip W of Some h \<Rightarrow> h | None \<Rightarrow> 0), nm_last_block_found = last_block_found,
       nm_round_shares = round_shares,
       nm_difficulty = wv_fixed W 4 (network_difficulty W (ss_network_hashrate snap)),
       nm_networkhashps = wv_fixed W 0 (ss_network_hashrate snap)\<rparr>)))))))"

definition get_health :: "api_state \<Rightarrow> web_view \<Rightarrow> (nat \<times> bool) dbm" where
  "get_health st W = dbind (get_last_template_ms st W) (\<lambda>(ok, _).
     dret (if ok then 200 else 503, ok))"

text \<open>The nudge of the payout loop: the answer, and whether the loop is woken.\<close>

definition trigger_payout :: "api_state \<Rightarrow> (nat \<times> bool) dbm" where
  "trigger_payout st =
     (if \<not> as_wallet_rpc st \<or> as_pool_address st = None then dret (503, False)
      else dbind (db_or None get_inflight_payout_attempt) (\<lambda>inflight.
        dret (if as_payout_wake st then (200, True) else (503, False))))"

section \<open>Lists\<close>

record miner_stats =
  mst_address :: string
  mst_pending :: int
  mst_paid :: int
  mst_pending_zec :: f64
  mst_paid_zec :: f64
  mst_workers :: "(string \<times> int) list"

definition get_miner_stats :: "string \<Rightarrow> (nat + miner_stats) dbm" where
  "get_miner_stats address =
     dbind (db_try (get_miner_by_address address)) (\<lambda>r. case r of
       Inl e \<Rightarrow> dret (Inl 500)
     | Inr None \<Rightarrow> dret (Inl 404)
     | Inr (Some miner) \<Rightarrow>
        dbind (db_try (get_or_create_balance (mi_id miner))) (\<lambda>r. case r of
          Inl e \<Rightarrow> dret (Inl 500)
        | Inr bal \<Rightarrow>
           dbind (db_try (get_workers_for_miner (mi_id miner))) (\<lambda>r. case r of
             Inl e \<Rightarrow> dret (Inl 500)
           | Inr ws \<Rightarrow> dret (Inr \<lparr>mst_address = mi_address miner, mst_pending = bl_pending bal,
               mst_paid = bl_paid bal, mst_pending_zec = to_zec (bl_pending bal), mst_paid_zec = to_zec (bl_paid bal),
               mst_workers = map (\<lambda>w. (wk_name w, wk_last_seen w)) ws\<rparr>))))"

definition or_500 :: "('a \<Rightarrow> 'b) \<Rightarrow> 'a dbm \<Rightarrow> (nat + 'b) dbm" where
  "or_500 f m = dbind (db_try m) (\<lambda>r. dret (case r of Inl e \<Rightarrow> Inl 500 | Inr a \<Rightarrow> Inr (f a)))"

lemma keeps_or_500 [db_inv]: "keeps P m \<Longrightarrow> keeps P (or_500 f m)"
  unfolding or_500_def by (intro db_inv)

record block_info_row =
  bi_height :: int
  bi_hash :: string
  bi_reward_zatoshis :: int
  bi_reward_zec :: f64
  bi_status :: string
  bi_found_at :: int
  bi_luck_percent :: "f64 option"

definition get_blocks :: "(nat + block_info_row list) dbm" where
  "get_blocks = or_500 (map (\<lambda>b. \<lparr>bi_height = bk_height b, bi_hash = bk_hash b,
     bi_reward_zatoshis = bk_reward b, bi_reward_zec = to_zec (bk_reward b), bi_status = bk_status b,
     bi_found_at = bk_created b, bi_luck_percent = bk_luck b\<rparr>)) (get_recent_blocks 150)"

record miner_list_info =
  mli_address :: string
  mli_pending_zec :: f64
  mli_share_count :: int
  mli_worker_count :: int
  mli_hashrate :: f64
  mli_hashrate_1m :: f64
  mli_joined :: int

definition get_miners :: "api_state \<Rightarrow> web_view \<Rightarrow> (nat + miner_list_info list) dbm" where
  "get_miners st W = or_500 (map (\<lambda>m. \<lparr>mli_address = mi_address (ml_miner m),
     mli_pending_zec = to_zec (ml_pending m), mli_share_count = ml_share_count m,
     mli_worker_count = ml_worker_count m,
     mli_hashrate = fmul (fdiv (ml_recent_diff m) (Fin 600)) (as_difficulty_multiplier st),
     mli_hashrate_1m = fmul (fdiv (ml_recent_diff_1m m) (Fin 60)) (as_difficulty_multiplier st),
     mli_joined = mi_created (ml_miner m)\<rparr>)) (get_all_miners_with_stats (wv_agg W))"

record payout_info =
  pin_miner_id :: int
  pin_miner_address :: string
  pin_txid :: "string option"
  pin_amount :: int
  pin_amount_zec :: f64
  pin_created :: int

definition payout_entry :: "payout_info list \<Rightarrow> payout_row \<Rightarrow> payout_info list dbm" where
  "payout_entry acc p = dbind (db_or (''miner#'' @ show_int (po_miner p)) (get_miner_address (po_miner p)))
     (\<lambda>addr. dret (acc @ [\<lparr>pin_miner_id = po_miner p, pin_miner_address = addr, pin_txid = po_txid p,
        pin_amount = po_amount p, pin_amount_zec = to_zec (po_amount p), pin_created = po_created p\<rparr>]))"

definition get_payouts :: "(nat + payout_info list) dbm" where
  "get_payouts = dbind (db_try (get_recent_payouts 50)) (\<lambda>r. case r of
     Inl e \<Rightarrow> dret (Inl 500)
   | Inr ps \<Rightarrow> dbind (dfold payout_entry [] ps) (\<lambda>rows. dret (Inr rows)))"

record pending_payout_entry =
  ppe_miner_address :: string
  ppe_amount :: int
  ppe_amount_zec :: f64
  ppe_joined_at :: int

definition get_pending_payouts_list :: "api_state \<Rightarrow> (nat + pending_payout_entry list) dbm" where
  "get_pending_payouts_list st = or_500 (map (\<lambda>p. \<lparr>ppe_miner_address = pp_address p,
     ppe_amount = pp_amount p, ppe_amount_zec = to_zec (pp_amount p), ppe_joined_at = pp_created p\<rparr>))
     (get_pending_payouts (as_min_payout_zatoshis st) (as_pay_immature st) 0 (2 ^ 63 - 1))"

record zallet_status =
  zs_rpc_ok :: bool
  zs_balance :: "(string \<times> string \<times> string) option"
  zs_error :: "string option"

definition get_zallet_status :: "api_state \<Rightarrow> web_view \<Rightarrow> zallet_status" where
  "get_zallet_status st W =
     (if as_wallet_rpc st
      then (case wv_wallet W of
          Inr b \<Rightarrow> \<lparr>zs_rpc_ok = True, zs_balance = Some (wv_fixed W 8 (wb_transparent b),
              wv_fixed W 8 (wb_spendable b), wv_fixed W 8
                (fadd (fadd (fadd (wb_transparent b) (wb_spendable b)) (wb_pending b)) (wb_immature b))),
              zs_error = None\<rparr>
        | Inl e \<Rightarrow> \<lparr>zs_rpc_ok = False, zs_balance = None, zs_error = Some (''RPC error: '' @ e)\<rparr>)
      else \<lparr>zs_rpc_ok = False, zs_balance = None,
        zs_error = Some ''Wallet RPC not configured (payout.wallet_rpc_url)''\<rparr>)"

record immature_block =
  ib_height :: int
  ib_reward_zec :: f64
  ib_confirmations :: int
  ib_required :: nat
  ib_progress_percent :: f64
  ib_found_at :: int

definition immature_entry :: "nat \<Rightarrow> int \<Rightarrow> block_row \<Rightarrow> immature_block" where
  "immature_entry required current_height b = (let confirmations = max (current_height - bk_height b) 0 in
     \<lparr>ib_height = bk_height b, ib_reward_zec = to_zec (bk_reward b), ib_confirmations = confirmations,
      ib_required = required, ib_progress_percent = fmin (fmul
        (fdiv (f64_of_int confirmations) (f64_of_int (int required))) (Fin 100)) (Fin 100),
      ib_found_at = bk_created b\<rparr>)"

definition get_immature_blocks :: "api_state \<Rightarrow> web_view \<Rightarrow> (nat + immature_block list) dbm" where
  "get_immature_blocks st W = (case wv_tip W of
     None \<Rightarrow> dret (Inl 500)
   | Some tip \<Rightarrow> or_500 (\<lambda>pending. order_by (\<lambda>a b. ib_height b \<le> ib_height a)
       (map (immature_entry (as_maturity_confirmations st) (int tip)) pending)) get_pending_blocks)"

end
