(* ===== verification/Network_Blocks.thy ===== *)
theory Network_Blocks
  imports Web_Text Coinbase "HOL-Library.AList"
begin

text \<open>
  The network page (\<open>pool-api/src/network.rs\<close>): who mined the latest blocks.  The node's blocks
  are read back from the tip, each block's coinbase names its miner, and the blocks are grouped
  into the rows of the distribution.  The order in which a \<open>HashMap\<close> is iterated and in which
  concurrent requests complete are parameters.
\<close>

section \<open>Ranges\<close>

definition CONCURRENCY :: nat where
  "CONCURRENCY = 50"

definition normalize_range :: "string \<Rightarrow> string" where
  "normalize_range raw = (if raw = ''24h'' then ''24h'' else if raw = ''1w'' then ''1w'' else ''1h'')"

definition range_params :: "string \<Rightarrow> int \<times> nat" where
  "range_params rng = (if rng = ''24h'' then (24 * 3600, 1500)
     else if rng = ''1w'' then (7 * 24 * 3600, 3000) else (3600, 100))"

definition cache_ttl_ms :: "string \<Rightarrow> int" where
  "cache_ttl_ms rng = (if rng = ''24h'' then 120000 else if rng = ''1w'' then 300000 else 60000)"

section \<open>Blocks and rows\<close>

record network_block =
  nb_height :: nat
  nb_hash :: string
  nb_time :: int
  nb_miner_address :: string
  nb_miner_label :: string
  nb_pool_name :: "string option"
  nb_reward_zec :: f64
  nb_is_our_pool :: bool
  nb_coinbase_text :: string
  nb_coinbase_hex :: string
  nb_coinbase_tx_version :: int
  nb_is_zebrad :: bool
  nb_is_zakura :: bool

record miner_distribution =
  md_label :: string
  md_address :: string
  md_pool_name :: "string option"
  md_block_count :: nat
  md_percent :: f64
  md_is_our_pool :: bool
  md_zebrad_count :: nat
  md_zakura_count :: nat
  md_dominant_tx_version :: int

record network_mining_stats =
  ns_blocks :: "network_block list"
  ns_distribution :: "miner_distribution list"
  ns_total_blocks :: nat
  ns_our_pool_blocks :: nat
  ns_our_pool_percent :: f64
  ns_unique_miners :: nat
  ns_zebrad_blocks :: nat
  ns_zebrad_percent :: f64
  ns_zakura_blocks :: nat
  ns_zakura_percent :: f64

section \<open>The text of a coinbase\<close>

text \<open>\<open>from_utf8\<close> on the bytes from a lead byte on: one whole character, and not a control
  character.\<close>

definition cont_byte :: "nat \<Rightarrow> bool" where
  "cont_byte b = (128 \<le> b \<and> b \<le> 191)"

fun utf8_char :: "nat list \<Rightarrow> bool" where
  "utf8_char [a, b] = (194 \<le> a \<and> a \<le> 223 \<and> cont_byte b \<and> \<not> (a = 194 \<and> b \<le> 159))"
| "utf8_char [a, b, c] =
     ((a = 224 \<and> 160 \<le> b \<and> b \<le> 191 \<or> 225 \<le> a \<and> a \<le> 236 \<and> cont_byte b
       \<or> a = 237 \<and> 128 \<le> b \<and> b \<le> 159 \<or> 238 \<le> a \<and> a \<le> 239 \<and> cont_byte b) \<and> cont_byte c)"
| "utf8_char [a, b, c, d] =
     ((a = 240 \<and> 144 \<le> b \<and> b \<le> 191 \<or> 241 \<le> a \<and> a \<le> 243 \<and> cont_byte b
       \<or> a = 244 \<and> 128 \<le> b \<and> b \<le> 143) \<and> cont_byte c \<and> cont_byte d)"
| "utf8_char _ = False"

definition max_len :: "nat \<Rightarrow> nat" where
  "max_len b = (if 240 \<le> b then 4 else if 224 \<le> b then 3 else 2)"

function lossy_text :: "nat list \<Rightarrow> string" where
  "lossy_text [] = []"
| "lossy_text (b # bs) =
     (if 33 \<le> b \<and> b \<le> 126 \<or> b = 32 then char_of b # lossy_text bs
      else if 194 \<le> b then
        (if utf8_char (take (max_len b) (b # bs))
         then map char_of (take (max_len b) (b # bs)) @ lossy_text (drop (max_len b) (b # bs))
         else CHR ''.'' # lossy_text bs)
      else CHR ''.'' # lossy_text bs)"
  by pat_completeness auto
termination lossy_text
  by (relation "measure length") (auto simp: max_len_def)

definition hex_to_ascii_lossy :: "hexlib \<Rightarrow> string \<Rightarrow> string" where
  "hex_to_ascii_lossy H hex = lossy_text (map unat (decode_or_default H hex))"

definition truncate_address :: "string \<Rightarrow> string" where
  "truncate_address addr = (if length addr > 16
     then take 8 addr @ ''...'' @ drop (length addr - 6) addr else addr)"

definition is_alpha :: "char \<Rightarrow> bool" where
  "is_alpha c = (let n = of_char c :: nat in 65 \<le> n \<and> n \<le> 90 \<or> 97 \<le> n \<and> n \<le> 122)"

definition is_alnum :: "char \<Rightarrow> bool" where
  "is_alnum c = (is_alpha c \<or> dec_value c \<noteq> None)"

fun split_where :: "(char \<Rightarrow> bool) \<Rightarrow> string \<Rightarrow> string list" where
  "split_where p [] = [[]]"
| "split_where p (c # s) =
     (if p c then [] # split_where p s
      else case split_where p s of [] \<Rightarrow> [[c]] | w # ws \<Rightarrow> (c # w) # ws)"

definition well_formed :: "string list \<Rightarrow> bool" where
  "well_formed ls = list_all (\<lambda>l. l \<noteq> [] \<and> list_all (\<lambda>c. is_alnum c \<or> c = CHR ''-'') l) ls"

definition domain_of :: "string \<Rightarrow> string option" where
  "domain_of t = (let ls = split_on (CHR ''.'') t in
     if length ls < 2 then None
     else (let tld = last ls; sld = ls ! (length ls - 2) in
       if well_formed ls \<and> 2 \<le> length tld \<and> length tld \<le> 6 \<and> list_all is_alpha tld
          \<and> 3 \<le> length sld \<and> 2 \<le> length (filter is_alpha sld)
       then Some (map to_lower t) else None))"

definition coinbase_domain :: "string \<Rightarrow> string option" where
  "coinbase_domain coinbase_text =
     (case List.map_filter domain_of
        (filter (\<lambda>t. 6 \<le> length t \<and> CHR ''.'' \<in> set t)
          (map (trim_matches (\<lambda>c. c = CHR ''.'' \<or> c = CHR ''-''))
            (split_where (\<lambda>c. \<not> (is_alnum c \<or> c = CHR ''.'' \<or> c = CHR ''-'')) coinbase_text))) of
      [] \<Rightarrow> None | d # _ \<Rightarrow> Some d)"

text \<open>\<open>max_by_key\<close> returns the last of the greatest elements.\<close>

fun max_by_key :: "('a \<Rightarrow> nat) \<Rightarrow> 'a list \<Rightarrow> 'a option" where
  "max_by_key k [] = None"
| "max_by_key k (x # xs) = (case max_by_key k xs of
     None \<Rightarrow> Some x | Some y \<Rightarrow> Some (if k x \<le> k y then y else x))"

definition tag_char :: "char \<Rightarrow> bool" where
  "tag_char c = (is_alnum c \<or> c = CHR '' '' \<or> c = CHR ''-'' \<or> c = CHR ''_'' \<or> c = CHR '':'')"

definition coinbase_tag :: "string \<Rightarrow> string option" where
  "coinbase_tag coinbase_text = max_by_key length
     (filter (\<lambda>s. 5 \<le> length s \<and> 2 \<le> length (filter is_alpha s))
       (map (trim_matches is_space) (split_where (\<lambda>c. \<not> tag_char c) coinbase_text)))"

section \<open>Naming the pool\<close>

definition known_pools :: "(string \<times> string) list" where
  "known_pools =
     [(''t1K79TgQbqu74d6rBmsMu2oFEXEwAmdYiT7'', ''ViaBTC''),
      (''t1ZVi2YGk98tEGYcNpXYnJFWCoLG2oYwv3J'', ''ViaBTC''),
      (''t1MKn34KBa8Xh4g8qU8psibBXvURafphVn7'', ''ViaBTC''),
      (''t1at7nVNsv6taLRrNRvnQdtfLNRDfsGc3Ak'', ''ViaBTC-Solo''),
      (''t1SEgZvXCu3ceE42qrq5pCeSq7HbLjX8NJv'', ''ViaBTC-Solo''),
      (''t1PEp2GJLSdhDfCKqc2J211WKDUS1NfoQNy'', ''F2Pool''),
      (''t1bnxtY7aLCjWx9Ru1YcGwRWch3eEWUFK7u'', ''2Miners''),
      (''t1fu6KgYtHEXk2ZhTpM1XD7jbnSmW6wokDM'', ''2Miners''),
      (''t1LRTUjrLE2RHsS75cjCrxB7xaLTwaVkwao'', ''2Miners-Solo''),
      (''t1Pxv9u2jWySHJPFpKimYMAtEbdHEvuYdS2'', ''2Miners-Solo''),
      (''t1L2b66MXbgpVMXDfUa94GCBFAN4dCxGohM'', ''AntPool''),
      (''t1e6hceYHkzCbwcwGZzKeMfXXW7x7gr19Cw'', ''Kryptex''),
      (''t1SqwRAAdSig6dE4EBPLonAait219VmkUjP'', ''Foundry''),
      (''t3cFfPt1Bcvgez9ZbMBFWeZsskxTkPzGCow'', ''NiceHash''),
      (''t1cQA9Rxn31tqHcgZzydrpDjgsQGmjpBgpB'', ''Mining-Dutch'')]"

definition self_tag :: "string \<Rightarrow> string option" where
  "self_tag txt =
     (if has_substring txt ''Luxor'' \<or> has_substring txt ''LuxOS'' then Some ''Luxor''
      else if has_substring txt ''2Miners'' then Some ''2Miners''
      else if has_substring txt ''Foundry'' \<or> has_substring txt ''/ZEC Pool X/'' then Some ''Foundry''
      else if has_substring txt ''/NiceHash/'' then Some ''NiceHash''
      else if has_substring txt ''F2Pool'' \<or> has_substring txt ''f2pool'' then Some ''F2Pool''
      else if has_substring (map to_lower txt) ''sluicey'' then Some ''Sluicey''
      else coinbase_domain txt)"

definition identify_pool :: "string \<Rightarrow> string \<Rightarrow> (string \<times> string) list \<Rightarrow> string option" where
  "identify_pool miner_address coinbase_text overrides =
     (case map_of overrides miner_address of
        Some name \<Rightarrow> Some name
      | None \<Rightarrow> (case map_of known_pools miner_address of
          Some name \<Rightarrow> Some name
        | None \<Rightarrow> self_tag coinbase_text))"

definition SHIELDED_MINER :: string where
  "SHIELDED_MINER = ''shielded''"

definition block_group_key :: "network_block \<Rightarrow> string" where
  "block_group_key b = (case nb_pool_name b of
     Some name \<Rightarrow> name
   | None \<Rightarrow> (if nb_miner_address b = SHIELDED_MINER
       then (case coinbase_tag (nb_coinbase_text b) of Some t \<Rightarrow> t | None \<Rightarrow> SHIELDED_MINER)
       else nb_miner_address b))"

definition split_by_node_software :: "string \<Rightarrow> bool \<Rightarrow> bool \<Rightarrow> string" where
  "split_by_node_software name zakura zebrad =
     (if zakura then name @ '' (Zakura)'' else if zebrad then name @ '' (zebra)'' else name)"

definition pools_on_both_nodes :: "(string \<times> bool \<times> bool) list \<Rightarrow> string list" where
  "pools_on_both_nodes rows =
     (let seen = foldl (\<lambda>m (name, zakura, zebrad).
         (case map_of m name of
            None \<Rightarrow> AList.update name (zakura, zebrad) m
          | Some (z, b) \<Rightarrow> AList.update name (z \<or> zakura, b \<or> zebrad) m)) [] rows in
      map fst (filter (\<lambda>(name, z, b). z \<and> b) seen))"

definition is_zebrad_block :: "string \<Rightarrow> bool" where
  "is_zebrad_block coinbase_hex = has_substring coinbase_hex ''f09fa693''"

definition is_zakura_block :: "string \<Rightarrow> bool" where
  "is_zakura_block coinbase_hex = has_substring coinbase_hex ''f09f8cb8''"

section \<open>Reading a coinbase\<close>

definition opt_get :: "string \<Rightarrow> json option \<Rightarrow> json option" where
  "opt_get k v = Option.bind v (jget k)"

definition i64_or_0 :: "json option \<Rightarrow> int" where
  "i64_or_0 v = (case Option.bind v as_int64 of Some i \<Rightarrow> i | None \<Rightarrow> 0)"

definition str_or_empty :: "json option \<Rightarrow> string" where
  "str_or_empty v = (case Option.bind v as_str of Some s \<Rightarrow> s | None \<Rightarrow> [])"

definition arr_first :: "json option \<Rightarrow> json option" where
  "arr_first v = (case Option.bind v as_array of Some (x # _) \<Rightarrow> Some x | _ \<Rightarrow> None)"

definition shielded_coinbase_zat :: "json \<Rightarrow> int" where
  "shielded_coinbase_zat coinbase_tx =
     - (i64_or_0 (jget ''valueBalanceZat'' coinbase_tx)
        + i64_or_0 (opt_get ''valueBalanceZat'' (jget ''orchard'' coinbase_tx))
        + i64_or_0 (opt_get ''valueBalanceZat'' (jget ''ironwood'' coinbase_tx)))"

definition as_i32 :: "int \<Rightarrow> int" where
  "as_i32 i = sint (word_of_int i :: 32 word)"

definition vout_reward :: "json \<Rightarrow> f64" where
  "vout_reward out = (case Option.bind (jget ''valueZat'' out) as_int64 of
     Some z \<Rightarrow> to_zec z
   | None \<Rightarrow> (case Option.bind (jget ''value'' out) as_f64 of Some x \<Rightarrow> x | None \<Rightarrow> Fin 0))"

definition vout_address :: "json \<Rightarrow> string" where
  "vout_address out = (case Option.bind (jget ''scriptPubKey'' out) (\<lambda>spk.
       (case Option.bind (arr_first (jget ''addresses'' spk)) as_str of
          Some a \<Rightarrow> Some a
        | None \<Rightarrow> Option.bind (jget ''address'' spk) as_str)) of
     Some a \<Rightarrow> a | None \<Rightarrow> ''unknown'')"

record coinbase_info =
  cb_miner :: string
  cb_reward :: f64
  cb_text :: string
  cb_hex :: string
  cb_version :: int

definition unknown_coinbase :: coinbase_info where
  "unknown_coinbase = \<lparr>cb_miner = ''unknown'', cb_reward = Fin 0, cb_text = [], cb_hex = [], cb_version = 0\<rparr>"

definition extract_coinbase_from_block :: "hexlib \<Rightarrow> json \<Rightarrow> coinbase_info" where
  "extract_coinbase_from_block H block_data = (case arr_first (jget ''tx'' block_data) of
     None \<Rightarrow> unknown_coinbase
   | Some coinbase_tx \<Rightarrow>
      (if as_str coinbase_tx \<noteq> None then unknown_coinbase
       else (let version = as_i32 (i64_or_0 (jget ''version'' coinbase_tx));
           hex = str_or_empty (opt_get ''coinbase'' (arr_first (jget ''vin'' coinbase_tx)));
           txt = hex_to_ascii_lossy H hex;
           shielded_zat = shielded_coinbase_zat coinbase_tx in
         if shielded_zat > 0
         then \<lparr>cb_miner = SHIELDED_MINER, cb_reward = to_zec shielded_zat, cb_text = txt, cb_hex = hex,
           cb_version = version\<rparr>
         else (case arr_first (jget ''vout'' coinbase_tx) of
             None \<Rightarrow> \<lparr>cb_miner = ''unknown'', cb_reward = Fin 0, cb_text = txt, cb_hex = hex, cb_version = version\<rparr>
           | Some out \<Rightarrow> \<lparr>cb_miner = vout_address out, cb_reward = vout_reward out, cb_text = txt, cb_hex = hex,
               cb_version = version\<rparr>))))"

section \<open>Fetching the blocks\<close>

text \<open>The node's answers during a fetch: the tip, the hash at a height, a block by hash and
  verbosity.\<close>

record node_view =
  nv_tip :: "string + nat"
  nv_hash :: "nat \<Rightarrow> string option"
  nv_block :: "string \<Rightarrow> nat \<Rightarrow> json option"

definition fetch_block :: "node_view \<Rightarrow> nat \<Rightarrow> (nat \<times> json) option" where
  "fetch_block N h = (case nv_hash N h of
     None \<Rightarrow> None
   | Some hash \<Rightarrow> (case nv_block N hash 2 of
       Some data \<Rightarrow> Some (h, data)
     | None \<Rightarrow> map_option (\<lambda>data. (h, data)) (nv_block N hash 1)))"

definition scan_count :: "string \<Rightarrow> nat" where
  "scan_count rng = (let (range_secs, max_blocks) = range_params rng;
       estimated_blocks = as_usize (fmul (fdiv (f64_of_int range_secs) (Fin 75)) (round64 (6 / 5))) in
     min estimated_blocks max_blocks)"

text \<open>\<open>(start_height..=tip).rev()\<close>, in chunks; \<open>finished\<close> is the order in which the requests of
  a chunk complete.\<close>

function chunks :: "nat \<Rightarrow> 'a list \<Rightarrow> 'a list list" where
  "chunks n xs = (if xs = [] \<or> n = 0 then [] else take n xs # chunks n (drop n xs))"
  by pat_completeness auto
termination chunks
  by (relation "measure (\<lambda>(n, xs). length xs)") auto

declare chunks.simps [simp del]

definition scan_heights :: "nat \<Rightarrow> string \<Rightarrow> nat list" where
  "scan_heights tip rng = rev [max (tip - scan_count rng) 1..<Suc tip]"

record hash_order =
  ho_requests :: "nat list \<Rightarrow> nat list"
  ho_groups :: "string list \<Rightarrow> string list"
  ho_versions :: "(int \<times> nat) list \<Rightarrow> (int \<times> nat) list"

definition fetch_raw :: "hash_order \<Rightarrow> node_view \<Rightarrow> nat list \<Rightarrow> (nat \<times> json) list" where
  "fetch_raw R N heights = concat (map (\<lambda>chunk. List.map_filter (fetch_block N) (ho_requests R chunk))
     (chunks CONCURRENCY heights))"

record app_view =
  av_mining_address :: "string option"
  av_coinbase_tag :: "string option"
  av_label_overrides :: "(string \<times> string) list"

definition our_tag_hex :: "hexlib \<Rightarrow> app_view \<Rightarrow> string option" where
  "our_tag_hex H V = (case av_coinbase_tag V of
     None \<Rightarrow> None | Some t \<Rightarrow> if t = [] then None else Some (hx_encode H (ascii t)))"

definition our_address :: "app_view \<Rightarrow> string" where
  "our_address V = (case av_mining_address V of Some a \<Rightarrow> a | None \<Rightarrow> [])"

definition is_ours :: "hexlib \<Rightarrow> app_view \<Rightarrow> coinbase_info \<Rightarrow> bool" where
  "is_ours H V cb = (our_address V \<noteq> [] \<and> cb_miner cb = our_address V
     \<or> (case our_tag_hex H V of None \<Rightarrow> False | Some tag \<Rightarrow> has_substring (cb_hex cb) tag))"

definition block_info :: "hexlib \<Rightarrow> app_view \<Rightarrow> nat \<Rightarrow> json \<Rightarrow> network_block" where
  "block_info H V height block_data = (let
       cb = extract_coinbase_from_block H block_data;
       is_our_pool = is_ours H V cb;
       miner_address = (if is_our_pool \<and> cb_miner cb = SHIELDED_MINER \<and> our_address V \<noteq> []
         then our_address V else cb_miner cb);
       pool_name = (if is_our_pool then Some ''Our Pool''
         else identify_pool miner_address (cb_text cb) (av_label_overrides V)) in
     \<lparr>nb_height = height, nb_hash = str_or_empty (jget ''hash'' block_data),
      nb_time = i64_or_0 (jget ''time'' block_data), nb_miner_address = miner_address,
      nb_miner_label = (case pool_name of Some n \<Rightarrow> n | None \<Rightarrow> truncate_address miner_address),
      nb_pool_name = pool_name, nb_reward_zec = cb_reward cb, nb_is_our_pool = is_our_pool,
      nb_coinbase_text = cb_text cb, nb_coinbase_hex = cb_hex cb, nb_coinbase_tx_version = cb_version cb,
      nb_is_zebrad = is_zebrad_block (cb_hex cb), nb_is_zakura = is_zakura_block (cb_hex cb)\<rparr>)"

definition read_blocks :: "hexlib \<Rightarrow> app_view \<Rightarrow> int \<Rightarrow> (nat \<times> json) list \<Rightarrow> network_block list" where
  "read_blocks H V cutoff_time raw_blocks = map (\<lambda>(h, b). block_info H V h b)
     (filter (\<lambda>(h, b). \<not> i64_or_0 (jget ''time'' b) < cutoff_time)
       (order_by (\<lambda>a b. fst b \<le> fst a) raw_blocks))"

definition split_names :: "network_block list \<Rightarrow> network_block list" where
  "split_names bs = (let split = pools_on_both_nodes (List.map_filter (\<lambda>b.
        map_option (\<lambda>n. (n, nb_is_zakura b, nb_is_zebrad b)) (nb_pool_name b)) bs) in
     map (\<lambda>b. case nb_pool_name b of
        None \<Rightarrow> b
      | Some name \<Rightarrow> (if name \<in> set split
          then (let labelled = split_by_node_software name (nb_is_zakura b) (nb_is_zebrad b) in
            b\<lparr>nb_miner_label := labelled, nb_pool_name := Some labelled\<rparr>)
          else b)) bs)"

section \<open>The distribution\<close>

record group_stats =
  gs_count :: nat
  gs_zebrad :: nat
  gs_zakura :: nat
  gs_versions :: "(int \<times> nat) list"
  gs_address :: string

definition count_version :: "int \<Rightarrow> (int \<times> nat) list \<Rightarrow> (int \<times> nat) list" where
  "count_version v m = AList.update v (case map_of m v of None \<Rightarrow> 1 | Some c \<Rightarrow> c + 1) m"

definition add_block :: "network_block \<Rightarrow> (string \<times> group_stats) list \<Rightarrow> (string \<times> group_stats) list" where
  "add_block b m = (let key = block_group_key b;
       e = (case map_of m key of Some e \<Rightarrow> e
         | None \<Rightarrow> \<lparr>gs_count = 0, gs_zebrad = 0, gs_zakura = 0, gs_versions = [], gs_address = nb_miner_address b\<rparr>) in
     AList.update key (e\<lparr>gs_count := gs_count e + 1,
       gs_zebrad := gs_zebrad e + (if nb_is_zebrad b then 1 else 0),
       gs_zakura := gs_zakura e + (if nb_is_zakura b then 1 else 0),
       gs_versions := count_version (nb_coinbase_tx_version b) (gs_versions e)\<rparr>) m)"

definition group_blocks :: "network_block list \<Rightarrow> (string \<times> group_stats) list" where
  "group_blocks bs = fold add_block bs []"

definition percent_of :: "nat \<Rightarrow> nat \<Rightarrow> f64" where
  "percent_of n all_blocks = (if 0 < all_blocks
     then fmul (fdiv (f64_of_int (int n)) (f64_of_int (int all_blocks))) (Fin 100) else Fin 0)"

definition distribution_row ::
  "hash_order \<Rightarrow> network_block list \<Rightarrow> string \<Rightarrow> group_stats \<Rightarrow> miner_distribution" where
  "distribution_row R bs key e = (let
       is_our_pool = list_ex (\<lambda>b. block_group_key b = key \<and> nb_is_our_pool b) bs;
       pool_name = (if is_our_pool then Some ''Our Pool''
         else Option.bind (find (\<lambda>b. block_group_key b = key) bs) nb_pool_name) in
     \<lparr>md_label = (case pool_name of Some n \<Rightarrow> n
        | None \<Rightarrow> if gs_address e = SHIELDED_MINER then key else truncate_address (gs_address e)),
      md_address = gs_address e, md_pool_name = pool_name, md_block_count = gs_count e,
      md_percent = percent_of (gs_count e) (length bs), md_is_our_pool = is_our_pool,
      md_zebrad_count = gs_zebrad e, md_zakura_count = gs_zakura e,
      md_dominant_tx_version = (case max_by_key snd (ho_versions R (gs_versions e)) of
         Some (v, _) \<Rightarrow> v | None \<Rightarrow> 0)\<rparr>)"

definition distribution :: "hash_order \<Rightarrow> network_block list \<Rightarrow> miner_distribution list" where
  "distribution R bs = (let m = group_blocks bs in
     order_by (\<lambda>a b. md_block_count b \<le> md_block_count a)
       (map (\<lambda>key. distribution_row R bs key (the (map_of m key))) (ho_groups R (map fst m))))"

definition mining_stats :: "hash_order \<Rightarrow> network_block list \<Rightarrow> network_mining_stats" where
  "mining_stats R bs = (let rows = distribution R bs; all_blocks = length bs;
       ours = length (filter nb_is_our_pool bs); zebrad = length (filter nb_is_zebrad bs);
       zakura = length (filter nb_is_zakura bs) in
     \<lparr>ns_blocks = bs, ns_distribution = rows, ns_total_blocks = all_blocks, ns_our_pool_blocks = ours,
      ns_our_pool_percent = percent_of ours all_blocks, ns_unique_miners = length rows,
      ns_zebrad_blocks = zebrad, ns_zebrad_percent = percent_of zebrad all_blocks,
      ns_zakura_blocks = zakura, ns_zakura_percent = percent_of zakura all_blocks\<rparr>)"

definition fetch_network_blocks ::
  "hash_order \<Rightarrow> hexlib \<Rightarrow> node_view \<Rightarrow> app_view \<Rightarrow> int \<Rightarrow> string \<Rightarrow> string + network_mining_stats" where
  "fetch_network_blocks R H N V now rng = (case nv_tip N of
     Inl e \<Rightarrow> Inl (''getblockcount: '' @ e)
   | Inr tip \<Rightarrow> (let cutoff_time = now - fst (range_params rng);
         raw_blocks = fetch_raw R N (scan_heights tip rng) in
       Inr (mining_stats R (split_names (read_blocks H V cutoff_time raw_blocks)))))"

definition empty_stats :: network_mining_stats where
  "empty_stats = \<lparr>ns_blocks = [], ns_distribution = [], ns_total_blocks = 0, ns_our_pool_blocks = 0,
     ns_our_pool_percent = Fin 0, ns_unique_miners = 0, ns_zebrad_blocks = 0, ns_zebrad_percent = Fin 0,
     ns_zakura_blocks = 0, ns_zakura_percent = Fin 0\<rparr>"

section \<open>The cache\<close>

type_synonym blocks_cache = "string \<rightharpoonup> network_mining_stats \<times> int"

definition cached :: "blocks_cache \<Rightarrow> int \<Rightarrow> string \<Rightarrow> network_mining_stats option" where
  "cached c now_ms rng = (case c rng of
     None \<Rightarrow> None | Some (d, ts) \<Rightarrow> if now_ms - ts < cache_ttl_ms rng then Some d else None)"

text \<open>\<open>fetched\<close> is what \<open>fetch_network_blocks\<close> returns for the range, \<open>stored_ms\<close> the clock when
  the result is stored.\<close>

definition get_network_blocks ::
  "(string \<Rightarrow> string + network_mining_stats) \<Rightarrow> int \<Rightarrow> int \<Rightarrow> string \<Rightarrow> blocks_cache
     \<Rightarrow> network_mining_stats \<times> blocks_cache" where
  "get_network_blocks fetched now_ms stored_ms query c = (let rng = normalize_range query in
     case cached c now_ms rng of
       Some d \<Rightarrow> (d, c)
     | None \<Rightarrow> (let stats = (case fetched rng of Inr s \<Rightarrow> s | Inl _ \<Rightarrow> empty_stats) in
         (stats, c(rng \<mapsto> (stats, stored_ms)))))"

definition warm_range ::
  "(string \<Rightarrow> string + network_mining_stats) \<Rightarrow> int \<Rightarrow> int \<Rightarrow> string \<Rightarrow> blocks_cache \<Rightarrow> blocks_cache" where
  "warm_range fetched now_ms stored_ms query c = (let rng = normalize_range query in
     case cached c now_ms rng of
       Some _ \<Rightarrow> c
     | None \<Rightarrow> (case fetched rng of Inr s \<Rightarrow> c(rng \<mapsto> (s, stored_ms)) | Inl _ \<Rightarrow> c))"

fun warm_cache ::
  "(string \<Rightarrow> string + network_mining_stats) \<Rightarrow> (int \<times> int \<times> string) list \<Rightarrow> blocks_cache \<Rightarrow> blocks_cache" where
  "warm_cache fetched [] c = c"
| "warm_cache fetched ((now_ms, stored_ms, rng) # rs) c =
     warm_cache fetched rs (warm_range fetched now_ms stored_ms rng c)"

end
