(* ===== verification/Admin_Operations.thy ===== *)
theory Admin_Operations
  imports Web_Handlers Network_Blocks
begin

text \<open>
  What an operator does on the admin page (\<open>pool-api/src/admin.rs\<close>): saving the configuration
  file, adjusting a balance, naming pools, and reading the health of the whole installation.
  The handlers run behind the guard of \<open>Admin_Access\<close>.  The TOML parser is a parameter; restarts
  run shell commands and are not modelled.
\<close>

section \<open>The configuration file\<close>

text \<open>The file's content and, for the next write, the operating system's answer\<close>

record config_file =
  cf_content :: string
  cf_write_error :: "string option"

definition api_config_raw :: "string + string \<Rightarrow> nat \<times> string" where
  "api_config_raw content = (case content of
     Inl e \<Rightarrow> (500, ''Failed to read config: '' @ e) | Inr c \<Rightarrow> (200, c))"

definition api_config_save :: "(string \<Rightarrow> string option) \<Rightarrow> string \<Rightarrow> config_file \<Rightarrow> (nat \<times> string) \<times> config_file" where
  "api_config_save toml_error content f = (case toml_error content of
     Some e \<Rightarrow> ((400, ''Invalid TOML: '' @ e), f)
   | None \<Rightarrow> (case cf_write_error f of
       Some e \<Rightarrow> ((500, ''Failed to write config: '' @ e), f)
     | None \<Rightarrow> ((200, ''Config saved. Restart the pool to apply changes.''), f\<lparr>cf_content := content\<rparr>)))"

section \<open>Balances\<close>

record adjustment =
  ad_miner_id :: int
  ad_address :: string
  ad_adjustment :: int
  ad_new_pending :: int
  ad_new_pending_zec :: f64

definition api_adjust_balance :: "string \<Rightarrow> int \<Rightarrow> (nat + adjustment) dbm" where
  "api_adjust_balance address amount =
     dbind (db_try (get_miner_by_address address)) (\<lambda>r. case r of
       Inr (Some miner) \<Rightarrow> dbind (db_try (adjust_miner_balance (mi_id miner) amount)) (\<lambda>r. dret (case r of
           Inr b \<Rightarrow> Inr \<lparr>ad_miner_id = mi_id miner, ad_address = address, ad_adjustment = amount,
             ad_new_pending = b, ad_new_pending_zec = to_zec b\<rparr>
         | Inl e \<Rightarrow> Inl 500))
     | Inr None \<Rightarrow> dret (Inl 404)
     | Inl e \<Rightarrow> dret (Inl 500))"

record admin_miner_info =
  ami_id :: int
  ami_address :: string
  ami_pending :: int
  ami_paid :: int
  ami_pending_zec :: f64
  ami_paid_zec :: f64
  ami_share_count :: int
  ami_worker_count :: int
  ami_last_seen :: "int option"
  ami_created :: int

definition api_miners :: "(nat + admin_miner_info list) dbm" where
  "api_miners = or_500 (map (\<lambda>m. \<lparr>ami_id = mi_id (am_miner m), ami_address = mi_address (am_miner m),
     ami_pending = am_pending m, ami_paid = am_paid m, ami_pending_zec = to_zec (am_pending m),
     ami_paid_zec = to_zec (am_paid m), ami_share_count = am_share_count m,
     ami_worker_count = am_worker_count m, ami_last_seen = am_last_seen m,
     ami_created = mi_created (am_miner m)\<rparr>)) get_all_miners_admin"

section \<open>Pool labels\<close>

definition api_pool_labels_list :: "(nat + label_row list) dbm" where
  "api_pool_labels_list = or_500 (\<lambda>ls. ls) list_pool_labels"

definition reply_status :: "unit dbm \<Rightarrow> nat dbm" where
  "reply_status m = dbind (db_try m) (\<lambda>r. dret (case r of Inr _ \<Rightarrow> 200 | Inl e \<Rightarrow> 500))"

definition api_pool_labels_upsert :: "string \<Rightarrow> string \<Rightarrow> string \<Rightarrow> nat dbm" where
  "api_pool_labels_upsert address name note = (let address = trim address; name = trim name in
     if address = [] \<or> name = [] then dret 400
     else reply_status (upsert_pool_label address name (trim note)))"

definition api_pool_labels_delete :: "string \<Rightarrow> nat dbm" where
  "api_pool_labels_delete address = reply_status (delete_pool_label (trim address))"

section \<open>Health of the installation\<close>

record longpoll_stats =
  lp_wakes_total :: nat
  lp_fails_total :: nat
  lp_last_fail_age_secs :: "int option"

definition status_i64 :: "string \<Rightarrow> int option dbm" where
  "status_i64 key = dbind (status_text key) (\<lambda>v. dret (Option.bind v parse_i64))"

text \<open>Integer division truncates toward zero.\<close>

definition tdiv :: "int \<Rightarrow> int \<Rightarrow> int" where
  "tdiv a b = (if 0 \<le> a then a div b else - ((- a) div b))"

definition read_longpoll :: "web_view \<Rightarrow> longpoll_stats dbm" where
  "read_longpoll W = dbind (status_u64 ''longpoll_wakes_total'') (\<lambda>wakes.
     dbind (status_u64 ''longpoll_fails_total'') (\<lambda>fails.
     dbind (status_i64 ''last_longpoll_fail_at_ms'') (\<lambda>last_fail.
     let last_fail_ms = (case last_fail of Some ms \<Rightarrow> ms | None \<Rightarrow> 0) in
     dret \<lparr>lp_wakes_total = wakes, lp_fails_total = fails,
       lp_last_fail_age_secs = (if last_fail_ms > 0 then Some (tdiv (wv_now_ms W - last_fail_ms) 1000)
         else None)\<rparr>)))"

record admin_health =
  ah_node_ok :: bool
  ah_node_height :: "nat option"
  ah_last_template_at :: "string option"
  ah_last_template_age_secs :: "int option"
  ah_wallet :: zallet_status
  ah_dashboard_uptime_secs :: int
  ah_pool_uptime_secs :: "int option"
  ah_connected_miners :: int
  ah_connected_workers :: int
  ah_shares_accepted :: nat
  ah_shares_rejected :: nat
  ah_shares_rejection_rate :: f64
  ah_rate_counters :: "nat \<times> nat"
  ah_rejections :: "nat \<times> nat \<times> nat \<times> nat"
  ah_payout_health :: "json option"
  ah_longpoll :: longpoll_stats

definition rejection_rate :: "nat \<Rightarrow> nat \<Rightarrow> f64" where
  "rejection_rate good bad = (if 0 < good + bad
     then fmul (fdiv (f64_of_int (int bad)) (f64_of_int (int (good + bad)))) (Fin 100) else Fin 0)"

text \<open>The versions, the system's load and the caches of other tasks are left out.\<close>

definition api_health :: "api_state \<Rightarrow> web_view \<Rightarrow> int \<Rightarrow> admin_health dbm" where
  "api_health st W started_at =
     dbind (get_last_template_ms st W) (\<lambda>(node_ok, last_template_at).
     dbind (db_or 0 get_connected_miners_count) (\<lambda>nminers.
     dbind (db_or 0 get_connected_workers_count) (\<lambda>nworkers.
     dbind (get_shares_counters st) (\<lambda>(good, bad).
     dbind get_rate_counters (\<lambda>rates.
     dbind get_rejection_breakdown (\<lambda>rejections.
     dbind (status_text ''payout_health'') (\<lambda>payout_health.
     dbind (read_longpoll W) (\<lambda>longpoll.
     dbind (status_i64 ''pool_started_at'') (\<lambda>pool_started.
     let now = wv_now_ms W div 1000 in
     dret \<lparr>ah_node_ok = node_ok, ah_node_height = wv_tip W, ah_last_template_at = last_template_at,
       ah_last_template_age_secs = map_option (\<lambda>t. tdiv (wv_now_ms W - t) 1000)
         (Option.bind last_template_at (wv_from_rfc3339 W)),
       ah_wallet = get_zallet_status st W, ah_dashboard_uptime_secs = now - started_at,
       ah_pool_uptime_secs = map_option (\<lambda>t. now - t) pool_started,
       ah_connected_miners = nminers, ah_connected_workers = nworkers, ah_shares_accepted = good,
       ah_shares_rejected = bad, ah_shares_rejection_rate = rejection_rate good bad,
       ah_rate_counters = rates, ah_rejections = rejections,
       ah_payout_health = Option.bind payout_health (wv_json W), ah_longpoll = longpoll\<rparr>)))))))))"

section \<open>A label names the pool on the network page\<close>

lemma label_ok:
  assumes "db_faults s = []"
  shows "get_pool_label_map s = (Inr (map (\<lambda>r. (lb_address r, lb_name r)) (labels s)), s)"
  using assms by (simp add: get_pool_label_map_def select_def stmt_def tick_def)

lemma map_of_upserted:
  "map_of (map (\<lambda>r. (lb_address r, lb_name r)) (upd_where (\<lambda>r. lb_address r = a)
     (\<lambda>r. r\<lparr>lb_name := n, lb_note := x, lb_updated := t\<rparr>) rows)) =
   (\<lambda>k. if k = a \<and> list_ex (\<lambda>r. lb_address r = a) rows then Some n
      else map_of (map (\<lambda>r. (lb_address r, lb_name r)) rows) k)"
  by (rule ext, induction rows) (auto simp: upd_where_def)

lemma map_of_none: "\<not> list_ex (\<lambda>r. lb_address r = a) rows \<Longrightarrow>
   map_of (map (\<lambda>r. (lb_address r, lb_name r)) rows) a = None"
  by (induction rows) auto

lemma map_of_deleted:
  "map_of (map (\<lambda>r. (lb_address r, lb_name r)) (filter (\<lambda>r. lb_address r \<noteq> a) rows)) =
   (\<lambda>k. if k = a then None else map_of (map (\<lambda>r. (lb_address r, lb_name r)) rows) k)"
  by (rule ext, induction rows) auto

definition labels_of :: "db \<Rightarrow> (string \<times> string) list" where
  "labels_of s = (case fst (get_pool_label_map s) of Inr m \<Rightarrow> m | Inl e \<Rightarrow> [])"

lemma labels_of_eq: "db_faults s = [] \<Longrightarrow> labels_of s = map (\<lambda>r. (lb_address r, lb_name r)) (labels s)"
  by (simp add: labels_of_def label_ok)

lemma upsert_labels:
  assumes "db_faults s = []" "trim address \<noteq> []" "trim name \<noteq> []"
    "s1 = snd (api_pool_labels_upsert address name note s)"
  shows "db_faults s1 = [] \<and> map_of (labels_of s1) = (map_of (labels_of s))(trim address \<mapsto> trim name)"
proof -
  have s1: "s1 = (if list_ex (\<lambda>r. lb_address r = trim address) (labels s)
      then s\<lparr>labels := upd_where (\<lambda>r. lb_address r = trim address)
        (\<lambda>r. r\<lparr>lb_name := trim name, lb_note := trim note, lb_updated := db_clock s\<rparr>) (labels s)\<rparr>
      else s\<lparr>labels := labels s @
        [\<lparr>lb_address = trim address, lb_name = trim name, lb_note = trim note, lb_updated = db_clock s\<rparr>]\<rparr>)"
    using assms by (simp add: api_pool_labels_upsert_def reply_status_def db_try_def dbind_def upsert_pool_label_def
        modify_def stmt_def tick_def Let_def)
  then have f: "db_faults s1 = []" using assms(1) by simp
  show ?thesis
  proof (cases "list_ex (\<lambda>r. lb_address r = trim address) (labels s)")
    case True
    then show ?thesis using s1 f by (auto simp: labels_of_eq assms(1) map_of_upserted)
  next
    case False
    then show ?thesis using s1 f map_of_none [OF False]
      by (auto simp: labels_of_eq assms(1) map_add_def split: option.split)
  qed
qed

lemma delete_labels:
  assumes "db_faults s = []" "s1 = snd (api_pool_labels_delete address s)"
  shows "map_of (labels_of s1) = (map_of (labels_of s))(trim address := None)"
proof -
  have s1: "s1 = s\<lparr>labels := filter (\<lambda>r. lb_address r \<noteq> trim address) (labels s)\<rparr>"
    using assms by (simp add: api_pool_labels_delete_def reply_status_def db_try_def dbind_def delete_pool_label_def
        modify_def stmt_def tick_def)
  then have "db_faults s1 = []" using assms(1) by simp
  then show ?thesis using s1 by (auto simp: labels_of_eq assms(1) map_of_deleted)
qed

text \<open>
  A name given on the admin page is the name the network page shows for the miner, before every
  built-in name and every tag in the coinbase; other miners are named as before, and deleting
  the label restores the built-in naming.
\<close>
theorem label_names_the_pool:
  assumes "db_faults s = []" "trim address \<noteq> []" "trim name \<noteq> []"
  shows "let s1 = snd (api_pool_labels_upsert address name note s);
             s2 = snd (api_pool_labels_delete address s1) in
    identify_pool a txt (labels_of s1) = (if a = trim address then Some (trim name) else identify_pool a txt (labels_of s))
    \<and> identify_pool a txt (labels_of s2) = identify_pool a txt (if a = trim address then [] else labels_of s)"
proof -
  define s1 where "s1 = snd (api_pool_labels_upsert address name note s)"
  note u = upsert_labels [OF assms s1_def]
  define s2 where "s2 = snd (api_pool_labels_delete address s1)"
  have d: "map_of (labels_of s2) = (map_of (labels_of s1))(trim address := None)"
    using delete_labels [OF _ s2_def] u by simp
  show ?thesis using u d by (simp add: s1_def [symmetric] s2_def [symmetric] identify_pool_def)
qed

end
