(* ===== verification/Network_Properties.thy ===== *)
theory Network_Properties
  imports Network_Blocks
begin

text \<open>
  The network page: its answer does not depend on the order of concurrent requests or of the
  hash map, its rows partition the blocks, and what a stranger's coinbase can do to them.
\<close>


section \<open>Sorting\<close>

lemma set_insert_by [simp]: "set (insert_by le x xs) = insert x (set xs)"
  by (induction xs) auto

lemma sorted_insert_by:
  assumes "\<And>a b. le a b \<or> le b a" "\<And>a b c. le a b \<Longrightarrow> le b c \<Longrightarrow> le a c" "sorted_wrt le xs"
  shows "sorted_wrt le (insert_by le x xs)"
  using assms(3)
proof (induction xs)
  case (Cons y ys)
  show ?case
  proof (cases "le x y")
    case True
    then show ?thesis using Cons.prems assms(2) [OF True] by auto
  next
    case False
    then have "le y x" using assms(1) by blast
    then show ?thesis using Cons False by auto
  qed
qed simp

lemma sorted_order_by:
  assumes "\<And>a b. le a b \<or> le b a" "\<And>a b c. le a b \<Longrightarrow> le b c \<Longrightarrow> le a c"
  shows "sorted_wrt le (order_by le xs)"
  unfolding order_by_def by (induction xs) (use sorted_insert_by [OF assms] in auto)

lemma order_by_descending:
  assumes "mset xs = mset ys" "distinct (map fst ys)" "sorted_wrt (\<lambda>a b. b \<le> a) (map fst ys)"
  shows "order_by (\<lambda>a b. fst b \<le> (fst a :: nat)) xs = ys"
proof -
  let ?zs = "order_by (\<lambda>a b. fst b \<le> fst a) xs"
  have m: "mset ?zs = mset ys" by (simp add: mset_order_by assms(1))
  have "mset (map fst ?zs) = mset (map fst ys)" by (simp only: mset_map m)
  then have d: "distinct (map fst ?zs)" using assms(2) mset_eq_imp_distinct_iff by blast
  have "sorted_wrt (\<lambda>a b. fst b \<le> fst a) ?zs" by (rule sorted_order_by) auto
  then have "sorted (map fst (rev ?zs))" by (simp add: sorted_wrt_map sorted_wrt_rev)
  moreover have "sorted (map fst (rev ys))" using assms(3) by (simp add: rev_map [symmetric] sorted_wrt_rev)
  moreover have "set (rev ?zs) = set (rev ys)" using mset_eq_setD [OF m] by simp
  moreover have "inj_on fst (set (rev ?zs) \<union> set (rev ys))"
    using assms(2) mset_eq_setD [OF m] by (simp add: distinct_map)
  ultimately have "rev ?zs = rev ys"
    using d assms(2) by (intro map_sorted_distinct_set_unique [of fst]) (simp_all add: rev_map [symmetric])
  then show ?thesis by simp
qed

section \<open>The order of the requests does not matter\<close>

lemma chunks_concat: "0 < n \<Longrightarrow> concat (chunks n xs) = xs"
  by (induction n xs rule: chunks.induct) (subst chunks.simps, simp)

lemma map_filter_mset: "mset xs = mset ys \<Longrightarrow> mset (List.map_filter f xs) = mset (List.map_filter f ys)"
  by (simp add: map_filter_def mset_filter)

lemma map_filter_concat: "List.map_filter f (concat xss) = concat (map (List.map_filter f) xss)"
  by (induction xss) (simp_all add: map_filter_def)

lemma fetch_raw_mset:
  assumes "\<forall>hs. mset (ho_requests R hs) = mset hs"
  shows "mset (fetch_raw R N hs) = mset (List.map_filter (fetch_block N) hs)"
proof -
  have "mset (concat (map (\<lambda>c. List.map_filter (fetch_block N) (ho_requests R c)) cs))
      = mset (concat (map (List.map_filter (fetch_block N)) cs))" for cs
    by (induction cs) (simp_all add: map_filter_mset [OF assms [THEN spec]])
  then show ?thesis
    using chunks_concat [of CONCURRENCY hs] map_filter_concat [of "fetch_block N" "chunks CONCURRENCY hs"]
    by (simp add: fetch_raw_def CONCURRENCY_def)
qed

lemma fetch_block_height: "fetch_block N h = Some (h', d) \<Longrightarrow> h' = h"
  by (auto simp: fetch_block_def split: option.splits)

lemma fst_fetched: "map fst (List.map_filter (fetch_block N) hs) = filter (\<lambda>h. fetch_block N h \<noteq> None) hs"
  by (induction hs) (auto simp: map_filter_simps dest: fetch_block_height split: option.splits)

text \<open>Up to 50 requests are in flight at a time and they may complete in any order: the page shows
  the blocks the node has, in descending height, all the same.
\<close>
theorem page_independent_of_order:
  assumes "\<forall>hs. mset (ho_requests R hs) = mset hs"
  shows "read_blocks H V cutoff (fetch_raw R N (scan_heights tip rng))
    = map (\<lambda>(h, b). block_info H V h b) (filter (\<lambda>(h, b). cutoff \<le> i64_or_0 (jget ''time'' b))
        (List.map_filter (fetch_block N) (scan_heights tip rng)))"
proof -
  let ?hs = "scan_heights tip rng"
  have "sorted_wrt (\<lambda>a b. b \<le> a) ?hs" by (simp add: scan_heights_def sorted_wrt_rev del: upt_Suc)
  then have "order_by (\<lambda>a b. fst b \<le> fst a) (fetch_raw R N ?hs) = List.map_filter (fetch_block N) ?hs"
    by (intro order_by_descending fetch_raw_mset [OF assms])
      (auto simp: fst_fetched scan_heights_def intro: sorted_wrt_filter distinct_filter)
  then show ?thesis by (simp add: read_blocks_def not_less)
qed

section \<open>Every block is in one row\<close>

definition count_of :: "string \<Rightarrow> (string \<times> group_stats) list \<Rightarrow> nat" where
  "count_of k m = (case map_of m k of None \<Rightarrow> 0 | Some e \<Rightarrow> gs_count e)"

lemma count_of_add:
  "count_of k (add_block b m) = count_of k m + (if block_group_key b = k then 1 else 0)"
  by (auto simp: count_of_def add_block_def Let_def update_conv' split: option.splits)

lemma keys_add:
  "fst ` set (add_block b m) = insert (block_group_key b) (fst ` set m)"
  "distinct (map fst m) \<Longrightarrow> distinct (map fst (add_block b m))"
  by (simp_all add: add_block_def Let_def dom_update distinct_update)

lemma fold_add_block:
  "distinct (map fst m) \<Longrightarrow> distinct (map fst (fold add_block bs m))"
  "fst ` set (fold add_block bs m) = fst ` set m \<union> block_group_key ` set bs"
  "count_of k (fold add_block bs m) = count_of k m + length (filter (\<lambda>b. block_group_key b = k) bs)"
  by (induction bs arbitrary: m) (auto simp: keys_add count_of_add)

lemma group_blocks_facts:
  "distinct (map fst (group_blocks bs))"
  "set (map fst (group_blocks bs)) = block_group_key ` set bs"
  "map_of (group_blocks bs) k = Some e \<Longrightarrow> gs_count e = length (filter (\<lambda>b. block_group_key b = k) bs)"
proof -
  show "distinct (map fst (group_blocks bs))" by (simp add: group_blocks_def fold_add_block(1))
  show "set (map fst (group_blocks bs)) = block_group_key ` set bs"
    using fold_add_block(2) [of bs "[]"] by (simp add: group_blocks_def)
  show "map_of (group_blocks bs) k = Some e \<Longrightarrow> gs_count e = length (filter (\<lambda>b. block_group_key b = k) bs)"
    using fold_add_block(3) [of k bs "[]"] by (simp add: group_blocks_def count_of_def)
qed

definition row_size :: "network_block list \<Rightarrow> string \<Rightarrow> nat" where
  "row_size bs k = length (filter (\<lambda>b. block_group_key b = k) bs)"

lemma row_count:
  assumes "k \<in> block_group_key ` set bs"
  shows "md_block_count (distribution_row R bs k (the (map_of (group_blocks bs) k))) = row_size bs k"
proof -
  have "k \<in> fst ` set (group_blocks bs)" using assms group_blocks_facts(2) [of bs] by simp
  then obtain e where "map_of (group_blocks bs) k = Some e" by (metis map_of_eq_None_iff not_None_eq)
  then show ?thesis using group_blocks_facts(3) [of bs k e]
    by (simp add: distribution_row_def Let_def row_size_def)
qed

lemma sum_row_sizes:
  "distinct ks \<Longrightarrow> set ks = block_group_key ` set bs \<Longrightarrow> sum_list (map (row_size bs) ks) = length bs"
proof -
  assume d: "distinct ks" "set ks = block_group_key ` set bs"
  have "row_size bs = count_list (map block_group_key bs)"
    unfolding row_size_def by (rule ext, induction bs) auto
  then have "sum_list (map (row_size bs) ks) = (\<Sum>k \<in> set ks. count_list (map block_group_key bs) k)"
    using d(1) by (simp add: sum_list_distinct_conv_sum_set)
  then show ?thesis using d(2) by (simp add: sum_count_set)
qed

lemma insert_by_map: "insert_by le (f x) (map f xs) = map f (insert_by (\<lambda>a b. le (f a) (f b)) x xs)"
  by (induction xs) auto

lemma order_by_map: "order_by le (map f xs) = map f (order_by (\<lambda>a b. le (f a) (f b)) xs)"
  unfolding order_by_def by (induction xs) (simp_all add: insert_by_map)

lemma distribution_rows:
  assumes "\<forall>ks. mset (ho_groups R ks) = mset ks"
  shows "\<exists>ks. distinct ks \<and> set ks = block_group_key ` set bs
    \<and> map md_block_count (distribution R bs) = map (row_size bs) ks"
proof -
  let ?row = "\<lambda>k. distribution_row R bs k (the (map_of (group_blocks bs) k))"
  let ?ks = "ho_groups R (map fst (group_blocks bs))"
  have m: "mset ?ks = mset (map fst (group_blocks bs))" using assms by blast
  have ks: "distinct ?ks" "set ?ks = block_group_key ` set bs"
    using mset_eq_imp_distinct_iff [OF m] mset_eq_setD [OF m] group_blocks_facts [of bs] by auto
  define ks' where "ks' = order_by (\<lambda>a b. md_block_count (?row b) \<le> md_block_count (?row a)) ?ks"
  have k: "mset ks' = mset ?ks" "distribution R bs = map ?row ks'"
    by (simp_all add: ks'_def distribution_def Let_def order_by_map mset_order_by)
  show ?thesis
  proof (intro exI conjI)
    show "distinct ks'" "set ks' = block_group_key ` set bs"
      using k(1) ks mset_eq_imp_distinct_iff mset_eq_setD by metis+
    then show "map md_block_count (distribution R bs) = map (row_size bs) ks'"
      by (simp add: k(2) row_count)
  qed
qed

lemma distribution_sorted: "sorted_wrt (\<lambda>a b. b \<le> a) (map md_block_count (distribution R bs))"
  by (auto simp: distribution_def Let_def sorted_wrt_map intro!: sorted_order_by)

text \<open>C37: 
  The rows of the network page partition the blocks: there is one row per identity among the
  blocks, it counts the blocks of that identity, the rows come in descending size, their sizes
  add up to the number of blocks, and the number of miners is that of the identities; whatever
  the order in which the hash map yields its groups.
\<close>
theorem every_block_in_one_row:
  assumes "\<forall>ks. mset (ho_groups R ks) = mset ks" "fetch_network_blocks R H N V now rng = Inr s"
  shows "(\<exists>keys. distinct keys \<and> set keys = block_group_key ` set (ns_blocks s)
      \<and> map md_block_count (ns_distribution s) = map (row_size (ns_blocks s)) keys)
    \<and> sorted_wrt (\<lambda>a b. b \<le> a) (map md_block_count (ns_distribution s))
    \<and> sum_list (map md_block_count (ns_distribution s)) = ns_total_blocks s
    \<and> ns_unique_miners s = card (block_group_key ` set (ns_blocks s))"
proof -
  obtain bs where s: "s = mining_stats R bs"
    using assms(2) by (auto simp: fetch_network_blocks_def Let_def split: sum.splits)
  obtain ks where ks: "distinct ks" "set ks = block_group_key ` set bs"
    "map md_block_count (distribution R bs) = map (row_size bs) ks"
    using distribution_rows [OF assms(1)] by blast
  have "length (distribution R bs) = card (block_group_key ` set bs)"
    using arg_cong [OF ks(3), of length] distinct_card [OF ks(1)] ks(2) by simp
  then show ?thesis using ks sum_row_sizes [OF ks(1,2)] distribution_sorted [of R bs]
    by (simp add: s mining_stats_def Let_def) blast
qed

definition some_order :: hash_order where
  "some_order = \<lparr>ho_requests = rev, ho_groups = rev, ho_versions = rev\<rparr>"

definition coinbase_block :: "string \<Rightarrow> string \<Rightarrow> json" where
  "coinbase_block hex address = JObj [(''time'', JNum (PosInt 5000)), (''tx'', JArr [JObj
     [(''vin'', JArr [JObj [(''coinbase'', JStr hex)]]),
      (''vout'', JArr [JObj [(''scriptPubKey'', JObj [(''address'', JStr address)])]])]])]"

definition two_blocks :: node_view where
  "two_blocks = \<lparr>nv_tip = Inr 2, nv_hash = (\<lambda>h. Some (show_nat h)),
     nv_block = (\<lambda>hash v. Some (coinbase_block ''00'' (if hash = ''1'' then ''tA'' else ''tB'')))\<rparr>"

definition tagged_view :: app_view where
  "tagged_view = \<lparr>av_mining_address = Some ''tA'', av_coinbase_tag = None, av_label_overrides = []\<rparr>"

theorem page_independent_of_order_witness:
  "read_blocks hex_ref tagged_view 0 (fetch_raw some_order two_blocks (scan_heights 2 ''1h''))
    = map (\<lambda>(h, b). block_info hex_ref tagged_view h b) (filter (\<lambda>(h, b). 0 \<le> i64_or_0 (jget ''time'' b))
        (List.map_filter (fetch_block two_blocks) (scan_heights 2 ''1h'')))"
  by (rule page_independent_of_order) (simp add: some_order_def)

theorem every_block_in_one_row_witness:
  "(case fetch_network_blocks some_order hex_ref two_blocks tagged_view 6000 ''1h'' of Inl e \<Rightarrow> False | Inr s \<Rightarrow>
      sum_list (map md_block_count (ns_distribution s)) = ns_total_blocks s
      \<and> ns_unique_miners s = card (block_group_key ` set (ns_blocks s)))"
proof -
  obtain s where "fetch_network_blocks some_order hex_ref two_blocks tagged_view 6000 ''1h'' = Inr s"
    by (simp add: fetch_network_blocks_def two_blocks_def)
  then show ?thesis
    using every_block_in_one_row [of some_order hex_ref two_blocks tagged_view 6000 "''1h''" s]
    by (simp add: some_order_def)
qed

section \<open>Who is counted as ours\<close>

lemma row_of:
  assumes "\<forall>ks. mset (ho_groups R ks) = mset ks" "k \<in> block_group_key ` set bs"
  shows "distribution_row R bs k (the (map_of (group_blocks bs) k)) \<in> set (distribution R bs)"
proof -
  have "set (ho_groups R (map fst (group_blocks bs))) = block_group_key ` set bs"
    using mset_eq_setD [OF assms(1) [THEN spec]] group_blocks_facts(2) by metis
  then show ?thesis using assms(2) by (auto simp: distribution_def Let_def)
qed

text \<open>C40: 
  A stranger with a shielded coinbase that says \<open>Our Pool\<close> is grouped under its tag, which is the
  name of our own row: the row marked as ours then counts blocks that are not ours.
\<close>
theorem stranger_counted_as_ours:
  assumes "\<forall>ks. mset (ho_groups R ks) = mset ks" "b \<in> set bs" "nb_is_our_pool b" "nb_pool_name b = Some ''Our Pool''"
    "c \<in> set bs" "\<not> nb_is_our_pool c" "nb_pool_name c = None" "nb_miner_address c = SHIELDED_MINER"
    "coinbase_tag (nb_coinbase_text c) = Some ''Our Pool''"
  shows "\<exists>row \<in> set (distribution R bs). md_is_our_pool row \<and> md_label row = ''Our Pool''
    \<and> length (filter (\<lambda>b. nb_is_our_pool b \<and> block_group_key b = ''Our Pool'') bs) < md_block_count row"
proof -
  let ?k = "''Our Pool''"
  have kb: "block_group_key b = ?k" "block_group_key c = ?k" using assms by (simp_all add: block_group_key_def)
  then have k: "?k \<in> block_group_key ` set bs" using assms(2) by force
  have "filter (\<lambda>b. nb_is_our_pool b \<and> block_group_key b = ?k) bs
      = filter nb_is_our_pool (filter (\<lambda>b. block_group_key b = ?k) bs)" by (simp add: conj_commute)
  then have "length (filter (\<lambda>b. nb_is_our_pool b \<and> block_group_key b = ?k) bs) < row_size bs ?k"
    unfolding row_size_def
    using kb assms(5,6) length_filter_less [of c "filter (\<lambda>b. block_group_key b = ?k) bs" nb_is_our_pool] by simp
  moreover have "list_ex (\<lambda>b. block_group_key b = ?k \<and> nb_is_our_pool b) bs"
    using assms(2,3) kb by (auto simp: list_ex_iff)
  ultimately show ?thesis using row_of [OF assms(1) k] row_count [OF k, of R]
    by (intro bexI) (auto simp: distribution_row_def Let_def)
qed

definition our_block :: network_block where
  "our_block = block_info hex_ref tagged_view 1 (coinbase_block ''00'' ''tA'')"

definition stranger_block :: network_block where
  "stranger_block = block_info hex_ref tagged_view 2 (JObj [(''tx'', JArr [JObj
     [(''vin'', JArr [JObj [(''coinbase'', JStr ''004f757220506f6f6c'')]]), (''valueBalanceZat'', JNum (NegInt (- 125000000)))]])])"

lemma stranger_text: "hex_to_ascii_lossy hex_ref ''004f757220506f6f6c'' = ''.Our Pool''"
  by code_simp

lemma stranger_tag: "coinbase_tag ''.Our Pool'' = Some ''Our Pool''" "identify_pool ''shielded'' ''.Our Pool'' [] = None"
  by code_simp+

lemma our_block_facts: "nb_is_our_pool our_block" "nb_pool_name our_block = Some ''Our Pool''"
  by (simp_all add: our_block_def block_info_def Let_def is_ours_def our_address_def tagged_view_def
      extract_coinbase_from_block_def arr_first_def coinbase_block_def shielded_coinbase_zat_def i64_or_0_def opt_get_def
      vout_address_def)

lemma stranger_block_facts: "\<not> nb_is_our_pool stranger_block" "nb_pool_name stranger_block = None"
  "nb_miner_address stranger_block = SHIELDED_MINER" "nb_coinbase_text stranger_block = ''.Our Pool''"
  by (simp_all add: stranger_block_def block_info_def Let_def is_ours_def our_address_def tagged_view_def our_tag_hex_def
      extract_coinbase_from_block_def arr_first_def shielded_coinbase_zat_def i64_or_0_def opt_get_def
      str_or_empty_def stranger_text stranger_tag SHIELDED_MINER_def)

theorem stranger_counted_as_ours_witness:
  "\<exists>row \<in> set (distribution some_order [stranger_block, our_block]). md_is_our_pool row \<and> md_label row = ''Our Pool''
    \<and> length (filter (\<lambda>b. nb_is_our_pool b \<and> block_group_key b = ''Our Pool'') [stranger_block, our_block]) < md_block_count row"
  by (rule stranger_counted_as_ours [where b = our_block and c = stranger_block])
    (simp_all add: some_order_def our_block_facts stranger_block_facts stranger_tag)

text \<open>
  One failed \<open>getblockcount\<close> blanks the page: the empty answer is cached, so for the rest of the
  cache's lifetime the page stays empty and the background task does not refresh it, even when
  the node answers again.
\<close>
theorem failed_fetch_blanks_the_page:
  assumes "cached c t1 (normalize_range q) = None" "down (normalize_range q) = Inl e"
    "t2 - stored < cache_ttl_ms (normalize_range q)"
  shows "let c1 = snd (get_network_blocks down t1 stored q c) in
    fst (get_network_blocks up t2 t3 q c1) = empty_stats \<and> warm_range up t2 t3 q c1 = c1"
  using assms by (simp add: get_network_blocks_def warm_range_def cached_def Let_def)

end
