(* ===== verification/Pool_Start.thy ===== *)
theory Pool_Start
  imports Web_Handlers Share_Sessions
begin

text \<open>
  The two main programs: what \<open>pool-server/src/main.rs\<close> and \<open>pool-dashboard/src/main.rs\<close> compute
  from their configuration, the checks before anything is served, the backfill of block luck,
  the status task that hands the pool's counters to the dashboard process through the table
  \<open>pool_status\<close>, and the watchdog.  A \<open>HashMap\<close> of the configuration is the list of its entries
  in the order of iteration.
\<close>

section \<open>Stratum ports\<close>

record stratum_port_config =
  spc_addr :: string
  spc_description :: string
  spc_initial_difficulty :: "f64 option"

record stratum_config =
  stc_listen_addr :: "string option"
  stc_listen_addrs :: "string list option"
  stc_port_difficulty :: "(string \<times> f64) list"
  stc_ports :: "stratum_port_config list"

definition addrs :: "stratum_config \<Rightarrow> string list" where
  "addrs c = (if stc_ports c \<noteq> [] then map spc_addr (stc_ports c)
     else case stc_listen_addrs c of
       Some as \<Rightarrow> as
     | None \<Rightarrow> (case stc_listen_addr c of Some a \<Rightarrow> [a] | None \<Rightarrow> [''0.0.0.0:3333'']))"

definition port_of :: "string \<Rightarrow> nat option" where
  "port_of addr = parse_unsigned 16 (last (split_on (CHR '':'') addr))"

definition set_port :: "(nat \<rightharpoonup> f64) \<Rightarrow> stratum_port_config \<Rightarrow> (nat \<rightharpoonup> f64)" where
  "set_port m p = (case spc_initial_difficulty p of
     None \<Rightarrow> m
   | Some diff \<Rightarrow> (case port_of (spc_addr p) of None \<Rightarrow> m | Some port \<Rightarrow> m(port \<mapsto> diff)))"

definition resolved_port_difficulty :: "stratum_config \<Rightarrow> (nat \<rightharpoonup> f64)" where
  "resolved_port_difficulty c = foldl set_port
     (foldl (\<lambda>m (k, v). case parse_unsigned 16 k of None \<Rightarrow> m | Some port \<Rightarrow> m(port \<mapsto> v)) Map.empty
       (stc_port_difficulty c)) (stc_ports c)"

definition port_or_0 :: "string \<Rightarrow> u16" where
  "port_or_0 addr = (case port_of addr of Some p \<Rightarrow> of_nat p | None \<Rightarrow> 0)"

definition port_info :: "stratum_config \<Rightarrow> stratum_port_info list" where
  "port_info c = (if stc_ports c \<noteq> []
     then map (\<lambda>p. \<lparr>pi_port = port_or_0 (spc_addr p), pi_description = spc_description p\<rparr>) (stc_ports c)
     else map (\<lambda>a. \<lparr>pi_port = port_or_0 a, pi_description = ''Default''\<rparr>) (addrs c))"

definition main_port :: "stratum_config \<Rightarrow> u16" where
  "main_port c = (case addrs c of
     [] \<Rightarrow> 3333 | a # _ \<Rightarrow> (case port_of a of Some p \<Rightarrow> of_nat p | None \<Rightarrow> 3333))"

section \<open>Difficulty\<close>

definition initial_difficulty :: "bytes \<Rightarrow> f64" where
  "initial_difficulty pool_target = (let t = target_value pool_target (Fin 0) in
     if flt (Fin 0) t then fdiv pow_limit_f64 t else Fin 1)"

definition difficulty_multiplier :: "bytes \<Rightarrow> f64" where
  "difficulty_multiplier pool_target = (let t = target_value pool_target (Fin 0) in
     if flt (Fin 0) t then fdiv (fpow2 256) t else Fin 1)"

text \<open>The difficulty and target announced on each port before authorization.\<close>

definition subscribe_initial :: "hexlib \<Rightarrow> (nat \<rightharpoonup> f64) \<Rightarrow> (nat \<rightharpoonup> f64 \<times> string)" where
  "subscribe_initial H ports = (\<lambda>p. map_option (\<lambda>d. (d, difficulty_to_target_hex H d)) (ports p))"

definition vardiff_config_of :: "bytes \<Rightarrow> f64 \<Rightarrow> nat \<Rightarrow> vardiff_config" where
  "vardiff_config_of pool_target per_minute retarget_secs =
     \<lparr>vc_initial_difficulty = initial_difficulty pool_target, vc_target_shares_per_minute = per_minute,
      vc_retarget_interval_secs = f64_of_int (int retarget_secs)\<rparr>"

section \<open>The reward scheme\<close>

definition reward_mode_of :: "string \<Rightarrow> string + reward_mode" where
  "reward_mode_of mode = (let m = map to_lower mode in
     if m = ''solo'' then Inr Solo else if m = ''pplns'' then Inr Pplns
     else Inl (''unsupported [pplns] mode '' @ m))"

definition calculator_of :: "f64 \<Rightarrow> f64 \<Rightarrow> string \<Rightarrow> string + pplns_calculator" where
  "calculator_of window_multiplier fee_percent mode = (case reward_mode_of mode of
     Inl e \<Rightarrow> Inl e
   | Inr m \<Rightarrow> Inr (pplns_new (as_i64 (fmul window_multiplier (Fin 1000))) (fdiv fee_percent (Fin 100)) m))"

text \<open>The dashboard's reading of the same configuration\<close>

definition payout_scheme :: "string \<Rightarrow> string" where
  "payout_scheme mode = (if map to_lower mode = ''solo'' then ''Solo'' else ''PPLNS'')"

definition pay_immature_in_effect :: "bool \<Rightarrow> string \<Rightarrow> f64 \<Rightarrow> bool" where
  "pay_immature_in_effect knob mode reserve_min =
     (knob \<and> map to_lower mode = ''solo'' \<and> flt (Fin 0) reserve_min)"

definition coalesce_fallback :: "int \<Rightarrow> f64 option \<Rightarrow> int \<times> int" where
  "coalesce_fallback min_interval override = (min_interval,
     (case override of Some z \<Rightarrow> to_zatoshis z | None \<Rightarrow> 2 ^ 63 - 1))"

text \<open>The ops view needs a password and an upstream.\<close>

definition ops_settings :: "string option \<Rightarrow> string option \<Rightarrow> (string \<times> string) option" where
  "ops_settings password upstream = (case (map_option trim password, map_option trim upstream) of
     (Some pw, Some up) \<Rightarrow> if pw \<noteq> [] \<and> up \<noteq> [] then Some (pw, up) else None
   | _ \<Rightarrow> None)"

section \<open>Checks before serving\<close>

datatype start_error =
    Schema_hole db_error
  | Pps_check_failed db_error
  | Pps_epoch
  | No_wal_mode db_error
  | Bad_target
  | Bad_mode string

definition set_wal_mode :: "unit dbm" where
  "set_wal_mode = stmt (\<lambda>s. (Inr (), s))"

definition open_database :: "schema \<Rightarrow> (start_error + unit) dbm" where
  "open_database sc =
     dbind (db_try (assert_critical_schema sc)) (\<lambda>r. case r of
       Inl e \<Rightarrow> dret (Inl (Schema_hole e))
     | Inr _ \<Rightarrow> dbind (db_try (pps_epoch_present sc)) (\<lambda>r. case r of
         Inl e \<Rightarrow> dret (Inl (Pps_check_failed e))
       | Inr True \<Rightarrow> dret (Inl Pps_epoch)
       | Inr False \<Rightarrow> dbind (db_try set_wal_mode) (\<lambda>r. case r of
           Inl e \<Rightarrow> dret (Inl (No_wal_mode e)) | Inr _ \<Rightarrow> dret (Inr ()))))"

section \<open>Backfill of block luck\<close>

definition multiplier_for_backfill :: "hexlib \<Rightarrow> string \<Rightarrow> f64" where
  "multiplier_for_backfill H initial_target = (case parse_target H initial_target of
     Inl _ \<Rightarrow> Fin 1 | Inr t \<Rightarrow> difficulty_multiplier t)"

text \<open>\<open>previous\<close> is when the block below was found, the epoch for the first.\<close>

fun backfill_from :: "sql_agg \<Rightarrow> f64 \<Rightarrow> f64 \<Rightarrow> int \<Rightarrow> block_row list \<Rightarrow> unit dbm" where
  "backfill_from A expected_work dmul previous [] = dret ()"
| "backfill_from A expected_work dmul previous (b # bs) =
     dseq (if bk_luck b \<noteq> None then dret ()
       else dbind (db_or (Fin 0) (get_difficulty_sum_between A previous (bk_created b))) (\<lambda>diff_sum.
         let actual_work = fmul diff_sum dmul in
         if flt (Fin 0) actual_work
         then db_or () (update_block_luck (bk_id b) (fmul (fdiv actual_work expected_work) (Fin 100)))
         else dret ()))
     (backfill_from A expected_work dmul (bk_created b) bs)"

definition backfill_luck :: "sql_agg \<Rightarrow> hexlib \<Rightarrow> f64 option \<Rightarrow> string \<Rightarrow> unit dbm" where
  "backfill_luck A H sol_ps initial_target =
     dbind (db_or [] get_all_blocks_by_height) (\<lambda>all_blocks.
     if list_all (\<lambda>b. bk_luck b \<noteq> None) all_blocks then dret ()
     else (let network_hashrate = (case sol_ps of Some x \<Rightarrow> x | None \<Rightarrow> Fin 0) in
       if flt (Fin 0) network_hashrate
       then backfill_from A (fmul network_hashrate (Fin 75)) (multiplier_for_backfill H initial_target) 0 all_blocks
       else dret ()))"

section \<open>The status task\<close>

record pool_counters =
  pc_last_template_at_ms :: int
  pc_accepted :: nat
  pc_rejected :: nat
  pc_rate_warn :: nat
  pc_rate_reject :: nat
  pc_low_diff :: nat
  pc_job_not_found :: nat
  pc_duplicate :: nat
  pc_other :: nat
  pc_lag_snapshot :: "string option"
  pc_longpoll_wakes :: nat
  pc_longpoll_fails :: nat
  pc_last_longpoll_fail_ms :: int

definition status_entries :: "pool_counters \<Rightarrow> (string \<times> string) list" where
  "status_entries c =
     [(''last_template_at_ms'', show_int (pc_last_template_at_ms c)),
      (''shares_accepted'', show_nat (pc_accepted c)), (''shares_rejected'', show_nat (pc_rejected c)),
      (''rate_warn_count'', show_nat (pc_rate_warn c)), (''rate_reject_count'', show_nat (pc_rate_reject c)),
      (''rejects_low_diff'', show_nat (pc_low_diff c)),
      (''rejects_job_not_found'', show_nat (pc_job_not_found c)),
      (''rejects_duplicate'', show_nat (pc_duplicate c)), (''rejects_other'', show_nat (pc_other c))]
     @ (case pc_lag_snapshot c of None \<Rightarrow> [] | Some j \<Rightarrow> [(''template_lag_stats'', j)])
     @ [(''longpoll_wakes_total'', show_nat (pc_longpoll_wakes c)),
        (''longpoll_fails_total'', show_nat (pc_longpoll_fails c)),
        (''last_longpoll_fail_at_ms'', show_int (pc_last_longpoll_fail_ms c))]"

definition write_status :: "(string \<times> string) list \<Rightarrow> unit dbm" where
  "write_status kvs = dfor kvs (\<lambda>(k, v). db_or () (set_pool_status k v))"

definition status_tick :: "pool_counters \<Rightarrow> unit dbm" where
  "status_tick c = write_status (status_entries c)"

definition status_start :: "int \<Rightarrow> unit dbm" where
  "status_start now = db_or () (set_pool_status ''pool_started_at'' (show_int now))"

section \<open>The watchdog\<close>

definition VALIDATOR_STALL_SECS :: int where
  "VALIDATOR_STALL_SECS = 60"

definition WATCHDOG_GRACE_MS :: int where
  "WATCHDOG_GRACE_MS = 30000"

definition WATCHDOG_POLL_MS :: int where
  "WATCHDOG_POLL_MS = 15000"

text \<open>
  The watchdog from its next sleep on, for at most \<open>n\<close> polls: \<open>Some t\<close> if it ends the process
  at \<open>t\<close>.  \<open>heartbeat t\<close> is what the validator's heartbeat holds at \<open>t\<close>.
\<close>

fun watch :: "(int \<Rightarrow> int) \<Rightarrow> nat \<Rightarrow> int \<Rightarrow> int option" where
  "watch heartbeat 0 now = None"
| "watch heartbeat (Suc n) now = (let now = now + WATCHDOG_POLL_MS; age_ms = now - heartbeat now in
     if VALIDATOR_STALL_SECS * 1000 < age_ms then Some now else watch heartbeat n now)"

definition watchdog :: "(int \<Rightarrow> int) \<Rightarrow> nat \<Rightarrow> int \<Rightarrow> int option" where
  "watchdog heartbeat n started = watch heartbeat n (started + WATCHDOG_GRACE_MS)"

section \<open>The dashboard's background tasks\<close>

definition history_tick :: "web_view \<Rightarrow> api_state \<Rightarrow> api_state dbm" where
  "history_tick W st = dbind (compute_stats_snapshot st W) (\<lambda>snap.
     dret (st\<lparr>as_stats_history := push snap (as_stats_history st)\<rparr>))"

definition retention_tick :: "sql_agg \<Rightarrow> unit dbm" where
  "retention_tick A = db_or () (dbind (rollup_and_prune_shares A 30 200) (\<lambda>_. dret ()))"

end
