(* ===== verification/Miner_Diagnostics.thy ===== *)
theory Miner_Diagnostics
  imports Web_Handlers Share_Sessions
begin

text \<open>
  The page of one miner (\<open>pool-api/src/diagnostics.rs\<close>, \<open>sessions.rs\<close>): its workers, shares,
  blocks and payouts, with the live counters of its sessions, which the pool process leaves in
  \<open>pool_status\<close> as JSON.  \<open>decode\<close> is the decoder of that JSON.  Then the public router
  (\<open>routes.rs\<close>), the whole of which is a function of a request.
\<close>

record worker_info_diag =
  wi_name :: string
  wi_hashrate_1m :: f64
  wi_hashrate_10m :: f64
  wi_current_difficulty :: "f64 option"
  wi_shares_1m :: int
  wi_shares_10m :: int
  wi_total_shares :: int
  wi_last_seen :: int
  wi_is_online :: bool
  wi_first_share_age_secs :: "int option"
  wi_live_accepted :: nat
  wi_live_rejected_low_diff :: nat
  wi_live_rejected_job_not_found :: nat
  wi_live_rejected_other :: nat
  wi_live_rejection_pct :: f64

record live_session_stats =
  lss_active_sessions :: nat
  lss_accepted :: nat
  lss_rejected_low_diff :: nat
  lss_rejected_job_not_found :: nat
  lss_rejected_other :: nat
  lss_rejection_pct :: f64

record miner_diagnostics =
  mdg_address :: string
  mdg_pending_zec :: f64
  mdg_paid_zec :: f64
  mdg_total_hashrate_1m :: f64
  mdg_total_hashrate_10m :: f64
  mdg_max_worker_age_secs :: "int option"
  mdg_workers :: "worker_info_diag list"
  mdg_recent_shares :: "(share_row \<times> string) list"
  mdg_blocks_found :: "(block_row \<times> f64) list"
  mdg_payouts :: "(f64 \<times> string option \<times> int) list"
  mdg_live_session_stats :: live_session_stats

text \<open>\<open>saturating_add\<close> on counters, and the percentage of rejected submissions\<close>

definition sat_add :: "nat \<Rightarrow> nat \<Rightarrow> nat" where
  "sat_add a b = min (a + b) (2 ^ 64 - 1)"

definition rejection_pct :: "nat \<Rightarrow> nat \<Rightarrow> f64" where
  "rejection_pct good bad = (if 0 < good + bad
     then fmul (fdiv (f64_of_int (int bad)) (f64_of_int (int (good + bad)))) (Fin 100) else Fin 0)"

text \<open>The counters of the sessions that satisfy \<open>p\<close>: accepted and the three kinds of rejection.\<close>

definition add_session ::
  "(session_snapshot \<Rightarrow> bool) \<Rightarrow> nat \<times> nat \<times> nat \<times> nat \<Rightarrow> session_snapshot \<Rightarrow> nat \<times> nat \<times> nat \<times> nat" where
  "add_session p = (\<lambda>(acc, rld, rjnf, roth) s.
     if p s then (sat_add acc (ss_shares_accepted s), sat_add rld (ss_rejected_low_diff s),
       sat_add rjnf (ss_rejected_job_not_found s), sat_add roth (ss_rejected_other s))
     else (acc, rld, rjnf, roth))"

definition session_counters :: "(session_snapshot \<Rightarrow> bool) \<Rightarrow> session_snapshot list \<Rightarrow> nat \<times> nat \<times> nat \<times> nat" where
  "session_counters p ss = foldl (add_session p) (0, 0, 0, 0) ss"

text \<open>\<open>splitn(2, '.')\<close> has a second part only when there is a dot.\<close>

definition session_of_worker :: "string \<Rightarrow> string \<Rightarrow> session_snapshot \<Rightarrow> bool" where
  "session_of_worker address name s = (split_once (CHR ''.'') (ss_worker_name s) = Some (address, name))"

definition session_of_miner :: "string \<Rightarrow> session_snapshot \<Rightarrow> bool" where
  "session_of_miner address s = (hd (split_on (CHR ''.'') (ss_worker_name s)) = address)"

definition aggregate_for_address :: "session_snapshot list \<Rightarrow> string \<Rightarrow> live_session_stats" where
  "aggregate_for_address sessions address =
     (case session_counters (session_of_miner address) sessions of (acc, rld, rjnf, roth) \<Rightarrow>
       \<lparr>lss_active_sessions = length (filter (session_of_miner address) sessions), lss_accepted = acc,
        lss_rejected_low_diff = rld, lss_rejected_job_not_found = rjnf, lss_rejected_other = roth,
        lss_rejection_pct = rejection_pct acc (rld + rjnf + roth)\<rparr>)"

definition read_session_snapshots :: "(string \<Rightarrow> session_snapshot list option) \<Rightarrow> session_snapshot list dbm" where
  "read_session_snapshots decode = dbind (status_text ''sessions_snapshot'') (\<lambda>v.
     dret (case Option.bind v decode of Some ss \<Rightarrow> ss | None \<Rightarrow> []))"

text \<open>\<open>num_seconds\<close> of a difference in milliseconds, truncated toward zero\<close>

definition num_seconds :: "int \<Rightarrow> int" where
  "num_seconds ms = (if 0 \<le> ms then ms div 1000 else - ((- ms) div 1000))"

definition worker_diag ::
  "api_state \<Rightarrow> web_view \<Rightarrow> string \<Rightarrow> session_snapshot list \<Rightarrow> worker_diagnostics \<Rightarrow> worker_info_diag" where
  "worker_diag st W address sessions w = (let name = wk_name (wd_worker w) in
     case session_counters (session_of_worker address name) sessions of (acc, rld, rjnf, roth) \<Rightarrow>
       \<lparr>wi_name = name,
        wi_hashrate_1m = fmul (fdiv (wd_diff_sum_1m w) (Fin 60)) (as_difficulty_multiplier st),
        wi_hashrate_10m = fmul (fdiv (wd_diff_sum_10m w) (Fin 600)) (as_difficulty_multiplier st),
        wi_current_difficulty = wd_current_difficulty w, wi_shares_1m = wd_shares_1m w,
        wi_shares_10m = wd_shares_10m w, wi_total_shares = wd_total_shares w,
        wi_last_seen = wk_last_seen (wd_worker w),
        wi_is_online = (since W 300 \<le> wk_last_seen (wd_worker w)),
        wi_first_share_age_secs = map_option (\<lambda>t. num_seconds (wv_now_ms W - t * 1000)) (wd_first_share_at w),
        wi_live_accepted = acc, wi_live_rejected_low_diff = rld, wi_live_rejected_job_not_found = rjnf,
        wi_live_rejected_other = roth, wi_live_rejection_pct = rejection_pct acc (rld + rjnf + roth)\<rparr>)"

definition get_miner_diagnostics ::
  "(string \<Rightarrow> session_snapshot list option) \<Rightarrow> api_state \<Rightarrow> web_view \<Rightarrow> string \<Rightarrow> (nat + miner_diagnostics) dbm" where
  "get_miner_diagnostics decode st W address =
     dbind (db_try (get_miner_by_address address)) (\<lambda>r. case r of
       Inl e \<Rightarrow> dret (Inl 500)
     | Inr None \<Rightarrow> dret (Inl 404)
     | Inr (Some miner) \<Rightarrow> (let m = mi_id miner in
     dbind (db_try (get_or_create_balance m)) (\<lambda>r. case r of Inl e \<Rightarrow> dret (Inl 500) | Inr bal \<Rightarrow>
     dbind (db_try (get_worker_stats_for_miner (wv_agg W) m (since W 60) (since W 600)))
       (\<lambda>r. case r of Inl e \<Rightarrow> dret (Inl 500) | Inr worker_stats \<Rightarrow>
     dbind (db_try (get_recent_shares_for_miner m 500)) (\<lambda>r. case r of Inl e \<Rightarrow> dret (Inl 500) | Inr recent \<Rightarrow>
     dbind (db_try (get_miner_blocks m)) (\<lambda>r. case r of Inl e \<Rightarrow> dret (Inl 500) | Inr found \<Rightarrow>
     dbind (db_try (get_miner_payouts m 50)) (\<lambda>r. case r of Inl e \<Rightarrow> dret (Inl 500) | Inr paid \<Rightarrow>
     dbind (read_session_snapshots decode) (\<lambda>sessions.
     let ws = map (worker_diag st W (mi_address miner) sessions) worker_stats;
         ages = List.map_filter wi_first_share_age_secs ws in
     dret (Inr \<lparr>mdg_address = mi_address miner, mdg_pending_zec = to_zec (bl_pending bal),
       mdg_paid_zec = to_zec (bl_paid bal),
       mdg_total_hashrate_1m = foldl (\<lambda>x w. fadd x (wi_hashrate_1m w)) (Fin 0) ws,
       mdg_total_hashrate_10m = foldl (\<lambda>x w. fadd x (wi_hashrate_10m w)) (Fin 0) ws,
       mdg_max_worker_age_secs = (if ages = [] then None else Some (Max (set ages))),
       mdg_workers = ws, mdg_recent_shares = recent,
       mdg_blocks_found = map (\<lambda>b. (b, to_zec (bk_reward b))) found,
       mdg_payouts = map (\<lambda>p. (to_zec (po_amount p), po_txid p, po_created p)) paid,
       mdg_live_session_stats = aggregate_for_address sessions (mi_address miner)\<rparr>)))))))))"

section \<open>The public router\<close>

definition explorer_for :: "string \<Rightarrow> string" where
  "explorer_for network = (if network = ''mainnet'' then ''https://cipherscan.app''
     else ''https://testnet.cipherscan.app'')"

definition get_pool_info :: "api_state \<Rightarrow> (string \<times> string) list" where
  "get_pool_info st = [(''network'', as_network st),
     (''coin'', if as_network st = ''mainnet'' then ''ZEC'' else ''TAZ''), (''pool_name'', as_pool_name st)]
     @ (case as_banner st of None \<Rightarrow> [] | Some b \<Rightarrow> [(''banner'', b)])"

datatype api_request =
    Pool_stats | Stats_history | Nomp | Health | Miner string | Diagnostics string | Blocks | Miners
  | Payouts | Pending_payouts | Zallet | Immature_blocks | Pool_info | Sessions

datatype api_answer =
    A_stats pool_stats | A_history "stats_snapshot list" | A_nomp nomp_stats | A_health "nat \<times> bool"
  | A_miner "nat + miner_stats" | A_diagnostics "nat + miner_diagnostics" | A_blocks "nat + block_info_row list"
  | A_miners "nat + miner_list_info list" | A_payouts "nat + payout_info list"
  | A_pending "nat + pending_payout_entry list" | A_zallet zallet_status | A_immature "nat + immature_block list"
  | A_info "(string \<times> string) list" | A_sessions "session_snapshot list"

definition reply :: "('a \<Rightarrow> api_answer) \<Rightarrow> 'a dbm \<Rightarrow> api_answer dbm" where
  "reply f m = dbind m (\<lambda>a. dret (f a))"

fun serve_api ::
  "(string \<Rightarrow> session_snapshot list option) \<Rightarrow> api_state \<Rightarrow> web_view \<Rightarrow> api_request \<Rightarrow> api_answer dbm" where
  "serve_api D st W Pool_stats = reply A_stats (get_pool_stats st W)"
| "serve_api D st W Stats_history = dret (A_history (as_stats_history st))"
| "serve_api D st W Nomp = reply A_nomp (get_pool_stats_nomp st W)"
| "serve_api D st W Health = reply A_health (get_health st W)"
| "serve_api D st W (Miner a) = reply A_miner (get_miner_stats a)"
| "serve_api D st W (Diagnostics a) = reply A_diagnostics (get_miner_diagnostics D st W a)"
| "serve_api D st W Blocks = reply A_blocks get_blocks"
| "serve_api D st W Miners = reply A_miners (get_miners st W)"
| "serve_api D st W Payouts = reply A_payouts get_payouts"
| "serve_api D st W Pending_payouts = reply A_pending (get_pending_payouts_list st)"
| "serve_api D st W Zallet = dret (A_zallet (get_zallet_status st W))"
| "serve_api D st W Immature_blocks = reply A_immature (get_immature_blocks st W)"
| "serve_api D st W Pool_info = dret (A_info (get_pool_info st))"
| "serve_api D st W Sessions = reply A_sessions (read_session_snapshots D)"

text \<open>A run of requests; the clock of the database is set before each.\<close>

fun run_api ::
  "(string \<Rightarrow> session_snapshot list option) \<Rightarrow> api_state \<Rightarrow> (int \<times> web_view \<times> api_request) list \<Rightarrow> db \<Rightarrow> db" where
  "run_api D st [] s = s"
| "run_api D st ((now, W, r) # rs) s = run_api D st rs (snd (serve_api D st W r (s\<lparr>db_clock := now\<rparr>)))"

end
