(* ===== verification/Web_Properties.thy ===== *)
theory Web_Properties
  imports Pool_Start Miner_Diagnostics
begin

text \<open>
  The web API and the start of the two programs: requests move no money, the counters of the
  pool reach the dashboard, the backfill fills gaps only, and the watchdog ends a hanging
  validator in time.
\<close>


section \<open>Requests move no money\<close>

definition other_tables :: "db \<Rightarrow> db" where
  "other_tables s = s\<lparr>balances := [], db_faults := [], db_clock := 0\<rparr>"

definition same_money :: "db \<Rightarrow> db \<Rightarrow> bool" where
  "same_money s0 s \<longleftrightarrow> other_tables s = other_tables s0
    \<and> (\<exists>new. balances s = balances s0 @ new
        \<and> list_all (\<lambda>b. bl_pending b = 0 \<and> bl_paid b = 0 \<and> bl_paying b = 0) new)"

lemma same_money_refl: "same_money s s"
  by (simp add: same_money_def)

lemma same_money_clock [simp]: "same_money s0 (s\<lparr>db_clock := c\<rparr>) = same_money s0 s"
  by (simp add: same_money_def other_tables_def)

lemma same_money_faults [db_inv]: "no_faults_dep (same_money s0)"
  by (simp add: no_faults_dep_def same_money_def other_tables_def)

lemma keeps_ensure [db_inv]: "keeps (same_money s0) (ensure_balance m)"
  unfolding ensure_balance_def
  by (intro keeps_stmt same_money_faults) (auto simp: check_fk_def same_money_def other_tables_def)

lemma keeps_fetch_all [db_inv]:
  "keeps (same_money s0) (select f)" "keeps (same_money s0) (fetch_one g)" "keeps (same_money s0) (fetch_optional h)"
  by (intro db_inv)+

lemma keeps_pair [db_inv]: "(\<And>a b. keeps P (f a b)) \<Longrightarrow> keeps P (case x of (a, b) \<Rightarrow> f a b)"
  by (cases x) simp

lemma keeps_sum [db_inv]:
  "(\<And>e. keeps P (f e)) \<Longrightarrow> (\<And>a. keeps P (g a)) \<Longrightarrow> keeps P (case x of Inl e \<Rightarrow> f e | Inr a \<Rightarrow> g a)"
  by (cases x) auto

lemma keeps_option [db_inv]:
  "keeps P f \<Longrightarrow> (\<And>a. keeps P (g a)) \<Longrightarrow> keeps P (case x of None \<Rightarrow> f | Some a \<Rightarrow> g a)"
  by (cases x) auto

lemma keeps_if [db_inv]: "keeps P f \<Longrightarrow> keeps P g \<Longrightarrow> keeps P (if c then f else g)"
  by simp

lemma keeps_queries [db_inv]:
  "keeps (same_money s0) (get_pool_status k)" "keeps (same_money s0) get_total_shares_count"
  "keeps (same_money s0) (get_shares_count_since t)" "keeps (same_money s0) (get_difficulty_sum_since A t)"
  "keeps (same_money s0) (get_recent_blocks n)" "keeps (same_money s0) get_blocks_count"
  "keeps (same_money s0) (get_blocks_count_since t)" "keeps (same_money s0) get_immature_blocks_count"
  "keeps (same_money s0) get_pending_payout_blocks_count" "keeps (same_money s0) (get_lifetime_luck A)"
  "keeps (same_money s0) get_connected_miners_count" "keeps (same_money s0) get_connected_workers_count"
  "keeps (same_money s0) (get_all_miners_with_stats A)" "keeps (same_money s0) (get_miner_by_address a)"
  "keeps (same_money s0) (get_workers_for_miner m)" "keeps (same_money s0) get_inflight_payout_attempt"
  "keeps (same_money s0) (get_recent_payouts n)" "keeps (same_money s0) (get_miner_address m)"
  "keeps (same_money s0) (get_pending_payouts x b c d)" "keeps (same_money s0) get_pending_blocks"
  "keeps (same_money s0) (get_worker_stats_for_miner A m x y)" "keeps (same_money s0) (get_recent_shares_for_miner m n)"
  "keeps (same_money s0) (get_miner_blocks m)" "keeps (same_money s0) (get_miner_payouts m n)"
  unfolding get_pool_status_def get_total_shares_count_def get_shares_count_since_def
    get_difficulty_sum_since_def get_recent_blocks_def get_blocks_count_def get_blocks_count_since_def
    get_immature_blocks_count_def get_pending_payout_blocks_count_def get_lifetime_luck_def
    get_connected_miners_count_def get_connected_workers_count_def get_all_miners_with_stats_def
    get_miner_by_address_def get_workers_for_miner_def get_inflight_payout_attempt_def get_recent_payouts_def
    get_miner_address_def get_pending_payouts_def get_pending_blocks_def get_worker_stats_for_miner_def
    get_recent_shares_for_miner_def get_miner_blocks_def get_miner_payouts_def
  by (rule keeps_fetch_all)+

lemma keeps_parts [db_inv]:
  "keeps (same_money s0) (status_text k)" "keeps (same_money s0) (get_or_create_balance m)"
  "keeps (same_money s0) (payout_entry acc p)"
  unfolding status_text_def get_or_create_balance_def payout_entry_def by (intro db_inv)+

lemma keeps_template [db_inv]: "keeps (same_money s0) (get_last_template_ms st W)"
  unfolding get_last_template_ms_def by (intro db_inv)

lemma keeps_wallet [db_inv]: "keeps (same_money s0) (check_wallet_rpc st W)"
  unfolding check_wallet_rpc_def by (intro db_inv)

lemma keeps_luck [db_inv]: "keeps (same_money s0) (current_luck st W x)"
  unfolding current_luck_def Let_def by (intro db_inv)

lemma keeps_snapshot [db_inv]: "keeps (same_money s0) (compute_stats_snapshot st W)"
  unfolding compute_stats_snapshot_def by (intro db_inv)

lemma keeps_stats [db_inv]: "keeps (same_money s0) (get_pool_stats st W)"
  unfolding get_pool_stats_def by (intro db_inv)

lemma keeps_nomp [db_inv]: "keeps (same_money s0) (get_pool_stats_nomp st W)"
  unfolding get_pool_stats_nomp_def Let_def by (intro db_inv)

lemma keeps_miner_stats [db_inv]: "keeps (same_money s0) (get_miner_stats a)"
  unfolding get_miner_stats_def by (intro db_inv)

lemma keeps_sessions [db_inv]: "keeps (same_money s0) (read_session_snapshots D)"
  unfolding read_session_snapshots_def by (intro db_inv)

lemma keeps_diagnostics [db_inv]: "keeps (same_money s0) (get_miner_diagnostics D st W a)"
  unfolding get_miner_diagnostics_def Let_def by (intro db_inv)

lemma keeps_lists [db_inv]:
  "keeps (same_money s0) (get_health st W)"
  "keeps (same_money s0) get_blocks" "keeps (same_money s0) (get_miners st W)" "keeps (same_money s0) get_payouts"
  "keeps (same_money s0) (get_pending_payouts_list st)" "keeps (same_money s0) (get_immature_blocks st W)"
  unfolding get_health_def get_blocks_def get_miners_def get_payouts_def
    get_pending_payouts_list_def get_immature_blocks_def
  by (intro db_inv)+

lemma keeps_reply: "keeps P m \<Longrightarrow> keeps P (reply f m)"
  unfolding reply_def by (intro db_inv)

lemma keeps_serve_api: "keeps (same_money s0) (serve_api D st W r)"
  by (cases r) (simp_all, (intro keeps_reply db_inv)+)

text \<open>C36: 
  Whatever anonymous requests the public web API serves, in whatever order and with whatever
  failures of the database, no balance, payout, credit or any other table changes: at most a
  miner that had no balance row gets one that is all zero.
\<close>
theorem requests_move_no_money: "same_money s (run_api D st rqs s)"
proof -
  have "same_money s0 s \<Longrightarrow> same_money s0 (run_api D st rqs s)" for s0
  proof (induction rqs arbitrary: s)
    case (Cons x rqs)
    obtain now W r where x: "x = (now, W, r)" by (cases x)
    have "same_money s0 (snd (serve_api D st W r (s\<lparr>db_clock := now\<rparr>)))"
      using keeps_serve_api [of s0 D st W r] Cons.prems by (simp add: keeps_def)
    then show ?case using Cons.IH x by simp
  qed simp
  then show ?thesis by (simp add: same_money_refl)
qed

section \<open>A worker without a name\<close>

text \<open>
  The pool registers a worker whose login has no dot as \<open>default\<close>, but the page matches sessions
  by the text after the dot: the live counters of that worker are zero whatever its sessions do,
  while the same sessions are counted in the total of the miner.
\<close>
theorem nameless_worker_has_no_live_stats:
  assumes "list_all (\<lambda>s. ss_worker_name s = address) sessions" "CHR ''.'' \<notin> set address"
    "wk_name (wd_worker w) = ''default''"
  shows "wi_live_accepted (worker_diag st W address sessions w) = 0
    \<and> wi_live_rejected_low_diff (worker_diag st W address sessions w) = 0
    \<and> lss_active_sessions (aggregate_for_address sessions address) = length sessions"
proof -
  have so: "CHR ''.'' \<notin> set a \<Longrightarrow> split_once (CHR ''.'') a = None" for a by (induction a) auto
  have sp: "CHR ''.'' \<notin> set a \<Longrightarrow> split_on (CHR ''.'') a = [a]" for a by (induction a) auto
  have "session_counters (session_of_worker address name) ss = (0, 0, 0, 0)"
    if "list_all (\<lambda>s. ss_worker_name s = address) ss" for name ss
    using that so [OF assms(2)]
    by (induction ss) (auto simp: session_counters_def add_session_def session_of_worker_def)
  moreover have "filter (session_of_miner address) sessions = sessions"
    using assms(1) sp [OF assms(2)] by (simp add: filter_id_conv session_of_miner_def list_all_iff)
  ultimately show ?thesis using assms(1)
    by (simp add: worker_diag_def aggregate_for_address_def Let_def split: prod.splits)
qed

section \<open>The status table\<close>

definition status_of :: "db \<Rightarrow> string \<Rightarrow> string option" where
  "status_of s k = (case filter (\<lambda>r. ps_key r = k) (statuses s) of [] \<Rightarrow> None | r # _ \<Rightarrow> Some (ps_value r))"

lemma filter_upd_same:
  "(\<And>r. c (f r) = c r) \<Longrightarrow> filter c (upd_where c f rs) = map f (filter c rs)"
  by (induction rs) (auto simp: upd_where_def)

lemma filter_upd_other:
  "(\<And>r. ps_key (f r) = ps_key r) \<Longrightarrow> k \<noteq> k' \<Longrightarrow>
   filter (\<lambda>r. ps_key r = k') (upd_where (\<lambda>r. ps_key r = k) f rs) = filter (\<lambda>r. ps_key r = k') rs"
  by (induction rs) (auto simp: upd_where_def)

lemma set_status_ok:
  assumes "db_faults s = []"
  obtains s' where "set_pool_status k v s = (Inr (), s')" "db_faults s' = []"
    "\<And>k'. status_of s' k' = (if k' = k then Some v else status_of s k')"
proof -
  obtain s' where s': "set_pool_status k v s = (Inr (), s')"
    using assms by (simp add: set_pool_status_def modify_def stmt_def tick_def)
  have "status_of s' k' = (if k' = k then Some v else status_of s k')" for k'
  proof (cases "list_ex (\<lambda>r. ps_key r = k) (statuses s)")
    case True
    then obtain r rs where "filter (\<lambda>r. ps_key r = k) (statuses s) = r # rs"
      by (cases "filter (\<lambda>r. ps_key r = k) (statuses s)") (auto simp: list_ex_iff filter_empty_conv)
    then show ?thesis using s' assms True
      by (auto simp: set_pool_status_def modify_def stmt_def tick_def status_of_def filter_upd_same filter_upd_other)
  next
    case False
    then have "filter (\<lambda>r. ps_key r = k) (statuses s) = []" by (auto simp: list_ex_iff filter_empty_conv)
    then show ?thesis using s' assms False
      by (auto simp: set_pool_status_def modify_def stmt_def tick_def status_of_def split: list.splits if_split_asm)
  qed
  moreover have "db_faults s' = []"
    using s' assms by (auto simp: set_pool_status_def modify_def stmt_def tick_def split: if_splits)
  ultimately show thesis using that s' by blast
qed

lemma write_status_ok:
  assumes "db_faults s = []"
  obtains s' where "write_status kvs s = (Inr (), s')" "db_faults s' = []"
    "\<And>k. status_of s' k = (case map_of (rev kvs) k of Some v \<Rightarrow> Some v | None \<Rightarrow> status_of s k)"
  using assms
proof (induction kvs arbitrary: s thesis)
  case Nil
  then show ?case by (simp add: write_status_def dfor_def)
next
  case (Cons kv kvs)
  obtain k v where kv: "kv = (k, v)" by (cases kv)
  obtain s1 where s1: "set_pool_status k v s = (Inr (), s1)" "db_faults s1 = []"
    "\<And>k'. status_of s1 k' = (if k' = k then Some v else status_of s k')"
    using set_status_ok [OF Cons.prems(2)] by blast
  obtain s2 where s2: "write_status kvs s1 = (Inr (), s2)" "db_faults s2 = []"
    "\<And>k. status_of s2 k = (case map_of (rev kvs) k of Some v \<Rightarrow> Some v | None \<Rightarrow> status_of s1 k)"
    using Cons.IH [OF _ s1(2)] by blast
  have "write_status (kv # kvs) s = (Inr (), s2)"
    using s1(1) s2(1) by (simp add: write_status_def dfor_def kv dbind_def db_or_def)
  then show ?case using Cons.prems(1) s2 s1(3) by (auto simp: kv map_add_def split: option.splits)
qed

lemma read_status:
  assumes "db_faults s = []" shows "status_text k s = (Inr (status_of s k), s)"
  using assms by (auto simp: status_text_def get_pool_status_def fetch_optional_def select_def stmt_def tick_def
      db_or_def dbind_def status_of_def split: list.splits)

lemma read_u64:
  assumes "db_faults s = []" "status_of s k = Some (show_nat n)" "n < 2 ^ 64"
  shows "status_u64 k s = (Inr n, s)"
  using assms parse_unsigned_show [OF assms(3)] by (simp add: status_u64_def dbind_def read_status)

lemma parse_i64_show_nat: "n < 2 ^ 63 \<Longrightarrow> parse_i64 (show_int (int n)) = Some (int n)"
proof -
  assume n: "n < 2 ^ 63"
  obtain c cs where s: "show_nat n = c # cs" by (cases "show_nat n") auto
  have "c \<noteq> CHR ''-''" "c \<noteq> CHR ''+''"
    using show_nat_digits [of c n] s by (auto simp: dec_value_def)
  then show ?thesis using n parse_show_nat [of n] s by (simp add: show_int_def parse_i64_def)
qed

lemma status_tick_ok:
  assumes "db_faults s = []"
  obtains s' where "status_tick c s = (Inr (), s')" "db_faults s' = []"
    "\<And>k. status_of s' k = (case map_of (rev (status_entries c)) k of Some v \<Rightarrow> Some v | None \<Rightarrow> status_of s k)"
  using write_status_ok [OF assms, of "status_entries c"] by (auto simp: status_tick_def)

text \<open>C38: 
  The counters of the pool process reach the dashboard process: after a turn of the status task
  the dashboard, which has no live counters of its own, reads back the very numbers, and judges
  the node by the age of the last template.
\<close>
theorem status_reaches_dashboard:
  assumes "db_faults s = []" "as_shares_accepted st = 0" "as_shares_rejected st = 0" "as_last_template_at_ms st = None"
    "list_all (\<lambda>n. n < 2 ^ 64) [pc_accepted c, pc_rejected c, pc_rate_warn c, pc_rate_reject c, pc_low_diff c,
       pc_job_not_found c, pc_duplicate c, pc_other c]"
    "0 < pc_last_template_at_ms c" "pc_last_template_at_ms c < 2 ^ 63"
  shows "let s' = snd (status_tick c s) in
    fst (get_shares_counters st s') = Inr (pc_accepted c, pc_rejected c)
    \<and> fst (get_rate_counters s') = Inr (pc_rate_warn c, pc_rate_reject c)
    \<and> fst (get_rejection_breakdown s') = Inr (pc_low_diff c, pc_job_not_found c, pc_duplicate c, pc_other c)
    \<and> fst (get_last_template_ms st W s') = Inr (template_age W (pc_last_template_at_ms c))"
proof -
  obtain s' where t: "status_tick c s = (Inr (), s')" "db_faults s' = []"
    "\<And>k. status_of s' k = (case map_of (rev (status_entries c)) k of Some v \<Rightarrow> Some v | None \<Rightarrow> status_of s k)"
    using status_tick_ok [OF assms(1)] by blast
  have u: "status_of s' k = Some (show_nat n) \<Longrightarrow> n < 2 ^ 64 \<Longrightarrow> status_u64 k s' = (Inr n, s')" for k n
    using read_u64 [OF t(2)] by blast
  have v: "status_of s' ''shares_accepted'' = Some (show_nat (pc_accepted c))"
    "status_of s' ''shares_rejected'' = Some (show_nat (pc_rejected c))"
    "status_of s' ''rate_warn_count'' = Some (show_nat (pc_rate_warn c))"
    "status_of s' ''rate_reject_count'' = Some (show_nat (pc_rate_reject c))"
    "status_of s' ''rejects_low_diff'' = Some (show_nat (pc_low_diff c))"
    "status_of s' ''rejects_job_not_found'' = Some (show_nat (pc_job_not_found c))"
    "status_of s' ''rejects_duplicate'' = Some (show_nat (pc_duplicate c))"
    "status_of s' ''rejects_other'' = Some (show_nat (pc_other c))"
    "status_of s' ''last_template_at_ms'' = Some (show_int (pc_last_template_at_ms c))"
    by (simp_all add: t(3) status_entries_def split: option.split)
  have ms: "parse_i64 (show_int (pc_last_template_at_ms c)) = Some (pc_last_template_at_ms c)"
    using parse_i64_show_nat [of "nat (pc_last_template_at_ms c)"] assms(6,7) by simp
  note w = u [OF v(1)] u [OF v(2)] u [OF v(3)] u [OF v(4)] u [OF v(5)] u [OF v(6)] u [OF v(7)] u [OF v(8)]
  show ?thesis using assms(2-6) ms
    by (simp add: t(1) w get_shares_counters_def get_rate_counters_def get_rejection_breakdown_def
        get_last_template_ms_def dbind_def read_status [OF t(2)] v(9))
qed

text \<open>
  A pool that has never had a template from its node writes 0 for the time of the last one; the
  health check takes this for an installation without stall tracking and answers 200.
\<close>
theorem never_polled_reads_healthy:
  assumes "db_faults s = []" "as_last_template_at_ms st = None" "pc_last_template_at_ms c = 0"
  shows "fst (get_health st W (snd (status_tick c s))) = Inr (200, True)"
proof -
  obtain s' where t: "status_tick c s = (Inr (), s')" "db_faults s' = []"
    "\<And>k. status_of s' k = (case map_of (rev (status_entries c)) k of Some v \<Rightarrow> Some v | None \<Rightarrow> status_of s k)"
    using status_tick_ok [OF assms(1)] by blast
  have v: "status_of s' ''last_template_at_ms'' = Some (show_int 0)"
    using assms(3) by (simp add: t(3) status_entries_def split: option.split)
  have "parse_i64 (show_int 0) = Some 0" using parse_i64_show_nat [of 0] by simp
  then show ?thesis using assms(2)
    by (simp add: t(1) get_health_def get_last_template_ms_def dbind_def read_status [OF t(2)] v)
qed

definition toy_api :: api_state where
  "toy_api = \<lparr>as_pool_name = ''pool'', as_pool_fee = Fin 1, as_network = ''testnet'', as_hostname = ''localhost'',
     as_stratum_port = 3333, as_stratum_ports = [], as_last_template_at_ms = None, as_wallet_rpc = True,
     as_pool_address = None, as_min_payout_zatoshis = 1000000, as_pay_immature = False,
     as_maturity_confirmations = 100, as_payout_wake = True, as_difficulty_multiplier = Fin 32,
     as_stats_history = [], as_shares_accepted = 0, as_shares_rejected = 0, as_banner = None,
     as_payout_scheme = ''PPLNS''\<rparr>"

definition toy_view :: web_view where
  "toy_view = \<lparr>wv_now_ms = 60000, wv_sol_ps = None, wv_tip = Some 5, wv_mining_info = None, wv_wallet = Inl ''down'',
     wv_agg = \<lparr>ag_sum = f64_sum, ag_avg = f64_sum\<rparr>, wv_json = (\<lambda>s. None), wv_rfc3339 = (\<lambda>t. Some (show_int t)),
     wv_from_rfc3339 = parse_i64, wv_fixed = (\<lambda>n x. [])\<rparr>"

definition toy_counters :: pool_counters where
  "toy_counters = \<lparr>pc_last_template_at_ms = 5000, pc_accepted = 7, pc_rejected = 2, pc_rate_warn = 1,
     pc_rate_reject = 3, pc_low_diff = 1, pc_job_not_found = 1, pc_duplicate = 0, pc_other = 0,
     pc_lag_snapshot = Some ''{}'', pc_longpoll_wakes = 4, pc_longpoll_fails = 0, pc_last_longpoll_fail_ms = 0\<rparr>"

theorem status_reaches_dashboard_witness:
  "let s' = snd (status_tick toy_counters (empty_db True 1000 [])) in
    fst (get_shares_counters toy_api s') = Inr (7, 2) \<and> fst (get_rate_counters s') = Inr (1, 3)
    \<and> fst (get_rejection_breakdown s') = Inr (1, 1, 0, 0)
    \<and> fst (get_last_template_ms toy_api toy_view s') = Inr (template_age toy_view 5000)"
  using status_reaches_dashboard [of "empty_db True 1000 []" toy_api toy_counters toy_view]
  by (simp add: empty_db_def toy_api_def toy_counters_def)

section \<open>The backfill of block luck\<close>

definition luck_filled :: "block_row \<Rightarrow> block_row \<Rightarrow> bool" where
  "luck_filled a b \<longleftrightarrow> b = a \<or> bk_luck a = None \<and> (\<exists>x. b = a\<lparr>bk_luck := x\<rparr>)"

definition backfilled :: "db \<Rightarrow> db \<Rightarrow> bool" where
  "backfilled s0 s \<longleftrightarrow> list_all2 luck_filled (blocks s0) (blocks s)
     \<and> s\<lparr>blocks := [], db_faults := []\<rparr> = s0\<lparr>blocks := [], db_faults := []\<rparr>"

lemma backfilled_faults [db_inv]: "no_faults_dep (backfilled s0)"
  by (simp add: no_faults_dep_def backfilled_def)

lemma luck_filled_refl: "luck_filled a a"
  by (simp add: luck_filled_def)

lemma backfilled_refl: "backfilled s s"
  by (simp add: backfilled_def list_all2_refl luck_filled_refl)

lemma keeps_update_luck:
  assumes "\<And>a. a \<in> set (blocks s0) \<Longrightarrow> bk_id a = i \<Longrightarrow> bk_luck a = None"
  shows "keeps (backfilled s0) (update_block_luck i x)"
proof -
  have u: "luck_filled a (if bk_id b = i then b\<lparr>bk_luck := y\<rparr> else b)"
    if "luck_filled a b" "a \<in> set (blocks s0)" for a b y
    using that assms [of a] by (auto simp: luck_filled_def)
  have "list_all2 luck_filled xs (upd_where (\<lambda>r. bk_id r = i) (\<lambda>r. r\<lparr>bk_luck := y\<rparr>) ys)"
    if "list_all2 luck_filled xs ys" "set xs \<subseteq> set (blocks s0)" for xs ys y
    using that
  proof (induction xs ys rule: list_all2_induct)
    case (Cons a xs b ys)
    then show ?case using u [of a b y] by (simp add: upd_where_def)
  qed (simp add: upd_where_def)
  then show ?thesis unfolding update_block_luck_def
    by (intro keeps_modify backfilled_faults) (auto simp: backfilled_def)
qed

lemma keeps_backfill_from:
  assumes "distinct (map bk_id (blocks s0))"
  shows "set bs \<subseteq> set (blocks s0) \<Longrightarrow> keeps (backfilled s0) (backfill_from A e d p bs)"
proof (induction bs arbitrary: p)
  case Nil
  show ?case by (simp add: keeps_def)
next
  case (Cons b bs)
  have u: "bk_luck b = None \<Longrightarrow> keeps (backfilled s0) (update_block_luck (bk_id b) x)" for x
    using Cons.prems assms by (intro keeps_update_luck) (auto simp: distinct_map inj_on_def)
  show ?case
  proof (cases "bk_luck b")
    case None
    have "keeps (backfilled s0) (get_difficulty_sum_between A p (bk_created b))"
      unfolding get_difficulty_sum_between_def by (intro db_inv)
    then show ?thesis using Cons u [OF None] None
      by (auto simp: Let_def intro!: keeps_seq keeps_bind keeps_or keeps_ret keeps_if)
  next
    case (Some l)
    then show ?thesis using Cons by (auto intro!: keeps_seq keeps_ret)
  qed
qed

text \<open>
  The backfill at the start of the pool fills gaps and nothing else: every block keeps its luck
  if it has one, no other column and no other table changes, whatever fails on the way.
\<close>
theorem backfill_fills_gaps_only:
  assumes "distinct (map bk_id (blocks s))"
  shows "backfilled s (snd (backfill_luck A H sol_ps initial_target s))"
proof -
  have "backfilled s (snd (backfill_luck A H sol_ps initial_target s))"
  proof (cases "db_or [] get_all_blocks_by_height s")
    case (Pair r s1)
    have b: "backfilled s s1" "\<And>bs. r = Inr bs \<Longrightarrow> set bs \<subseteq> set (blocks s)"
      using Pair by (auto simp: db_or_def get_all_blocks_by_height_def select_def stmt_def tick_def backfilled_def
          luck_filled_refl list_all2_refl split: list.splits bool.splits)
    have k: "keeps (backfilled s) (backfill_from A e d 0 bs)" if "r = Inr bs" for e d bs
      using keeps_backfill_from [OF assms b(2) [OF that]] .
    show ?thesis
    proof (cases r)
      case (Inr bs)
      then show ?thesis using Pair b(1) k [OF Inr]
        by (auto simp: backfill_luck_def dbind_def Let_def keeps_def)
    qed (use Pair b(1) in \<open>simp add: backfill_luck_def dbind_def\<close>)
  qed
  then show ?thesis .
qed

section \<open>The watchdog\<close>

lemma watch_healthy:
  assumes "\<And>t. now \<le> t \<Longrightarrow> t - hb t \<le> VALIDATOR_STALL_SECS * 1000"
  shows "watch hb n now = None"
  using assms
proof (induction n arbitrary: now)
  case (Suc n)
  have "watch hb n (now + WATCHDOG_POLL_MS) = None" by (rule Suc.IH) (simp add: Suc.prems WATCHDOG_POLL_MS_def)
  then show ?case using Suc.prems [of "now + WATCHDOG_POLL_MS"] by (auto simp: Let_def WATCHDOG_POLL_MS_def)
qed simp

lemma watch_wedged:
  assumes "\<And>t. t \<le> h \<Longrightarrow> t - hb t \<le> VALIDATOR_STALL_SECS * 1000" "\<And>t. h \<le> t \<Longrightarrow> hb t = h"
    "now \<le> h + VALIDATOR_STALL_SECS * 1000"
  shows "h + VALIDATOR_STALL_SECS * 1000 \<le> now + int n * WATCHDOG_POLL_MS \<Longrightarrow>
    \<exists>t. watch hb (Suc n) now = Some t \<and> h + VALIDATOR_STALL_SECS * 1000 < t
      \<and> t \<le> h + VALIDATOR_STALL_SECS * 1000 + WATCHDOG_POLL_MS"
  using assms(3)
proof (induction n arbitrary: now)
  case 0
  then show ?case using assms(2) [of "now + WATCHDOG_POLL_MS"]
    by (simp add: Let_def WATCHDOG_POLL_MS_def VALIDATOR_STALL_SECS_def)
next
  case (Suc n)
  let ?p = "now + WATCHDOG_POLL_MS"
  show ?case
  proof (cases "?p \<le> h + VALIDATOR_STALL_SECS * 1000")
    case True
    then have "\<not> VALIDATOR_STALL_SECS * 1000 < ?p - hb ?p"
      using assms(1) [of ?p] assms(2) [of ?p] by (cases "?p \<le> h") auto
    moreover have "h + VALIDATOR_STALL_SECS * 1000 \<le> ?p + int n * WATCHDOG_POLL_MS"
      using Suc.prems(1) by (simp add: algebra_simps)
    ultimately show ?thesis using Suc.IH [OF _ True] by (simp add: Let_def)
  next
    case False
    then have "hb ?p = h" using assms(2) by (simp add: VALIDATOR_STALL_SECS_def)
    then show ?thesis using False Suc.prems(2) by (simp add: Let_def)
  qed
qed

text \<open>
  The watchdog leaves a validator alone whose heartbeat is never more than 60 seconds old, and
  ends the process between 60 and 75 seconds after the last heartbeat of one that hangs.
\<close>
theorem wedged_validator_is_ended:
  assumes "\<forall>t \<le> h. t - hb t \<le> VALIDATOR_STALL_SECS * 1000" "\<forall>t \<ge> h. hb t = h" "started \<le> h"
  shows "\<exists>n t. watchdog hb n started = Some t \<and> h + VALIDATOR_STALL_SECS * 1000 < t
    \<and> t \<le> h + VALIDATOR_STALL_SECS * 1000 + WATCHDOG_POLL_MS"
proof -
  define n where "n = nat (h + VALIDATOR_STALL_SECS * 1000 - started)"
  have "h + VALIDATOR_STALL_SECS * 1000 \<le> started + WATCHDOG_GRACE_MS + int n * WATCHDOG_POLL_MS"
    using assms(3) by (simp add: n_def WATCHDOG_GRACE_MS_def WATCHDOG_POLL_MS_def VALIDATOR_STALL_SECS_def)
  moreover have "started + WATCHDOG_GRACE_MS \<le> h + VALIDATOR_STALL_SECS * 1000"
    using assms(3) by (simp add: WATCHDOG_GRACE_MS_def VALIDATOR_STALL_SECS_def)
  ultimately show ?thesis using watch_wedged [of h hb "started + WATCHDOG_GRACE_MS" n] assms(1,2)
    unfolding watchdog_def by blast
qed

end
