(* ===== verification/Spec2Isabelle.thy ===== *)
theory Spec2Isabelle
  imports Stratum_Properties Ledger_Properties Rewards_Properties Difficulty_Properties Lag
  Block_Assembler Coinbase_Properties Jobs_Properties Share_Blocks Payout_Properties
  Zebra_Metrics Admin_Guards Admin_Operations Network_Properties Web_Properties
begin

text \<open>
  A Zcash mining pool (Rust, crates under \<open>src/crates\<close>): miners connect over stratum, shares of work
  are validated and recorded in a SQLite database, solved blocks are submitted to a node, their
  rewards are credited to the miners, and a second process pays the credits out through a wallet
  and serves the web pages.

  The parts and how they interact.
  The process \<open>pool-server\<close> runs the stratum server (\<open>stratum\<close>), the job manager (\<open>pool-core/job.rs\<close>),
  which polls the node for templates and broadcasts jobs, and one share validator
  (\<open>pool-core/share.rs\<close>), which consumes the events of all connections, keeps each session's
  difficulty, and on a won block submits it (\<open>block.rs\<close>), writes the block row and starts the
  distribution (\<open>rewards\<close>).  The process \<open>pool-dashboard\<close> runs the payout loop (\<open>main.rs\<close>), the
  reconciler (\<open>reconciler.rs\<close>), and the public and the admin web servers (\<open>pool-api\<close>).  The two
  processes share only the database (\<open>pool-db\<close>); the table \<open>pool_status\<close> carries the counters of the
  first to the second.

  Where each part is modelled.
  \<open>Pool_Prelude\<close>, \<open>Histories\<close>: words, results as sums, lemma collections; the interface of bounded
  buffers (locale \<open>bounded_history\<close>, interpreted for the lag samples, grace targets, difficulty
  adjustments and share fingerprints).
  \<open>F64\<close>: Rust's \<open>f64\<close>, every operation rounded to 53 bits.  \<open>Json\<close>, \<open>Bytes_Hex\<close>, \<open>Web_Text\<close>: values of
  \<open>serde_json\<close>, bytes and hex text, the functions on \<open>str\<close>.
  \<open>Stratum_Messages\<close>, \<open>Stratum_Codec\<close>, \<open>Stratum_Session\<close>, \<open>Stratum_Server\<close>, with
  \<open>Stratum_Properties\<close>: \<open>messages.rs\<close>, \<open>codec.rs\<close>, \<open>session.rs\<close>, \<open>server.rs\<close>.
  \<open>Node_Rpc\<close>, \<open>Block_Assembler\<close>: \<open>node-rpc\<close>, \<open>pool-core/block.rs\<close>.
  \<open>Coinbase\<close>, \<open>Jobs\<close>, \<open>Lag\<close>, with \<open>Coinbase_Properties\<close>, \<open>Jobs_Properties\<close>: \<open>coinbase.rs\<close>, \<open>job.rs\<close>,
  \<open>lag.rs\<close>.
  \<open>Vardiff\<close>, \<open>Targets\<close>, with \<open>Difficulty_Properties\<close>: \<open>difficulty.rs\<close> and the target functions of
  \<open>share.rs\<close>.
  \<open>Share_Checks\<close>, \<open>Share_Sessions\<close>, \<open>Share_Validator\<close>, with \<open>Share_Memory\<close>, \<open>Share_Effects\<close>,
  \<open>Share_Properties\<close>, \<open>Share_Blocks\<close>: \<open>share.rs\<close>, from the state of a session to the event loop \<open>run\<close>.
  \<open>Db_Core\<close>, \<open>Db_Queries\<close>, \<open>Db_Ledger\<close>: the tables of the migrations and all of \<open>queries.rs\<close>.
  \<open>Ledger_Books\<close>, \<open>Ledger_Saga\<close>, \<open>Ledger_Credits\<close>, \<open>Ledger_Orphan\<close>, \<open>Ledger_Runs\<close>, \<open>Ledger_Effects\<close>,
  \<open>Ledger_Properties\<close>: what the money operations keep and do.
  \<open>Rewards\<close>, \<open>Rewards_Properties\<close>: \<open>rewards/pplns.rs\<close>.
  \<open>Payer\<close>, \<open>Payout_Round\<close>, \<open>Payout_Loop\<close>: the payout part of \<open>pool-dashboard/main.rs\<close>; \<open>Reconciler\<close>:
  \<open>reconciler.rs\<close>.  \<open>Payout_Client\<close> states what both use of the ledger as the locales
  \<open>ledger_client\<close> and \<open>cycle_client\<close>; \<open>Payout_Books\<close>, \<open>Payout_Parked\<close> and \<open>Payout_Linked\<close> interpret them
  (for the books, the abstract purse machine, an attempt of unknown fate, referential integrity);
  \<open>Payout_Turns\<close>, \<open>Payout_Sends\<close>, \<open>Payout_Release\<close>, \<open>Payout_Timing\<close>, \<open>Payout_Properties\<close> use them.
  \<open>Zebra_Metrics\<close>: \<open>zebra_metrics.rs\<close>, \<open>lwd_tip.rs\<close>.  \<open>Admin_Access\<close>, \<open>Admin_Guards\<close>,
  \<open>Admin_Operations\<close>: \<open>admin.rs\<close>.  \<open>Network_Blocks\<close>, \<open>Network_Properties\<close>: \<open>network.rs\<close>.  \<open>Web_Handlers\<close>,
  \<open>Miner_Diagnostics\<close>: \<open>handlers.rs\<close>, \<open>diagnostics.rs\<close>, \<open>sessions.rs\<close>, \<open>routes.rs\<close>.  \<open>Pool_Start\<close>: what the
  two \<open>main.rs\<close> compute at the start and their small background tasks.  \<open>Web_Properties\<close> is about the
  last three.

  State and operations.
  A struct is a record with a field prefix of its own, an enum a datatype, an operation a function
  from the old state to a result and the new state under the name it has in the source.  A
  database method is the sequence of its SQL statements, a function from the tables to a result
  and tables; \<open>txn\<close> is \<open>BEGIN IMMEDIATE .. COMMIT\<close> with rollback.  The field \<open>db_faults\<close> is a schedule
  of statement failures, so that a theorem about all databases covers every pattern of failures.
  Errors are the left side of a sum, a panic an outcome of its own.  A \<open>HashMap\<close> is an association
  list; where its order shows, the order is a parameter.

  Parameters: code that is not in the repository.
  \<open>hexlib\<close> (crate \<open>hex\<close>), \<open>hashes\<close> and \<open>zebra\<close> (SHA-256, BLAKE2b, \<open>zebra_chain\<close> for v6 coinbases), the
  HTTP transport and the decoders of \<open>serde\<close> in \<open>Node_Rpc\<close>, \<open>share_env\<close> (Equihash, \<open>DefaultHasher\<close>, RPC),
  \<open>payout_env\<close> (wallet and node, TOML, base58, the clock), \<open>sql_agg\<close> (floating-point aggregates of
  SQLite), \<open>admin_hash\<close> (key derivation and MAC), \<open>node_view\<close>, \<open>web_view\<close> and \<open>app_view\<close> (what a handler
  reads of node, wallet and clock), \<open>hash_order\<close> (the order of maps and of concurrent requests).  What
  a theorem needs of them is a hypothesis in its statement, and its witness instantiates them.

  Assumptions of the model.
  Text that the code treats as bytes is ASCII.  The validator reads the clock once per event, and
  a web handler once per request (the cache
  of the network page, which reads it again when it stores, apart); the job manager reads it as often as the code does.  Database
  statements take no time on the payout clock, while an RPC call or a sleep takes as long as the
  outside world says.  The turns of the payout loop and of the reconciler alternate in any order,
  each turn being atomic; requests to the admin server are served one after the other.  Amounts,
  ids and counts are unbounded integers where the code's values stay far below \<open>2 ^ 63\<close> (the supply
  is below \<open>2 ^ 51\<close> zatoshis; numbers of recipients and of unspent outputs are far smaller), and words
  where wrap-around matters.

  What the lemmas show.
  Stratum: draining a buffer yields the messages that were sent; no address has more than five
  connections and every share comes from an announced worker, in every reachable state.
  Shares: an accepted share is work at the credited difficulty, a refused one writes nothing, a
  replay is refused while its session remembers it, every submission is answered, a won block is
  recorded or left for the sweep, which settles it by the answer of the node.
  Jobs: the announced job is always known, a new tip is announced clean, the tag only extends the
  script of the coinbase, the tree root is that of a perfect tree.  Difficulty: steps are bounded
  and the announced target is exact.
  Money: no run of operations with any failures makes a balance negative or creates money; the
  split of a block is complete and fair to within the rounding; credits, clawbacks and payouts
  balance; the saga of a payout can always be completed or undone.  Payouts: whatever wallet, node
  and database answer, rounds and sweeps refine a purse machine, send what was reserved, keep an
  unanswered send reserved, release only on evidence, and end.
  Web: public requests move no money; a guarded page needs a login of the last day; guesses are
  bounded; the rows of the network page partition the blocks; the counters of the pool reach the
  dashboard; reading metrics in chunks equals reading the page.
  Several theorems record behaviour that the code hardly intends: what re-authorizing, padded
  times, a failed tag injection, an unknown transaction id, a stranger's tag or an early exit do.

  Bounds and fuel.
  Loops over lists recurse on the list.  Waiting for a wallet operation and for the inclusion of a
  block recurse on the number of attempts that the code itself allows; the doubling loop of the
  Merkle tree has a measure.  The event loops that run for ever (\<open>run\<close> of the validator, of the job
  manager, of the payout loop, of the reconciler, of the status task and of the watchdog) are
  modelled turn by turn, and their theorems hold for every sequence of turns.

  What is not modelled.
  Starting, joining and stopping tasks, reading the configuration file, logging and command lines
  (the rest of the two \<open>main.rs\<close>); connecting to the database and running migrations; TCP, TLS,
  HTTP and gRPC themselves; the HTML and script texts of the pages and the previews
  (\<open>previews*.rs\<close>); the shell commands of the admin page (restarts, wallet repair, log tails), system
  statistics and the ops proxy; the CPU miner, a test client.
\<close>

end
